(* ===== verification/Prelude.thy ===== *)
theory Prelude
  imports Main "HOL-Library.Word" "HOL-Library.List_Lexorder" "HOL-Library.Char_ord" "HOL-Library.Product_Lexorder"
begin

text \<open>
  Shared ground of the development: the types every component uses, the reading of one
  SQL statement as a function on a table, and the lemmas on lists, sums and tables that
  the component proofs rest on.

  A table is the list of its rows in rowid order.  \<open>SELECT ... WHERE p\<close> with
  \<open>fetch_optional\<close> is \<^const>\<open>List.find\<close>, with \<open>fetch_all\<close> it is
  \<^const>\<open>filter\<close>; \<open>ORDER BY\<close> is the stable \<open>sort_key\<close>; \<open>INSERT\<close> appends, and
  a primary key that is taken makes it fail; \<open>UPDATE\<close> and \<open>DELETE\<close> are
  \<open>update_where\<close> and \<open>delete_where\<close>.

  A transactional operation returns a sum: \<open>Inl e\<close> is an early return, which drops the
  transaction, so the caller keeps the database it had; \<open>Inr\<close> carries the committed
  database with the result.  Times are integers that count nanoseconds.
\<close>

named_theorems table_simps \<open>how the table operations act on keys, membership and look-up\<close>
named_theorems row_frames \<open>fields an update of a row leaves alone\<close>

section \<open>Types\<close>

type_synonym id = string
type_synonym byte = "8 word"
type_synonym bytes = "byte list"
type_synonym time = int

abbreviation nanos_per_sec :: int where
  "nanos_per_sec \<equiv> 1000000000"

text \<open>\<open>CURRENT_TIMESTAMP\<close> has whole seconds; \<open>Utc::now()\<close> has nanoseconds.\<close>

definition current_timestamp :: "time \<Rightarrow> time" where
  "current_timestamp now = now - now mod nanos_per_sec"

text \<open>\<open>chrono::Duration::num_seconds\<close> truncates towards zero.\<close>

definition num_seconds :: "time \<Rightarrow> int" where
  "num_seconds d = (if 0 \<le> d then d div nanos_per_sec else - ((- d) div nanos_per_sec))"

text \<open>
  \<open>datetime('now', '-' || d || ' days')\<close>.  For a negative \<open>d\<close> the modifier reads
  \<open>--5 days\<close>, which SQLite does not accept: the value is NULL.
\<close>

definition datetime_days_ago :: "time \<Rightarrow> int \<Rightarrow> time option" where
  "datetime_days_ago now d =
     (if d < 0 then None else Some (current_timestamp now - d * 86400 * nanos_per_sec))"

text \<open>A comparison with NULL is NULL, which a \<open>WHERE\<close> clause takes as false.\<close>

definition sql_less :: "'a::ord \<Rightarrow> 'a option \<Rightarrow> bool" where
  "sql_less x y = (case y of None \<Rightarrow> False | Some v \<Rightarrow> x < v)"

definition sql_le :: "'a::ord \<Rightarrow> 'a option \<Rightarrow> bool" where
  "sql_le x y = (case y of None \<Rightarrow> False | Some v \<Rightarrow> x \<le> v)"

lemma sql_less_simps [simp]: "sql_less x None = False" "sql_less x (Some v) = (x < v)"
  by (simp_all add: sql_less_def)

lemma sql_le_simps [simp]: "sql_le x None = False" "sql_le x (Some v) = (x \<le> v)"
  by (simp_all add: sql_le_def)

text \<open>
  The SQLite driver of \<open>sqlx\<close> does not test for NULL: a column that is read into a \<open>String\<close> or
  \<open>Vec<u8>\<close> rather than an \<open>Option\<close> decodes NULL as the empty value.
\<close>

definition null_text :: "'a list option \<Rightarrow> 'a list" where
  "null_text x = (case x of None \<Rightarrow> [] | Some s \<Rightarrow> s)"

lemma null_text_simps [simp]: "null_text None = []" "null_text (Some s) = s"
  by (simp_all add: null_text_def)

text \<open>JSON values of published events; times are rendered by the encoder.\<close>

datatype json =
    JNull
  | JBool bool
  | JInt int
  | JTime time
  | JString string
  | JArray "json list"
  | JObject "(string \<times> json) list"

definition json_opt :: "string option \<Rightarrow> json" where
  "json_opt x = (case x of None \<Rightarrow> JNull | Some s \<Rightarrow> JString s)"

text \<open>One call of \<open>Publisher::publish\<close>: channel, event name, payload.\<close>

datatype event = Event (ev_channel: string) (ev_name: string) (ev_payload: json)

section \<open>Tables\<close>

definition update_where :: "('r \<Rightarrow> bool) \<Rightarrow> ('r \<Rightarrow> 'r) \<Rightarrow> 'r list \<Rightarrow> 'r list" where
  "update_where p f t = map (\<lambda>r. if p r then f r else r) t"

definition delete_where :: "('r \<Rightarrow> bool) \<Rightarrow> 'r list \<Rightarrow> 'r list" where
  "delete_where p t = filter (\<lambda>r. \<not> p r) t"

definition count_where :: "('r \<Rightarrow> bool) \<Rightarrow> 'r list \<Rightarrow> int" where
  "count_where p t = int (length (filter p t))"

definition exists_where :: "('r \<Rightarrow> bool) \<Rightarrow> 'r list \<Rightarrow> bool" where
  "exists_where p t = list_ex p t"

definition insert_row :: "('r \<Rightarrow> 'k) \<Rightarrow> 'r \<Rightarrow> 'r list \<Rightarrow> 'r list option" where
  "insert_row key r t = (if key r \<in> set (map key t) then None else Some (t @ [r]))"

lemma exists_where_iff [simp]: "exists_where p t \<longleftrightarrow> (\<exists>r \<in> set t. p r)"
  by (simp add: exists_where_def list_ex_iff)

lemma set_update_where [table_simps]:
  "set (update_where p f t) = {r. r \<in> set t \<and> \<not> p r} \<union> f ` {r. r \<in> set t \<and> p r}"
  by (auto simp: update_where_def)

lemma bex_update_where [table_simps]:
  "(\<exists>r \<in> set (update_where p f t). q r) \<longleftrightarrow> (\<exists>r \<in> set t. q (if p r then f r else r))"
  by (auto simp: update_where_def)

lemma ball_update_where [table_simps]:
  "(\<forall>r \<in> set (update_where p f t). q r) \<longleftrightarrow> (\<forall>r \<in> set t. q (if p r then f r else r))"
  by (auto simp: update_where_def)

lemma set_delete_where [simp]: "set (delete_where p t) = {r \<in> set t. \<not> p r}"
  by (auto simp: delete_where_def)

lemma update_where_Nil [simp]: "update_where p f [] = []"
  by (simp add: update_where_def)

lemma update_where_Cons [simp]:
  "update_where p f (r # t) = (if p r then f r else r) # update_where p f t"
  by (simp add: update_where_def)

lemma update_where_append [simp]:
  "update_where p f (t @ u) = update_where p f t @ update_where p f u"
  by (simp add: update_where_def)

lemma delete_where_Nil [simp]: "delete_where p [] = []"
  by (simp add: delete_where_def)

lemma delete_where_Cons [simp]:
  "delete_where p (r # t) = (if p r then delete_where p t else r # delete_where p t)"
  by (simp add: delete_where_def)

lemma length_update_where [simp]: "length (update_where p f t) = length t"
  by (simp add: update_where_def)

text \<open>An update that keeps a projection of every row keeps its list of values.\<close>

lemma map_update_where [table_simps]:
  assumes "\<And>r. g (f r) = g r"
  shows "map g (update_where p f t) = map g t"
  using assms by (simp add: update_where_def comp_def if_distrib cong: if_cong)

lemma update_where_id [simp]:
  assumes "\<And>r. r \<in> set t \<Longrightarrow> \<not> p r"
  shows "update_where p f t = t"
  using assms by (induction t) auto

lemma filter_update_where_frame [table_simps]:
  assumes "\<And>r. q (f r) = q r" and "\<And>r. q r \<Longrightarrow> \<not> p r"
  shows "filter q (update_where p f t) = filter q t"
  using assms by (induction t) auto

lemma distinct_map_delete_where [table_simps]:
  "distinct (map g t) \<Longrightarrow> distinct (map g (delete_where p t))"
  by (simp add: delete_where_def distinct_map_filter)

text \<open>A deletion forgets an earlier update of the rows it deletes.\<close>

lemma delete_where_update_where [table_simps]:
  "(\<And>r. p (f r) = p r) \<Longrightarrow> delete_where p (update_where p f t) = delete_where p t"
  by (induction t) auto

lemma count_where_nonneg [simp]: "0 \<le> count_where p t"
  by (simp add: count_where_def)

lemma count_where_Nil [simp]: "count_where p [] = 0"
  by (simp add: count_where_def)

lemma count_where_Cons [simp]:
  "count_where p (r # t) = (if p r then 1 else 0) + count_where p t"
  by (simp add: count_where_def)

lemma count_where_append [simp]: "count_where p (t @ u) = count_where p t + count_where p u"
  by (simp add: count_where_def)

lemma count_where_zero_iff: "count_where p t = 0 \<longleftrightarrow> (\<forall>r \<in> set t. \<not> p r)"
  by (auto simp: count_where_def filter_empty_conv)

lemma insert_row_Some_iff:
  "insert_row key r t = Some t' \<longleftrightarrow> key r \<notin> key ` set t \<and> t' = t @ [r]"
  by (auto simp: insert_row_def)

lemma insert_row_None_iff: "insert_row key r t = None \<longleftrightarrow> key r \<in> key ` set t"
  by (simp add: insert_row_def)

text \<open>
  \<open>ORDER BY key DESC LIMIT 1\<close> and \<open>ORDER BY key ASC LIMIT 1\<close>: the first row that no other
  row beats.
\<close>

definition max_row :: "('r \<Rightarrow> 'k::linorder) \<Rightarrow> 'r list \<Rightarrow> 'r option" where
  "max_row key t =
     fold (\<lambda>r best. case best of None \<Rightarrow> Some r | Some b \<Rightarrow> if key b < key r then Some r else best)
       t None"

definition min_row :: "('r \<Rightarrow> 'k::linorder) \<Rightarrow> 'r list \<Rightarrow> 'r option" where
  "min_row key t =
     fold (\<lambda>r best. case best of None \<Rightarrow> Some r | Some b \<Rightarrow> if key r < key b then Some r else best)
       t None"

lemma max_row_snoc:
  "max_row key (t @ [r]) =
     (case max_row key t of None \<Rightarrow> Some r | Some b \<Rightarrow> if key b < key r then Some r else Some b)"
  by (simp add: max_row_def split: option.splits)

lemma min_row_snoc:
  "min_row key (t @ [r]) =
     (case min_row key t of None \<Rightarrow> Some r | Some b \<Rightarrow> if key r < key b then Some r else Some b)"
  by (simp add: min_row_def split: option.splits)

lemma max_row_Nil [simp]: "max_row key [] = None" and min_row_Nil [simp]: "min_row key [] = None"
  by (simp_all add: max_row_def min_row_def)

lemma max_row_None_iff [simp]: "max_row key t = None \<longleftrightarrow> t = []"
  by (induction t rule: rev_induct) (auto simp: max_row_snoc split: option.splits)

lemma min_row_None_iff [simp]: "min_row key t = None \<longleftrightarrow> t = []"
  by (induction t rule: rev_induct) (auto simp: min_row_snoc split: option.splits)

lemma max_row_SomeD: "max_row key t = Some b \<Longrightarrow> b \<in> set t \<and> (\<forall>r \<in> set t. key r \<le> key b)"
  by (induction t arbitrary: b rule: rev_induct)
    (fastforce simp: max_row_snoc split: option.splits if_splits)+

lemma min_row_SomeD: "min_row key t = Some b \<Longrightarrow> b \<in> set t \<and> (\<forall>r \<in> set t. key b \<le> key r)"
  by (induction t arbitrary: b rule: rev_induct)
    (fastforce simp: min_row_snoc split: option.splits if_splits)+

lemma max_row_append_top:
  assumes "\<And>x. x \<in> set t \<Longrightarrow> key x < key r"
  shows "max_row key (t @ [r]) = Some r"
  using assms max_row_SomeD[of key t] by (auto simp: max_row_snoc split: option.splits)

lemma insert_row_distinct:
  assumes "insert_row key r t = Some t'" and "distinct (map key t)"
  shows "distinct (map key t')"
  using assms by (auto simp: insert_row_Some_iff)

section \<open>Look-up\<close>

lemma find_append:
  "List.find p (t @ u) = (case List.find p t of None \<Rightarrow> List.find p u | Some r \<Rightarrow> Some r)"
  by (induction t) auto

lemma find_SomeD: "List.find p t = Some r \<Longrightarrow> r \<in> set t \<and> p r"
  by (induction t) (auto split: if_splits)

lemma find_NoneD: "List.find p t = None \<Longrightarrow> r \<in> set t \<Longrightarrow> \<not> p r"
  by (induction t) (auto split: if_splits)

lemma find_None_iff_all: "List.find p t = None \<longleftrightarrow> (\<forall>r \<in> set t. \<not> p r)"
  by (induction t) auto

lemma find_key_eq:
  assumes "distinct (map key t)" and "r \<in> set t" and "key r = k"
  shows "List.find (\<lambda>x. key x = k) t = Some r"
  using assms by (induction t) auto

lemma find_unique:
  assumes "r \<in> set t" and "p r" and "\<And>x. x \<in> set t \<Longrightarrow> p x \<Longrightarrow> x = r"
  shows "List.find p t = Some r"
proof -
  have "List.find p t \<noteq> None" using assms(1,2) by (auto simp: find_None_iff_all)
  then obtain x where x: "List.find p t = Some x" by blast
  then have "x = r" using assms(3) find_SomeD by metis
  with x show ?thesis by simp
qed

lemma find_delete_where_frame [table_simps]:
  assumes "\<And>r. q r \<Longrightarrow> \<not> p r"
  shows "List.find q (delete_where p t) = List.find q t"
  using assms by (induction t) auto

lemma find_delete_where_gone [table_simps]:
  assumes "\<And>r. q r \<Longrightarrow> p r"
  shows "List.find q (delete_where p t) = None"
  using assms by (induction t) auto

lemma find_update_where_frame [table_simps]:
  assumes "\<And>r. q (f r) = q r" and "\<And>r. q r \<Longrightarrow> \<not> p r"
  shows "List.find q (update_where p f t) = List.find q t"
  using assms by (induction t) auto

lemma find_update_where:
  assumes "\<And>r. q (f r) = q r"
  shows "List.find q (update_where p f t) =
           map_option (\<lambda>r. if p r then f r else r) (List.find q t)"
  using assms by (induction t) auto

section \<open>Sums and sorting\<close>

lemma sum_InlE: "x = Inl e \<Longrightarrow> (\<And>y. x \<noteq> Inr y)"
  by auto

lemma not_isl_pair: "\<not> isl x \<Longrightarrow> \<exists>a b. x = Inr (a, b)"
  by (cases x) auto

lemma case_sum_eq_Inr:
  "(case x of Inl e \<Rightarrow> Inl (f e) | Inr y \<Rightarrow> g y) = Inr z \<longleftrightarrow> (\<exists>y. x = Inr y \<and> g y = Inr z)"
  by (auto split: sum.splits)

lemma set_sort_key [simp]: "set (sort_key f t) = set t"
  by (fact set_sort)

lemma sorted_map_sort_key [simp]: "sorted (map f (sort_key f t))"
  by simp

lemma sorted_map_filter: "sorted (map f t) \<Longrightarrow> sorted (map f (filter p t))"
  by (induction t) auto

lemma sorted_map_take: "sorted (map f t) \<Longrightarrow> sorted (map f (take n t))"
  by (metis sorted_wrt_take take_map)

section \<open>Runs\<close>

text \<open>Finite runs of a labelled step relation, with the labels of their steps in order.\<close>

inductive run :: "('s \<Rightarrow> 'l \<Rightarrow> 's \<Rightarrow> bool) \<Rightarrow> 's \<Rightarrow> 'l list \<Rightarrow> 's \<Rightarrow> bool" for step where
  run_stop: "run step s [] s"
| run_step: "step s l t \<Longrightarrow> run step t ls s' \<Longrightarrow> run step s (l # ls) s'"

inductive_cases run_ConsE [elim]: "run step s (l # ls) s'"
inductive_cases run_NilE [elim]: "run step s [] s'"

end
