(* ===== verification/Schema.thy ===== *)
theory Schema
  imports Prelude
begin

text \<open>
  The tables of \<open>server/migrations/0001_v2_schema.sql\<close> that the modelled operations read
  or write, one record per row type and one field of the record \<open>db\<close> per table, and the
  queries that several components share.  The field names carry a prefix per table; the
  columns no modelled query reads are left out.

  SQLite runs with \<open>foreign_keys = ON\<close> (\<open>server/src/db.rs\<close>), so an insert whose parent
  row is missing fails, and \<open>DELETE FROM rooms\<close> removes the rows of every table that
  references the room with \<open>ON DELETE CASCADE\<close>; \<open>delete_room_cascade\<close> does so for the
  tables of \<open>db\<close>.
\<close>

section \<open>Rows\<close>

record user_row =
  u_id :: id
  u_username_token :: string
  u_encrypted_display :: "string option"
  u_disabled_at :: "time option"
  u_deleted_at :: "time option"

record device_row =
  d_id :: id
  d_user_id :: id
  d_client_id :: id
  d_platform :: string
  d_last_seen :: "time option"
  d_created_at :: time

record room_row =
  r_id :: id
  r_owner_id :: id
  r_metadata :: "string option"
  r_metadata_version :: int
  r_retention_days :: "int option"
  r_max_file_size_bytes :: "int option"
  r_moderation_override :: "string option"
  r_created_at :: time

record member_row =
  m_room_id :: id
  m_user_id :: id
  m_role :: string
  m_joined_via :: "string option"
  m_joined_at :: time

record epoch_row =
  e_room_id :: id
  e_epoch :: int
  e_sequence :: int
  e_transcript_hash :: "bytes option"
  e_updated_at :: time

record message_row =
  g_id :: id
  g_room_id :: id
  g_sender_user_id :: "id option"
  g_sender_bot_id :: "id option"
  g_sender_client_id :: id
  g_bot_key_leaf_index :: "int option"
  g_epoch :: int
  g_seq :: int
  g_content_type :: string
  g_ciphertext :: bytes
  g_reply_to :: "id option"
  g_target_user_ids :: "string option"
  g_edit_of :: "id option"
  g_edit_sequence :: int
  g_edited_at :: "time option"
  g_deleted_at :: "time option"
  g_created_at :: time

record key_package_row =
  k_id :: id
  k_user_id :: "id option"
  k_bot_id :: "id option"
  k_client_id :: id
  k_cipher_suite :: int
  k_key_package :: bytes
  k_is_last_resort :: bool
  k_consumed :: bool
  k_consumed_at :: "time option"
  k_created_at :: time

record welcome_row =
  w_id :: id
  w_room_id :: id
  w_recipient_user_id :: id
  w_recipient_client_id :: id
  w_welcome_data :: bytes
  w_consumed :: bool
  w_created_at :: time

record pending_remove_row =
  pr_id :: id
  pr_room_id :: id
  pr_target_user_id :: "id option"
  pr_target_bot_id :: "id option"
  pr_queued_at :: time
  pr_stale_at :: "time option"
  pr_consumed_at :: "time option"
  pr_cancelled_at :: "time option"
  pr_remove_confirmed_at :: "time option"

record pending_add_row =
  pa_id :: id
  pa_room_id :: id
  pa_target_user_id :: "id option"
  pa_target_bot_id :: "id option"
  pa_target_client_id :: id
  pa_key_package_id :: id
  pa_queued_at :: time
  pa_consumed_at :: "time option"

record attachment_row =
  at_id :: id
  at_room_id :: "id option"
  at_created_at :: time

record bot_account_row =
  b_id :: id
  b_display_name :: string
  b_avatar_file_id :: "id option"
  b_bot_identity_pubkey :: string
  b_bot_command_pubkey :: string
  b_identity_pubkey :: string
  b_owner_user_id :: id
  b_declarations :: "string option"
  b_created_at :: time
  b_disabled_at :: "time option"
  b_deleted_at :: "time option"

record room_bot_row =
  rb_room_id :: id
  rb_bot_id :: id
  rb_mode :: string
  rb_granted_by :: id
  rb_granted_at :: time
  rb_revoked_at :: "time option"

record room_session_row =
  rs_id :: id
  rs_room_id :: id
  rs_extension_id :: string
  rs_session_type :: string
  rs_created_by :: id
  rs_metadata :: "string option"
  rs_metadata_version :: int
  rs_position :: int
  rs_max_participants :: "int option"
  rs_created_at :: time
  rs_updated_at :: time

record user_seq_row =
  us_user_id :: id
  us_next_seq :: int

record read_state_row =
  rd_user_id :: id
  rd_room_id :: id
  rd_last_read_message_id :: "id option"
  rd_user_seq :: int
  rd_updated_at :: time
  rd_deleted_at :: "time option"

record preference_row =
  pf_user_id :: id
  pf_key :: string
  pf_value_encrypted :: string
  pf_user_seq :: int
  pf_updated_at :: time

record room_order_row =
  ro_user_id :: id
  ro_room_id :: id
  ro_position :: int
  ro_user_seq :: int
  ro_updated_at :: time

record device_name_row =
  dn_user_id :: id
  dn_device_id :: id
  dn_encrypted_device_name :: string
  dn_user_seq :: int
  dn_updated_at :: time
  dn_deleted_at :: "time option"

record starred_row =
  st_user_id :: id
  st_item_id :: id
  st_item_type :: string
  st_room_id :: id
  st_user_seq :: int
  st_starred_at :: time
  st_deleted_at :: "time option"

record bot_setting_row =
  bs_bot_id :: id
  bs_key :: string
  bs_is_secret :: bool
  bs_value_encrypted_client :: "string option"
  bs_value_encrypted_bot :: string
  bs_user_seq :: int
  bs_updated_at :: time

record kt_row =
  kt_leaf_index :: int
  kt_user_id :: "id option"
  kt_bot_id :: "id option"
  kt_username_token :: "bytes option"
  kt_bot_identity_pubkey :: "bytes option"
  kt_identity_pubkey :: "bytes option"
  kt_command_pubkey :: "bytes option"
  kt_leaf_hash :: "bytes option"
  kt_added_at :: time

record snapshot_row =
  sn_id :: id
  sn_tree_size :: int
  sn_root_hash :: bytes
  sn_signature :: "bytes option"
  sn_created_at :: time

record audit_row =
  au_id :: id
  au_actor_id :: "id option"
  au_action :: string
  au_target_type :: "string option"
  au_target_id :: "id option"
  au_metadata :: "json option"
  au_created_at :: time

record limit_row =
  li_key :: string
  li_value :: string
  li_updated_at :: time
  li_updated_by :: "id option"

record rate_limit_row =
  rt_key :: string
  rt_window_start :: int
  rt_count :: int

record role_row =
  rl_id :: id
  rl_name :: string
  rl_level :: int
  rl_permissions :: string

record user_role_row =
  ur_user_id :: id
  ur_role_id :: id
  ur_granted_at :: time
  ur_granted_by :: "id option"

record reaction_row =
  rx_id :: id
  rx_room_id :: id
  rx_message_id :: id
  rx_sender_user_id :: id
  rx_sender_client_id :: id
  rx_reaction :: string
  rx_created_at :: time
  rx_deleted_at :: "time option"

record server_invite_row =
  si_id :: id
  si_code :: string
  si_created_by :: "id option"
  si_max_uses :: int
  si_current_uses :: int
  si_expires_at :: "time option"
  si_revoked_at :: "time option"
  si_created_at :: time

record room_invite_row =
  ri_id :: id
  ri_room_id :: id
  ri_code :: string
  ri_created_by :: id
  ri_max_uses :: int
  ri_current_uses :: int
  ri_expires_at :: "time option"
  ri_revoked_at :: "time option"
  ri_created_at :: time

record session_row =
  se_id :: id
  se_user_id :: id
  se_device_id :: "id option"
  se_token_hash :: string
  se_created_at :: time
  se_expires_at :: time
  se_revoked_at :: "time option"
  se_last_seen_at :: "time option"

record recovery_code_row =
  rc_id :: id
  rc_user_id :: id
  rc_code_hash :: bytes
  rc_code_salt :: bytes
  rc_consumed_at :: "time option"
  rc_created_at :: time

record push_subscription_row =
  ps_id :: id
  ps_user_id :: id
  ps_device_id :: "id option"
  ps_revoked_at :: "time option"

record bot_operator_row =
  bo_bot_id :: id
  bo_user_id :: id
  bo_bound_at :: time
  bo_bound_by :: "id option"
  bo_binding :: string

record operator_queue_row =
  oq_id :: id
  oq_bot_id :: id
  oq_room_id :: "id option"
  oq_audience :: string
  oq_requester_user_id :: "id option"
  oq_payload :: string
  oq_payload_preview :: string
  oq_status :: string
  oq_queued_at :: time
  oq_timeout_at :: "time option"
  oq_on_timeout :: string
  oq_canned_response :: "string option"
  oq_answered_at :: "time option"
  oq_responded_by :: "id option"
  oq_response :: "string option"
  oq_routing :: "string option"

record bot_seq_row =
  bq_bot_id :: id
  bq_next_seq :: int

record bot_event_row =
  be_bot_id :: id
  be_bot_seq :: int
  be_event_type :: string
  be_payload :: json
  be_created_at :: time

record bot_request_row =
  bl_bot_id :: id
  bl_request_id :: string
  bl_endpoint :: string
  bl_response_code :: int
  bl_created_at :: time

record room_bot_scope_row =
  sc_room_id :: id
  sc_bot_id :: id
  sc_scope :: string

record bot_token_row =
  bt_id :: id
  bt_bot_id :: id
  bt_token_hash :: string
  bt_created_at :: time
  bt_expires_at :: "time option"
  bt_revoked_at :: "time option"
  bt_last_used_at :: "time option"

record declared_scope_row =
  dc_bot_id :: id
  dc_scope :: string

record bot_command_row =
  bc_id :: id
  bc_bot_id :: id
  bc_room_id :: id
  bc_sender_user_id :: id
  bc_sender_client_id :: id
  bc_ciphertext :: bytes
  bc_ephemeral_result_pubkey :: bytes
  bc_created_at :: time
  bc_delivered_at :: "time option"
  bc_acked_at :: "time option"
  bc_expired_at :: "time option"
  bc_result_at :: "time option"
  bc_result_type :: "string option"

record publisher_key_row =
  pk_room_id :: id
  pk_epoch :: int
  pk_publisher_public_key :: bytes
  pk_signer_user_id :: id
  pk_signature :: bytes
  pk_published_at :: time

section \<open>The database\<close>

record db =
  users :: "user_row list"
  devices :: "device_row list"
  rooms :: "room_row list"
  room_members :: "member_row list"
  room_epochs :: "epoch_row list"
  room_messages :: "message_row list"
  key_packages :: "key_package_row list"
  welcomes :: "welcome_row list"
  pending_mls_removes :: "pending_remove_row list"
  pending_mls_adds :: "pending_add_row list"
  attachments :: "attachment_row list"
  bot_accounts :: "bot_account_row list"
  room_bots :: "room_bot_row list"
  room_sessions :: "room_session_row list"
  user_seqs :: "user_seq_row list"
  read_states :: "read_state_row list"
  user_preferences :: "preference_row list"
  user_room_order :: "room_order_row list"
  device_names :: "device_name_row list"
  starred_items :: "starred_row list"
  bot_settings :: "bot_setting_row list"
  key_transparency_log :: "kt_row list"
  key_transparency_snapshots :: "snapshot_row list"
  audit_log :: "audit_row list"
  instance_limits :: "limit_row list"
  rate_limits :: "rate_limit_row list"
  roles :: "role_row list"
  user_roles :: "user_role_row list"
  reactions :: "reaction_row list"
  server_invites :: "server_invite_row list"
  room_invites :: "room_invite_row list"
  sessions :: "session_row list"
  recovery_codes :: "recovery_code_row list"
  push_subscriptions :: "push_subscription_row list"
  bot_operators :: "bot_operator_row list"
  bot_operator_queue :: "operator_queue_row list"
  bot_seq :: "bot_seq_row list"
  bot_event_log :: "bot_event_row list"
  bot_request_log :: "bot_request_row list"
  room_bot_scopes :: "room_bot_scope_row list"
  bot_tokens :: "bot_token_row list"
  bot_declared_scopes :: "declared_scope_row list"
  bot_commands :: "bot_command_row list"
  room_publisher_keys :: "publisher_key_row list"

definition empty_db :: db where
  "empty_db = \<lparr>users = [], devices = [], rooms = [], room_members = [], room_epochs = [],
     room_messages = [], key_packages = [], welcomes = [], pending_mls_removes = [],
     pending_mls_adds = [], attachments = [], bot_accounts = [], room_bots = [],
     room_sessions = [], user_seqs = [], read_states = [], user_preferences = [],
     user_room_order = [], device_names = [], starred_items = [], bot_settings = [],
     key_transparency_log = [], key_transparency_snapshots = [],
     audit_log = [], instance_limits = [], rate_limits = [], roles = [], user_roles = [],
     reactions = [], server_invites = [], room_invites = [], sessions = [],
     recovery_codes = [], push_subscriptions = [], bot_operators = [], bot_operator_queue = [],
     bot_seq = [], bot_event_log = [], bot_request_log = [], room_bot_scopes = [],
     bot_tokens = [], bot_declared_scopes = [], bot_commands = [], room_publisher_keys = []\<rparr>"

section \<open>Shared queries\<close>

text \<open>\<open>SELECT role FROM room_members WHERE room_id = ? AND user_id = ?\<close>\<close>

definition member_role :: "db \<Rightarrow> id \<Rightarrow> id \<Rightarrow> string option" where
  "member_role db room_id user_id =
     map_option m_role
       (List.find (\<lambda>m. m_room_id m = room_id \<and> m_user_id m = user_id) (room_members db))"

definition is_member :: "db \<Rightarrow> id \<Rightarrow> id \<Rightarrow> bool" where
  "is_member db room_id user_id \<longleftrightarrow> member_role db room_id user_id \<noteq> None"

definition find_room :: "db \<Rightarrow> id \<Rightarrow> room_row option" where
  "find_room db room_id = List.find (\<lambda>r. r_id r = room_id) (rooms db)"

definition find_epoch :: "db \<Rightarrow> id \<Rightarrow> epoch_row option" where
  "find_epoch db room_id = List.find (\<lambda>e. e_room_id e = room_id) (room_epochs db)"

definition find_message :: "db \<Rightarrow> id \<Rightarrow> id \<Rightarrow> message_row option" where
  "find_message db message_id room_id =
     List.find (\<lambda>g. g_id g = message_id \<and> g_room_id g = room_id) (room_messages db)"

definition member_count :: "db \<Rightarrow> id \<Rightarrow> int" where
  "member_count db room_id = count_where (\<lambda>m. m_room_id m = room_id) (room_members db)"

definition user_exists :: "db \<Rightarrow> id \<Rightarrow> bool" where
  "user_exists db user_id = exists_where (\<lambda>u. u_id u = user_id) (users db)"

definition room_exists :: "db \<Rightarrow> id \<Rightarrow> bool" where
  "room_exists db room_id = exists_where (\<lambda>r. r_id r = room_id) (rooms db)"

text \<open>
  \<open>DELETE FROM rooms WHERE id = ?\<close> with the cascades of the schema.  Replies and edits
  reference messages of the same room, so their constraints hold once the statement ends;
  the operator queue keeps its entries and drops the reference (\<open>ON DELETE SET NULL\<close>).
\<close>

definition delete_room_cascade :: "id \<Rightarrow> db \<Rightarrow> db" where
  "delete_room_cascade room_id db = db\<lparr>
     rooms := delete_where (\<lambda>r. r_id r = room_id) (rooms db),
     room_members := delete_where (\<lambda>m. m_room_id m = room_id) (room_members db),
     room_epochs := delete_where (\<lambda>e. e_room_id e = room_id) (room_epochs db),
     room_messages := delete_where (\<lambda>g. g_room_id g = room_id) (room_messages db),
     welcomes := delete_where (\<lambda>w. w_room_id w = room_id) (welcomes db),
     pending_mls_removes := delete_where (\<lambda>p. pr_room_id p = room_id) (pending_mls_removes db),
     pending_mls_adds := delete_where (\<lambda>p. pa_room_id p = room_id) (pending_mls_adds db),
     attachments := delete_where (\<lambda>a. at_room_id a = Some room_id) (attachments db),
     room_bots := delete_where (\<lambda>b. rb_room_id b = room_id) (room_bots db),
     room_sessions := delete_where (\<lambda>s. rs_room_id s = room_id) (room_sessions db),
     read_states := delete_where (\<lambda>s. rd_room_id s = room_id) (read_states db),
     user_room_order := delete_where (\<lambda>o'. ro_room_id o' = room_id) (user_room_order db),
     starred_items := delete_where (\<lambda>s. st_room_id s = room_id) (starred_items db),
     reactions := delete_where (\<lambda>x. rx_room_id x = room_id) (reactions db),
     room_invites := delete_where (\<lambda>i. ri_room_id i = room_id) (room_invites db),
     room_bot_scopes := delete_where (\<lambda>s. sc_room_id s = room_id) (room_bot_scopes db),
     bot_operator_queue := update_where (\<lambda>q. oq_room_id q = Some room_id) (\<lambda>q. q\<lparr>oq_room_id := None\<rparr>)
       (bot_operator_queue db),
     bot_commands := delete_where (\<lambda>c. bc_room_id c = room_id) (bot_commands db),
     room_publisher_keys := delete_where (\<lambda>k. pk_room_id k = room_id) (room_publisher_keys db)\<rparr>"

text \<open>
  \<open>audit::log\<close>: one insert whose failure (an actor that is not a user, an id that is
  taken) is logged and dropped.  The metadata is kept as the JSON value it encodes.
\<close>

definition audit ::
  "id option \<Rightarrow> string \<Rightarrow> string option \<Rightarrow> id option \<Rightarrow> json option \<Rightarrow> id \<Rightarrow> time \<Rightarrow> db \<Rightarrow> db"
where
  "audit actor_id action target_type target_id metadata fresh_id now db =
     (if (case actor_id of None \<Rightarrow> True | Some a \<Rightarrow> user_exists db a) then
        (case insert_row au_id
                \<lparr>au_id = fresh_id, au_actor_id = actor_id, au_action = action,
                 au_target_type = target_type, au_target_id = target_id, au_metadata = metadata,
                 au_created_at = current_timestamp now\<rparr> (audit_log db) of
           None \<Rightarrow> db
         | Some t \<Rightarrow> db\<lparr>audit_log := t\<rparr>)
      else db)"

section \<open>Lemmas on the shared queries\<close>

lemma member_role_SomeD:
  assumes "member_role db room_id user_id = Some role"
  obtains m where "m \<in> set (room_members db)" "m_room_id m = room_id" "m_user_id m = user_id" "m_role m = role"
  using assms unfolding member_role_def map_option_eq_Some by (auto dest!: find_SomeD)

lemma member_role_None_iff:
  "member_role db room_id user_id = None \<longleftrightarrow>
     (\<forall>m \<in> set (room_members db). \<not> (m_room_id m = room_id \<and> m_user_id m = user_id))"
  by (auto simp: member_role_def find_None_iff_all)

lemma is_member_iff:
  "is_member db room_id user_id \<longleftrightarrow>
     (\<exists>m \<in> set (room_members db). m_room_id m = room_id \<and> m_user_id m = user_id)"
  unfolding is_member_def member_role_None_iff by blast

lemma is_member_role: "is_member db room_id user_id \<longleftrightarrow> (\<exists>role. member_role db room_id user_id = Some role)"
  by (auto simp: is_member_def)

lemma member_role_cong:
  "room_members db' = room_members db \<Longrightarrow> member_role db' = member_role db"
  by (simp add: member_role_def fun_eq_iff)

lemma is_member_cong:
  "room_members db' = room_members db \<Longrightarrow> is_member db' = is_member db"
  by (rule ext, rule ext) (simp add: is_member_def member_role_def)

lemma find_room_SomeD: "find_room db room_id = Some r \<Longrightarrow> r \<in> set (rooms db) \<and> r_id r = room_id"
  unfolding find_room_def by (drule find_SomeD) simp

lemma find_room_None_iff: "find_room db room_id = None \<longleftrightarrow> \<not> room_exists db room_id"
  by (auto simp: find_room_def room_exists_def find_None_iff_all)

lemma find_epoch_SomeD: "find_epoch db room_id = Some e \<Longrightarrow> e \<in> set (room_epochs db) \<and> e_room_id e = room_id"
  unfolding find_epoch_def by (drule find_SomeD) simp

lemma find_message_SomeD:
  "find_message db message_id room_id = Some g \<Longrightarrow>
     g \<in> set (room_messages db) \<and> g_id g = message_id \<and> g_room_id g = room_id"
  unfolding find_message_def by (drule find_SomeD) simp

text \<open>An audit entry changes no other table.\<close>

lemma audit_frame [row_frames]:
  "key_transparency_log (audit a b c d e f now db) = key_transparency_log db"
  "key_transparency_snapshots (audit a b c d e f now db) = key_transparency_snapshots db"
  "users (audit a b c d e f now db) = users db"
  "user_seqs (audit a b c d e f now db) = user_seqs db"
  "instance_limits (audit a b c d e f now db) = instance_limits db"
  by (simp_all add: audit_def split: option.splits)

lemma member_count_pos: "is_member db room_id user_id \<Longrightarrow> 0 < member_count db room_id"
  by (fastforce simp: is_member_iff member_count_def count_where_def filter_empty_conv)

end
