(* ===== verification/SyncSeq.thy ===== *)
theory SyncSeq
  imports Schema
begin

text \<open>
  The per-user sequence counter of \<open>server/src/sync/seq.rs\<close>, the event envelope of
  \<open>server/src/sync/envelope.rs\<close>, and the interface \<open>sequence_allocator\<close> on which every
  component that stamps rows with a sequence number relies.
\<close>

section \<open>Allocation\<close>

text \<open>
  \<open>INSERT INTO user_seq ... ON CONFLICT(user_id) DO UPDATE SET next_seq = next_seq + 1
  RETURNING next_seq - 1\<close>; without a row for the user the insert needs the user to exist
  (foreign key), and \<open>None\<close> is the database error.
\<close>

definition allocate_user_seq :: "db \<Rightarrow> id \<Rightarrow> (int \<times> db) option" where
  "allocate_user_seq db user_id =
     (case List.find (\<lambda>r. us_user_id r = user_id) (user_seqs db) of
        Some r \<Rightarrow>
          Some (us_next_seq r,
            db\<lparr>user_seqs := update_where (\<lambda>r. us_user_id r = user_id)
                 (\<lambda>r. r\<lparr>us_next_seq := us_next_seq r + 1\<rparr>) (user_seqs db)\<rparr>)
      | None \<Rightarrow>
          if user_exists db user_id
          then Some (1, db\<lparr>user_seqs := user_seqs db @ [\<lparr>us_user_id = user_id, us_next_seq = 2\<rparr>]\<rparr>)
          else None)"

text \<open>\<open>SELECT next_seq - 1 FROM user_seq WHERE user_id = ?\<close>, 0 without a row.\<close>

definition highest_user_seq :: "db \<Rightarrow> id \<Rightarrow> int" where
  "highest_user_seq db user_id =
     (case List.find (\<lambda>r. us_user_id r = user_id) (user_seqs db) of
        None \<Rightarrow> 0 | Some r \<Rightarrow> us_next_seq r - 1)"

record user_event_envelope =
  ee_event_type :: string
  ee_user_seq :: int
  ee_payload :: json
  ee_emitted_at :: time

definition new_envelope :: "string \<Rightarrow> int \<Rightarrow> json \<Rightarrow> time \<Rightarrow> user_event_envelope" where
  "new_envelope event_type user_seq payload now =
     \<lparr>ee_event_type = event_type, ee_user_seq = user_seq, ee_payload = payload, ee_emitted_at = now\<rparr>"

definition publish_user_event :: "id \<Rightarrow> user_event_envelope \<Rightarrow> event" where
  "publish_user_event user_id envelope =
     Event (''private-user-'' @ user_id) (ee_event_type envelope)
       (JObject [(''event_type'', JString (ee_event_type envelope)),
                 (''user_seq'', JInt (ee_user_seq envelope)),
                 (''payload'', ee_payload envelope),
                 (''emitted_at'', JTime (ee_emitted_at envelope))])"

section \<open>The allocator interface\<close>

text \<open>A run of allocations; \<open>None\<close> if one of them fails.\<close>

fun run_allocations :: "('s \<Rightarrow> 'k \<Rightarrow> (int \<times> 's) option) \<Rightarrow> 's \<Rightarrow> 'k list \<Rightarrow> (('k \<times> int) list \<times> 's) option" where
  "run_allocations alloc s [] = Some ([], s)"
| "run_allocations alloc s (k # ks) =
     (case alloc s k of
        None \<Rightarrow> None
      | Some (n, s') \<Rightarrow>
          (case run_allocations alloc s' ks of
             None \<Rightarrow> None
           | Some (out, s'') \<Rightarrow> Some ((k, n) # out, s'')))"

locale sequence_allocator =
  fixes alloc :: "'s \<Rightarrow> 'k \<Rightarrow> (int \<times> 's) option"
    and high :: "'s \<Rightarrow> 'k \<Rightarrow> int"
  assumes alloc_next: "alloc s k = Some (n, s') \<Longrightarrow> n = high s k + 1"
    and alloc_high: "alloc s k = Some (n, s') \<Longrightarrow> high s' j = (if j = k then n else high s j)"
begin

lemma alloc_fresh: "alloc s k = Some (n, s') \<Longrightarrow> high s k < n \<and> high s' k = n"
  using alloc_next[of s k n s'] alloc_high[of s k n s'] by simp

lemma alloc_mono: "alloc s k = Some (n, s') \<Longrightarrow> high s j \<le> high s' j"
  using alloc_next[of s k n s'] alloc_high[of s k n s'] by simp

lemma run_numbers:
  assumes "run_allocations alloc s ks = Some (out, s')"
  shows "map fst out = ks \<and>
    map snd (filter (\<lambda>p. fst p = j) out) = [high s j + 1 .. high s' j] \<and>
    high s' j = high s j + int (count_list ks j)"
  using assms
proof (induction ks arbitrary: s out)
  case (Cons k ks)
  then obtain n t out' where a: "alloc s k = Some (n, t)" and r: "run_allocations alloc t ks = Some (out', s')"
    and out: "out = (k, n) # out'"
    by (auto split: option.splits)
  note IH = Cons.IH[OF r]
  have n: "n = high s k + 1" and t: "high t j = (if j = k then n else high s j)"
    using alloc_next[OF a] alloc_high[OF a] by auto
  show ?case
  proof (cases "j = k")
    case True
    with IH n t have "[high s j + 1 .. high s' j] = n # [n + 1 .. high s' j]"
      by (subst upto_rec1) auto
    with True IH n t out show ?thesis by simp
  next
    case False
    with IH n t out show ?thesis by simp
  qed
qed simp

end

section \<open>The user counter is such an allocator\<close>

definition allocation_updates :: "db \<Rightarrow> db \<Rightarrow> bool" where
  "allocation_updates db db' \<longleftrightarrow> (\<exists>t. db' = db\<lparr>user_seqs := t\<rparr>)"

lemma highest_user_seq_update:
  "List.find (\<lambda>r. us_user_id r = k) t = Some r \<Longrightarrow>
   List.find (\<lambda>r. us_user_id r = j)
     (update_where (\<lambda>r. us_user_id r = k) (\<lambda>r. r\<lparr>us_next_seq := us_next_seq r + 1\<rparr>) t) =
   (if j = k then Some (r\<lparr>us_next_seq := us_next_seq r + 1\<rparr>) else List.find (\<lambda>r. us_user_id r = j) t)"
proof (cases "j = k")
  case True
  assume "List.find (\<lambda>r. us_user_id r = k) t = Some r"
  with True show ?thesis by (auto simp: find_update_where dest: find_SomeD)
next
  case False
  then show ?thesis by (simp add: find_update_where_frame)
qed

interpretation user_seq_alloc: sequence_allocator allocate_user_seq highest_user_seq
proof unfold_locales
  fix db k n db' j
  assume a: "allocate_user_seq db k = Some (n, db')"
  show "n = highest_user_seq db k + 1"
    using a by (auto simp: allocate_user_seq_def highest_user_seq_def split: option.splits if_splits)
  show "highest_user_seq db' j = (if j = k then n else highest_user_seq db j)"
    using a highest_user_seq_update[of k "user_seqs db" _ j]
    by (auto simp: allocate_user_seq_def highest_user_seq_def find_append
        split: option.splits if_splits dest: find_SomeD)
qed

lemma allocate_user_seq_frame:
  "allocate_user_seq db k = Some (n, db') \<Longrightarrow> allocation_updates db db'"
  unfolding allocation_updates_def allocate_user_seq_def by (auto split: option.splits if_splits)

text \<open>What an allocation leaves alone: every table but the counters.\<close>

lemma allocation_frame [row_frames]:
  assumes "allocation_updates db db'"
  shows "users db' = users db" "rooms db' = rooms db" "room_members db' = room_members db"
    "room_messages db' = room_messages db" "read_states db' = read_states db"
    "user_preferences db' = user_preferences db" "user_room_order db' = user_room_order db"
    "device_names db' = device_names db" "starred_items db' = starred_items db"
    "bot_settings db' = bot_settings db" "devices db' = devices db"
    "bot_accounts db' = bot_accounts db" "room_epochs db' = room_epochs db"
    "pending_mls_removes db' = pending_mls_removes db"
    "key_transparency_log db' = key_transparency_log db"
    "key_transparency_snapshots db' = key_transparency_snapshots db"
  using assms by (auto simp: allocation_updates_def)

lemma allocate_user_seq_total:
  "user_exists db k \<Longrightarrow> \<exists>n db'. allocate_user_seq db k = Some (n, db')"
  by (auto simp: allocate_user_seq_def split: option.splits)

text \<open>
  C19. Over any run of allocations, interleaved over any users, the numbers a user gets are
  consecutive, start right after the last one the counter gave and end at the counter's
  new value, so they never repeat, skip or go back, whatever the other users do.
\<close>

theorem user_seq_consecutive:
  assumes "run_allocations allocate_user_seq db ks = Some (out, db')"
  shows "map fst out = ks \<and>
    map snd (filter (\<lambda>p. fst p = user) out) = [highest_user_seq db user + 1 .. highest_user_seq db' user] \<and>
    highest_user_seq db' user = highest_user_seq db user + int (count_list ks user)"
  by (rule user_seq_alloc.run_numbers[OF assms])

definition seq_example_db :: db where
  "seq_example_db = empty_db\<lparr>users :=
     [\<lparr>u_id = ''a'', u_username_token = ''ta'', u_encrypted_display = None, u_disabled_at = None, u_deleted_at = None\<rparr>,
      \<lparr>u_id = ''b'', u_username_token = ''tb'', u_encrypted_display = None, u_disabled_at = None, u_deleted_at = None\<rparr>]\<rparr>"

definition seq_example_db' :: db where
  "seq_example_db' = seq_example_db\<lparr>user_seqs :=
     [\<lparr>us_user_id = ''a'', us_next_seq = 3\<rparr>, \<lparr>us_user_id = ''b'', us_next_seq = 2\<rparr>]\<rparr>"

lemma seq_example_run:
  "run_allocations allocate_user_seq seq_example_db [''a'', ''b'', ''a''] =
     Some ([(''a'', 1), (''b'', 1), (''a'', 2)], seq_example_db')"
  by (simp add: seq_example_db_def seq_example_db'_def empty_db_def allocate_user_seq_def user_exists_def)

theorem user_seq_consecutive_witness:
  "map fst [(''a'', 1), (''b'', 1), (''a'', 2 :: int)] = [''a'', ''b'', ''a''] \<and>
    map snd (filter (\<lambda>p. fst p = ''a'') [(''a'', 1), (''b'', 1), (''a'', 2 :: int)]) =
      [highest_user_seq seq_example_db ''a'' + 1 .. highest_user_seq seq_example_db' ''a''] \<and>
    highest_user_seq seq_example_db' ''a'' =
      highest_user_seq seq_example_db ''a'' + int (count_list [''a'', ''b'', ''a''] ''a'')"
  by (rule user_seq_consecutive[OF seq_example_run])

end
