(* ===== verification/Merkle.thy ===== *)
theory Merkle
  imports Prelude
begin

text \<open>
  The RFC 6962 Merkle tree of \<open>server/src/key_transparency/merkle.rs\<close>: leaf
  serialisation, leaf and node hashes, the recursive root, inclusion proofs and their
  check.  SHA-256 comes from the crate \<open>sha2\<close>, so it is the argument \<open>H\<close> of every
  definition here; what a theorem needs of it (32 bytes of output, no collision among the
  inputs at hand) is a hypothesis of that theorem.
\<close>

section \<open>Leaves\<close>

record log_leaf =
  ll_username_token :: bytes
  ll_identity_pubkey :: bytes

datatype merkle_error =
    OutOfBounds nat nat
  | InvalidProofLength nat

text \<open>\<open>len() as u16\<close> followed by \<open>to_be_bytes()\<close>.\<close>

definition u16_be :: "16 word \<Rightarrow> bytes" where
  "u16_be w = [ucast (drop_bit 8 w), ucast w]"

definition len_u16 :: "bytes \<Rightarrow> 16 word" where
  "len_u16 xs = of_nat (length xs)"

definition serialize_leaf :: "bytes \<Rightarrow> bytes \<Rightarrow> bytes" where
  "serialize_leaf username_token identity_pubkey =
     u16_be (len_u16 username_token) @ username_token @
     u16_be (len_u16 identity_pubkey) @ identity_pubkey"

definition leaf_hash :: "(bytes \<Rightarrow> bytes) \<Rightarrow> bytes \<Rightarrow> bytes \<Rightarrow> bytes" where
  "leaf_hash H username_token identity_pubkey =
     H (0 # serialize_leaf username_token identity_pubkey)"

definition serialize_bot_leaf :: "bytes \<Rightarrow> bytes \<Rightarrow> bytes \<Rightarrow> bytes" where
  "serialize_bot_leaf bot_identity_pubkey command_pubkey identity_pubkey =
     u16_be (len_u16 bot_identity_pubkey) @ bot_identity_pubkey @
     u16_be (len_u16 command_pubkey) @ command_pubkey @
     u16_be (len_u16 identity_pubkey) @ identity_pubkey"

definition bot_leaf_hash :: "(bytes \<Rightarrow> bytes) \<Rightarrow> bytes \<Rightarrow> bytes \<Rightarrow> bytes \<Rightarrow> bytes" where
  "bot_leaf_hash H bot_identity_pubkey command_pubkey identity_pubkey =
     H (0 # serialize_bot_leaf bot_identity_pubkey command_pubkey identity_pubkey)"

definition node_hash :: "(bytes \<Rightarrow> bytes) \<Rightarrow> bytes \<Rightarrow> bytes \<Rightarrow> bytes" where
  "node_hash H left right = H (1 # left @ right)"

definition empty_root_hash :: "(bytes \<Rightarrow> bytes) \<Rightarrow> bytes" where
  "empty_root_hash H = H []"

section \<open>The split point\<close>

fun bit_len :: "nat \<Rightarrow> nat" where
  "bit_len n = (if n = 0 then 0 else Suc (bit_len (n div 2)))"

declare bit_len.simps [simp del]

text \<open>\<open>usize::leading_zeros\<close> on a 64-bit target.\<close>

definition leading_zeros :: "nat \<Rightarrow> nat" where
  "leading_zeros n = 64 - bit_len n"

definition largest_power_of_two_less_than :: "nat \<Rightarrow> nat" where
  "largest_power_of_two_less_than n = 2 ^ (64 - 1 - leading_zeros (n - 1))"

lemma bit_len_0 [simp]: "bit_len 0 = 0" and bit_len_1 [simp]: "bit_len (Suc 0) = Suc 0"
  by (simp_all add: bit_len.simps)

lemma bit_len_bounds: "0 < n \<Longrightarrow> 2 ^ (bit_len n - 1) \<le> n \<and> n < 2 ^ bit_len n"
proof (induction n rule: bit_len.induct)
  case (1 n)
  show ?case
  proof (cases "n = 1")
    case True
    then show ?thesis by simp
  next
    case False
    with 1 have pos: "0 < n div 2" and n: "n \<noteq> 0" by auto
    from 1 n pos have IH: "2 ^ (bit_len (n div 2) - 1) \<le> n div 2 \<and> n div 2 < 2 ^ bit_len (n div 2)"
      by blast
    have b: "bit_len n = Suc (bit_len (n div 2))"
      using n by (simp add: bit_len.simps[of n])
    have "bit_len (n div 2) \<noteq> 0"
      using pos by (simp add: bit_len.simps[of "n div 2"])
    then obtain m where m: "bit_len (n div 2) = Suc m" by (cases "bit_len (n div 2)") auto
    from IH m have "2 ^ m \<le> n div 2" "n div 2 < 2 ^ Suc m" by auto
    then show ?thesis unfolding b m by auto
  qed
qed

lemma split_point_exponent: "64 - 1 - leading_zeros n \<le> bit_len n - 1"
  unfolding leading_zeros_def by linarith

lemma split_point_bounds:
  assumes "1 < n"
  shows "0 < largest_power_of_two_less_than n \<and> largest_power_of_two_less_than n < n"
proof -
  have "(2::nat) ^ (64 - 1 - leading_zeros (n - 1)) \<le> 2 ^ (bit_len (n - 1) - 1)"
    by (rule power_increasing) (rule split_point_exponent, simp)
  also have "\<dots> \<le> n - 1" using assms bit_len_bounds[of "n - 1"] by simp
  finally show ?thesis using assms by (simp add: largest_power_of_two_less_than_def)
qed

lemma split_point_pos [simp]: "0 < largest_power_of_two_less_than n"
  by (simp add: largest_power_of_two_less_than_def)

lemma split_point_less: "1 < n \<Longrightarrow> largest_power_of_two_less_than n < n"
  using split_point_bounds by blast

lemma split_point_min:
  "n \<noteq> 0 \<Longrightarrow> n \<noteq> Suc 0 \<Longrightarrow> min n (largest_power_of_two_less_than n) < n"
  using split_point_less[of n] by linarith

lemma split_point_min_index:
  "\<not> n \<le> i \<Longrightarrow> n \<noteq> Suc 0 \<Longrightarrow> min n (largest_power_of_two_less_than n) < n"
  by (rule split_point_min) auto

lemma bit_len_le: "n < 2 ^ k \<Longrightarrow> bit_len n \<le> k"
proof (rule ccontr)
  assume n: "n < 2 ^ k" and "\<not> bit_len n \<le> k"
  then have k: "k \<le> bit_len n - 1" and "0 < n"
    by (auto simp: bit_len.simps[of 0] intro: gr0I)
  then have "2 ^ (bit_len n - 1) \<le> n" using bit_len_bounds by blast
  moreover have "(2::nat) ^ k \<le> 2 ^ (bit_len n - 1)" using k by (rule power_increasing) simp
  ultimately show False using n by linarith
qed

section \<open>Roots\<close>

function compute_root_from_hashes :: "(bytes \<Rightarrow> bytes) \<Rightarrow> bytes list \<Rightarrow> bytes" where
  "compute_root_from_hashes H leaf_hashes =
     (let n = length leaf_hashes in
      if n = 0 then empty_root_hash H
      else if n = 1 then leaf_hashes ! 0
      else
        let k = largest_power_of_two_less_than n;
            left = compute_root_from_hashes H (take k leaf_hashes);
            right = compute_root_from_hashes H (drop k leaf_hashes)
        in node_hash H left right)"
  by pat_completeness auto
termination
  by (relation "measure (\<lambda>(H, hs). length hs)") (auto simp: split_point_min)

declare compute_root_from_hashes.simps [simp del]

definition leaf_hashes_of :: "(bytes \<Rightarrow> bytes) \<Rightarrow> log_leaf list \<Rightarrow> bytes list" where
  "leaf_hashes_of H leaves =
     map (\<lambda>l. leaf_hash H (ll_username_token l) (ll_identity_pubkey l)) leaves"

definition compute_root :: "(bytes \<Rightarrow> bytes) \<Rightarrow> log_leaf list \<Rightarrow> bytes" where
  "compute_root H leaves = compute_root_from_hashes H (leaf_hashes_of H leaves)"

section \<open>Inclusion proofs\<close>

function generate_inclusion_proof_from_hashes ::
  "(bytes \<Rightarrow> bytes) \<Rightarrow> bytes list \<Rightarrow> nat \<Rightarrow> merkle_error + bytes list"
where
  "generate_inclusion_proof_from_hashes H leaf_hashes leaf_index =
     (let n = length leaf_hashes in
      if leaf_index \<ge> n then Inl (OutOfBounds leaf_index n)
      else if n = 1 then Inr []
      else
        let k = largest_power_of_two_less_than n in
        if leaf_index < k then
          (case generate_inclusion_proof_from_hashes H (take k leaf_hashes) leaf_index of
             Inl e \<Rightarrow> Inl e
           | Inr proof \<Rightarrow> Inr (proof @ [compute_root_from_hashes H (drop k leaf_hashes)]))
        else
          (case generate_inclusion_proof_from_hashes H (drop k leaf_hashes) (leaf_index - k) of
             Inl e \<Rightarrow> Inl e
           | Inr proof \<Rightarrow> Inr (proof @ [compute_root_from_hashes H (take k leaf_hashes)])))"
  by pat_completeness auto
termination
  by (relation "measure (\<lambda>(H, hs, i). length hs)")
    (auto simp: split_point_min_index intro: diff_less)

declare generate_inclusion_proof_from_hashes.simps [simp del]

definition generate_inclusion_proof ::
  "(bytes \<Rightarrow> bytes) \<Rightarrow> log_leaf list \<Rightarrow> nat \<Rightarrow> merkle_error + bytes list"
where
  "generate_inclusion_proof H leaves leaf_index =
     generate_inclusion_proof_from_hashes H (leaf_hashes_of H leaves) leaf_index"

text \<open>
  The source tests \<open>size == 1\<close>; a size of 0 never reaches the function, because
  \<open>verify_inclusion_proof\<close> has refused every index of an empty tree.
\<close>

function evaluate_proof_path ::
  "(bytes \<Rightarrow> bytes) \<Rightarrow> bytes \<Rightarrow> nat \<Rightarrow> nat \<Rightarrow> bytes list \<Rightarrow> nat \<Rightarrow> merkle_error + bytes"
where
  "evaluate_proof_path H current_hash index sz proof proof_offset =
     (if sz \<le> 1 then
        (if proof_offset \<noteq> length proof then Inl (InvalidProofLength sz)
         else Inr current_hash)
      else if proof_offset \<ge> length proof then Inl (InvalidProofLength sz)
      else
        let k = largest_power_of_two_less_than sz;
            sibling = proof ! (length proof - 1 - proof_offset)
        in
        if index < k then
          (case evaluate_proof_path H current_hash index k proof (proof_offset + 1) of
             Inl e \<Rightarrow> Inl e
           | Inr left_root \<Rightarrow> Inr (node_hash H left_root sibling))
        else
          (case evaluate_proof_path H current_hash (index - k) (sz - k) proof (proof_offset + 1) of
             Inl e \<Rightarrow> Inl e
           | Inr right_root \<Rightarrow> Inr (node_hash H sibling right_root)))"
  by pat_completeness auto
termination
  by (relation "measure (\<lambda>(H, c, i, s, p, off). s)") (auto simp: split_point_less)

declare evaluate_proof_path.simps [simp del]

definition verify_inclusion_proof ::
  "(bytes \<Rightarrow> bytes) \<Rightarrow> bytes \<Rightarrow> nat \<Rightarrow> nat \<Rightarrow> bytes list \<Rightarrow> bytes \<Rightarrow> merkle_error + bool"
where
  "verify_inclusion_proof H target_leaf_hash leaf_index tree_size proof expected_root_hash =
     (if leaf_index \<ge> tree_size then Inl (OutOfBounds leaf_index tree_size)
      else
        (case evaluate_proof_path H target_leaf_hash leaf_index tree_size proof 0 of
           Inl e \<Rightarrow> Inl e
         | Inr calculated_root \<Rightarrow> Inr (calculated_root = expected_root_hash)))"

section \<open>Shape of the split point\<close>

text \<open>
  The split point \<open>1 << (usize::BITS - 1 - (n - 1).leading_zeros())\<close> of a tree of
  \<open>n\<close> leaves is the largest power of two strictly below \<open>n\<close>, the one RFC 6962 asks for,
  for every size a 64-bit \<open>usize\<close> can hold.
\<close>

theorem split_point_is_largest_power_of_two:
  assumes "1 < n" and "n < 2 ^ 64"
  shows "(\<exists>e. largest_power_of_two_less_than n = 2 ^ e) \<and>
         largest_power_of_two_less_than n < n \<and> n \<le> 2 * largest_power_of_two_less_than n"
proof -
  let ?b = "bit_len (n - 1)"
  have "?b \<le> 64" by (rule bit_len_le) (use assms(2) in linarith)
  then have e: "64 - 1 - leading_zeros (n - 1) = ?b - 1"
    by (simp add: leading_zeros_def)
  have pos: "0 < n - 1" using assms(1) by simp
  then have lt: "n - 1 < 2 ^ ?b" using bit_len_bounds by blast
  with pos have "?b \<noteq> 0" by (intro notI) simp
  with lt have "n - 1 < 2 * 2 ^ (?b - 1)" by (cases ?b) auto
  then have "n \<le> 2 * 2 ^ (?b - 1)" by simp
  then show ?thesis
    using split_point_less[OF assms(1)] unfolding largest_power_of_two_less_than_def e by blast
qed

theorem split_point_is_largest_power_of_two_witness:
  "(\<exists>e. largest_power_of_two_less_than 7 = 2 ^ e) \<and>
   largest_power_of_two_less_than 7 < 7 \<and> 7 \<le> 2 * largest_power_of_two_less_than 7"
  using split_point_is_largest_power_of_two[of 7] by simp

section \<open>Completeness of inclusion proofs\<close>

lemma root_split:
  assumes "1 < length hs" and "k = largest_power_of_two_less_than (length hs)"
  shows "compute_root_from_hashes H hs =
    node_hash H (compute_root_from_hashes H (take k hs)) (compute_root_from_hashes H (drop k hs))"
  using assms by (subst compute_root_from_hashes.simps) (auto simp: Let_def)

lemma root_single: "length hs = 1 \<Longrightarrow> compute_root_from_hashes H hs = hs ! 0"
  by (subst compute_root_from_hashes.simps) simp

lemma generate_total:
  "i < length hs \<Longrightarrow> \<exists>p. generate_inclusion_proof_from_hashes H hs i = Inr p"
proof (induction H hs i rule: generate_inclusion_proof_from_hashes.induct)
  case (1 H hs i)
  let ?n = "length hs" and ?k = "largest_power_of_two_less_than (length hs)"
  show ?case
  proof (cases "?n = 1")
    case True
    with 1 show ?thesis by (subst generate_inclusion_proof_from_hashes.simps) simp
  next
    case False
    with 1 have n: "1 < ?n" by linarith
    note k = split_point_less[OF n]
    show ?thesis
    proof (cases "i < ?k")
      case True
      with 1 False k obtain p where "generate_inclusion_proof_from_hashes H (take ?k hs) i = Inr p"
        by fastforce
      with 1 False True show ?thesis
        by (subst generate_inclusion_proof_from_hashes.simps) (simp add: Let_def)
    next
      case ge: False
      with 1 False k obtain p
        where "generate_inclusion_proof_from_hashes H (drop ?k hs) (i - ?k) = Inr p"
        by fastforce
      with 1 False ge show ?thesis
        by (subst generate_inclusion_proof_from_hashes.simps) (simp add: Let_def)
    qed
  qed
qed

lemma generate_split:
  assumes "generate_inclusion_proof_from_hashes H hs i = Inr p" and "1 < length hs"
    and "k = largest_power_of_two_less_than (length hs)"
  obtains (left) p' where "i < k" and "generate_inclusion_proof_from_hashes H (take k hs) i = Inr p'"
      and "p = p' @ [compute_root_from_hashes H (drop k hs)]"
  | (right) p' where "k \<le> i" and "i < length hs"
      and "generate_inclusion_proof_from_hashes H (drop k hs) (i - k) = Inr p'"
      and "p = p' @ [compute_root_from_hashes H (take k hs)]"
  using assms
  by (subst (asm) (2) generate_inclusion_proof_from_hashes.simps)
    (auto simp: Let_def split: if_splits sum.splits)

lemma evaluate_single:
  "evaluate_proof_path H c i 1 p off =
     (if off = length p then Inr c else Inl (InvalidProofLength 1))"
  by (subst evaluate_proof_path.simps) simp

lemma evaluate_snoc:
  assumes "1 < sz" and "k = largest_power_of_two_less_than sz"
  shows "evaluate_proof_path H c i sz ((p @ [s]) @ q) (length q) =
    (if i < k then map_sum id (\<lambda>l. node_hash H l s) (evaluate_proof_path H c i k (p @ s # q) (Suc (length q)))
     else map_sum id (\<lambda>r. node_hash H s r)
       (evaluate_proof_path H c (i - k) (sz - k) (p @ s # q) (Suc (length q))))"
proof -
  have "(p @ s # q) ! (length p + length q - length q) = s" by simp
  with assms show ?thesis
    by (subst evaluate_proof_path.simps) (simp add: Let_def split: sum.split)
qed

lemma evaluate_generated:
  "generate_inclusion_proof_from_hashes H hs i = Inr p \<Longrightarrow>
   evaluate_proof_path H (hs ! i) i (length hs) (p @ q) (length q) =
     Inr (compute_root_from_hashes H hs)"
proof (induction H hs i arbitrary: p q rule: generate_inclusion_proof_from_hashes.induct)
  case (1 H hs i)
  let ?k = "largest_power_of_two_less_than (length hs)"
  have i: "i < length hs"
    using "1.prems" by (subst (asm) generate_inclusion_proof_from_hashes.simps) (auto simp: Let_def split: if_splits)
  show ?case
  proof (cases "length hs = 1")
    case True
    with i have i0: "i = 0" by simp
    with True have "p = []"
      using "1.prems" by (subst (asm) generate_inclusion_proof_from_hashes.simps) (auto simp: Let_def)
    with True i0 show ?thesis by (simp add: evaluate_single[simplified] root_single)
  next
    case False
    with i have n: "1 < length hs" by linarith
    note k = split_point_less[OF n]
    from "1.prems" n refl show ?thesis
    proof (cases rule: generate_split)
      case (left p')
      let ?s = "compute_root_from_hashes H (drop ?k hs)"
      have "evaluate_proof_path H (take ?k hs ! i) i (length (take ?k hs)) (p' @ ?s # q) (length (?s # q)) =
          Inr (compute_root_from_hashes H (take ?k hs))"
        using "1.IH"(1)[OF refl _ False refl left(1) left(2), of "?s # q"] i by simp
      then show ?thesis using left n k evaluate_snoc[OF n refl, of H "hs ! i" i p' ?s q]
        by (simp add: root_split[OF n refl] min_def)
    next
      case (right p')
      let ?s = "compute_root_from_hashes H (take ?k hs)"
      have "evaluate_proof_path H (drop ?k hs ! (i - ?k)) (i - ?k) (length (drop ?k hs)) (p' @ ?s # q) (length (?s # q)) =
          Inr (compute_root_from_hashes H (drop ?k hs))"
        using "1.IH"(2)[OF refl _ False refl _ right(3), of "?s # q"] right(1) i by simp
      then show ?thesis using right n k evaluate_snoc[OF n refl, of H "hs ! i" i p' ?s q]
        by (simp add: root_split[OF n refl])
    qed
  qed
qed

text \<open>
  C7. Completeness: for every non-empty tree and every leaf of it the generator returns a
  proof, and the checker accepts it for that leaf, index, size and root.
\<close>

theorem inclusion_proof_complete:
  assumes "i < length leaf_hashes"
  shows "\<exists>p. generate_inclusion_proof_from_hashes H leaf_hashes i = Inr p \<and>
    verify_inclusion_proof H (leaf_hashes ! i) i (length leaf_hashes) p
      (compute_root_from_hashes H leaf_hashes) = Inr True"
proof -
  from generate_total[OF assms] obtain p
    where p: "generate_inclusion_proof_from_hashes H leaf_hashes i = Inr p" by blast
  from evaluate_generated[OF p, of "[]"] assms p show ?thesis
    by (auto simp: verify_inclusion_proof_def)
qed

theorem inclusion_proof_complete_witness:
  "\<exists>p. generate_inclusion_proof_from_hashes id [[1], [2], [3]] 2 = Inr p \<and>
    verify_inclusion_proof id [3] 2 3 p (compute_root_from_hashes id [[1], [2], [3]]) = Inr True"
  using inclusion_proof_complete[of 2 "[[1], [2], [3]]" id] by (simp add: eval_nat_numeral)

text \<open>
  The error branch: the generator refuses exactly the indices past the last leaf, and
  names the index and the tree size.
\<close>

theorem generate_error_iff_out_of_bounds:
  "generate_inclusion_proof_from_hashes H leaf_hashes i = Inl e \<longleftrightarrow>
     length leaf_hashes \<le> i \<and> e = OutOfBounds i (length leaf_hashes)"
proof (cases "i < length leaf_hashes")
  case True
  with generate_total[OF True, of H] show ?thesis by auto
next
  case False
  then show ?thesis
    by (subst generate_inclusion_proof_from_hashes.simps) (auto simp: Let_def)
qed

section \<open>Soundness of inclusion proofs\<close>

text \<open>
  The inputs on which the two computations call the hash for inner nodes.  Soundness is
  stated for a hash without a collision among these inputs only, so that a forged proof
  yields a collision that can be read off.
\<close>

function tree_preimages :: "(bytes \<Rightarrow> bytes) \<Rightarrow> bytes list \<Rightarrow> bytes list" where
  "tree_preimages H hs =
     (let n = length hs in
      if n = 0 then [] else if n = 1 then []
      else
        let k = largest_power_of_two_less_than n in
        (1 # compute_root_from_hashes H (take k hs) @ compute_root_from_hashes H (drop k hs)) #
        tree_preimages H (take k hs) @ tree_preimages H (drop k hs))"
  by pat_completeness auto
termination
  by (relation "measure (\<lambda>(H, hs). length hs)") (auto simp: split_point_min)

declare tree_preimages.simps [simp del]

fun path_preimages :: "(bytes \<Rightarrow> bytes) \<Rightarrow> bytes \<Rightarrow> nat \<Rightarrow> nat \<Rightarrow> bytes list \<Rightarrow> bytes list" where
  "path_preimages H c i sz [] = []"
| "path_preimages H c i sz (s # rest) =
     (let k = largest_power_of_two_less_than sz in
      if i < k then
        (case evaluate_proof_path H c i k (rev rest) 0 of
           Inl e \<Rightarrow> [] | Inr l \<Rightarrow> (1 # l @ s) # path_preimages H c i k rest)
      else
        (case evaluate_proof_path H c (i - k) (sz - k) (rev rest) 0 of
           Inl e \<Rightarrow> [] | Inr r \<Rightarrow> (1 # s @ r) # path_preimages H c (i - k) (sz - k) rest))"

text \<open>The offset only says how much of the end of the proof is used up.\<close>

lemma evaluate_offset:
  "evaluate_proof_path H c i sz (p @ q) (length q) = evaluate_proof_path H c i sz p 0"
proof (induction sz arbitrary: i p q rule: less_induct)
  case (less sz)
  show ?case
  proof (cases "sz \<le> 1")
    case True
    then show ?thesis
      by (subst (1 2) evaluate_proof_path.simps) auto
  next
    case False
    then have sz: "1 < sz" by simp
    show ?thesis
    proof (cases p rule: rev_cases)
      case Nil
      with False show ?thesis by (subst (1 2) evaluate_proof_path.simps) auto
    next
      case (snoc r s)
      let ?k = "largest_power_of_two_less_than sz"
      note k = split_point_bounds[OF sz]
      have "evaluate_proof_path H c i ?k (r @ s # q) (length (s # q)) = evaluate_proof_path H c i ?k r 0"
        and "evaluate_proof_path H c i ?k (r @ [s]) (length [s]) = evaluate_proof_path H c i ?k r 0"
        and "evaluate_proof_path H c (i - ?k) (sz - ?k) (r @ s # q) (length (s # q)) =
          evaluate_proof_path H c (i - ?k) (sz - ?k) r 0"
        and "evaluate_proof_path H c (i - ?k) (sz - ?k) (r @ [s]) (length [s]) =
          evaluate_proof_path H c (i - ?k) (sz - ?k) r 0"
        using k sz by (auto intro!: less.IH simp del: length_Cons list.size)
      then show ?thesis
        using evaluate_snoc[OF sz refl, of H c i r s q] evaluate_snoc[OF sz refl, of H c i r s "[]"]
        by (simp add: snoc)
    qed
  qed
qed

lemma evaluate_rev_Cons:
  assumes "1 < sz" and "k = largest_power_of_two_less_than sz"
  shows "evaluate_proof_path H c i sz (rev (s # rest)) 0 =
    (if i < k then map_sum id (\<lambda>l. node_hash H l s) (evaluate_proof_path H c i k (rev rest) 0)
     else map_sum id (\<lambda>r. node_hash H s r) (evaluate_proof_path H c (i - k) (sz - k) (rev rest) 0))"
  using evaluate_snoc[OF assms, of H c i "rev rest" s "[]"]
    evaluate_offset[of H c i k "rev rest" "[s]"]
    evaluate_offset[of H c "i - k" "sz - k" "rev rest" "[s]"]
  by simp

lemma length_evaluate:
  assumes "\<And>xs. length (H xs) = 32" and "length c = 32"
    and "evaluate_proof_path H c i sz p off = Inr r"
  shows "length r = 32"
  using assms(3) assms(1,2)
  by (subst (asm) evaluate_proof_path.simps)
    (auto simp: Let_def node_hash_def split: if_splits sum.splits)

lemma length_root:
  assumes "\<And>xs. length (H xs) = 32" and "\<forall>h \<in> set hs. length h = 32"
  shows "length (compute_root_from_hashes H hs) = 32"
  using assms
  by (subst compute_root_from_hashes.simps) (auto simp: Let_def node_hash_def empty_root_hash_def)

lemma evaluate_sound:
  assumes H: "\<And>xs. length (H xs) = 32" and c: "length c = 32"
  shows "\<lbrakk>evaluate_proof_path H c i (length hs) (rev p) 0 = Inr (compute_root_from_hashes H hs);
          i < length hs; \<forall>h \<in> set hs. length h = 32; \<forall>s \<in> set p. length s = 32;
          inj_on H (set (tree_preimages H hs) \<union> set (path_preimages H c i (length hs) p))\<rbrakk>
         \<Longrightarrow> c = hs ! i"
proof (induction p arbitrary: hs i)
  case Nil
  then have "length hs = 1"
    by (subst (asm) evaluate_proof_path.simps) (auto split: if_splits)
  with Nil show ?case by (simp add: evaluate_single[simplified] root_single)
next
  case (Cons s rest)
  have n: "1 < length hs"
  proof (rule ccontr)
    assume "\<not> 1 < length hs"
    with Cons.prems(1) show False by (subst (asm) evaluate_proof_path.simps) auto
  qed
  define k where k: "k = largest_power_of_two_less_than (length hs)"
  have kn: "0 < k" "k < length hs" using split_point_bounds[OF n] k by auto
  define l where l: "l = compute_root_from_hashes H (take k hs)"
  define r where r: "r = compute_root_from_hashes H (drop k hs)"
  have len: "length l = 32" "length r = 32" "length s = 32"
    using length_root[where H = H, OF H] Cons.prems(3,4) unfolding l r by (auto dest: in_set_takeD in_set_dropD)
  have root: "compute_root_from_hashes H hs = H (1 # l @ r)"
    using root_split[OF n k] unfolding node_hash_def l r .
  have tp: "tree_preimages H hs = (1 # l @ r) # tree_preimages H (take k hs) @ tree_preimages H (drop k hs)"
    using n unfolding l r k by (subst tree_preimages.simps) (auto simp: Let_def)
  note ev = Cons.prems(1)[unfolded evaluate_rev_Cons[OF n k] root]
  show ?case
  proof (cases "i < k")
    case True
    with ev obtain l' where l': "evaluate_proof_path H c i k (rev rest) 0 = Inr l'"
      and eq: "H (1 # l' @ s) = H (1 # l @ r)"
      by (cases "evaluate_proof_path H c i k (rev rest) 0") (auto simp: node_hash_def)
    have pp: "path_preimages H c i (length hs) (s # rest) = (1 # l' @ s) # path_preimages H c i k rest"
      using True l' by (simp add: k[symmetric])
    note inj = Cons.prems(5)[unfolded pp tp]
    have "1 # l' @ s = 1 # l @ r"
      by (rule inj_onD[OF inj eq]) simp_all
    then have "l' = l" using len by (simp add: append_eq_append_conv)
    with l' have "evaluate_proof_path H c i (length (take k hs)) (rev rest) 0 =
        Inr (compute_root_from_hashes H (take k hs))" using kn l by simp
    then have "c = take k hs ! i"
      by (rule Cons.IH)
        (use True kn Cons.prems inj in \<open>auto dest: in_set_takeD intro: inj_on_subset\<close>)
    with True show ?thesis by simp
  next
    case False
    with ev obtain r' where r': "evaluate_proof_path H c (i - k) (length hs - k) (rev rest) 0 = Inr r'"
      and eq: "H (1 # s @ r') = H (1 # l @ r)"
      by (cases "evaluate_proof_path H c (i - k) (length hs - k) (rev rest) 0") (auto simp: node_hash_def)
    have pp: "path_preimages H c i (length hs) (s # rest) =
        (1 # s @ r') # path_preimages H c (i - k) (length hs - k) rest"
      using False r' by (simp add: k[symmetric])
    note inj = Cons.prems(5)[unfolded pp tp]
    have "1 # s @ r' = 1 # l @ r"
      by (rule inj_onD[OF inj eq]) simp_all
    then have "r' = r" using len by (simp add: append_eq_append_conv)
    with r' have "evaluate_proof_path H c (i - k) (length (drop k hs)) (rev rest) 0 =
        Inr (compute_root_from_hashes H (drop k hs))" using r by simp
    then have "c = drop k hs ! (i - k)"
      by (rule Cons.IH)
        (use False kn Cons.prems inj in \<open>auto dest: in_set_dropD intro: inj_on_subset\<close>)
    with False Cons.prems(2) show ?thesis by simp
  qed
qed

text \<open>Two trees of the same size with the same root have the same leaves.\<close>

lemma root_injective:
  assumes H: "\<And>xs. length (H xs) = 32"
  shows "\<lbrakk>compute_root_from_hashes H as = compute_root_from_hashes H bs; length as = length bs;
          \<forall>h \<in> set as \<union> set bs. length h = 32; inj_on H (set (tree_preimages H as) \<union> set (tree_preimages H bs))\<rbrakk>
         \<Longrightarrow> as = bs"
proof (induction "length as" arbitrary: as bs rule: less_induct)
  case less
  consider "length as = 0" | "length as = 1" | "1 < length as" by linarith
  then show ?case
  proof cases
    case 2
    with less.prems(1,2) have "as ! 0 = bs ! 0" by (simp add: root_single)
    with 2 less.prems(2) show ?thesis by (auto intro: nth_equalityI)
  next
    case 3
    define k where k: "k = largest_power_of_two_less_than (length as)"
    have kn: "0 < k" "k < length as" using split_point_bounds[OF 3] k by auto
    have tp: "tree_preimages H t = (1 # compute_root_from_hashes H (take k t) @ compute_root_from_hashes H (drop k t)) #
        tree_preimages H (take k t) @ tree_preimages H (drop k t)" if "length t = length as" for t
      using 3 unfolding k that[symmetric] by (subst tree_preimages.simps) (auto simp: Let_def)
    have rt: "compute_root_from_hashes H t = H (1 # compute_root_from_hashes H (take k t) @ compute_root_from_hashes H (drop k t))"
      if "length t = length as" for t
      using root_split[of t k H] 3 that k by (simp only: node_hash_def)
    note inj = less.prems(4)[unfolded tp[OF refl] tp[OF less.prems(2)[symmetric]]]
    have "1 # compute_root_from_hashes H (take k as) @ compute_root_from_hashes H (drop k as) =
        1 # compute_root_from_hashes H (take k bs) @ compute_root_from_hashes H (drop k bs)"
      using less.prems(1) unfolding rt[OF refl] rt[OF less.prems(2)[symmetric]]
      by (rule inj_onD[OF inj]) simp_all
    moreover have "length (compute_root_from_hashes H (take k as)) = 32" "length (compute_root_from_hashes H (take k bs)) = 32"
      using length_root[where H = H, OF H] less.prems(3) by (auto dest: in_set_takeD)
    ultimately have roots: "compute_root_from_hashes H (take k as) = compute_root_from_hashes H (take k bs)"
      "compute_root_from_hashes H (drop k as) = compute_root_from_hashes H (drop k bs)" by auto
    have "take k as = take k bs"
      by (rule less.hyps[OF _ roots(1)])
        (use kn less.prems(2,3) inj in \<open>auto dest: in_set_takeD intro: inj_on_subset\<close>)
    moreover have "drop k as = drop k bs"
      by (rule less.hyps[OF _ roots(2)])
        (use kn less.prems(2,3) inj in \<open>auto dest: in_set_dropD intro: inj_on_subset\<close>)
    ultimately show ?thesis by (metis append_take_drop_id)
  qed (use less.prems(2) in simp)
qed

text \<open>
  C6. Soundness: if the checker accepts a proof for the hash \<open>target\<close> at index \<open>i\<close> of a
  tree, then \<open>target\<close> is the leaf hash at that index, unless two different inputs the two
  computations hashed have the same SHA-256 value.
\<close>

theorem inclusion_proof_sound:
  assumes "\<And>xs. length (H xs) = 32"
    and "length target = 32" and "\<forall>h \<in> set leaf_hashes. length h = 32"
    and "\<forall>s \<in> set steps. length s = 32"
    and "inj_on H (set (tree_preimages H leaf_hashes) \<union>
                   set (path_preimages H target i (length leaf_hashes) (rev steps)))"
    and "verify_inclusion_proof H target i (length leaf_hashes) steps
           (compute_root_from_hashes H leaf_hashes) = Inr True"
  shows "i < length leaf_hashes \<and> target = leaf_hashes ! i"
proof -
  from assms(6) have i: "i < length leaf_hashes"
    and ev: "evaluate_proof_path H target i (length leaf_hashes) (rev (rev steps)) 0 =
      Inr (compute_root_from_hashes H leaf_hashes)"
    by (auto simp: verify_inclusion_proof_def split: if_splits sum.splits)
  have "target = leaf_hashes ! i"
    by (rule evaluate_sound[where H = H, OF assms(1,2) ev i assms(3) _ assms(5)]) (use assms(4) in simp)
  with i show ?thesis by simp
qed

definition toy_digest :: "bytes \<Rightarrow> bytes" where
  "toy_digest xs = take 32 (rev xs @ replicate 32 0)"

lemma length_toy_digest: "length (toy_digest xs) = 32"
  by (simp add: toy_digest_def)

theorem inclusion_proof_sound_witness:
  "(0::nat) < 2 \<and> replicate 32 (1::byte) = [replicate 32 1, replicate 32 2] ! 0"
proof -
  let ?hs = "[replicate 32 (1::byte), replicate 32 2]"
  have k: "largest_power_of_two_less_than 2 = 1"
    by (simp add: largest_power_of_two_less_than_def leading_zeros_def)
  have k': "largest_power_of_two_less_than (Suc (Suc 0)) = Suc 0" using k by (simp add: numeral_2_eq_2)
  have root: "compute_root_from_hashes toy_digest ?hs = node_hash toy_digest (?hs ! 0) (?hs ! 1)"
    by (simp add: root_split k' root_single)
  have ev: "evaluate_proof_path toy_digest (?hs ! 0) 0 2 [?hs ! 1] 0 = Inr (node_hash toy_digest (?hs ! 0) (?hs ! 1))"
    using evaluate_rev_Cons[of 2 1 toy_digest "?hs ! 0" 0 "?hs ! 1" "[]"] k
    by (simp add: evaluate_single[simplified])
  have "0 < length ?hs \<and> ?hs ! 0 = ?hs ! 0"
  proof (rule inclusion_proof_sound[where H = toy_digest and steps = "[?hs ! 1]"])
    show "inj_on toy_digest (set (tree_preimages toy_digest ?hs) \<union>
        set (path_preimages toy_digest (?hs ! 0) 0 (length ?hs) (rev [?hs ! 1])))"
      by (simp add: tree_preimages.simps[of _ ?hs] tree_preimages.simps[of _ "[x]" for x] k'
          root_single evaluate_single[simplified])
    show "verify_inclusion_proof toy_digest (?hs ! 0) 0 (length ?hs) [?hs ! 1]
        (compute_root_from_hashes toy_digest ?hs) = Inr True"
      using ev root by (simp add: verify_inclusion_proof_def numeral_2_eq_2)
  qed (simp_all add: length_toy_digest)
  then show ?thesis by simp
qed

section \<open>Leaf encodings\<close>

lemma length_u16_be [simp]: "length (u16_be w) = 2"
  by (simp add: u16_be_def)

lemma u16_be_inject [simp]: "u16_be v = u16_be w \<longleftrightarrow> v = w"
proof
  assume "u16_be v = u16_be w"
  then have "unat (ucast (drop_bit 8 v) :: byte) = unat (ucast (drop_bit 8 w) :: byte)"
    and "unat (ucast v :: byte) = unat (ucast w :: byte)"
    by (simp_all add: u16_be_def)
  then have "unat v div 256 mod 256 = unat w div 256 mod 256" and "unat v mod 256 = unat w mod 256"
    by (simp_all add: unsigned_ucast_eq take_bit_eq_mod drop_bit_eq_div unat_div)
  moreover have "unat v < 65536" and "unat w < 65536"
    using unsigned_less[of v] unsigned_less[of w] by simp_all
  ultimately have "unat v div 256 = unat w div 256" and "unat v mod 256 = unat w mod 256"
    by (simp_all add: less_mult_imp_div_less)
  then have "unat v = unat w" by (metis div_mult_mod_eq)
  then show "v = w" by (rule word_unat_eq_iff[THEN iffD2])
qed simp

lemma len_u16_inject:
  assumes "length xs < 2 ^ 16" and "length ys < 2 ^ 16"
  shows "len_u16 xs = len_u16 ys \<longleftrightarrow> length xs = length ys"
proof -
  have "unat (len_u16 zs) = length zs" if "length zs < 2 ^ 16" for zs
    using that by (simp add: len_u16_def unat_of_nat)
  with assms show ?thesis by (metis len_u16_def)
qed

lemma framed_append_inject:
  assumes "length xs < 2 ^ 16" and "length ys < 2 ^ 16"
  shows "u16_be (len_u16 xs) @ xs @ xs' = u16_be (len_u16 ys) @ ys @ ys' \<longleftrightarrow> xs = ys \<and> xs' = ys'"
proof
  assume eq: "u16_be (len_u16 xs) @ xs @ xs' = u16_be (len_u16 ys) @ ys @ ys'"
  then have "u16_be (len_u16 xs) = u16_be (len_u16 ys)" and rest: "xs @ xs' = ys @ ys'"
    by (simp_all add: append_eq_append_conv)
  then have "length xs = length ys" using len_u16_inject[OF assms] by simp
  with rest show "xs = ys \<and> xs' = ys'" by simp
qed simp

text \<open>
  Leaf serialisations are unambiguous: below the 64 KiB that the two-byte length
  carries, equal bytes mean equal fields, for user leaves and for bot leaves, and no user
  leaf has the bytes of a bot leaf.
\<close>

theorem leaf_serialization_injective:
  assumes "length u < 2 ^ 16" and "length k < 2 ^ 16" and "length u' < 2 ^ 16" and "length k' < 2 ^ 16"
    and "length c' < 2 ^ 16" and "length u'' < 2 ^ 16" and "length k'' < 2 ^ 16" and "length c'' < 2 ^ 16"
  shows "(serialize_leaf u k = serialize_leaf u' k' \<longleftrightarrow> u = u' \<and> k = k') \<and>
         (serialize_bot_leaf u' c' k' = serialize_bot_leaf u'' c'' k'' \<longleftrightarrow>
            u' = u'' \<and> c' = c'' \<and> k' = k'') \<and>
         serialize_leaf u k \<noteq> serialize_bot_leaf u' c' k'"
proof (intro conjI)
  show "serialize_leaf u k = serialize_leaf u' k' \<longleftrightarrow> u = u' \<and> k = k'"
    using framed_append_inject[OF assms(1,3)] framed_append_inject[OF assms(2,4), of "[]" "[]"]
    by (simp add: serialize_leaf_def)
  show "serialize_bot_leaf u' c' k' = serialize_bot_leaf u'' c'' k'' \<longleftrightarrow> u' = u'' \<and> c' = c'' \<and> k' = k''"
    using framed_append_inject[OF assms(3,6)] framed_append_inject[OF assms(5,8)]
      framed_append_inject[OF assms(4,7), of "[]" "[]"]
    by (simp add: serialize_bot_leaf_def)
  show "serialize_leaf u k \<noteq> serialize_bot_leaf u' c' k'"
    using framed_append_inject[OF assms(1,3)] framed_append_inject[OF assms(2,5), of "[]"]
    by (auto simp: serialize_leaf_def serialize_bot_leaf_def u16_be_def)
qed

theorem leaf_serialization_injective_witness:
  "(serialize_leaf [1] [2] = serialize_leaf [3] [4] \<longleftrightarrow> [1] = [3::byte] \<and> [2] = [4::byte]) \<and>
   (serialize_bot_leaf [3] [5] [4] = serialize_bot_leaf [6] [8] [7] \<longleftrightarrow>
      [3] = [6::byte] \<and> [5] = [8::byte] \<and> [4] = [7::byte]) \<and>
   serialize_leaf [1] [2] \<noteq> serialize_bot_leaf [3] [5] [4]"
  by (rule leaf_serialization_injective) simp_all

end
