(* ===== verification/KeyTransparency.thy ===== *)
theory KeyTransparency
  imports SyncSeq Merkle
begin

text \<open>
  The key transparency log around the tree of \<open>Merkle\<close>: the leaves that registration and
  the bot routes append (\<open>server/src/routes/register.rs\<close>,
  \<open>server/src/key_transparency/log.rs\<close>), the signed snapshots
  (\<open>server/src/key_transparency/snapshot.rs\<close>) and the four read routes
  (\<open>server/src/routes/key_transparency.rs\<close>).

  The signing key (\<open>ed25519_dalek\<close>, \<open>hkdf\<close>) and SHA-256 are arguments.  Hashes, signatures
  and keys in the answers are the bytes themselves; the code base64url-encodes the former.
  The outcome of authenticating the caller is decided before the handler's body or, for the
  two bot routes, is the argument \<open>caller\<close>.
\<close>

section \<open>Appending leaves\<close>

text \<open>A new rowid is one more than the largest in the table.\<close>

definition next_leaf_index :: "db \<Rightarrow> int" where
  "next_leaf_index db = fold max (map kt_leaf_index (key_transparency_log db)) 0 + 1"

definition initial_identity_pubkey :: bytes where
  "initial_identity_pubkey = []"

text \<open>The insert of \<open>register_finish_handler\<close>, which follows the insert of the user.\<close>

definition user_leaf_row :: "(bytes \<Rightarrow> bytes) \<Rightarrow> int \<Rightarrow> id \<Rightarrow> bytes \<Rightarrow> time \<Rightarrow> kt_row" where
  "user_leaf_row H leaf_index user_id username_token now =
     \<lparr>kt_leaf_index = leaf_index, kt_user_id = Some user_id, kt_bot_id = None,
      kt_username_token = Some username_token, kt_bot_identity_pubkey = None,
      kt_identity_pubkey = Some initial_identity_pubkey, kt_command_pubkey = None,
      kt_leaf_hash = Some (leaf_hash H username_token initial_identity_pubkey),
      kt_added_at = current_timestamp now\<rparr>"

definition append_user_leaf ::
  "(bytes \<Rightarrow> bytes) \<Rightarrow> bool \<Rightarrow> id \<Rightarrow> bytes \<Rightarrow> time \<Rightarrow> db \<Rightarrow> db option"
where
  "append_user_leaf H key_transparency_enabled user_id username_token now db =
     (if key_transparency_enabled then
        if user_exists db user_id then
          Some (db\<lparr>key_transparency_log := key_transparency_log db @
            [user_leaf_row H (next_leaf_index db) user_id username_token now]\<rparr>)
        else None
      else Some db)"

definition current_bot_leaf_index :: "db \<Rightarrow> id \<Rightarrow> int option" where
  "current_bot_leaf_index db bot_id =
     map_option kt_leaf_index
       (max_row kt_leaf_index
         (filter (\<lambda>r. kt_bot_id r = Some bot_id) (key_transparency_log db)))"

definition bot_leaf_row ::
  "(bytes \<Rightarrow> bytes) \<Rightarrow> int \<Rightarrow> id \<Rightarrow> bytes \<Rightarrow> bytes \<Rightarrow> bytes \<Rightarrow> time \<Rightarrow> kt_row"
where
  "bot_leaf_row H leaf_index bot_id bot_identity_pubkey command_pubkey identity_pubkey now =
     \<lparr>kt_leaf_index = leaf_index, kt_user_id = None, kt_bot_id = Some bot_id,
      kt_username_token = None, kt_bot_identity_pubkey = Some bot_identity_pubkey,
      kt_identity_pubkey = Some identity_pubkey, kt_command_pubkey = Some command_pubkey,
      kt_leaf_hash = Some (bot_leaf_hash H bot_identity_pubkey command_pubkey identity_pubkey),
      kt_added_at = current_timestamp now\<rparr>"

definition append_bot_leaf ::
  "(bytes \<Rightarrow> bytes) \<Rightarrow> id \<Rightarrow> bytes \<Rightarrow> bytes \<Rightarrow> bytes \<Rightarrow> time \<Rightarrow> db \<Rightarrow> (int \<times> db) option"
where
  "append_bot_leaf H bot_id bot_identity_pubkey command_pubkey identity_pubkey now db =
     (if exists_where (\<lambda>b. b_id b = bot_id) (bot_accounts db) then
        let leaf_index = next_leaf_index db in
        Some (leaf_index, db\<lparr>key_transparency_log := key_transparency_log db @
          [bot_leaf_row H leaf_index bot_id bot_identity_pubkey command_pubkey identity_pubkey now]\<rparr>)
      else None)"

section \<open>Snapshots\<close>

record snapshot_view =
  sv_id :: id
  sv_tree_size :: int
  sv_root_hash :: bytes
  sv_signature :: bytes
  sv_created_at :: time

datatype snapshot_error =
    Disabled
  | KeyDerivation string
  | SnapshotDatabase

text \<open>\<open>u64::to_be_bytes\<close>.\<close>

definition u64_be :: "64 word \<Rightarrow> bytes" where
  "u64_be w = map (\<lambda>i. ucast (drop_bit (8 * (7 - i)) w)) [0..<8]"

definition format_signing_input :: "64 word \<Rightarrow> bytes \<Rightarrow> bytes" where
  "format_signing_input tree_size root_hash = u64_be tree_size @ root_hash"

definition log_rows :: "db \<Rightarrow> kt_row list" where
  "log_rows db = sort_key kt_leaf_index (key_transparency_log db)"

text \<open>The query reads both columns into a \<open>String\<close>, whatever the kind of the leaf.\<close>

definition snapshot_leaves :: "kt_row list \<Rightarrow> log_leaf list" where
  "snapshot_leaves rows =
     map (\<lambda>r. \<lparr>ll_username_token = null_text (kt_username_token r),
               ll_identity_pubkey = null_text (kt_identity_pubkey r)\<rparr>) rows"

text \<open>
  The fan-out gives every user whose account is not deleted its next sequence number, each
  in a transaction of its own, and goes on with the next user when that fails.
\<close>

fun fan_out_snapshot :: "json \<Rightarrow> time \<Rightarrow> id list \<Rightarrow> db \<Rightarrow> db \<times> event list" where
  "fan_out_snapshot payload now [] db = (db, [])"
| "fan_out_snapshot payload now (user_id # us) db =
     (case allocate_user_seq db user_id of
        None \<Rightarrow> fan_out_snapshot payload now us db
      | Some (user_seq, db') \<Rightarrow>
          (case fan_out_snapshot payload now us db' of
             (db'', evs) \<Rightarrow>
               (db'', publish_user_event user_id (new_envelope ''kt.snapshot'' user_seq payload now) # evs)))"

definition create_snapshot ::
  "(bytes \<Rightarrow> bytes) \<Rightarrow> bool \<Rightarrow> string + bytes \<Rightarrow> (bytes \<Rightarrow> bytes \<Rightarrow> bytes) \<Rightarrow> (bytes \<Rightarrow> string) \<Rightarrow>
   id option \<Rightarrow> id \<Rightarrow> id \<Rightarrow> time \<Rightarrow> db \<Rightarrow> snapshot_error + (snapshot_view \<times> db \<times> event list)"
where
  "create_snapshot H key_transparency_enabled derived sign b64 actor_id snapshot_id audit_id now db =
     (if \<not> key_transparency_enabled then Inl Disabled
      else
        (case derived of
           Inl e \<Rightarrow> Inl (KeyDerivation e)
         | Inr signing_key \<Rightarrow>
             (let leaves = snapshot_leaves (log_rows db);
                  tree_size = length leaves;
                  root_hash = compute_root H leaves;
                  signing_input = format_signing_input (of_nat tree_size) root_hash;
                  signature = sign signing_key signing_input;
                  created_at = current_timestamp now in
              (case insert_row sn_id
                      \<lparr>sn_id = snapshot_id, sn_tree_size = int tree_size, sn_root_hash = root_hash,
                       sn_signature = Some signature, sn_created_at = created_at\<rparr>
                      (key_transparency_snapshots db) of
                 None \<Rightarrow> Inl SnapshotDatabase
               | Some snapshots \<Rightarrow>
                   (let db1 = audit actor_id ''kt.snapshot'' (Some ''key_transparency_snapshots'')
                          (Some snapshot_id) (Some (JObject [(''tree_size'', JInt (int tree_size))]))
                          audit_id now (db\<lparr>key_transparency_snapshots := snapshots\<rparr>);
                        user_ids = map u_id (filter (\<lambda>u. u_deleted_at u = None) (users db1));
                        event_payload = JObject
                          [(''tree_size'', JInt (int tree_size)),
                           (''root_hash'', JString (b64 root_hash)),
                           (''created_at'', JTime created_at)] in
                    (case fan_out_snapshot event_payload now user_ids db1 of
                       (db2, evs) \<Rightarrow>
                         Inr (\<lparr>sv_id = snapshot_id, sv_tree_size = int tree_size, sv_root_hash = root_hash,
                               sv_signature = signature, sv_created_at = created_at\<rparr>, db2, evs)))))))"

section \<open>The read routes\<close>

datatype kt_error =
    KtNotFound string
  | KtInternal merkle_error
  | KtUnauthorized

record kt_tree_head =
  th_id :: "id option"
  th_tree_size :: int
  th_root_hash :: bytes
  th_signature :: "bytes option"
  th_created_at :: time

record user_kt_response =
  uk_user_id :: id
  uk_leaf_index :: int
  uk_leaf_hash :: bytes
  uk_identity_pubkey :: bytes
  uk_inclusion_proof :: "bytes list"
  uk_tree_head :: kt_tree_head

record bot_kt_response =
  bk_bot_id :: id
  bk_leaf_index :: int
  bk_leaf_hash :: bytes
  bk_bot_identity_pubkey :: bytes
  bk_bot_command_pubkey :: bytes
  bk_identity_pubkey :: bytes
  bk_inclusion_proof :: "bytes list"
  bk_tree_head :: kt_tree_head

record bot_kt_history_entry =
  bh_leaf_index :: int
  bh_leaf_hash :: bytes
  bh_bot_identity_pubkey :: bytes
  bh_bot_command_pubkey :: bytes
  bh_identity_pubkey :: bytes
  bh_added_at :: time

record kt_snapshot_response =
  ks_tree_size :: int
  ks_root_hash :: bytes
  ks_signature :: "bytes option"
  ks_created_at :: time

definition zero_hash :: bytes where
  "zero_hash = replicate 32 0"

definition option_or_empty :: "bytes option \<Rightarrow> bytes" where
  "option_or_empty x = (case x of None \<Rightarrow> [] | Some b \<Rightarrow> b)"

text \<open>The hash of a row without a stored hash of 32 bytes.\<close>

definition recomputed_hash :: "(bytes \<Rightarrow> bytes) \<Rightarrow> kt_row \<Rightarrow> bytes" where
  "recomputed_hash H row =
     (case (kt_username_token row, kt_identity_pubkey row) of
        (Some token, Some pubkey) \<Rightarrow>
          if kt_user_id row \<noteq> None then leaf_hash H token pubkey else zero_hash
      | _ \<Rightarrow>
          (case (kt_bot_identity_pubkey row, kt_command_pubkey row, kt_identity_pubkey row) of
             (Some b_pub, Some c_pub, Some i_pub) \<Rightarrow> bot_leaf_hash H b_pub c_pub i_pub
           | _ \<Rightarrow> zero_hash))"

definition row_hash :: "(bytes \<Rightarrow> bytes) \<Rightarrow> kt_row \<Rightarrow> bytes" where
  "row_hash H row =
     (case kt_leaf_hash row of
        Some lh \<Rightarrow> if length lh = 32 then lh else recomputed_hash H row
      | None \<Rightarrow> recomputed_hash H row)"

text \<open>
  The loop over \<open>rows.iter().enumerate()\<close>: every row pushes its hash, and each row that
  belongs to the target replaces the ones found before it.
\<close>

fun scan_leaves ::
  "(bytes \<Rightarrow> bytes) \<Rightarrow> (kt_row \<Rightarrow> id option) \<Rightarrow> id \<Rightarrow> nat \<Rightarrow> (nat \<times> kt_row \<times> bytes) option \<Rightarrow>
   kt_row list \<Rightarrow> (nat \<times> kt_row \<times> bytes) option \<times> bytes list"
where
  "scan_leaves H owner target idx found [] = (found, [])"
| "scan_leaves H owner target idx found (row # rows) =
     (let hash = row_hash H row;
          found' = (if owner row = Some target then Some (idx, row, hash) else found) in
      (case scan_leaves H owner target (Suc idx) found' rows of
         (f, leaf_hashes) \<Rightarrow> (f, hash # leaf_hashes)))"

text \<open>\<open>ORDER BY created_at DESC, id DESC LIMIT 1\<close>.\<close>

definition latest_snapshot :: "db \<Rightarrow> snapshot_row option" where
  "latest_snapshot db = max_row (\<lambda>s. (sn_created_at s, sn_id s)) (key_transparency_snapshots db)"

definition current_tree_head :: "db \<Rightarrow> int \<Rightarrow> bytes \<Rightarrow> time \<Rightarrow> kt_tree_head" where
  "current_tree_head db current_tree_size root_hash now =
     (let unsigned = \<lparr>th_id = None, th_tree_size = current_tree_size, th_root_hash = root_hash,
                      th_signature = None, th_created_at = now\<rparr> in
      (case latest_snapshot db of
         Some row \<Rightarrow>
           if sn_tree_size row = current_tree_size
           then \<lparr>th_id = Some (sn_id row), th_tree_size = sn_tree_size row,
                 th_root_hash = sn_root_hash row, th_signature = sn_signature row,
                 th_created_at = sn_created_at row\<rparr>
           else unsigned
       | None \<Rightarrow> unsigned))"

definition get_user_kt_handler ::
  "(bytes \<Rightarrow> bytes) \<Rightarrow> bool \<Rightarrow> id \<Rightarrow> time \<Rightarrow> db \<Rightarrow> kt_error + user_kt_response"
where
  "get_user_kt_handler H key_transparency_enabled target_user_id now db =
     (if \<not> key_transparency_enabled then Inl (KtNotFound ''key_transparency_disabled'')
      else
        (case scan_leaves H kt_user_id target_user_id 0 None (log_rows db) of
           (None, leaf_hashes) \<Rightarrow> Inl (KtNotFound ''user_not_found'')
         | (Some (pos, row, hash), leaf_hashes) \<Rightarrow>
             (case generate_inclusion_proof_from_hashes H leaf_hashes pos of
                Inl e \<Rightarrow> Inl (KtInternal e)
              | Inr proof' \<Rightarrow>
                  Inr \<lparr>uk_user_id = target_user_id, uk_leaf_index = kt_leaf_index row,
                       uk_leaf_hash = hash,
                       uk_identity_pubkey = option_or_empty (kt_identity_pubkey row),
                       uk_inclusion_proof = proof',
                       uk_tree_head = current_tree_head db (int (length leaf_hashes))
                         (compute_root_from_hashes H leaf_hashes) now\<rparr>)))"

definition get_bot_kt_handler ::
  "(bytes \<Rightarrow> bytes) \<Rightarrow> bool \<Rightarrow> kt_error + 'caller \<Rightarrow> id \<Rightarrow> time \<Rightarrow> db \<Rightarrow> kt_error + bot_kt_response"
where
  "get_bot_kt_handler H key_transparency_enabled caller target_bot_id now db =
     (if \<not> key_transparency_enabled then Inl (KtNotFound ''key_transparency_disabled'')
      else
        (case caller of
           Inl e \<Rightarrow> Inl e
         | Inr _ \<Rightarrow>
             (case scan_leaves H kt_bot_id target_bot_id 0 None (log_rows db) of
                (None, leaf_hashes) \<Rightarrow> Inl (KtNotFound ''bot_not_found'')
              | (Some (pos, row, hash), leaf_hashes) \<Rightarrow>
                  (case generate_inclusion_proof_from_hashes H leaf_hashes pos of
                     Inl e \<Rightarrow> Inl (KtInternal e)
                   | Inr proof' \<Rightarrow>
                       Inr \<lparr>bk_bot_id = target_bot_id, bk_leaf_index = kt_leaf_index row,
                            bk_leaf_hash = hash,
                            bk_bot_identity_pubkey = option_or_empty (kt_bot_identity_pubkey row),
                            bk_bot_command_pubkey = option_or_empty (kt_command_pubkey row),
                            bk_identity_pubkey = option_or_empty (kt_identity_pubkey row),
                            bk_inclusion_proof = proof',
                            bk_tree_head = current_tree_head db (int (length leaf_hashes))
                              (compute_root_from_hashes H leaf_hashes) now\<rparr>))))"

definition history_entry :: "(bytes \<Rightarrow> bytes) \<Rightarrow> kt_row \<Rightarrow> bot_kt_history_entry" where
  "history_entry H row =
     (let b_pub = option_or_empty (kt_bot_identity_pubkey row);
          c_pub = option_or_empty (kt_command_pubkey row);
          i_pub = option_or_empty (kt_identity_pubkey row);
          hash_bytes =
            (case kt_leaf_hash row of
               Some lh \<Rightarrow> if length lh = 32 then lh else bot_leaf_hash H b_pub c_pub i_pub
             | None \<Rightarrow> bot_leaf_hash H b_pub c_pub i_pub) in
      \<lparr>bh_leaf_index = kt_leaf_index row, bh_leaf_hash = hash_bytes, bh_bot_identity_pubkey = b_pub,
       bh_bot_command_pubkey = c_pub, bh_identity_pubkey = i_pub, bh_added_at = kt_added_at row\<rparr>)"

definition get_bot_kt_history_handler ::
  "(bytes \<Rightarrow> bytes) \<Rightarrow> bool \<Rightarrow> kt_error + 'caller \<Rightarrow> id \<Rightarrow> db \<Rightarrow>
   kt_error + (id \<times> bot_kt_history_entry list)"
where
  "get_bot_kt_history_handler H key_transparency_enabled caller target_bot_id db =
     (if \<not> key_transparency_enabled then Inl (KtNotFound ''key_transparency_disabled'')
      else
        (case caller of
           Inl e \<Rightarrow> Inl e
         | Inr _ \<Rightarrow>
             (let rows = filter (\<lambda>r. kt_bot_id r = Some target_bot_id) (log_rows db) in
              if rows = [] then Inl (KtNotFound ''bot_not_found'')
              else Inr (target_bot_id, map (history_entry H) rows))))"

definition get_kt_snapshot_handler :: "bool \<Rightarrow> db \<Rightarrow> kt_error + kt_snapshot_response" where
  "get_kt_snapshot_handler key_transparency_enabled db =
     (if \<not> key_transparency_enabled then Inl (KtNotFound ''key_transparency_disabled'')
      else
        (case latest_snapshot db of
           None \<Rightarrow> Inl (KtNotFound ''snapshot_not_found'')
         | Some row \<Rightarrow>
             Inr \<lparr>ks_tree_size = sn_tree_size row, ks_root_hash = sn_root_hash row,
                  ks_signature = sn_signature row, ks_created_at = sn_created_at row\<rparr>))"

section \<open>The interface of an inclusion scheme\<close>

text \<open>
  What the routes need of a Merkle tree: a proof for every leaf, which the checker accepts
  against the root of the same leaves, and no other index.
\<close>

locale inclusion_scheme =
  fixes root :: "'h list \<Rightarrow> 'h"
    and prove :: "'h list \<Rightarrow> nat \<Rightarrow> 'e + 'h list"
    and check :: "'h \<Rightarrow> nat \<Rightarrow> nat \<Rightarrow> 'h list \<Rightarrow> 'h \<Rightarrow> 'e + bool"
  assumes prove_check: "i < length hs \<Longrightarrow>
      \<exists>p. prove hs i = Inr p \<and> check (hs ! i) i (length hs) p (root hs) = Inr True"
    and prove_bounds: "prove hs i = Inr p \<Longrightarrow> i < length hs"
begin

lemma proof_accepted:
  assumes "prove hs i = Inr p"
  shows "i < length hs \<and> check (hs ! i) i (length hs) p (root hs) = Inr True"
  using prove_bounds[OF assms] prove_check[of i hs] assms by auto

lemma prove_not_Inl: "i < length hs \<Longrightarrow> prove hs i \<noteq> Inl e"
  using prove_check[of i hs] by auto

end

interpretation merkle_tree: inclusion_scheme
  "compute_root_from_hashes H" "generate_inclusion_proof_from_hashes H" "verify_inclusion_proof H"
  for H :: "bytes \<Rightarrow> bytes"
proof unfold_locales
  fix i :: nat and hs :: "bytes list"
  assume i: "i < length hs"
  from generate_total[OF i] obtain p where p: "generate_inclusion_proof_from_hashes H hs i = Inr p" by blast
  from evaluate_generated[OF p, of "[]"] i p
  show "\<exists>p. generate_inclusion_proof_from_hashes H hs i = Inr p \<and>
      verify_inclusion_proof H (hs ! i) i (length hs) p (compute_root_from_hashes H hs) = Inr True"
    by (auto simp: verify_inclusion_proof_def)
next
  fix hs i p
  assume "generate_inclusion_proof_from_hashes H hs i = Inr p"
  then show "i < length hs"
    by (subst (asm) generate_inclusion_proof_from_hashes.simps) (auto simp: Let_def split: if_splits)
qed

section \<open>What the scan finds\<close>

lemma scan_hashes [simp]: "snd (scan_leaves H owner target idx found rows) = map (row_hash H) rows"
  by (induction rows arbitrary: idx found) (auto simp: Let_def split: prod.splits dest: arg_cong[where f = snd])

lemma scan_found_None:
  "fst (scan_leaves H owner target idx found rows) = None \<longleftrightarrow>
     found = None \<and> (\<forall>r \<in> set rows. owner r \<noteq> Some target)"
proof (induction rows arbitrary: idx found)
  case (Cons r rows)
  show ?case
    using Cons[of "Suc idx" "if owner r = Some target then Some (idx, r, row_hash H r) else found"]
    by (auto simp: Let_def split: prod.splits if_splits)
qed simp

text \<open>The row found is the last one of the target.\<close>

lemma scan_found_Some:
  assumes "fst (scan_leaves H owner target idx found rows) = Some (pos, row, hash)"
  shows "(found = Some (pos, row, hash) \<and> (\<forall>r \<in> set rows. owner r \<noteq> Some target)) \<or>
    (\<exists>i < length rows. pos = idx + i \<and> row = rows ! i \<and> hash = row_hash H row \<and>
       owner row = Some target \<and> (\<forall>j < length rows. i < j \<longrightarrow> owner (rows ! j) \<noteq> Some target))"
  using assms
proof (induction rows arbitrary: idx found)
  case (Cons r rows)
  let ?found = "if owner r = Some target then Some (idx, r, row_hash H r) else found"
  from Cons.prems have "fst (scan_leaves H owner target (Suc idx) ?found rows) = Some (pos, row, hash)"
    by (auto simp: Let_def split: prod.splits if_splits)
  from Cons.IH[OF this] show ?case
  proof (elim disjE conjE exE)
    assume f: "?found = Some (pos, row, hash)" and no: "\<forall>r \<in> set rows. owner r \<noteq> Some target"
    show ?thesis
    proof (cases "owner r = Some target")
      case True
      with f have "pos = idx" "row = r" "hash = row_hash H row" by auto
      with True no show ?thesis
        by (intro disjI2 exI[of _ 0]) (auto simp: nth_Cons split: nat.splits)
    next
      case False
      with f no show ?thesis by auto
    qed
  next
    fix i
    assume "i < length rows" "pos = Suc idx + i" "row = rows ! i" "hash = row_hash H row"
      "owner row = Some target" "\<forall>j < length rows. i < j \<longrightarrow> owner (rows ! j) \<noteq> Some target"
    then show ?thesis
      by (intro disjI2 exI[of _ "Suc i"]) (auto simp: nth_Cons split: nat.splits)
  qed
qed simp

lemma scan_result:
  "scan_leaves H owner target 0 None rows = (found, leaf_hashes) \<Longrightarrow>
     leaf_hashes = map (row_hash H) rows \<and>
     (found = None \<longleftrightarrow> (\<forall>r \<in> set rows. owner r \<noteq> Some target)) \<and>
     (\<forall>pos row hash. found = Some (pos, row, hash) \<longrightarrow>
        pos < length rows \<and> row = rows ! pos \<and> hash = leaf_hashes ! pos \<and> owner row = Some target \<and>
        (\<forall>j < length rows. pos < j \<longrightarrow> owner (rows ! j) \<noteq> Some target))"
  using scan_hashes[of H owner target 0 None rows] scan_found_None[of H owner target 0 None rows]
    scan_found_Some[of H owner target 0 None rows]
  by fastforce

lemma not_in_drop:
  assumes "\<forall>j < length xs. p < j \<longrightarrow> f (xs ! j) \<noteq> a"
  shows "a \<notin> f ` set (drop (Suc p) xs)"
proof
  assume "a \<in> f ` set (drop (Suc p) xs)"
  then obtain i where "i < length xs - Suc p" "a = f (drop (Suc p) xs ! i)"
    by (auto simp: in_set_conv_nth)
  then have "Suc p + i < length xs" "f (xs ! (Suc p + i)) = a" by auto
  with assms show False by (metis less_add_Suc1 add_Suc)
qed

lemma set_log_rows [simp]: "set (log_rows db) = set (key_transparency_log db)"
  by (simp add: log_rows_def)

definition head_is_current :: "db \<Rightarrow> int \<Rightarrow> bytes \<Rightarrow> kt_tree_head \<Rightarrow> bool" where
  "head_is_current db tree_size root_hash head \<longleftrightarrow>
     th_tree_size head = tree_size \<and>
     (case th_id head of
        None \<Rightarrow> th_root_hash head = root_hash \<and> th_signature head = None
      | Some i \<Rightarrow> \<exists>s \<in> set (key_transparency_snapshots db). sn_id s = i \<and> sn_tree_size s = tree_size \<and>
          th_root_hash head = sn_root_hash s \<and> th_signature head = sn_signature s)"

lemma head_is_current: "head_is_current db n h (current_tree_head db n h now)"
  by (auto simp: head_is_current_def current_tree_head_def latest_snapshot_def Let_def
      dest: max_row_SomeD split: option.splits)

lemma served_user_proof_verifies_aux:
  "case get_user_kt_handler H enabled user_id now db of
     Inl e \<Rightarrow>
       (if enabled
        then e = KtNotFound ''user_not_found'' \<and> Some user_id \<notin> kt_user_id ` set (key_transparency_log db)
        else e = KtNotFound ''key_transparency_disabled'')
   | Inr resp \<Rightarrow>
       enabled \<and>
       (\<exists>pos < length (log_rows db).
          kt_user_id (log_rows db ! pos) = Some user_id \<and>
          Some user_id \<notin> kt_user_id ` set (drop (Suc pos) (log_rows db)) \<and>
          uk_leaf_index resp = kt_leaf_index (log_rows db ! pos) \<and>
          uk_leaf_hash resp = row_hash H (log_rows db ! pos) \<and>
          uk_identity_pubkey resp = option_or_empty (kt_identity_pubkey (log_rows db ! pos)) \<and>
          verify_inclusion_proof H (uk_leaf_hash resp) pos (length (log_rows db)) (uk_inclusion_proof resp)
            (compute_root_from_hashes H (map (row_hash H) (log_rows db))) = Inr True \<and>
          uk_tree_head resp = current_tree_head db (int (length (log_rows db)))
            (compute_root_from_hashes H (map (row_hash H) (log_rows db))) now)"
proof (cases "enabled")
  case True
  obtain found leaf_hashes where scan: "scan_leaves H kt_user_id user_id 0 None (log_rows db) = (found, leaf_hashes)"
    by fastforce
  note r = scan_result[OF scan]
  show ?thesis
  proof (cases found)
    case None
    with scan r True show ?thesis by (auto simp: get_user_kt_handler_def)
  next
    case (Some f)
    obtain pos row hash where f: "f = (pos, row, hash)" by (cases f)
    with Some r have pos: "pos < length leaf_hashes" "leaf_hashes = map (row_hash H) (log_rows db)"
      and row: "row = log_rows db ! pos" "hash = leaf_hashes ! pos" "kt_user_id row = Some user_id"
      and last: "\<forall>j < length (log_rows db). pos < j \<longrightarrow> kt_user_id (log_rows db ! j) \<noteq> Some user_id"
      by auto
    obtain p where p: "generate_inclusion_proof_from_hashes H leaf_hashes pos = Inr p"
      using merkle_tree.prove_check[OF pos(1), of H] by blast
    have "Some user_id \<notin> kt_user_id ` set (drop (Suc pos) (log_rows db))"
      using last by (rule not_in_drop)
    with scan Some f True p row pos merkle_tree.proof_accepted[OF p] show ?thesis
      by (auto simp: get_user_kt_handler_def intro!: exI[of _ pos])
  qed
qed (simp add: get_user_kt_handler_def)

text \<open>
  The user route answers exactly for the users with a leaf in the log, and its answer
  is about the last of their leaves: the hash, the index and the key are that row's, and
  the published checker accepts the proof, at that position, against the root over all the
  leaves; the head has the tree's size and is either unsigned, with that very root, or a
  stored snapshot of that size.
\<close>

theorem served_user_proof_verifies:
  "case get_user_kt_handler H enabled user_id now db of
     Inl e \<Rightarrow>
       (if enabled
        then e = KtNotFound ''user_not_found'' \<and> Some user_id \<notin> kt_user_id ` set (key_transparency_log db)
        else e = KtNotFound ''key_transparency_disabled'')
   | Inr resp \<Rightarrow>
       enabled \<and>
       (\<exists>pos < length (log_rows db).
          kt_user_id (log_rows db ! pos) = Some user_id \<and>
          Some user_id \<notin> kt_user_id ` set (drop (Suc pos) (log_rows db)) \<and>
          uk_leaf_index resp = kt_leaf_index (log_rows db ! pos) \<and>
          uk_leaf_hash resp = row_hash H (log_rows db ! pos) \<and>
          uk_identity_pubkey resp = option_or_empty (kt_identity_pubkey (log_rows db ! pos)) \<and>
          verify_inclusion_proof H (uk_leaf_hash resp) pos (length (log_rows db)) (uk_inclusion_proof resp)
            (compute_root_from_hashes H (map (row_hash H) (log_rows db))) = Inr True \<and>
          head_is_current db (int (length (log_rows db)))
            (compute_root_from_hashes H (map (row_hash H) (log_rows db))) (uk_tree_head resp))"
  using served_user_proof_verifies_aux[where H = H and enabled = enabled and user_id = user_id and now = now and db = db]
  by (auto simp: head_is_current split: sum.splits)

section \<open>The log as a state machine\<close>

definition leaf_row_ok :: "(bytes \<Rightarrow> bytes) \<Rightarrow> kt_row \<Rightarrow> bool" where
  "leaf_row_ok H r =
     (case (kt_user_id r, kt_bot_id r) of
        (Some _, None) \<Rightarrow>
          (case (kt_username_token r, kt_identity_pubkey r) of
             (Some t, Some k) \<Rightarrow> kt_leaf_hash r = Some (leaf_hash H t k)
           | _ \<Rightarrow> False)
      | (None, Some _) \<Rightarrow>
          (case (kt_username_token r, kt_bot_identity_pubkey r, kt_command_pubkey r, kt_identity_pubkey r) of
             (None, Some b, Some c, Some k) \<Rightarrow> kt_leaf_hash r = Some (bot_leaf_hash H b c k)
           | _ \<Rightarrow> False)
      | _ \<Rightarrow> False)"

definition tree_hashes :: "(bytes \<Rightarrow> bytes) \<Rightarrow> db \<Rightarrow> bytes list" where
  "tree_hashes H db = map (row_hash H) (log_rows db)"

text \<open>What a snapshot hashes: every leaf as if it were a user's.\<close>

definition snapshot_hashes :: "(bytes \<Rightarrow> bytes) \<Rightarrow> db \<Rightarrow> bytes list" where
  "snapshot_hashes H db =
     map (\<lambda>r. leaf_hash H (null_text (kt_username_token r)) (null_text (kt_identity_pubkey r))) (log_rows db)"

definition snapshot_ok :: "(bytes \<Rightarrow> bytes) \<Rightarrow> db \<Rightarrow> snapshot_row \<Rightarrow> bool" where
  "snapshot_ok H db s \<longleftrightarrow>
     0 \<le> sn_tree_size s \<and> nat (sn_tree_size s) \<le> length (snapshot_hashes H db) \<and>
     sn_root_hash s = compute_root_from_hashes H (take (nat (sn_tree_size s)) (snapshot_hashes H db))"

text \<open>
  Rows carry the hash of their own fields, indexes increase in insertion order, and every
  snapshot ever signed is the root of a prefix of the log as snapshots hash it.
\<close>

definition log_ok :: "(bytes \<Rightarrow> bytes) \<Rightarrow> db \<Rightarrow> bool" where
  "log_ok H db \<longleftrightarrow>
     (\<forall>r \<in> set (key_transparency_log db). leaf_row_ok H r) \<and>
     sorted_wrt (<) (map kt_leaf_index (key_transparency_log db)) \<and>
     (\<forall>s \<in> set (key_transparency_snapshots db). snapshot_ok H db s)"

inductive kt_step :: "(bytes \<Rightarrow> bytes) \<Rightarrow> db \<Rightarrow> db \<Rightarrow> bool" for H where
  user_leaf: "append_user_leaf H enabled user_id username_token now db = Some db' \<Longrightarrow> kt_step H db db'"
| bot_leaf: "append_bot_leaf H bot_id bot_key command_key identity_key now db = Some (i, db') \<Longrightarrow> kt_step H db db'"
| snapshot: "create_snapshot H enabled derived sign b64 actor_id snapshot_id audit_id now db =
     Inr (view, db', evs) \<Longrightarrow> kt_step H db db'"

lemma fold_max_ge:
  fixes a :: int
  shows "a \<le> fold max xs a \<and> (\<forall>x \<in> set xs. x \<le> fold max xs a)"
  by (induction xs arbitrary: a) (auto, (meson max.bounded_iff)+)

lemma next_leaf_index_greater: "r \<in> set (key_transparency_log db) \<Longrightarrow> kt_leaf_index r < next_leaf_index db"
  using fold_max_ge[of 0 "map kt_leaf_index (key_transparency_log db)"]
  by (auto simp: next_leaf_index_def)

lemma row_hash_ok: "leaf_row_ok H r \<Longrightarrow> Some (row_hash H r) = kt_leaf_hash r"
  by (auto simp: leaf_row_ok_def row_hash_def recomputed_hash_def split: option.splits)

lemma log_rows_ok: "log_ok H db \<Longrightarrow> log_rows db = key_transparency_log db"
  by (auto simp: log_ok_def log_rows_def intro!: sort_key_id_if_sorted elim: sorted_wrt_mono_rel[rotated])

text \<open>Both inserts add one row at the end and touch no other table.\<close>

definition leaf_appended :: "(bytes \<Rightarrow> bytes) \<Rightarrow> db \<Rightarrow> kt_row \<Rightarrow> db \<Rightarrow> bool" where
  "leaf_appended H db r db' \<longleftrightarrow>
     db' = db\<lparr>key_transparency_log := key_transparency_log db @ [r]\<rparr> \<and>
     kt_leaf_index r = next_leaf_index db \<and> leaf_row_ok H r"

lemma leaf_appended_ok:
  assumes ok: "log_ok H db" and a: "leaf_appended H db r db'"
  shows "log_ok H db' \<and> log_rows db' = log_rows db @ [r]"
proof -
  have s: "sorted_wrt (<) (map kt_leaf_index (key_transparency_log db'))"
    using ok a by (auto simp: log_ok_def leaf_appended_def sorted_wrt_append next_leaf_index_greater)
  then have "sorted (map kt_leaf_index (key_transparency_log db'))"
    by (rule sorted_wrt_mono_rel[rotated]) simp
  then have rows: "log_rows db' = log_rows db @ [r]"
    using log_rows_ok[OF ok] a by (simp add: log_rows_def sort_key_id_if_sorted leaf_appended_def)
  then have "snapshot_ok H db' s" if "snapshot_ok H db s" for s
    using that by (auto simp: snapshot_ok_def snapshot_hashes_def)
  with ok a s rows show ?thesis by (auto simp: log_ok_def leaf_appended_def)
qed

lemma append_user_leaf_appended:
  "append_user_leaf H True user_id username_token now db = Some db' \<Longrightarrow>
     leaf_appended H db (user_leaf_row H (next_leaf_index db) user_id username_token now) db'"
  by (auto simp: append_user_leaf_def leaf_appended_def user_leaf_row_def leaf_row_ok_def split: if_splits)

lemma append_bot_leaf_appended:
  "append_bot_leaf H bot_id b c k now db = Some (i, db') \<Longrightarrow>
     leaf_appended H db (bot_leaf_row H i bot_id b c k now) db'"
  by (auto simp: append_bot_leaf_def leaf_appended_def bot_leaf_row_def leaf_row_ok_def Let_def
      split: if_splits)

lemma fan_out_frame: "fan_out_snapshot payload now us db = (db', evs) \<Longrightarrow> allocation_updates db db'"
proof (induction us arbitrary: db evs)
  case Nil
  then show ?case by (auto simp: allocation_updates_def intro: exI[of _ "user_seqs db"])
next
  case (Cons u us)
  show ?case
  proof (cases "allocate_user_seq db u")
    case None
    with Cons show ?thesis by simp
  next
    case (Some a)
    obtain n db1 where a: "a = (n, db1)" by (cases a)
    with Some Cons.prems obtain evs' where "fan_out_snapshot payload now us db1 = (db', evs')"
      by (auto split: prod.splits)
    from Cons.IH[OF this] allocate_user_seq_frame[OF Some[unfolded a]] show ?thesis
      by (auto simp: allocation_updates_def)
  qed
qed

lemma snapshot_leaves_hashes:
  "leaf_hashes_of H (snapshot_leaves (log_rows db)) = snapshot_hashes H db"
  "length (snapshot_leaves rows) = length rows"
  by (simp_all add: leaf_hashes_of_def snapshot_leaves_def snapshot_hashes_def)

lemma length_hashes: "length (snapshot_hashes H db) = length (tree_hashes H db)"
  by (simp add: snapshot_hashes_def tree_hashes_def)

text \<open>Without bot leaves, a snapshot hashes the tree that the proofs are served from.\<close>

lemma user_leaves_hashes:
  assumes "log_ok H db" and "None \<notin> kt_user_id ` set (key_transparency_log db)"
  shows "snapshot_hashes H db = tree_hashes H db"
  unfolding snapshot_hashes_def tree_hashes_def
proof (rule map_cong[OF refl])
  fix r assume r: "r \<in> set (log_rows db)"
  then have mem: "r \<in> set (key_transparency_log db)" by (simp add: log_rows_def)
  have "leaf_row_ok H r" using assms(1) mem by (simp add: log_ok_def)
  moreover have "kt_user_id r \<noteq> None"
  proof
    assume "kt_user_id r = None"
    then have "None \<in> kt_user_id ` set (key_transparency_log db)" using mem by force
    with assms(2) show False by simp
  qed
  ultimately have ok: "leaf_row_ok H r" "kt_user_id r \<noteq> None" by auto
  then show "leaf_hash H (null_text (kt_username_token r)) (null_text (kt_identity_pubkey r)) = row_hash H r"
    using row_hash_ok[OF ok(1)] by (auto simp: leaf_row_ok_def split: option.splits)
qed

text \<open>What a snapshot that succeeds stores and returns.\<close>

lemma create_snapshot_stores:
  assumes "create_snapshot H enabled derived sign b64 actor_id snapshot_id audit_id now db = Inr (view, db', evs)"
  obtains key s where "enabled" "derived = Inr key"
    "key_transparency_log db' = key_transparency_log db"
    "key_transparency_snapshots db' = key_transparency_snapshots db @ [s]"
    "sn_id s = snapshot_id" "snapshot_id \<notin> sn_id ` set (key_transparency_snapshots db)"
    "sn_tree_size s = int (length (snapshot_hashes H db))"
    "sn_root_hash s = compute_root_from_hashes H (snapshot_hashes H db)"
    "sn_signature s = Some (sign key
       (format_signing_input (of_nat (length (snapshot_hashes H db))) (sn_root_hash s)))"
    "sn_created_at s = current_timestamp now"
proof -
  obtain key where en: "enabled" and key: "derived = Inr key"
    using assms(1) by (auto simp: create_snapshot_def split: if_splits sum.splits)
  let ?leaves = "snapshot_leaves (log_rows db)"
  let ?s = "\<lparr>sn_id = snapshot_id, sn_tree_size = int (length ?leaves), sn_root_hash = compute_root H ?leaves,
      sn_signature = Some (sign key (format_signing_input (of_nat (length ?leaves)) (compute_root H ?leaves))),
      sn_created_at = current_timestamp now\<rparr>"
  have ins: "insert_row sn_id ?s (key_transparency_snapshots db) = Some (key_transparency_snapshots db @ [?s])"
    and fresh: "snapshot_id \<notin> sn_id ` set (key_transparency_snapshots db)"
    using assms(1) en key
    by (auto simp: create_snapshot_def Let_def insert_row_def split: if_splits)
  obtain payload us db1 evs' where fo: "fan_out_snapshot payload now us db1 = (db', evs')"
    and db1: "key_transparency_log db1 = key_transparency_log db"
      "key_transparency_snapshots db1 = key_transparency_snapshots db @ [?s]"
    using assms(1) en key ins
    by (auto simp: create_snapshot_def Let_def row_frames split: prod.splits)
  have size: "length ?leaves = length (snapshot_hashes H db)" by (simp add: snapshot_leaves_hashes snapshot_hashes_def)
  show thesis
  proof (rule that[of key ?s])
    show "key_transparency_log db' = key_transparency_log db"
      "key_transparency_snapshots db' = key_transparency_snapshots db @ [?s]"
      using allocation_frame[OF fan_out_frame[OF fo]] db1 by simp_all
  qed (use en key fresh size in \<open>simp_all add: compute_root_def snapshot_leaves_hashes(1)\<close>)
qed

lemma hashes_cong:
  assumes "key_transparency_log db' = key_transparency_log db"
  shows "tree_hashes H db' = tree_hashes H db" "snapshot_hashes H db' = snapshot_hashes H db"
  using assms by (simp_all add: tree_hashes_def snapshot_hashes_def log_rows_def)

lemma kt_step_log_ok:
  assumes "kt_step H db db'" and ok: "log_ok H db"
  shows "log_ok H db' \<and> (\<exists>new. log_rows db' = log_rows db @ new)"
  using assms(1)
proof cases
  case (user_leaf enabled user_id username_token now)
  show ?thesis
  proof (cases enabled)
    case True
    with user_leaf show ?thesis
        using leaf_appended_ok[OF ok append_user_leaf_appended, of user_id username_token now db'] by simp
  next
    case False
    with user_leaf ok show ?thesis by (simp add: append_user_leaf_def)
  qed
next
  case (bot_leaf bot_id bot_key command_key identity_key now i)
  then show ?thesis
    using leaf_appended_ok[OF ok append_bot_leaf_appended] by blast
next
  case (snapshot enabled derived sign b64 actor_id snapshot_id audit_id now view evs)
  from create_snapshot_stores[OF snapshot] obtain s where
    l: "key_transparency_log db' = key_transparency_log db"
    and s: "key_transparency_snapshots db' = key_transparency_snapshots db @ [s]"
      "sn_tree_size s = int (length (snapshot_hashes H db))"
      "sn_root_hash s = compute_root_from_hashes H (snapshot_hashes H db)" by metis
  have "snapshot_ok H db' t" if "snapshot_ok H db t" for t
    using that hashes_cong[OF l] by (simp add: snapshot_ok_def)
  moreover have "snapshot_ok H db' s"
    using s hashes_cong[OF l] by (simp add: snapshot_ok_def)
  ultimately show ?thesis using ok l s by (auto simp: log_ok_def log_rows_def)
qed

text \<open>
  C8. The log is append-only under registrations, bot key uploads and snapshots: from a
  state whose rows and snapshots are right, every later state extends the list of leaves at
  its end only, all rows still carry the hash of their fields, and every root that was ever
  signed is still the root of a prefix of the log, as snapshots hash it.
\<close>

theorem kt_log_append_only:
  assumes "(kt_step H)\<^sup>*\<^sup>* db db'" and "log_ok H db"
  shows "log_ok H db' \<and> (\<exists>new. log_rows db' = log_rows db @ new)"
  using assms
proof (induction rule: rtranclp_induct)
  case (step db1 db2)
  with kt_step_log_ok[OF step.hyps(2)] show ?case by auto
qed simp

definition kt_example_db :: db where
  "kt_example_db = seq_example_db\<lparr>bot_accounts :=
     [\<lparr>b_id = ''bot'', b_display_name = ''B'', b_avatar_file_id = None,
       b_bot_identity_pubkey = ''ik'', b_bot_command_pubkey = ''ck'', b_identity_pubkey = ''pk'', b_owner_user_id = ''a'',
       b_declarations = None, b_created_at = 0,
       b_disabled_at = None, b_deleted_at = None\<rparr>]\<rparr>"

lemma kt_example_ok: "log_ok H kt_example_db"
  by (simp add: log_ok_def kt_example_db_def seq_example_db_def empty_db_def)

theorem kt_log_append_only_witness:
  "\<exists>db'. append_user_leaf toy_digest True ''a'' [7] 0 kt_example_db = Some db' \<and>
     log_ok toy_digest db' \<and> (\<exists>new. log_rows db' = log_rows kt_example_db @ new)"
proof -
  obtain db' where a: "append_user_leaf toy_digest True ''a'' [7] 0 kt_example_db = Some db'"
    by (simp add: append_user_leaf_def kt_example_db_def seq_example_db_def user_exists_def)
  then have "(kt_step toy_digest)\<^sup>*\<^sup>* kt_example_db db'" by (blast intro: kt_step.user_leaf)
  from kt_log_append_only[OF this kt_example_ok] a show ?thesis by blast
qed

section \<open>Signed heads\<close>

lemma served_when_present:
  assumes "Some user_id \<in> kt_user_id ` set (key_transparency_log db)"
  obtains resp where "get_user_kt_handler H True user_id now db = Inr resp"
  using assms served_user_proof_verifies_aux[where H = H and enabled = True and user_id = user_id and now = now and db = db]
  by (auto split: sum.splits)

text \<open>The head that is served with a user's proof right after a snapshot.\<close>

lemma served_after_snapshot:
  assumes "create_snapshot H enabled derived sign b64 actor_id snapshot_id audit_id now db = Inr (view, db', evs)"
    and "\<forall>s \<in> set (key_transparency_snapshots db). (sn_created_at s, sn_id s) < (current_timestamp now, snapshot_id)"
    and "Some user_id \<in> kt_user_id ` set (key_transparency_log db)"
  obtains resp key pos where "derived = Inr key" "get_user_kt_handler H True user_id later db' = Inr resp"
    "th_id (uk_tree_head resp) = Some snapshot_id"
    "th_tree_size (uk_tree_head resp) = int (length (tree_hashes H db))"
    "th_root_hash (uk_tree_head resp) = compute_root_from_hashes H (snapshot_hashes H db)"
    "th_signature (uk_tree_head resp) = Some (sign key (format_signing_input (of_nat (length (tree_hashes H db)))
        (compute_root_from_hashes H (snapshot_hashes H db))))"
    "verify_inclusion_proof H (uk_leaf_hash resp) pos (length (tree_hashes H db)) (uk_inclusion_proof resp)
      (compute_root_from_hashes H (tree_hashes H db)) = Inr True"
proof -
  from create_snapshot_stores[OF assms(1)] obtain key s where key: "derived = Inr key"
    and l: "key_transparency_log db' = key_transparency_log db"
    and sn: "key_transparency_snapshots db' = key_transparency_snapshots db @ [s]"
    and s: "sn_id s = snapshot_id" "sn_tree_size s = int (length (snapshot_hashes H db))"
      "sn_root_hash s = compute_root_from_hashes H (snapshot_hashes H db)"
      "sn_signature s = Some (sign key (format_signing_input (of_nat (length (snapshot_hashes H db))) (sn_root_hash s)))"
      "sn_created_at s = current_timestamp now" by metis
  have latest: "latest_snapshot db' = Some s"
    unfolding latest_snapshot_def sn using assms(2) s by (intro max_row_append_top) simp
  have rows: "map (row_hash H) (log_rows db') = tree_hashes H db" "length (log_rows db') = length (tree_hashes H db)"
    using l by (simp_all add: tree_hashes_def log_rows_def)
  obtain resp where resp: "get_user_kt_handler H True user_id later db' = Inr resp"
    using served_when_present[of user_id db'] assms(3) l by metis
  then obtain pos where v: "verify_inclusion_proof H (uk_leaf_hash resp) pos (length (tree_hashes H db))
      (uk_inclusion_proof resp) (compute_root_from_hashes H (tree_hashes H db)) = Inr True"
    and h: "uk_tree_head resp = current_tree_head db' (int (length (tree_hashes H db)))
      (compute_root_from_hashes H (tree_hashes H db)) later"
    using served_user_proof_verifies_aux[where H = H and enabled = True and user_id = user_id and now = later and db = db'] rows by auto
  show thesis
    by (rule that[OF key resp _ _ _ _ v])
      (use h latest s in \<open>simp_all add: current_tree_head_def Let_def length_hashes\<close>)
qed


definition signed_example_db :: db where
  "signed_example_db = the (append_user_leaf toy_digest True ''a'' [7] 0 kt_example_db)"

lemma signed_example_append:
  "append_user_leaf toy_digest True ''a'' [7] 0 kt_example_db = Some signed_example_db"
  by (simp add: signed_example_db_def append_user_leaf_def kt_example_db_def seq_example_db_def user_exists_def)

lemma signed_example_log:
  "key_transparency_log signed_example_db = [user_leaf_row toy_digest 1 ''a'' [7] 0]"
  "key_transparency_snapshots signed_example_db = []"
  by (simp_all add: signed_example_db_def append_user_leaf_def kt_example_db_def seq_example_db_def
      user_exists_def empty_db_def next_leaf_index_def)

lemma signed_example_ok: "log_ok toy_digest signed_example_db"
  using leaf_appended_ok[OF kt_example_ok append_user_leaf_appended[OF signed_example_append]] by blast

lemma signed_example_snapshot:
  "\<exists>view db' evs. create_snapshot toy_digest True (Inr [1]) (\<lambda>k m. k @ m) (\<lambda>b. ''x'') None ''s1'' ''a1'' 5
     signed_example_db = Inr (view, db', evs)"
  by (simp add: create_snapshot_def log_rows_def signed_example_log insert_row_def Let_def split: prod.splits)


section \<open>Where the log falls short of its purpose\<close>

text \<open>The inputs that tell a bot leaf from the user leaf that a snapshot takes it for.\<close>

definition bot_preimages :: "bytes \<Rightarrow> bytes \<Rightarrow> bytes \<Rightarrow> bytes list" where
  "bot_preimages b c k = [0 # serialize_leaf [] k, 0 # serialize_bot_leaf b c k]"

lemma bot_leaf_changes_hashes:
  assumes "log_ok H db" and "r \<in> set (key_transparency_log db)" and "kt_bot_id r \<noteq> None"
    and "kt_bot_identity_pubkey r = Some b" "kt_command_pubkey r = Some c" "kt_identity_pubkey r = Some k"
    and "length b < 2 ^ 16" "length c < 2 ^ 16" "length k < 2 ^ 16" and "inj_on H (set (bot_preimages b c k))"
  shows "snapshot_hashes H db \<noteq> tree_hashes H db"
proof
  have ok: "leaf_row_ok H r" using assms(1,2) by (simp add: log_ok_def)
  then have none: "kt_username_token r = None" "row_hash H r = bot_leaf_hash H b c k"
    using assms(3-6) row_hash_ok[OF ok] by (auto simp: leaf_row_ok_def split: option.splits)
  assume "snapshot_hashes H db = tree_hashes H db"
  then have "leaf_hash H (null_text (kt_username_token r)) (null_text (kt_identity_pubkey r)) = row_hash H r"
    using assms(2) log_rows_ok[OF assms(1)] by (simp add: snapshot_hashes_def tree_hashes_def)
  then have "H (0 # serialize_leaf [] k) = H (0 # serialize_bot_leaf b c k)"
    using none assms(6) by (simp add: leaf_hash_def bot_leaf_hash_def)
  then have "0 # serialize_leaf [] k = 0 # serialize_bot_leaf b c k"
    by (rule inj_onD[OF assms(10)]) (simp_all add: bot_preimages_def)
  then show False
    using leaf_serialization_injective[of "[]" k b k c b k c] assms(7-9) by simp
qed


definition bot_signed_db :: db where
  "bot_signed_db = signed_example_db\<lparr>key_transparency_log :=
     [user_leaf_row toy_digest 1 ''a'' [7] 0, bot_leaf_row toy_digest 2 ''bot'' [1] [2] [3] 0]\<rparr>"

lemma bot_signed_append:
  "append_bot_leaf toy_digest ''bot'' [1] [2] [3] 0 signed_example_db = Some (2, bot_signed_db)"
proof -
  have "next_leaf_index signed_example_db = 2"
    by (simp add: next_leaf_index_def signed_example_log user_leaf_row_def)
  moreover have "bot_accounts signed_example_db = bot_accounts kt_example_db"
    by (simp add: signed_example_db_def append_user_leaf_def kt_example_db_def seq_example_db_def user_exists_def)
  ultimately show ?thesis
    by (simp add: append_bot_leaf_def Let_def bot_signed_db_def signed_example_log) (simp add: kt_example_db_def)
qed

lemma bot_signed_tables:
  "key_transparency_log bot_signed_db =
     [user_leaf_row toy_digest 1 ''a'' [7] 0, bot_leaf_row toy_digest 2 ''bot'' [1] [2] [3] 0]"
  "key_transparency_snapshots bot_signed_db = []"
  by (simp_all add: bot_signed_db_def signed_example_log)

lemma bot_signed_no_collision:
  "distinct (map toy_digest (tree_preimages toy_digest (tree_hashes toy_digest bot_signed_db) @
     tree_preimages toy_digest (snapshot_hashes toy_digest bot_signed_db) @ bot_preimages [1] [2] [3]))"
  by code_simp


text \<open>
  A registration logs an empty identity key, and the user route serves that: whatever
  key the user publishes at login, the leaf the proof is about binds the token to no key.
\<close>

theorem registered_leaf_has_no_key:
  assumes "append_user_leaf H True user_id username_token now db = Some db'" and "log_ok H db"
  shows "\<exists>resp. get_user_kt_handler H True user_id later db' = Inr resp \<and>
    uk_identity_pubkey resp = [] \<and>
    uk_leaf_hash resp = leaf_hash H username_token []"
proof -
  let ?r = "user_leaf_row H (next_leaf_index db) user_id username_token now"
  note a = append_user_leaf_appended[OF assms(1)]
  have ok: "log_ok H db'" and rows: "log_rows db' = log_rows db @ [?r]"
    using leaf_appended_ok[OF assms(2) a] by auto
  have "Some user_id \<in> kt_user_id ` set (key_transparency_log db')"
    using a by (auto simp: leaf_appended_def user_leaf_row_def)
  then obtain resp where resp: "get_user_kt_handler H True user_id later db' = Inr resp"
    by (rule served_when_present)
  then obtain pos where pos: "pos < length (log_rows db')"
    "Some user_id \<notin> kt_user_id ` set (drop (Suc pos) (log_rows db'))"
    and served: "uk_leaf_hash resp = row_hash H (log_rows db' ! pos)"
    "uk_identity_pubkey resp = option_or_empty (kt_identity_pubkey (log_rows db' ! pos))"
    using served_user_proof_verifies_aux[where H = H and enabled = True and user_id = user_id and now = later and db = db'] by auto
  have "pos = length (log_rows db)"
  proof (rule ccontr)
    assume "pos \<noteq> length (log_rows db)"
    with pos(1) rows have "?r \<in> set (drop (Suc pos) (log_rows db'))" by simp
    with pos(2) show False by (force simp: user_leaf_row_def)
  qed
  with rows have r: "log_rows db' ! pos = ?r" by simp
  have "leaf_row_ok H ?r" using a by (simp add: leaf_appended_def)
  from row_hash_ok[OF this] have "row_hash H ?r = leaf_hash H username_token []"
    by (simp add: user_leaf_row_def initial_identity_pubkey_def)
  with resp served r show ?thesis
    by (simp add: user_leaf_row_def initial_identity_pubkey_def option_or_empty_def)
qed

theorem registered_leaf_has_no_key_witness:
  "\<exists>resp. get_user_kt_handler toy_digest True ''a'' 1 signed_example_db = Inr resp \<and>
    uk_identity_pubkey resp = [] \<and> uk_leaf_hash resp = leaf_hash toy_digest [7] []"
  by (rule registered_leaf_has_no_key[OF signed_example_append kt_example_ok])

end
