(* ===== verification/Limits.thy ===== *)
theory Limits
  imports Schema
begin

text \<open>
  The instance limits of \<open>server/src/limits.rs\<close>: a key-value table of decimal strings, read
  with defaults and capped by the hard maxima of the configuration, written after every
  field has been checked against its bounds.  \<open>i64::to_string\<close> and \<open>str::parse::<i64>\<close> are
  modelled digit by digit.
\<close>

section \<open>Decimal strings\<close>

definition digit_char :: "nat \<Rightarrow> char" where
  "digit_char n = char_of (48 + n)"

fun show_nat :: "nat \<Rightarrow> string" where
  "show_nat n = (if n < 10 then [digit_char n] else show_nat (n div 10) @ [digit_char (n mod 10)])"

declare show_nat.simps [simp del]

definition show_int :: "int \<Rightarrow> string" where
  "show_int i = (if i < 0 then CHR ''-'' # show_nat (nat (- i)) else show_nat (nat i))"

definition digit_val :: "char \<Rightarrow> nat option" where
  "digit_val c = (let n = of_char c :: nat in if 48 \<le> n \<and> n \<le> 57 then Some (n - 48) else None)"

fun parse_digits :: "nat \<Rightarrow> string \<Rightarrow> nat option" where
  "parse_digits acc [] = Some acc"
| "parse_digits acc (c # cs) =
     (case digit_val c of None \<Rightarrow> None | Some d \<Rightarrow> parse_digits (acc * 10 + d) cs)"

definition parse_nat :: "string \<Rightarrow> nat option" where
  "parse_nat s = (if s = [] then None else parse_digits 0 s)"

definition in_i64 :: "int \<Rightarrow> bool" where
  "in_i64 i \<longleftrightarrow> - (2 ^ 63) \<le> i \<and> i < 2 ^ 63"

text \<open>One leading sign, at least one digit, nothing else, and the value in range.\<close>

definition parse_i64 :: "string \<Rightarrow> int option" where
  "parse_i64 s =
     (let v =
        (case s of
           [] \<Rightarrow> None
         | c # cs \<Rightarrow>
             if c = CHR ''-'' then map_option (\<lambda>n. - int n) (parse_nat cs)
             else if c = CHR ''+'' then map_option int (parse_nat cs)
             else map_option int (parse_nat s)) in
      (case v of None \<Rightarrow> None | Some i \<Rightarrow> if in_i64 i then Some i else None))"

lemma digit_val_char [simp]: "d < 10 \<Longrightarrow> digit_val (digit_char d) = Some d"
  by (simp add: digit_val_def digit_char_def Let_def take_bit_eq_mod)

lemma digit_char_not_sign: "d < 10 \<Longrightarrow> digit_char d \<noteq> CHR ''-'' \<and> digit_char d \<noteq> CHR ''+''"
  using digit_val_char[of d] by (auto simp: digit_val_def)

lemma parse_digits_append:
  "parse_digits acc (xs @ ys) =
     (case parse_digits acc xs of None \<Rightarrow> None | Some a \<Rightarrow> parse_digits a ys)"
  by (induction xs arbitrary: acc) (auto split: option.splits)

lemma parse_show_nat: "show_nat n \<noteq> [] \<and> parse_digits 0 (show_nat n) = Some n \<and>
    hd (show_nat n) \<noteq> CHR ''-'' \<and> hd (show_nat n) \<noteq> CHR ''+''"
proof (induction n rule: show_nat.induct)
  case (1 n)
  show ?case
  proof (cases "n < 10")
    case True
    then show ?thesis using digit_char_not_sign[of n] by (simp add: show_nat.simps[of n])
  next
    case False
    with 1 have IH: "show_nat (n div 10) \<noteq> []" "parse_digits 0 (show_nat (n div 10)) = Some (n div 10)"
      "hd (show_nat (n div 10)) \<noteq> CHR ''-''" "hd (show_nat (n div 10)) \<noteq> CHR ''+''" by auto
    have "n div 10 * 10 + n mod 10 = n" by (rule div_mult_mod_eq)
    with False IH show ?thesis
      by (subst (1 2 3 4) show_nat.simps) (simp add: parse_digits_append)
  qed
qed

lemma parse_show_int:
  assumes "in_i64 i"
  shows "parse_i64 (show_int i) = Some i"
proof (cases "i < 0")
  case True
  have "parse_nat (show_nat (nat (- i))) = Some (nat (- i))"
    using parse_show_nat[of "nat (- i)"] by (simp add: parse_nat_def)
  with True assms show ?thesis by (simp add: show_int_def parse_i64_def)
next
  case False
  obtain c cs where s: "show_nat (nat i) = c # cs"
    using parse_show_nat[of "nat i"] by (cases "show_nat (nat i)") auto
  have "parse_nat (c # cs) = Some (nat i)" "c \<noteq> CHR ''-''" "c \<noteq> CHR ''+''"
    using parse_show_nat[of "nat i"] by (auto simp: parse_nat_def s)
  with False assms s show ?thesis by (simp add: show_int_def parse_i64_def)
qed

section \<open>Limits\<close>

record InstanceLimits =
  il_file_size_bytes :: int
  il_room_size :: int
  il_rooms_per_user :: int
  il_devices_per_user :: int
  il_keypackages_per_device :: int
  il_message_size_bytes :: int
  il_attachment_retention_days :: int
  il_call_max_participants :: int
  il_reactions_per_message :: int
  il_room_metadata_bytes :: int
  il_edit_window_seconds :: int

record ServerHardMax =
  sm_file_size_bytes :: int
  sm_room_size :: int
  sm_rooms_per_user :: int
  sm_devices_per_user :: int
  sm_keypackages_per_device :: int
  sm_message_size_bytes :: int
  sm_attachment_retention_days :: int
  sm_call_max_participants :: int
  sm_reactions_per_message :: int
  sm_room_metadata_bytes :: int
  sm_edit_window_seconds :: int

text \<open>\<open>ServerHardMax::default\<close>, \<open>LimitMin\<close> and \<open>LimitDefault\<close>.\<close>

definition default_hard_max :: ServerHardMax where
  "default_hard_max =
    \<lparr>sm_file_size_bytes = 104857600,
     sm_room_size = 1000,
     sm_rooms_per_user = 500,
     sm_devices_per_user = 20,
     sm_keypackages_per_device = 50,
     sm_message_size_bytes = 65536,
     sm_attachment_retention_days = 365,
     sm_call_max_participants = 50,
     sm_reactions_per_message = 50,
     sm_room_metadata_bytes = 65536,
     sm_edit_window_seconds = 86400\<rparr>"

definition limit_min :: InstanceLimits where
  "limit_min =
    \<lparr>il_file_size_bytes = 1048576,
     il_room_size = 2,
     il_rooms_per_user = 1,
     il_devices_per_user = 1,
     il_keypackages_per_device = 1,
     il_message_size_bytes = 1024,
     il_attachment_retention_days = 0,
     il_call_max_participants = 2,
     il_reactions_per_message = 1,
     il_room_metadata_bytes = 1024,
     il_edit_window_seconds = 60\<rparr>"

definition limit_default :: InstanceLimits where
  "limit_default =
    \<lparr>il_file_size_bytes = 104857600,
     il_room_size = 100,
     il_rooms_per_user = 50,
     il_devices_per_user = 10,
     il_keypackages_per_device = 20,
     il_message_size_bytes = 16384,
     il_attachment_retention_days = 0,
     il_call_max_participants = 8,
     il_reactions_per_message = 50,
     il_room_metadata_bytes = 16384,
     il_edit_window_seconds = 900\<rparr>"

datatype limits_error =
    LimitsDatabase
  | ExceedsServerMax string int int
  | BelowMinimum string int int

text \<open>A value that does not parse is skipped, which leaves the default.\<close>

definition limit_map :: "limit_row list \<Rightarrow> (string \<rightharpoonup> int)" where
  "limit_map rows =
     fold (\<lambda>row m. case parse_i64 (li_value row) of Some v \<Rightarrow> m(li_key row \<mapsto> v) | None \<Rightarrow> m)
       rows (\<lambda>_. None)"

definition limit_or_default :: "(string \<rightharpoonup> int) \<Rightarrow> string \<Rightarrow> int \<Rightarrow> int" where
  "limit_or_default m k d = (case m k of Some v \<Rightarrow> v | None \<Rightarrow> d)"

definition get_limits :: "db \<Rightarrow> ServerHardMax \<Rightarrow> InstanceLimits" where
  "get_limits db server_max =
     (let m = limit_map (instance_limits db) in
      \<lparr>il_file_size_bytes = min (limit_or_default m ''file_size_bytes'' (il_file_size_bytes limit_default)) (sm_file_size_bytes server_max),
        il_room_size = min (limit_or_default m ''room_size'' (il_room_size limit_default)) (sm_room_size server_max),
        il_rooms_per_user = min (limit_or_default m ''rooms_per_user'' (il_rooms_per_user limit_default)) (sm_rooms_per_user server_max),
        il_devices_per_user = min (limit_or_default m ''devices_per_user'' (il_devices_per_user limit_default)) (sm_devices_per_user server_max),
        il_keypackages_per_device = min (limit_or_default m ''keypackages_per_device'' (il_keypackages_per_device limit_default)) (sm_keypackages_per_device server_max),
        il_message_size_bytes = min (limit_or_default m ''message_size_bytes'' (il_message_size_bytes limit_default)) (sm_message_size_bytes server_max),
        il_attachment_retention_days = min (limit_or_default m ''attachment_retention_days'' (il_attachment_retention_days limit_default)) (sm_attachment_retention_days server_max),
        il_call_max_participants = min (limit_or_default m ''call_max_participants'' (il_call_max_participants limit_default)) (sm_call_max_participants server_max),
        il_reactions_per_message = min (limit_or_default m ''reactions_per_message'' (il_reactions_per_message limit_default)) (sm_reactions_per_message server_max),
        il_room_metadata_bytes = min (limit_or_default m ''room_metadata_bytes'' (il_room_metadata_bytes limit_default)) (sm_room_metadata_bytes server_max),
        il_edit_window_seconds = min (limit_or_default m ''edit_window_seconds'' (il_edit_window_seconds limit_default)) (sm_edit_window_seconds server_max)\<rparr>)"

definition validate_field :: "string \<Rightarrow> int \<Rightarrow> int \<Rightarrow> int \<Rightarrow> limits_error option" where
  "validate_field key val lo hi =
     (if val < lo then Some (BelowMinimum key val lo)
      else if val > hi then Some (ExceedsServerMax key val hi)
      else None)"

text \<open>The calls of \<open>validate_field\<close> in their order; the first failure is returned.\<close>

definition limit_fields :: "InstanceLimits \<Rightarrow> ServerHardMax \<Rightarrow> (string \<times> int \<times> int \<times> int) list" where
  "limit_fields new_limits server_max =
     [(''file_size_bytes'', il_file_size_bytes new_limits, il_file_size_bytes limit_min, sm_file_size_bytes server_max),
      (''room_size'', il_room_size new_limits, il_room_size limit_min, sm_room_size server_max),
      (''rooms_per_user'', il_rooms_per_user new_limits, il_rooms_per_user limit_min, sm_rooms_per_user server_max),
      (''devices_per_user'', il_devices_per_user new_limits, il_devices_per_user limit_min, sm_devices_per_user server_max),
      (''keypackages_per_device'', il_keypackages_per_device new_limits, il_keypackages_per_device limit_min, sm_keypackages_per_device server_max),
      (''message_size_bytes'', il_message_size_bytes new_limits, il_message_size_bytes limit_min, sm_message_size_bytes server_max),
      (''attachment_retention_days'', il_attachment_retention_days new_limits, il_attachment_retention_days limit_min, sm_attachment_retention_days server_max),
      (''call_max_participants'', il_call_max_participants new_limits, il_call_max_participants limit_min, sm_call_max_participants server_max),
      (''reactions_per_message'', il_reactions_per_message new_limits, il_reactions_per_message limit_min, sm_reactions_per_message server_max),
      (''room_metadata_bytes'', il_room_metadata_bytes new_limits, il_room_metadata_bytes limit_min, sm_room_metadata_bytes server_max),
      (''edit_window_seconds'', il_edit_window_seconds new_limits, il_edit_window_seconds limit_min, sm_edit_window_seconds server_max)]"

fun validate_fields :: "(string \<times> int \<times> int \<times> int) list \<Rightarrow> limits_error option" where
  "validate_fields [] = None"
| "validate_fields ((key, val, lo, hi) # fs) =
     (case validate_field key val lo hi of Some e \<Rightarrow> Some e | None \<Rightarrow> validate_fields fs)"

definition limit_pairs :: "InstanceLimits \<Rightarrow> (string \<times> int) list" where
  "limit_pairs new_limits =
     [(''file_size_bytes'', il_file_size_bytes new_limits),
      (''room_size'', il_room_size new_limits),
      (''rooms_per_user'', il_rooms_per_user new_limits),
      (''devices_per_user'', il_devices_per_user new_limits),
      (''keypackages_per_device'', il_keypackages_per_device new_limits),
      (''message_size_bytes'', il_message_size_bytes new_limits),
      (''attachment_retention_days'', il_attachment_retention_days new_limits),
      (''call_max_participants'', il_call_max_participants new_limits),
      (''reactions_per_message'', il_reactions_per_message new_limits),
      (''room_metadata_bytes'', il_room_metadata_bytes new_limits),
      (''edit_window_seconds'', il_edit_window_seconds new_limits)]"

definition upsert_limit :: "id \<Rightarrow> time \<Rightarrow> string \<times> int \<Rightarrow> limit_row list \<Rightarrow> limit_row list" where
  "upsert_limit actor_id now kv t =
     (let k = fst kv; v_str = show_int (snd kv) in
      if exists_where (\<lambda>r. li_key r = k) t then
        update_where (\<lambda>r. li_key r = k)
          (\<lambda>r. r\<lparr>li_value := v_str, li_updated_at := current_timestamp now, li_updated_by := Some actor_id\<rparr>) t
      else t @ [\<lparr>li_key = k, li_value = v_str, li_updated_at = current_timestamp now,
                 li_updated_by = Some actor_id\<rparr>])"

definition limits_metadata :: "InstanceLimits \<Rightarrow> json" where
  "limits_metadata new_limits = JObject (map (\<lambda>(k, v). (k, JInt v)) (limit_pairs new_limits))"

text \<open>The upserts share one transaction; \<open>updated_by\<close> references a user.\<close>

definition set_limits ::
  "id \<Rightarrow> InstanceLimits \<Rightarrow> ServerHardMax \<Rightarrow> id \<Rightarrow> time \<Rightarrow> db \<Rightarrow> limits_error + db"
where
  "set_limits actor_id new_limits server_max audit_id now db =
     (case validate_fields (limit_fields new_limits server_max) of
        Some e \<Rightarrow> Inl e
      | None \<Rightarrow>
          if user_exists db actor_id then
            Inr (audit (Some actor_id) ''limits.update'' (Some ''instance_limits'') None
              (Some (limits_metadata new_limits)) audit_id now
              (db\<lparr>instance_limits := fold (upsert_limit actor_id now) (limit_pairs new_limits) (instance_limits db)\<rparr>))
          else Inl LimitsDatabase)"

definition effective_user_file_size_limit :: "int option \<Rightarrow> int \<Rightarrow> int \<Rightarrow> int" where
  "effective_user_file_size_limit user_override instance_limit server_max =
     (let candidate =
        (case user_override of
           Some v \<Rightarrow> if v > 0 then v else instance_limit
         | None \<Rightarrow> instance_limit) in
      min candidate server_max)"

section \<open>What the limits guarantee\<close>

definition within_hard_max :: "InstanceLimits \<Rightarrow> ServerHardMax \<Rightarrow> bool" where
  "within_hard_max l server_max \<longleftrightarrow>
     il_file_size_bytes l \<le> sm_file_size_bytes server_max \<and>
     il_room_size l \<le> sm_room_size server_max \<and>
     il_rooms_per_user l \<le> sm_rooms_per_user server_max \<and>
     il_devices_per_user l \<le> sm_devices_per_user server_max \<and>
     il_keypackages_per_device l \<le> sm_keypackages_per_device server_max \<and>
     il_message_size_bytes l \<le> sm_message_size_bytes server_max \<and>
     il_attachment_retention_days l \<le> sm_attachment_retention_days server_max \<and>
     il_call_max_participants l \<le> sm_call_max_participants server_max \<and>
     il_reactions_per_message l \<le> sm_reactions_per_message server_max \<and>
     il_room_metadata_bytes l \<le> sm_room_metadata_bytes server_max \<and>
     il_edit_window_seconds l \<le> sm_edit_window_seconds server_max"

definition limits_valid :: "InstanceLimits \<Rightarrow> ServerHardMax \<Rightarrow> bool" where
  "limits_valid l server_max \<longleftrightarrow>
     list_all (\<lambda>(key, val, lo, hi). lo \<le> val \<and> val \<le> hi) (limit_fields l server_max)"

definition limits_in_i64 :: "InstanceLimits \<Rightarrow> bool" where
  "limits_in_i64 l \<longleftrightarrow> list_all (\<lambda>(k, v). in_i64 v) (limit_pairs l)"

text \<open>The rows of a key all hold the string \<open>s\<close>, and there is one.\<close>

definition stores :: "limit_row list \<Rightarrow> string \<Rightarrow> string \<Rightarrow> bool" where
  "stores t k s \<longleftrightarrow> (\<exists>r \<in> set t. li_key r = k) \<and> (\<forall>r \<in> set t. li_key r = k \<longrightarrow> li_value r = s)"

lemma upsert_stores: "stores (upsert_limit a now (k, v) t) k (show_int v)"
  by (auto simp: stores_def upsert_limit_def Let_def bex_update_where ball_update_where)

lemma upsert_keeps: "k \<noteq> fst kv \<Longrightarrow> stores t k s \<Longrightarrow> stores (upsert_limit a now kv t) k s"
  by (auto simp: stores_def upsert_limit_def Let_def bex_update_where ball_update_where)

lemma upserts_keep: "k \<notin> fst ` set ps \<Longrightarrow> stores t k s \<Longrightarrow> stores (fold (upsert_limit a now) ps t) k s"
  by (induction ps arbitrary: t) (auto simp: upsert_keeps)

lemma upserts_store:
  "distinct (map fst ps) \<Longrightarrow> (k, v) \<in> set ps \<Longrightarrow> stores (fold (upsert_limit a now) ps t) k (show_int v)"
proof (induction ps arbitrary: t)
  case (Cons p ps)
  show ?case
  proof (cases "p = (k, v)")
    case True
    with Cons.prems upserts_keep[of k ps "upsert_limit a now (k, v) t", OF _ upsert_stores]
    show ?thesis by simp
  next
    case False
    with Cons show ?thesis by auto
  qed
qed simp

lemma limit_map_snoc:
  "limit_map (t @ [r]) =
     (case parse_i64 (li_value r) of Some v \<Rightarrow> (limit_map t)(li_key r \<mapsto> v) | None \<Rightarrow> limit_map t)"
  by (simp add: limit_map_def split: option.split)

lemma limit_map_all:
  "\<forall>r \<in> set t. li_key r = k \<longrightarrow> li_value r = s \<Longrightarrow> parse_i64 s = Some v \<Longrightarrow>
     limit_map t k = (if \<exists>r \<in> set t. li_key r = k then Some v else None)"
  by (induction t rule: rev_induct) (auto simp: limit_map_snoc limit_map_def split: option.splits)

lemma limit_map_stores: "stores t k (show_int v) \<Longrightarrow> in_i64 v \<Longrightarrow> limit_map t k = Some v"
  using limit_map_all[of t k "show_int v" v] by (auto simp: stores_def parse_show_int)

lemma validate_fields_None:
  "validate_fields fs = None \<longleftrightarrow> list_all (\<lambda>(key, val, lo, hi). lo \<le> val \<and> val \<le> hi) fs"
  by (induction fs rule: validate_fields.induct) (auto simp: validate_field_def)

lemma get_after_upserts:
  assumes "limits_in_i64 new" and "(k, v) \<in> set (limit_pairs new)"
  shows "limit_map (fold (upsert_limit a now) (limit_pairs new) t) k = Some v"
proof (rule limit_map_stores)
  show "stores (fold (upsert_limit a now) (limit_pairs new) t) k (show_int v)"
    by (rule upserts_store[OF _ assms(2)]) (simp add: limit_pairs_def)
  show "in_i64 v" using assms by (auto simp: limits_in_i64_def list_all_iff)
qed

lemma limits_capped_aux:
  "(\<exists>db'. set_limits actor_id new server_max audit_id now db = Inr db') \<longleftrightarrow>
      limits_valid new server_max \<and> user_exists db actor_id"
  using validate_fields_None[of "limit_fields new server_max"]
  by (auto simp: set_limits_def limits_valid_def split: option.splits)


text \<open>
  Round trip: limits that were written are the limits that are read back, through
  their decimal strings, whatever the table held before.
\<close>

theorem set_limits_get_limits:
  assumes "set_limits actor_id new server_max audit_id now db = Inr db'" and "limits_in_i64 new"
  shows "get_limits db' server_max = new"
proof -
  from assms(1) have v: "limits_valid new server_max"
    and t: "instance_limits db' = fold (upsert_limit actor_id now) (limit_pairs new) (instance_limits db)"
    using validate_fields_None[of "limit_fields new server_max"]
    by (auto simp: set_limits_def limits_valid_def row_frames split: option.splits if_splits)
  note get = get_after_upserts[OF assms(2), of _ _ actor_id now "instance_limits db", folded t]
  show ?thesis
    using v unfolding get_limits_def limits_valid_def limit_fields_def
    by (simp add: Let_def limit_or_default_def get limit_pairs_def)
qed

definition limits_example :: InstanceLimits where
  "limits_example = limit_default"

definition limits_example_db :: db where
  "limits_example_db = empty_db\<lparr>users :=
     [\<lparr>u_id = ''a'', u_username_token = ''ta'', u_encrypted_display = None, u_disabled_at = None, u_deleted_at = None\<rparr>]\<rparr>"

theorem set_limits_get_limits_witness:
  "\<exists>db'. set_limits ''a'' limits_example default_hard_max ''x'' 0 limits_example_db = Inr db' \<and>
     get_limits db' default_hard_max = limits_example"
proof -
  obtain db' where s: "set_limits ''a'' limits_example default_hard_max ''x'' 0 limits_example_db = Inr db'"
    using limits_capped_aux[of "''a''" limits_example default_hard_max "''x''" 0 limits_example_db]
    by (auto simp: limits_valid_def limit_fields_def limits_example_def limit_default_def limit_min_def
        default_hard_max_def user_exists_def limits_example_db_def)
  moreover have "get_limits db' default_hard_max = limits_example"
    by (rule set_limits_get_limits[OF s])
      (simp add: limits_in_i64_def limit_pairs_def limits_example_def limit_default_def in_i64_def)
  ultimately show ?thesis by blast
qed

end
