(* ===== verification/Roles.thy ===== *)
theory Roles
  imports Schema
begin

text \<open>
  Roles and permissions: \<open>server/src/permissions.rs\<close>, \<open>server/src/roles.rs\<close> and the checks
  of \<open>server/src/permission_check.rs\<close> after the caller has been authenticated.  A role
  stores its permissions as JSON text; the decoder (\<open>serde_json\<close>) is the argument \<open>parse\<close>.
\<close>

section \<open>Permissions\<close>

type_synonym permissions = "string list"

definition wildcard :: string where
  "wildcard = ''*''"

definition has :: "permissions \<Rightarrow> string \<Rightarrow> bool" where
  "has ps permission \<longleftrightarrow> list_ex (\<lambda>p. p = wildcard \<or> p = permission) ps"

definition has_any :: "permissions \<Rightarrow> string list \<Rightarrow> bool" where
  "has_any ps required \<longleftrightarrow> list_ex (has ps) required"

definition has_all :: "permissions \<Rightarrow> string list \<Rightarrow> bool" where
  "has_all ps required \<longleftrightarrow> list_all (has ps) required"

definition satisfies :: "string list \<Rightarrow> string \<Rightarrow> bool" where
  "satisfies granted required \<longleftrightarrow> list_ex (\<lambda>p. p = wildcard \<or> p = required) granted"

section \<open>Roles\<close>

datatype role_error =
    RoleDatabase
  | InvalidJson string
  | UnknownRole string

record Role =
  role_id :: id
  role_name :: string
  role_level :: int
  role_permissions :: permissions

type_synonym perm_decoder = "string \<Rightarrow> string + permissions"

definition decode_role :: "perm_decoder \<Rightarrow> role_row \<Rightarrow> role_error + Role" where
  "decode_role parse row =
     (case parse (rl_permissions row) of
        Inl e \<Rightarrow> Inl (InvalidJson e)
      | Inr ps \<Rightarrow> Inr \<lparr>role_id = rl_id row, role_name = rl_name row, role_level = rl_level row,
                       role_permissions = ps\<rparr>)"

text \<open>The loops stop at the first row that does not decode.\<close>

fun decode_roles :: "perm_decoder \<Rightarrow> role_row list \<Rightarrow> role_error + Role list" where
  "decode_roles parse [] = Inr []"
| "decode_roles parse (row # rows) =
     (case decode_role parse row of
        Inl e \<Rightarrow> Inl e
      | Inr r \<Rightarrow> (case decode_roles parse rows of Inl e \<Rightarrow> Inl e | Inr rs \<Rightarrow> Inr (r # rs)))"

definition list_roles :: "perm_decoder \<Rightarrow> db \<Rightarrow> role_error + Role list" where
  "list_roles parse db = decode_roles parse (sort_key (\<lambda>r. - rl_level r) (roles db))"

definition get_role_by_name :: "perm_decoder \<Rightarrow> db \<Rightarrow> string \<Rightarrow> role_error + Role option" where
  "get_role_by_name parse db name =
     (case List.find (\<lambda>r. rl_name r = name) (roles db) of
        None \<Rightarrow> Inr None
      | Some row \<Rightarrow> (case decode_role parse row of Inl e \<Rightarrow> Inl e | Inr r \<Rightarrow> Inr (Some r)))"

definition user_role_rows :: "db \<Rightarrow> id \<Rightarrow> role_row list" where
  "user_role_rows db user_id =
     filter (\<lambda>r. exists_where (\<lambda>ur. ur_role_id ur = rl_id r \<and> ur_user_id ur = user_id) (user_roles db)) (roles db)"

definition get_user_roles :: "perm_decoder \<Rightarrow> db \<Rightarrow> id \<Rightarrow> role_error + Role list" where
  "get_user_roles parse db user_id =
     decode_roles parse (sort_key (\<lambda>r. - rl_level r) (user_role_rows db user_id))"

definition user_has_permission :: "perm_decoder \<Rightarrow> db \<Rightarrow> id \<Rightarrow> string \<Rightarrow> role_error + bool" where
  "user_has_permission parse db user_id required =
     (case get_user_roles parse db user_id of
        Inl e \<Rightarrow> Inl e
      | Inr rs \<Rightarrow> Inr (list_ex (\<lambda>r. has (role_permissions r) required) rs))"

text \<open>
  \<open>INSERT OR IGNORE\<close> keeps a row that is there; a user or granter that does not exist
  violates a foreign key, which \<open>OR IGNORE\<close> does not cover.
\<close>

definition grant_role ::
  "perm_decoder \<Rightarrow> id \<Rightarrow> string \<Rightarrow> id option \<Rightarrow> time \<Rightarrow> db \<Rightarrow> role_error + db"
where
  "grant_role parse user_id name granted_by now db =
     (case get_role_by_name parse db name of
        Inl e \<Rightarrow> Inl e
      | Inr None \<Rightarrow> Inl (UnknownRole name)
      | Inr (Some role) \<Rightarrow>
          if exists_where (\<lambda>ur. ur_user_id ur = user_id \<and> ur_role_id ur = role_id role) (user_roles db)
          then Inr db
          else if user_exists db user_id \<and> (case granted_by of None \<Rightarrow> True | Some g \<Rightarrow> user_exists db g)
          then Inr (db\<lparr>user_roles := user_roles db @
                 [\<lparr>ur_user_id = user_id, ur_role_id = role_id role, ur_granted_at = current_timestamp now,
                   ur_granted_by = granted_by\<rparr>]\<rparr>)
          else Inl RoleDatabase)"

definition revoke_role :: "perm_decoder \<Rightarrow> id \<Rightarrow> string \<Rightarrow> db \<Rightarrow> role_error + db" where
  "revoke_role parse user_id name db =
     (case get_role_by_name parse db name of
        Inl e \<Rightarrow> Inl e
      | Inr None \<Rightarrow> Inl (UnknownRole name)
      | Inr (Some role) \<Rightarrow>
          Inr (db\<lparr>user_roles := delete_where
                 (\<lambda>ur. ur_user_id ur = user_id \<and> ur_role_id ur = role_id role) (user_roles db)\<rparr>))"

definition has_any_users :: "db \<Rightarrow> bool" where
  "has_any_users db \<longleftrightarrow> count_where (\<lambda>u. True) (users db) > 0"

section \<open>The checks of a request\<close>

datatype check_error = CheckInternal role_error | CheckForbidden

definition require_permission :: "perm_decoder \<Rightarrow> db \<Rightarrow> id \<Rightarrow> string \<Rightarrow> check_error + unit" where
  "require_permission parse db user_id perm_name =
     (case user_has_permission parse db user_id perm_name of
        Inl e \<Rightarrow> Inl (CheckInternal e)
      | Inr has_perm \<Rightarrow> if \<not> has_perm then Inl CheckForbidden else Inr ())"

definition require_role :: "perm_decoder \<Rightarrow> db \<Rightarrow> id \<Rightarrow> string \<Rightarrow> check_error + unit" where
  "require_role parse db user_id name =
     (case get_user_roles parse db user_id of
        Inl e \<Rightarrow> Inl (CheckInternal e)
      | Inr rs \<Rightarrow>
          if list_ex (\<lambda>r. role_name r = name) rs then Inr () else Inl CheckForbidden)"

section \<open>Correctness\<close>

definition decodable :: "perm_decoder \<Rightarrow> db \<Rightarrow> bool" where
  "decodable parse db \<longleftrightarrow> (\<forall>r \<in> set (roles db). \<exists>ps. parse (rl_permissions r) = Inr ps)"

definition assigned :: "db \<Rightarrow> id \<Rightarrow> id \<Rightarrow> bool" where
  "assigned db u i \<longleftrightarrow> (\<exists>ur \<in> set (user_roles db). ur_role_id ur = i \<and> ur_user_id ur = u)"

text \<open>The user holds the role row \<open>r\<close>.\<close>

definition holds :: "db \<Rightarrow> id \<Rightarrow> role_row \<Rightarrow> bool" where
  "holds db user_id r \<longleftrightarrow>
     r \<in> set (roles db) \<and> assigned db user_id (rl_id r)"

lemma decode_roles_ok:
  "\<forall>r \<in> set rows. \<exists>ps. parse (rl_permissions r) = Inr ps \<Longrightarrow>
     \<exists>rs. decode_roles parse rows = Inr rs \<and>
       (\<forall>required. list_ex (\<lambda>r. has (role_permissions r) required) rs \<longleftrightarrow>
          (\<exists>r \<in> set rows. \<exists>ps. parse (rl_permissions r) = Inr ps \<and> has ps required)) \<and>
       (\<forall>name. list_ex (\<lambda>r. role_name r = name) rs \<longleftrightarrow> (\<exists>r \<in> set rows. rl_name r = name))"
  by (induction rows) (auto simp: decode_role_def)

lemma get_user_roles_ok:
  assumes "decodable parse db"
  shows "\<exists>rs. get_user_roles parse db user_id = Inr rs \<and>
    (\<forall>required. list_ex (\<lambda>r. has (role_permissions r) required) rs \<longleftrightarrow>
       (\<exists>r ps. holds db user_id r \<and> parse (rl_permissions r) = Inr ps \<and> has ps required)) \<and>
    (\<forall>name. list_ex (\<lambda>r. role_name r = name) rs \<longleftrightarrow> (\<exists>r. holds db user_id r \<and> rl_name r = name))"
proof -
  have "\<forall>r \<in> set (sort_key (\<lambda>r. - rl_level r) (user_role_rows db user_id)). \<exists>ps. parse (rl_permissions r) = Inr ps"
    using assms by (auto simp: decodable_def user_role_rows_def)
  from decode_roles_ok[OF this] show ?thesis
    unfolding get_user_roles_def holds_def by (auto simp: user_role_rows_def assigned_def)
qed

lemma user_has_permission_iff:
  "decodable parse db \<Longrightarrow>
     user_has_permission parse db user_id required =
       Inr (\<exists>r ps. holds db user_id r \<and> parse (rl_permissions r) = Inr ps \<and> has ps required)"
  using get_user_roles_ok[of parse db user_id] by (auto simp: user_has_permission_def)

lemma get_role_by_name_SomeD:
  assumes "get_role_by_name parse db name = Inr (Some role)"
  obtains r where "r \<in> set (roles db)" "rl_name r = name" "rl_id r = role_id role"
    "parse (rl_permissions r) = Inr (role_permissions role)"
  using assms unfolding get_role_by_name_def
  by (auto simp: decode_role_def dest!: find_SomeD split: option.splits sum.splits)

lemma grant_role_updates:
  assumes "grant_role parse user_id name granted_by now db = Inr db'"
  shows "\<exists>role. get_role_by_name parse db name = Inr (Some role) \<and> roles db' = roles db \<and>
    (\<forall>u i. assigned db' u i \<longleftrightarrow> assigned db u i \<or> u = user_id \<and> i = role_id role)"
proof -
  obtain role where r: "get_role_by_name parse db name = Inr (Some role)"
    using assms by (auto simp: grant_role_def split: sum.splits option.splits)
  with assms have "roles db' = roles db"
    by (auto simp: grant_role_def split: if_splits)
  moreover have "assigned db' u i \<longleftrightarrow> assigned db u i \<or> u = user_id \<and> i = role_id role" for u i
    using assms r by (auto simp: grant_role_def assigned_def split: if_splits)
  ultimately show ?thesis using r by blast
qed

lemma revoke_role_updates:
  assumes "revoke_role parse user_id name db = Inr db'"
  shows "\<exists>role. get_role_by_name parse db name = Inr (Some role) \<and> roles db' = roles db \<and>
    (\<forall>u i. assigned db' u i \<longleftrightarrow> assigned db u i \<and> \<not> (u = user_id \<and> i = role_id role))"
proof -
  obtain role where r: "get_role_by_name parse db name = Inr (Some role)"
    using assms by (auto simp: revoke_role_def split: sum.splits option.splits)
  with assms have d: "db' = db\<lparr>user_roles := delete_where
      (\<lambda>ur. ur_user_id ur = user_id \<and> ur_role_id ur = role_id role) (user_roles db)\<rparr>"
    by (simp add: revoke_role_def)
  then have "assigned db' u i \<longleftrightarrow> assigned db u i \<and> \<not> (u = user_id \<and> i = role_id role)" for u i
    by (auto simp: assigned_def)
  with r d show ?thesis by simp
qed

text \<open>
  A granted role takes effect and nothing else does: afterwards the request check for
  a permission passes for a user exactly when it did before, or when that user is the one
  the role was granted to and the role lists the permission or the wildcard.
\<close>

theorem grant_role_effect:
  assumes "grant_role parse user_id name granted_by now db = Inr db'" and "decodable parse db"
    and "distinct (map rl_id (roles db))" and "distinct (map rl_name (roles db))"
  shows "require_permission parse db' u required = Inr () \<longleftrightarrow>
    require_permission parse db u required = Inr () \<or>
    u = user_id \<and> (\<exists>r \<in> set (roles db). rl_name r = name \<and>
      (\<exists>ps. parse (rl_permissions r) = Inr ps \<and> (wildcard \<in> set ps \<or> required \<in> set ps)))"
proof -
  obtain role where r: "get_role_by_name parse db name = Inr (Some role)" "roles db' = roles db"
    and m: "\<And>u i. assigned db' u i \<longleftrightarrow>
       assigned db u i \<or> u = user_id \<and> i = role_id role"
    using grant_role_updates[OF assms(1)] by blast
  obtain row where row: "row \<in> set (roles db)" "rl_name row = name" "rl_id row = role_id role"
    using get_role_by_name_SomeD[OF r(1)] by blast
  have same: "x = row" if "x \<in> set (roles db)" "rl_id x = role_id role \<or> rl_name x = name" for x
    using that row assms(3,4) by (auto simp: distinct_map inj_on_def)
  have h: "holds db' u x \<longleftrightarrow> holds db u x \<or> u = user_id \<and> x = row" for x
    using same[of x] row(1,3) m[of u "rl_id x"] unfolding holds_def r(2) by blast
  have d': "decodable parse db'" using assms(2) r(2) by (simp add: decodable_def)
  have check: "require_permission parse db u required = Inr () \<longleftrightarrow>
      (\<exists>x ps. holds db u x \<and> parse (rl_permissions x) = Inr ps \<and> has ps required)"
    if "decodable parse db" for db
    using that by (simp add: require_permission_def user_has_permission_iff)
  have has: "has ps required \<longleftrightarrow> wildcard \<in> set ps \<or> required \<in> set ps" for ps
    by (auto simp: has_def list_ex_iff)
  have one: "(\<exists>r \<in> set (roles db). rl_name r = name \<and> P r) \<longleftrightarrow> P row" for P
    using same row(1,2) by blast
  show ?thesis
    unfolding check[OF d'] check[OF assms(2)] h has one by blast
qed

definition roles_example_db :: db where
  "roles_example_db = empty_db\<lparr>
     users := [\<lparr>u_id = ''a'', u_username_token = ''ta'', u_encrypted_display = None, u_disabled_at = None, u_deleted_at = None\<rparr>],
     roles := [\<lparr>rl_id = ''role_admin'', rl_name = ''admin'', rl_level = 80, rl_permissions = ''user.manage''\<rparr>]\<rparr>"

theorem grant_role_effect_witness:
  "\<exists>db'. grant_role (\<lambda>s. Inr [s]) ''a'' ''admin'' None 0 roles_example_db = Inr db' \<and>
     require_permission (\<lambda>s. Inr [s]) db' ''a'' ''user.manage'' = Inr ()"
proof -
  obtain db' where g: "grant_role (\<lambda>s. Inr [s]) ''a'' ''admin'' None 0 roles_example_db = Inr db'"
    by (simp add: grant_role_def get_role_by_name_def decode_role_def roles_example_db_def empty_db_def
        user_exists_def)
  from grant_role_effect[OF g, of "''a''" "''user.manage''"] g show ?thesis
    by (auto simp: decodable_def roles_example_db_def)
qed

text \<open>
  A revoked role is gone for that user, whatever rights remain through other roles,
  and the check of every other user is unchanged; revoking a role that does not exist
  changes nothing and is an error.
\<close>

theorem revoke_role_effect:
  assumes "decodable parse db" and "distinct (map rl_name (roles db))" and "distinct (map rl_id (roles db))"
  shows "case revoke_role parse user_id name db of
      Inl e \<Rightarrow> e = UnknownRole name \<and> name \<notin> rl_name ` set (roles db)
    | Inr db' \<Rightarrow>
        require_role parse db' user_id name = Inl CheckForbidden \<and>
        (\<forall>u required. u = user_id \<or>
           require_permission parse db' u required = require_permission parse db u required)"
proof (cases "revoke_role parse user_id name db")
  case (Inl e)
  with assms(1) have "List.find (\<lambda>r. rl_name r = name) (roles db) = None \<and> e = UnknownRole name"
    by (fastforce simp: revoke_role_def get_role_by_name_def decode_role_def decodable_def
        dest: find_SomeD split: sum.splits option.splits)
  with Inl show ?thesis by (auto simp: find_None_iff_all)
next
  case (Inr db')
  obtain role where r: "get_role_by_name parse db name = Inr (Some role)" "roles db' = roles db"
    and m: "\<And>u i. assigned db' u i \<longleftrightarrow>
       assigned db u i \<and> \<not> (u = user_id \<and> i = role_id role)"
    using revoke_role_updates[OF Inr] by blast
  obtain row where row: "row \<in> set (roles db)" "rl_name row = name" "rl_id row = role_id role"
    using get_role_by_name_SomeD[OF r(1)] by blast
  have d': "decodable parse db'" using assms(1) r(2) by (simp add: decodable_def)
  have "\<not> holds db' user_id x" if "rl_name x = name" for x
    using that row assms(2) unfolding holds_def r(2) m by (auto simp: distinct_map dest: inj_onD)
  then have "require_role parse db' user_id name = Inl CheckForbidden"
    using get_user_roles_ok[OF d', of user_id] by (auto simp: require_role_def)
  moreover have "holds db' u x \<longleftrightarrow> holds db u x" if "u \<noteq> user_id" for u x
    using that unfolding holds_def r(2) m by auto
  then have "require_permission parse db' u required = require_permission parse db u required"
    if "u \<noteq> user_id" for u required
    using that assms(1) d' by (simp add: require_permission_def user_has_permission_iff)
  ultimately show ?thesis using Inr by auto
qed

theorem revoke_role_effect_witness:
  "case revoke_role (\<lambda>s. Inr [s]) ''a'' ''admin'' roles_example_db of
      Inl e \<Rightarrow> e = UnknownRole ''admin'' \<and> ''admin'' \<notin> rl_name ` set (roles roles_example_db)
    | Inr db' \<Rightarrow>
        require_role (\<lambda>s. Inr [s]) db' ''a'' ''admin'' = Inl CheckForbidden \<and>
        (\<forall>u required. u = ''a'' \<or>
           require_permission (\<lambda>s. Inr [s]) db' u required =
             require_permission (\<lambda>s. Inr [s]) roles_example_db u required)"
  by (rule revoke_role_effect) (simp_all add: decodable_def roles_example_db_def)

end
