(* ===== verification/Occupancy.thy ===== *)
theory Occupancy
  imports Schema "HOL-Library.AList"
begin

text \<open>
  Who is present in a room session: the in-memory store of
  \<open>server/src/sessions/occupancy.rs\<close> and the device look-up of \<open>server/src/devices.rs\<close>.

  A \<open>HashMap\<close> is an association list with distinct keys, a \<open>HashSet\<close> a list without
  repetitions; the code sorts both before it shows them.  The task that
  \<open>ensure_debounce\<close> spawns is the step \<open>debounce_fires\<close>, which can run at any time while
  the handle is set.  Instants are nanoseconds of the monotonic clock.
\<close>

section \<open>Devices\<close>

record Device =
  dv_id :: id
  dv_user_id :: id
  dv_client_id :: id
  dv_platform :: string
  dv_encrypted_device_name :: "string option"
  dv_last_seen :: "time option"
  dv_created_at :: time

text \<open>The join takes the name of the device unless it is deleted.\<close>

definition find_by_client_id :: "db \<Rightarrow> id \<Rightarrow> id \<Rightarrow> Device option" where
  "find_by_client_id db user_id client_id =
     map_option
       (\<lambda>d. \<lparr>dv_id = d_id d, dv_user_id = d_user_id d, dv_client_id = d_client_id d,
             dv_platform = d_platform d,
             dv_encrypted_device_name = map_option dn_encrypted_device_name
               (List.find (\<lambda>n. dn_device_id n = d_id d \<and> dn_user_id n = d_user_id d \<and> dn_deleted_at n = None)
                 (device_names db)),
             dv_last_seen = d_last_seen d, dv_created_at = d_created_at d\<rparr>)
       (List.find (\<lambda>d. d_user_id d = user_id \<and> d_client_id d = client_id) (devices db))"

section \<open>The store\<close>

record participant =
  pt_client_ids :: "id list"
  pt_last_heartbeat :: "(id \<times> time) list"

record session_occupancy =
  so_room_id :: id
  so_participants :: "(id \<times> participant) list"
  so_session_started_at :: time
  so_last_published_count :: nat
  so_last_published_at :: "time option"
  so_debounce_handle :: bool

type_synonym occupancy_store = "(id \<times> session_occupancy) list"

record roster_user_item =
  rr_user_id :: id
  rr_client_ids :: "id list"

record ice_server =
  ic_urls :: "string list"
  ic_username :: string
  ic_credential :: string

record join_response =
  jr_roster :: "roster_user_item list"
  jr_ice_servers :: "ice_server list"

datatype occupancy_error =
    SessionsDisabled
  | SessionNotFound
  | OccupancyRoomNotFound
  | OccupancyForbidden
  | InvalidClientId
  | SessionFull
  | NotAParticipant

definition roster_of :: "session_occupancy \<Rightarrow> roster_user_item list" where
  "roster_of entry =
     sort_key rr_user_id
       (map (\<lambda>(uid, part). \<lparr>rr_user_id = uid, rr_client_ids = sort (pt_client_ids part)\<rparr>)
         (so_participants entry))"

definition ensure_debounce :: "session_occupancy \<Rightarrow> session_occupancy" where
  "ensure_debounce entry =
     (if \<not> so_debounce_handle entry then entry\<lparr>so_debounce_handle := True\<rparr> else entry)"

definition publish_occupancy_event :: "id \<Rightarrow> id \<Rightarrow> nat \<Rightarrow> event" where
  "publish_occupancy_event room_id session_id participant_count =
     Event (''private-room-'' @ room_id) ''session.occupancy''
       (JObject [(''room_id'', JString room_id), (''session_id'', JString session_id),
                 (''participant_count'', JInt (int participant_count))])"

definition new_session :: "id \<Rightarrow> time \<Rightarrow> session_occupancy" where
  "new_session room_id now =
     \<lparr>so_room_id = room_id, so_participants = [], so_session_started_at = now,
      so_last_published_count = 0, so_last_published_at = None, so_debounce_handle = False\<rparr>"

definition entry_or_new :: "occupancy_store \<Rightarrow> id \<Rightarrow> id \<Rightarrow> time \<Rightarrow> session_occupancy" where
  "entry_or_new store session_id room_id now =
     (case map_of store session_id of Some e \<Rightarrow> e | None \<Rightarrow> new_session room_id now)"

definition participant_or_new :: "session_occupancy \<Rightarrow> id \<Rightarrow> participant" where
  "participant_or_new entry user_id =
     (case map_of (so_participants entry) user_id of
        Some p \<Rightarrow> p | None \<Rightarrow> \<lparr>pt_client_ids = [], pt_last_heartbeat = []\<rparr>)"

text \<open>
  \<open>join\<close> keeps the entry that \<open>or_insert_with\<close> made even when the session is full.
  \<open>turn\<close> is the outcome of \<open>generate_turn_credentials\<close>.
\<close>

definition join_session ::
  "db \<Rightarrow> bool \<Rightarrow> bool \<Rightarrow> ice_server option \<Rightarrow> id \<Rightarrow> id \<Rightarrow> id \<Rightarrow> id \<Rightarrow> nat \<Rightarrow> time \<Rightarrow> occupancy_store \<Rightarrow>
   (occupancy_error + join_response) \<times> occupancy_store"
where
  "join_session db sessions_enabled turn_url_set turn room_id session_id user_id client_id
       max_participants_cap now store =
     (if find_by_client_id db user_id client_id = None then (Inl InvalidClientId, store)
      else
        let entry = entry_or_new store session_id room_id now in
        if map_of (so_participants entry) user_id = None \<and>
           length (so_participants entry) \<ge> max_participants_cap
        then (Inl SessionFull, AList.update session_id entry store)
        else
          let part = participant_or_new entry user_id;
              part' = part\<lparr>pt_client_ids := List.insert client_id (pt_client_ids part),
                           pt_last_heartbeat := AList.update client_id now (pt_last_heartbeat part)\<rparr>;
              entry' = entry\<lparr>so_participants := AList.update user_id part' (so_participants entry)\<rparr>;
              ice_servers =
                (if sessions_enabled \<and> turn_url_set
                 then (case turn of Some s \<Rightarrow> [s] | None \<Rightarrow> []) else []) in
          (Inr \<lparr>jr_roster = roster_of entry', jr_ice_servers = ice_servers\<rparr>,
           AList.update session_id (ensure_debounce entry') store))"

definition leave_session ::
  "db \<Rightarrow> id \<Rightarrow> id \<Rightarrow> id \<Rightarrow> occupancy_store \<Rightarrow> (occupancy_error + unit) \<times> occupancy_store"
where
  "leave_session db session_id user_id client_id store =
     (if find_by_client_id db user_id client_id = None then (Inl InvalidClientId, store)
      else
        (Inr (),
         (case map_of store session_id of
            None \<Rightarrow> store
          | Some entry \<Rightarrow>
              (case map_of (so_participants entry) user_id of
                 None \<Rightarrow> store
               | Some part \<Rightarrow>
                   let part' = part\<lparr>pt_client_ids := removeAll client_id (pt_client_ids part),
                                    pt_last_heartbeat := AList.delete client_id (pt_last_heartbeat part)\<rparr> in
                   if pt_client_ids part' = [] then
                     AList.update session_id
                       (ensure_debounce (entry\<lparr>so_participants := AList.delete user_id (so_participants entry)\<rparr>))
                       store
                   else
                     AList.update session_id
                       (entry\<lparr>so_participants := AList.update user_id part' (so_participants entry)\<rparr>) store))))"

definition heartbeat ::
  "db \<Rightarrow> id \<Rightarrow> id \<Rightarrow> id \<Rightarrow> time \<Rightarrow> occupancy_store \<Rightarrow> (occupancy_error + unit) \<times> occupancy_store"
where
  "heartbeat db session_id user_id client_id now store =
     (if find_by_client_id db user_id client_id = None then (Inl InvalidClientId, store)
      else
        (case map_of store session_id of
           None \<Rightarrow> (Inl NotAParticipant, store)
         | Some entry \<Rightarrow>
             (case map_of (so_participants entry) user_id of
                None \<Rightarrow> (Inl NotAParticipant, store)
              | Some part \<Rightarrow>
                  if client_id \<notin> set (pt_client_ids part) then (Inl NotAParticipant, store)
                  else
                    (Inr (), AList.update session_id
                       (entry\<lparr>so_participants := AList.update user_id
                          (part\<lparr>pt_last_heartbeat := AList.update client_id now (pt_last_heartbeat part)\<rparr>)
                          (so_participants entry)\<rparr>) store))))"

definition get_roster :: "id \<Rightarrow> id \<Rightarrow> occupancy_store \<Rightarrow> occupancy_error + roster_user_item list" where
  "get_roster session_id user_id store =
     (case map_of store session_id of
        None \<Rightarrow> Inl NotAParticipant
      | Some entry \<Rightarrow>
          if map_of (so_participants entry) user_id = None then Inl NotAParticipant
          else Inr (roster_of entry))"

definition get_participant_count :: "id \<Rightarrow> occupancy_store \<Rightarrow> nat" where
  "get_participant_count session_id store =
     (case map_of store session_id of Some entry \<Rightarrow> length (so_participants entry) | None \<Rightarrow> 0)"

definition teardown_session :: "id \<Rightarrow> id \<Rightarrow> occupancy_store \<Rightarrow> occupancy_store \<times> event list" where
  "teardown_session room_id session_id store =
     (case map_of store session_id of
        None \<Rightarrow> (store, [])
      | Some entry \<Rightarrow>
          (AList.delete session_id store, [publish_occupancy_event room_id session_id 0]))"

definition drop_stale :: "time \<Rightarrow> time \<Rightarrow> participant \<Rightarrow> participant" where
  "drop_stale now timeout part =
     (let hb = filter (\<lambda>(cid, last_hb). max 0 (now - last_hb) \<le> timeout) (pt_last_heartbeat part) in
      part\<lparr>pt_last_heartbeat := hb,
           pt_client_ids := filter (\<lambda>cid. map_of hb cid \<noteq> None) (pt_client_ids part)\<rparr>)"

definition cleanup_entry :: "time \<Rightarrow> time \<Rightarrow> session_occupancy \<Rightarrow> session_occupancy" where
  "cleanup_entry now timeout entry =
     (let parts = map (\<lambda>(uid, part). (uid, drop_stale now timeout part)) (so_participants entry);
          kept = filter (\<lambda>(uid, part). pt_client_ids part \<noteq> []) parts;
          count_changed = (length kept \<noteq> length parts);
          entry' = entry\<lparr>so_participants := kept\<rparr> in
      if count_changed then ensure_debounce entry' else entry')"

definition cleanup_stale_participants :: "time \<Rightarrow> time \<Rightarrow> occupancy_store \<Rightarrow> occupancy_store" where
  "cleanup_stale_participants now timeout store =
     map (\<lambda>(session_id, entry). (session_id, cleanup_entry now timeout entry)) store"

definition is_participant :: "id \<Rightarrow> id \<Rightarrow> occupancy_store \<Rightarrow> bool" where
  "is_participant session_id user_id store =
     (case map_of store session_id of
        Some entry \<Rightarrow> map_of (so_participants entry) user_id \<noteq> None
      | None \<Rightarrow> False)"

definition is_participant_of_client :: "id \<Rightarrow> id \<Rightarrow> id \<Rightarrow> occupancy_store \<Rightarrow> bool" where
  "is_participant_of_client session_id user_id client_id store =
     (case map_of store session_id of
        Some entry \<Rightarrow>
          (case map_of (so_participants entry) user_id of
             Some part \<Rightarrow> client_id \<in> set (pt_client_ids part)
           | None \<Rightarrow> False)
      | None \<Rightarrow> False)"

definition find_user_for_client :: "id \<Rightarrow> id \<Rightarrow> occupancy_store \<Rightarrow> id option" where
  "find_user_for_client session_id client_id store =
     (case map_of store session_id of
        Some entry \<Rightarrow>
          map_option fst (List.find (\<lambda>(uid, part). client_id \<in> set (pt_client_ids part)) (so_participants entry))
      | None \<Rightarrow> None)"

definition participant_users :: "id \<Rightarrow> occupancy_store \<Rightarrow> id list" where
  "participant_users session_id store =
     (case map_of store session_id of Some entry \<Rightarrow> sort (map fst (so_participants entry)) | None \<Rightarrow> [])"

text \<open>The body of the spawned task, once it holds the lock.\<close>

definition debounce_fires :: "id \<Rightarrow> time \<Rightarrow> occupancy_store \<Rightarrow> occupancy_store \<times> event list" where
  "debounce_fires session_id now store =
     (case map_of store session_id of
        None \<Rightarrow> (store, [])
      | Some entry \<Rightarrow>
          let current_count = length (so_participants entry);
              should_publish = (current_count \<noteq> so_last_published_count entry);
              entry1 = entry\<lparr>so_debounce_handle := False\<rparr>;
              entry2 = (if should_publish
                        then entry1\<lparr>so_last_published_count := current_count, so_last_published_at := Some now\<rparr>
                        else entry1);
              store' = (if current_count = 0 then AList.delete session_id store
                        else AList.update session_id entry2 store) in
          (store', if should_publish
                   then [publish_occupancy_event (so_room_id entry) session_id current_count] else []))"

section \<open>The invariant\<close>

definition part_ok :: "participant \<Rightarrow> bool" where
  "part_ok p \<longleftrightarrow> pt_client_ids p \<noteq> [] \<and> distinct (pt_client_ids p) \<and>
     distinct (map fst (pt_last_heartbeat p)) \<and> set (pt_client_ids p) = fst ` set (pt_last_heartbeat p)"

text \<open>Either the task that publishes is pending or the published count is the true one.\<close>

definition entry_ok :: "session_occupancy \<Rightarrow> bool" where
  "entry_ok e \<longleftrightarrow> distinct (map fst (so_participants e)) \<and> (\<forall>x \<in> set (so_participants e). part_ok (snd x)) \<and>
     (so_debounce_handle e \<or> so_last_published_count e = length (so_participants e))"

definition store_ok :: "occupancy_store \<Rightarrow> bool" where
  "store_ok store \<longleftrightarrow> distinct (map fst store) \<and> (\<forall>x \<in> set store. entry_ok (snd x))"

inductive occ_step :: "db \<Rightarrow> occupancy_store \<Rightarrow> occupancy_store \<Rightarrow> bool" for db where
  join: "join_session db en url turn room_id s u c cap now store = (r, store') \<Longrightarrow> occ_step db store store'"
| leave: "leave_session db s u c store = (r', store') \<Longrightarrow> occ_step db store store'"
| beat: "heartbeat db s u c now store = (r', store') \<Longrightarrow> occ_step db store store'"
| teardown: "teardown_session room_id s store = (store', evs) \<Longrightarrow> occ_step db store store'"
| cleanup: "occ_step db store (cleanup_stale_participants now timeout store)"
| debounce: "debounce_fires s now store = (store', evs) \<Longrightarrow> occ_step db store store'"

lemma set_alist_update: "set (AList.update k v al) \<subseteq> insert (k, v) (set al)"
  by (induction al) auto

lemma set_alist_delete: "set (AList.delete k al) \<subseteq> set al"
  by (auto simp: AList.delete_eq)

lemma ball_alist_update: "\<forall>x \<in> set al. P (snd x) \<Longrightarrow> P v \<Longrightarrow> \<forall>x \<in> set (AList.update k v al). P (snd x)"
  using set_alist_update[of k v al] by fastforce

lemma ball_alist_delete: "\<forall>x \<in> set al. P (snd x) \<Longrightarrow> \<forall>x \<in> set (AList.delete k al). P (snd x)"
  using set_alist_delete[of k al] by blast

lemma length_alist_update: "map_of al k = None \<Longrightarrow> length (AList.update k v al) = Suc (length al)"
  by (induction al) (auto split: if_splits)

lemma length_alist_update_same: "map_of al k \<noteq> None \<Longrightarrow> length (AList.update k v al) = length al"
  by (induction al) (auto split: if_splits)

lemma map_of_snd: "map_of al k = Some v \<Longrightarrow> \<forall>x \<in> set al. P (snd x) \<Longrightarrow> P v"
  by (force dest: map_of_SomeD)

lemma distinct_alist_delete: "distinct (map fst al) \<Longrightarrow> distinct (map fst (AList.delete k al))"
  by (rule distinct_delete)

lemma store_ok_update: "store_ok store \<Longrightarrow> entry_ok e \<Longrightarrow> store_ok (AList.update s e store)"
  unfolding store_ok_def using ball_alist_update[of store entry_ok e s] distinct_update[of store s e] by blast

lemma store_ok_delete: "store_ok store \<Longrightarrow> store_ok (AList.delete s store)"
  unfolding store_ok_def using ball_alist_delete[of store entry_ok s] distinct_alist_delete[of store s] by blast

lemma store_ok_entry: "store_ok store \<Longrightarrow> map_of store s = Some e \<Longrightarrow> entry_ok e"
  unfolding store_ok_def using map_of_snd[of store s e entry_ok] by blast

lemma entry_ok_part: "entry_ok e \<Longrightarrow> map_of (so_participants e) u = Some p \<Longrightarrow> part_ok p"
  unfolding entry_ok_def using map_of_snd[of "so_participants e" u p part_ok] by blast

lemma entry_ok_new: "store_ok store \<Longrightarrow> entry_ok (entry_or_new store s room_id now)"
  by (cases "map_of store s")
    (simp_all add: entry_or_new_def store_ok_entry, simp add: new_session_def entry_ok_def)

text \<open>What a change of the participants needs to keep an entry right.\<close>

lemma entry_ok_debounced:
  "distinct (map fst ps) \<Longrightarrow> \<forall>x \<in> set ps. part_ok (snd x) \<Longrightarrow> entry_ok (ensure_debounce (e\<lparr>so_participants := ps\<rparr>))"
  by (simp add: entry_ok_def ensure_debounce_def)

lemma entry_ok_same_count:
  "entry_ok e \<Longrightarrow> distinct (map fst ps) \<Longrightarrow> \<forall>x \<in> set ps. part_ok (snd x) \<Longrightarrow>
     length ps = length (so_participants e) \<Longrightarrow> entry_ok (e\<lparr>so_participants := ps\<rparr>)"
  by (auto simp: entry_ok_def)

lemma parts_update:
  "entry_ok e \<Longrightarrow> part_ok p \<Longrightarrow>
     distinct (map fst (AList.update u p (so_participants e))) \<and>
     (\<forall>x \<in> set (AList.update u p (so_participants e)). part_ok (snd x))"
  unfolding entry_ok_def using ball_alist_update[of "so_participants e" part_ok p u] distinct_update[of "so_participants e" u p] by blast

lemma parts_delete:
  "entry_ok e \<Longrightarrow>
     distinct (map fst (AList.delete u (so_participants e))) \<and>
     (\<forall>x \<in> set (AList.delete u (so_participants e)). part_ok (snd x))"
  unfolding entry_ok_def using ball_alist_delete[of "so_participants e" part_ok u] distinct_alist_delete[of "so_participants e" u] by blast

lemma join_ok:
  assumes ok: "store_ok store"
    and j: "join_session db en url turn room_id s u c cap now store = (r, store')"
  shows "store_ok store'"
proof -
  let ?e = "entry_or_new store s room_id now" and ?p = "participant_or_new (entry_or_new store s room_id now) u"
  let ?p' = "?p\<lparr>pt_client_ids := List.insert c (pt_client_ids ?p),
      pt_last_heartbeat := AList.update c now (pt_last_heartbeat ?p)\<rparr>"
  note e = entry_ok_new[OF ok, of s room_id now]
  have "List.insert c xs \<noteq> []" for xs
    by (metis in_set_insert insert_Nil list.distinct(1) not_in_set_insert)
  then have "part_ok ?p'"
    using entry_ok_part[OF e, of u] unfolding participant_or_new_def part_ok_def
    by (auto simp: distinct_update dom_update split: option.splits)
  from entry_ok_debounced[of "AList.update u ?p' (so_participants ?e)" ?e] parts_update[OF e this, of u]
  have "entry_ok (ensure_debounce (?e\<lparr>so_participants := AList.update u ?p' (so_participants ?e)\<rparr>))" by blast
  with j ok e show ?thesis
    by (auto simp: join_session_def Let_def store_ok_update split: if_splits)
qed

lemma leave_session_ok:
  assumes ok: "store_ok store" and l: "leave_session db s u c store = (r, store')"
  shows "store_ok store'"
proof (cases "map_of store s")
  case None
  with l ok show ?thesis by (auto simp: leave_session_def split: if_splits)
next
  case (Some e)
  note e = store_ok_entry[OF ok Some]
  show ?thesis
  proof (cases "map_of (so_participants e) u")
    case None
    with l ok Some show ?thesis by (auto simp: leave_session_def split: if_splits)
  next
    case (Some p)
    let ?p' = "p\<lparr>pt_client_ids := removeAll c (pt_client_ids p), pt_last_heartbeat := AList.delete c (pt_last_heartbeat p)\<rparr>"
    have p': "pt_client_ids ?p' \<noteq> [] \<Longrightarrow> part_ok ?p'"
      using entry_ok_part[OF e Some] unfolding part_ok_def
      using distinct_alist_delete[of "pt_last_heartbeat p" c] by (auto simp: distinct_removeAll AList.delete_eq)
    have "pt_client_ids ?p' \<noteq> [] \<Longrightarrow> entry_ok (e\<lparr>so_participants := AList.update u ?p' (so_participants e)\<rparr>)"
      using parts_update[OF e p', of u] Some by (intro entry_ok_same_count[OF e]) (auto simp: length_alist_update_same)
    moreover have "entry_ok (ensure_debounce (e\<lparr>so_participants := AList.delete u (so_participants e)\<rparr>))"
      using parts_delete[OF e, of u] by (intro entry_ok_debounced) auto
    ultimately show ?thesis
      using l ok Some \<open>map_of store s = Some e\<close>
      by (auto simp: leave_session_def Let_def store_ok_update split: if_splits)
  qed
qed

lemma heartbeat_ok:
  assumes ok: "store_ok store" and h: "heartbeat db s u c now store = (r, store')"
  shows "store_ok store'"
proof (cases "store' = store")
  case False
  with h obtain e p where e: "map_of store s = Some e" and p: "map_of (so_participants e) u = Some p"
    and c: "c \<in> set (pt_client_ids p)"
    and s': "store' = AList.update s (e\<lparr>so_participants := AList.update u
      (p\<lparr>pt_last_heartbeat := AList.update c now (pt_last_heartbeat p)\<rparr>) (so_participants e)\<rparr>) store"
    by (auto simp: heartbeat_def split: if_splits option.splits)
  note eo = store_ok_entry[OF ok e]
  have "part_ok (p\<lparr>pt_last_heartbeat := AList.update c now (pt_last_heartbeat p)\<rparr>)"
    using entry_ok_part[OF eo p] c unfolding part_ok_def by (auto simp: distinct_update dom_update)
  with parts_update[OF eo this, of u] p have "entry_ok (e\<lparr>so_participants := AList.update u
      (p\<lparr>pt_last_heartbeat := AList.update c now (pt_last_heartbeat p)\<rparr>) (so_participants e)\<rparr>)"
    by (intro entry_ok_same_count[OF eo]) (auto simp: length_alist_update_same)
  with ok s' show ?thesis by (simp add: store_ok_update)
qed (use ok in simp)

lemma drop_stale_ok:
  assumes p: "part_ok p" and "pt_client_ids (drop_stale now timeout p) \<noteq> []"
  shows "part_ok (drop_stale now timeout p)"
proof -
  let ?hb = "filter (\<lambda>(cid, last_hb). max 0 (now - last_hb) \<le> timeout) (pt_last_heartbeat p)"
  have "set (filter (\<lambda>cid. map_of ?hb cid \<noteq> None) (pt_client_ids p)) = fst ` set ?hb"
    using p by (auto simp: part_ok_def map_of_eq_None_iff simp del: max.bounded_iff)
  with assms show ?thesis
    by (simp add: part_ok_def drop_stale_def Let_def distinct_map_filter)
qed

lemma cleanup_entry_ok:
  assumes "entry_ok e"
  shows "entry_ok (cleanup_entry now timeout e)"
proof -
  let ?parts = "map (\<lambda>(uid, part). (uid, drop_stale now timeout part)) (so_participants e)"
  let ?kept = "filter (\<lambda>(uid, part). pt_client_ids part \<noteq> []) ?parts"
  have "distinct (map fst ?parts)"
    using assms by (simp add: entry_ok_def case_prod_beta comp_def)
  then have d: "distinct (map fst ?kept)"
    by (rule distinct_map_filter)
  have k: "\<forall>x \<in> set ?kept. part_ok (snd x)"
    using assms unfolding entry_ok_def by (fastforce intro: drop_stale_ok)
  show ?thesis
    using entry_ok_debounced[OF d k] entry_ok_same_count[OF assms d k]
    by (simp add: cleanup_entry_def Let_def)
qed

lemma cleanup_ok:
  assumes "store_ok store"
  shows "store_ok (cleanup_stale_participants now timeout store)"
proof -
  have "map fst (cleanup_stale_participants now timeout store) = map fst store"
    by (simp add: cleanup_stale_participants_def case_prod_beta)
  moreover have "\<forall>x \<in> set (cleanup_stale_participants now timeout store). entry_ok (snd x)"
    using assms by (auto simp: cleanup_stale_participants_def store_ok_def intro!: cleanup_entry_ok)
  ultimately show ?thesis using assms unfolding store_ok_def by simp
qed

lemma debounce_ok:
  assumes ok: "store_ok store" and d: "debounce_fires s now store = (store', evs)"
  shows "store_ok store'"
proof (cases "map_of store s")
  case None
  with d ok show ?thesis by (simp add: debounce_fires_def)
next
  case (Some e)
  from store_ok_entry[OF ok Some] have
    "entry_ok (e\<lparr>so_debounce_handle := False, so_last_published_count := length (so_participants e),
       so_last_published_at := Some now\<rparr>)"
    "so_last_published_count e = length (so_participants e) \<Longrightarrow> entry_ok (e\<lparr>so_debounce_handle := False\<rparr>)"
    by (auto simp: entry_ok_def)
  with d ok Some show ?thesis
    by (auto simp: debounce_fires_def Let_def store_ok_update store_ok_delete split: if_splits)
qed

lemma occ_step_ok: "occ_step db store store' \<Longrightarrow> store_ok store \<Longrightarrow> store_ok store'"
  by (induction rule: occ_step.induct)
    (auto simp: teardown_session_def cleanup_ok split: option.splits
      intro: join_ok leave_session_ok heartbeat_ok debounce_ok store_ok_delete)

text \<open>
  C18. In every state the store can reach, by joins, leaves, heartbeats, clean-ups,
  tear-downs and firings of the debounce task in any order, no session or user is listed
  twice, every listed user has a client, every listed client a heartbeat, and the published
  count of a session is its true count unless a task that will publish is pending.
\<close>

theorem occupancy_invariant:
  assumes "(occ_step db)\<^sup>*\<^sup>* [] store"
  shows "store_ok store \<and>
    (case map_of store s of
       None \<Rightarrow> get_participant_count s store = 0
     | Some e \<Rightarrow> so_debounce_handle e \<or> so_last_published_count e = get_participant_count s store)"
proof -
  have "store_ok store"
    using assms
  proof (induction rule: rtranclp_induct)
    case base
    show ?case by (simp add: store_ok_def)
  next
    case (step y z)
    then show ?case by (blast intro: occ_step_ok)
  qed
  then show ?thesis
    using store_ok_entry[of store s] by (auto simp: entry_ok_def get_participant_count_def split: option.splits)
qed

definition occupancy_example_db :: db where
  "occupancy_example_db = empty_db\<lparr>devices :=
     [\<lparr>d_id = ''d1'', d_user_id = ''a'', d_client_id = ''c1'', d_platform = ''web'', d_last_seen = None,
       d_created_at = 0\<rparr>]\<rparr>"

definition occupancy_example :: occupancy_store where
  "occupancy_example =
     snd (join_session occupancy_example_db True False None ''r'' ''s'' ''a'' ''c1'' 8 5 [])"

lemma occupancy_example_join:
  "join_session occupancy_example_db True False None ''r'' ''s'' ''a'' ''c1'' 8 5 [] =
     (Inr \<lparr>jr_roster = [\<lparr>rr_user_id = ''a'', rr_client_ids = [''c1'']\<rparr>], jr_ice_servers = []\<rparr>, occupancy_example)"
  by (simp add: occupancy_example_def join_session_def occupancy_example_db_def empty_db_def find_by_client_id_def
      entry_or_new_def new_session_def participant_or_new_def roster_of_def ensure_debounce_def Let_def
      List.insert_def)

theorem occupancy_invariant_witness:
  "store_ok occupancy_example \<and>
    (case map_of occupancy_example ''s'' of
       None \<Rightarrow> get_participant_count ''s'' occupancy_example = 0
     | Some e \<Rightarrow> so_debounce_handle e \<or> so_last_published_count e = get_participant_count ''s'' occupancy_example)"
  by (rule occupancy_invariant[of occupancy_example_db])
    (rule r_into_rtranclp, rule occ_step.join, rule occupancy_example_join)

text \<open>
  A successful join lists the user's client, answers with the roster that a look-up
  would give next, sorted by user, and never lifts the number of users above the cap; a user
  who is already in may join from another client even when the session is full.
\<close>

theorem join_effect:
  assumes "join_session db en url turn room_id s u c cap now store = (Inr resp, store')"
  shows "is_participant_of_client s u c store' \<and>
    get_roster s u store' = Inr (jr_roster resp) \<and>
    sorted (map rr_user_id (jr_roster resp)) \<and>
    (get_participant_count s store' \<le> cap \<or>
     get_participant_count s store' = get_participant_count s store \<and> is_participant s u store)"
proof -
  let ?e = "entry_or_new store s room_id now" and ?p = "participant_or_new (entry_or_new store s room_id now) u"
  let ?p' = "?p\<lparr>pt_client_ids := List.insert c (pt_client_ids ?p),
      pt_last_heartbeat := AList.update c now (pt_last_heartbeat ?p)\<rparr>"
  let ?e' = "?e\<lparr>so_participants := AList.update u ?p' (so_participants ?e)\<rparr>"
  from assms have room: "map_of (so_participants ?e) u \<noteq> None \<or> length (so_participants ?e) < cap"
    and s': "store' = AList.update s (ensure_debounce ?e') store" and r: "jr_roster resp = roster_of ?e'"
    by (auto simp: join_session_def Let_def split: if_splits)
  have deb: "so_participants (ensure_debounce ?e') = so_participants ?e'"
    "roster_of (ensure_debounce ?e') = roster_of ?e'"
    by (simp_all add: ensure_debounce_def roster_of_def)
  have m: "map_of store' s = Some (ensure_debounce ?e')"
    "map_of (so_participants ?e') u = Some ?p'"
    unfolding s' by (simp_all add: update_conv')
  have "get_participant_count s store' \<le> cap \<or>
     get_participant_count s store' = get_participant_count s store \<and> is_participant s u store"
  proof (cases "map_of (so_participants ?e) u")
    case None
    with room m deb show ?thesis by (simp add: get_participant_count_def length_alist_update)
  next
    case (Some q)
    then have "map_of store s = Some ?e"
      by (auto simp: entry_or_new_def new_session_def split: option.splits)
    with Some m deb show ?thesis
      by (simp add: get_participant_count_def is_participant_def length_alist_update_same)
  qed
  with m deb r show ?thesis
    by (simp add: is_participant_of_client_def get_roster_def roster_of_def)
qed

theorem join_effect_witness:
  "is_participant_of_client ''s'' ''a'' ''c1'' occupancy_example \<and>
    get_roster ''s'' ''a'' occupancy_example = Inr [\<lparr>rr_user_id = ''a'', rr_client_ids = [''c1'']\<rparr>] \<and>
    get_participant_count ''s'' occupancy_example \<le> 8"
  using join_effect[OF occupancy_example_join] by (auto simp: is_participant_def)

end
