(* ===== verification/Rooms.thy ===== *)
theory Rooms
  imports SyncSeq Limits Occupancy
begin

text \<open>
  Rooms and their members: the first half of \<open>server/src/rooms.rs\<close>, from the effective limits
  to ownership.  The MLS bookkeeping around additions and removals, in the same file, is in
  \<open>RoomMls\<close>.

  A room id is 16 random bytes, so \<open>create_room\<close> takes it as an argument, as it takes the
  clock.  The base64 codecs are the crate \<open>base64\<close>, so the metadata operations take them as
  arguments too.  An operation returns the error, with which the transaction is dropped,
  or its result with the new state and the events that were published.
\<close>

section \<open>Types\<close>

record room_with_role =
  rw_room :: room_row
  rw_current_user_role :: string
  rw_member_count :: "32 word"
  rw_effective_max_file_size_bytes :: int
  rw_effective_message_retention_days :: int

record create_room_options =
  co_retention_days :: "int option"
  co_max_file_size_bytes :: "int option"

datatype leave_outcome = Left | TransferredOwnership id | RoomDeleted

datatype room_error =
    RoomDatabase
  | RoomNotFound
  | NotAMember
  | Forbidden
  | RoomFull
  | UserNotFound
  | AlreadyMember
  | RoomLimitReached
  | InvalidRetention
  | InvalidFileSize
  | TargetNotAMember
  | CannotKickOwner
  | CannotKickSelf
  | ModerationDisabled
  | AlreadyModerator
  | NotAModerator
  | CannotModifyOwner
  | AlreadyOwner
  | CannotTransferToSelf
  | TargetHasNoDevice
  | RemoveNotFound
  | PendingAddNotFound
  | AlreadyConsumed

datatype room_metadata_error =
    MetaTooLarge nat nat
  | MetaInvalidEncoding
  | MetaDatabase
  | MetaRoomNotFound
  | MetaNotAMember
  | MetaForbidden

section \<open>Effective limits\<close>

definition effective_file_size_limit :: "int option \<Rightarrow> int \<Rightarrow> int \<Rightarrow> int" where
  "effective_file_size_limit room_override instance_limit server_max =
     (let candidate =
        (case room_override of
           Some r \<Rightarrow> min r instance_limit
         | None \<Rightarrow> instance_limit) in
      min candidate server_max)"

definition effective_message_retention_days :: "int option \<Rightarrow> int \<Rightarrow> int \<Rightarrow> int" where
  "effective_message_retention_days room_override instance_limit server_max =
     (let candidate =
        (case room_override of
           Some r \<Rightarrow> if r > 0 then min r instance_limit else if r = 0 then 0 else instance_limit
         | None \<Rightarrow> instance_limit) in
      if candidate = 0 \<or> instance_limit = 0 \<or> server_max = 0 then 0
      else min candidate server_max)"

record retention_preview_result =
  rp_current_retention_days :: int
  rp_proposed_retention_days :: int
  rp_messages_affected :: int
  rp_attachments_affected :: int
  rp_oldest_affected_at :: "time option"
  rp_newest_affected_at :: "time option"

text \<open>\<open>COUNT(*), MIN(created_at), MAX(created_at)\<close> of the selected rows.\<close>

definition row_stats :: "('r \<Rightarrow> time) \<Rightarrow> 'r list \<Rightarrow> int \<times> time option \<times> time option" where
  "row_stats created_at t =
     (int (length t), map_option created_at (min_row created_at t), map_option created_at (max_row created_at t))"

definition merge_times :: "(time \<Rightarrow> time \<Rightarrow> time) \<Rightarrow> time option \<Rightarrow> time option \<Rightarrow> time option" where
  "merge_times f x y =
     (case (x, y) of
        (Some m, Some a) \<Rightarrow> Some (f m a)
      | (Some m, None) \<Rightarrow> Some m
      | (None, Some a) \<Rightarrow> Some a
      | (None, None) \<Rightarrow> None)"

definition prunable_messages :: "db \<Rightarrow> id \<Rightarrow> time option \<Rightarrow> message_row list" where
  "prunable_messages db room_id cutoff =
     filter (\<lambda>g. g_room_id g = room_id \<and> sql_less (g_created_at g) cutoff \<and> g_deleted_at g = None \<and>
                 g_content_type g \<notin> {''commit'', ''proposal''}) (room_messages db)"

definition prunable_attachments :: "db \<Rightarrow> id \<Rightarrow> time option \<Rightarrow> attachment_row list" where
  "prunable_attachments db room_id cutoff =
     filter (\<lambda>a. at_room_id a = Some room_id \<and> sql_less (at_created_at a) cutoff) (attachments db)"

definition preview_retention_change ::
  "db \<Rightarrow> id \<Rightarrow> int \<Rightarrow> InstanceLimits \<Rightarrow> ServerHardMax \<Rightarrow> time \<Rightarrow> room_error + retention_preview_result"
where
  "preview_retention_change db room_id proposed_retention_days limits server_max now =
     (case find_room db room_id of
        None \<Rightarrow> Inl RoomNotFound
      | Some room \<Rightarrow>
          (let current_retention_days =
             effective_message_retention_days (r_retention_days room)
               (il_attachment_retention_days limits) (sm_attachment_retention_days server_max) in
           if proposed_retention_days = 0 then
             Inr \<lparr>rp_current_retention_days = current_retention_days, rp_proposed_retention_days = 0,
                  rp_messages_affected = 0, rp_attachments_affected = 0,
                  rp_oldest_affected_at = None, rp_newest_affected_at = None\<rparr>
           else
             (let cutoff = datetime_days_ago now proposed_retention_days;
                  msg_stats = row_stats g_created_at (prunable_messages db room_id cutoff);
                  att_stats = row_stats at_created_at (prunable_attachments db room_id cutoff) in
              Inr \<lparr>rp_current_retention_days = current_retention_days,
                   rp_proposed_retention_days = proposed_retention_days,
                   rp_messages_affected = fst msg_stats, rp_attachments_affected = fst att_stats,
                   rp_oldest_affected_at = merge_times min (fst (snd msg_stats)) (fst (snd att_stats)),
                   rp_newest_affected_at = merge_times max (snd (snd msg_stats)) (snd (snd att_stats))\<rparr>)))"

section \<open>Metadata\<close>

type_synonym decoder = "string \<Rightarrow> bytes option"

definition decode_either :: "decoder \<Rightarrow> decoder \<Rightarrow> string \<Rightarrow> bytes option" where
  "decode_either no_pad padded value =
     (case no_pad value of Some b \<Rightarrow> Some b | None \<Rightarrow> padded value)"

definition validate_metadata_blob ::
  "decoder \<Rightarrow> decoder \<Rightarrow> string \<Rightarrow> nat \<Rightarrow> room_metadata_error + unit"
where
  "validate_metadata_blob no_pad padded value max_bytes =
     (case decode_either no_pad padded value of
        None \<Rightarrow> Inl MetaInvalidEncoding
      | Some bs \<Rightarrow> if length bs > max_bytes then Inl (MetaTooLarge max_bytes (length bs)) else Inr ())"

record room_metadata_result =
  mr_room_id :: id
  mr_metadata :: "string option"
  mr_metadata_version :: int

text \<open>Step 3 of the update: the blob, checked and encoded again.\<close>

definition clean_metadata ::
  "decoder \<Rightarrow> decoder \<Rightarrow> (bytes \<Rightarrow> string) \<Rightarrow> string option \<Rightarrow> nat \<Rightarrow> room_metadata_error + string option"
where
  "clean_metadata no_pad padded encode metadata max_metadata_bytes =
     (case metadata of
        None \<Rightarrow> Inr None
      | Some m \<Rightarrow>
          (case validate_metadata_blob no_pad padded m max_metadata_bytes of
             Inl e \<Rightarrow> Inl e
           | Inr _ \<Rightarrow>
               (case decode_either no_pad padded m of
                  None \<Rightarrow> Inl MetaInvalidEncoding
                | Some decoded \<Rightarrow> Inr (Some (encode decoded)))))"

definition update_room_metadata ::
  "decoder \<Rightarrow> decoder \<Rightarrow> (bytes \<Rightarrow> string) \<Rightarrow> id \<Rightarrow> id \<Rightarrow> string option \<Rightarrow> nat \<Rightarrow> string \<Rightarrow> db \<Rightarrow>
   room_metadata_error + (room_metadata_result \<times> db \<times> event list)"
where
  "update_room_metadata no_pad padded encode room_id requester_id metadata max_metadata_bytes
       instance_moderation_mode db =
     (case (member_role db room_id requester_id, find_room db room_id) of
        (Some role, Some room) \<Rightarrow>
          (let effective_moderation_mode =
             (case r_moderation_override room of Some m \<Rightarrow> m | None \<Rightarrow> instance_moderation_mode) in
           if \<not> (role = ''owner'' \<or> (role = ''moderator'' \<and> effective_moderation_mode = ''discord''))
           then Inl MetaForbidden
           else
             (case clean_metadata no_pad padded encode metadata max_metadata_bytes of
                Inl e \<Rightarrow> Inl e
              | Inr clean \<Rightarrow>
                  if clean = r_metadata room then
                    Inr (\<lparr>mr_room_id = room_id, mr_metadata = r_metadata room,
                          mr_metadata_version = r_metadata_version room\<rparr>, db, [])
                  else
                    (let new_version = r_metadata_version room + 1 in
                     Inr (\<lparr>mr_room_id = room_id, mr_metadata = clean, mr_metadata_version = new_version\<rparr>,
                          db\<lparr>rooms := update_where (\<lambda>r. r_id r = room_id)
                            (\<lambda>r. r\<lparr>r_metadata := clean, r_metadata_version := new_version\<rparr>) (rooms db)\<rparr>,
                          [Event (''private-room-'' @ room_id) ''room.updated''
                             (JObject [(''room_id'', JString room_id), (''metadata'', json_opt clean)])]))))
      | _ \<Rightarrow> Inl MetaRoomNotFound)"

section \<open>Creating, reading and deleting rooms\<close>

definition clamp_retention ::
  "int option \<Rightarrow> InstanceLimits \<Rightarrow> ServerHardMax \<Rightarrow> room_error + int option"
where
  "clamp_retention retention limits server_max =
     (case retention of
        None \<Rightarrow> Inr None
      | Some r \<Rightarrow>
          if \<not> (0 \<le> r \<and> r \<le> 365) then Inl InvalidRetention
          else
            (let c1 = (if il_attachment_retention_days limits > 0
                       then min r (il_attachment_retention_days limits) else r);
                 c2 = (if sm_attachment_retention_days server_max > 0
                       then min c1 (sm_attachment_retention_days server_max) else c1) in
             Inr (Some c2)))"

definition clamp_file_size ::
  "int option \<Rightarrow> InstanceLimits \<Rightarrow> ServerHardMax \<Rightarrow> room_error + int option"
where
  "clamp_file_size size_opt limits server_max =
     (case size_opt of
        None \<Rightarrow> Inr None
      | Some f \<Rightarrow>
          if f < 1 \<or> f > sm_file_size_bytes server_max then Inl InvalidFileSize
          else Inr (Some (min (min f (il_file_size_bytes limits)) (sm_file_size_bytes server_max))))"

definition new_room_row :: "id \<Rightarrow> id \<Rightarrow> int option \<Rightarrow> int option \<Rightarrow> time \<Rightarrow> room_row" where
  "new_room_row room_id owner_id retention file_size now =
     \<lparr>r_id = room_id, r_owner_id = owner_id, r_metadata = None, r_metadata_version = 1,
      r_retention_days = retention, r_max_file_size_bytes = file_size, r_moderation_override = None,
      r_created_at = current_timestamp now\<rparr>"

text \<open>\<open>INSERT INTO room_members\<close>, with its primary key and the foreign key on users.\<close>

definition insert_member :: "id \<Rightarrow> id \<Rightarrow> string \<Rightarrow> string \<Rightarrow> time \<Rightarrow> db \<Rightarrow> db option" where
  "insert_member room_id user_id role joined_via now db =
     (if is_member db room_id user_id \<or> \<not> user_exists db user_id \<or> \<not> room_exists db room_id then None
      else Some (db\<lparr>room_members := room_members db @
             [\<lparr>m_room_id = room_id, m_user_id = user_id, m_role = role, m_joined_via = Some joined_via,
               m_joined_at = current_timestamp now\<rparr>]\<rparr>))"

definition create_room ::
  "id \<Rightarrow> create_room_options \<Rightarrow> InstanceLimits \<Rightarrow> ServerHardMax \<Rightarrow> id \<Rightarrow> time \<Rightarrow> db \<Rightarrow>
   room_error + (room_row \<times> db)"
where
  "create_room owner_id options limits server_max room_id now db =
     (if count_where (\<lambda>m. m_user_id m = owner_id) (room_members db)
         \<ge> min (il_rooms_per_user limits) (sm_rooms_per_user server_max)
      then Inl RoomLimitReached
      else
        (case clamp_retention (co_retention_days options) limits server_max of
           Inl e \<Rightarrow> Inl e
         | Inr clamped_retention \<Rightarrow>
             (case clamp_file_size (co_max_file_size_bytes options) limits server_max of
                Inl e \<Rightarrow> Inl e
              | Inr clamped_file_size \<Rightarrow>
                  (let room = new_room_row room_id owner_id clamped_retention clamped_file_size now in
                   if room_exists db room_id \<or> \<not> user_exists db owner_id then Inl RoomDatabase
                   else
                     (case insert_member room_id owner_id ''owner'' ''create'' now
                             (db\<lparr>rooms := rooms db @ [room]\<rparr>) of
                        None \<Rightarrow> Inl RoomDatabase
                      | Some db1 \<Rightarrow>
                          if find_epoch db1 room_id \<noteq> None then Inl RoomDatabase
                          else
                            Inr (room, db1\<lparr>room_epochs := room_epochs db1 @
                              [\<lparr>e_room_id = room_id, e_epoch = 0, e_sequence = 0, e_transcript_hash = None,
                                e_updated_at = current_timestamp now\<rparr>]\<rparr>))))))"

definition with_role :: "db \<Rightarrow> member_row \<Rightarrow> room_row \<Rightarrow> room_with_role" where
  "with_role db m r =
     \<lparr>rw_room = r, rw_current_user_role = m_role m, rw_member_count = of_int (member_count db (r_id r)),
      rw_effective_max_file_size_bytes = 0, rw_effective_message_retention_days = 0\<rparr>"

definition list_rooms_for_user :: "db \<Rightarrow> id \<Rightarrow> room_with_role list" where
  "list_rooms_for_user db user_id =
     concat (map (\<lambda>m. map (with_role db m) (filter (\<lambda>r. r_id r = m_room_id m) (rooms db)))
       (sort_key (\<lambda>m. - m_joined_at m) (filter (\<lambda>m. m_user_id m = user_id) (room_members db))))"

definition get_room_for_user :: "db \<Rightarrow> id \<Rightarrow> id \<Rightarrow> room_with_role option" where
  "get_room_for_user db room_id user_id =
     (case (List.find (\<lambda>m. m_room_id m = room_id \<and> m_user_id m = user_id) (room_members db),
            find_room db room_id) of
        (Some m, Some r) \<Rightarrow> Some (with_role db m r)
      | _ \<Rightarrow> None)"

fun publish_sessions_deleted ::
  "id \<Rightarrow> room_session_row list \<Rightarrow> occupancy_store \<Rightarrow> occupancy_store \<times> event list"
where
  "publish_sessions_deleted room_id [] occ = (occ, [])"
| "publish_sessions_deleted room_id (s # ss) occ =
     (case teardown_session room_id (rs_id s) occ of
        (occ1, evs1) \<Rightarrow>
          (case publish_sessions_deleted room_id ss occ1 of
             (occ2, evs2) \<Rightarrow>
               (occ2,
                evs1 @
                [Event (''private-room-'' @ room_id) ''session.deleted''
                   (JObject [(''room_id'', JString room_id), (''session_id'', JString (rs_id s)),
                             (''extension_id'', JString (rs_extension_id s))])] @
                evs2)))"

definition publish_room_sessions_deleted ::
  "db \<Rightarrow> id \<Rightarrow> occupancy_store \<Rightarrow> occupancy_store \<times> event list"
where
  "publish_room_sessions_deleted db room_id occ =
     publish_sessions_deleted room_id (filter (\<lambda>s. rs_room_id s = room_id) (room_sessions db)) occ"

definition delete_room ::
  "id \<Rightarrow> id \<Rightarrow> occupancy_store \<Rightarrow> db \<Rightarrow> room_error + (db \<times> occupancy_store \<times> event list)"
where
  "delete_room room_id user_id occ db =
     (if find_room db room_id = None then Inl RoomNotFound
      else
        (case member_role db room_id user_id of
           None \<Rightarrow> Inl NotAMember
         | Some role \<Rightarrow>
             if role \<noteq> ''owner'' then Inl Forbidden
             else
               (case publish_room_sessions_deleted db room_id occ of
                  (occ', evs) \<Rightarrow> Inr (delete_room_cascade room_id db, occ', evs))))"

section \<open>Membership\<close>

definition set_role :: "id \<Rightarrow> id \<Rightarrow> string \<Rightarrow> db \<Rightarrow> db" where
  "set_role room_id user_id role db = db\<lparr>room_members :=
     update_where (\<lambda>m. m_room_id m = room_id \<and> m_user_id m = user_id) (\<lambda>m. m\<lparr>m_role := role\<rparr>)
       (room_members db)\<rparr>"

definition remove_member :: "id \<Rightarrow> id \<Rightarrow> db \<Rightarrow> db" where
  "remove_member room_id user_id db = db\<lparr>room_members :=
     delete_where (\<lambda>m. m_room_id m = room_id \<and> m_user_id m = user_id) (room_members db)\<rparr>"

definition set_owner :: "id \<Rightarrow> id \<Rightarrow> db \<Rightarrow> db" where
  "set_owner room_id owner_id db = db\<lparr>rooms :=
     update_where (\<lambda>r. r_id r = room_id) (\<lambda>r. r\<lparr>r_owner_id := owner_id\<rparr>) (rooms db)\<rparr>"

definition role_rank :: "string \<Rightarrow> nat" where
  "role_rank role = (if role = ''moderator'' then 0 else if role = ''member'' then 1 else 2)"

text \<open>Moderators before members, the longest in the room first.\<close>

definition successor :: "db \<Rightarrow> id \<Rightarrow> id \<Rightarrow> id option" where
  "successor db room_id user_id =
     map_option m_user_id
       (min_row (\<lambda>m. (role_rank (m_role m), m_joined_at m))
         (filter (\<lambda>m. m_room_id m = room_id \<and> m_user_id m \<noteq> user_id) (room_members db)))"

definition leave_room ::
  "id \<Rightarrow> id \<Rightarrow> occupancy_store \<Rightarrow> db \<Rightarrow>
   room_error + (leave_outcome \<times> db \<times> occupancy_store \<times> event list)"
where
  "leave_room room_id user_id occ db =
     (if member_role db room_id user_id = None then Inl NotAMember
      else
        (case find_room db room_id of
           None \<Rightarrow> Inl RoomNotFound
         | Some room \<Rightarrow>
             if count_where (\<lambda>m. m_room_id m = room_id \<and> m_user_id m \<noteq> user_id) (room_members db) = 0 then
               (case publish_room_sessions_deleted db room_id occ of
                  (occ', evs) \<Rightarrow> Inr (RoomDeleted, delete_room_cascade room_id db, occ', evs))
             else if user_id \<noteq> r_owner_id room then
               Inr (Left, remove_member room_id user_id db, occ, [])
             else
               (case successor db room_id user_id of
                  None \<Rightarrow>
                    (case publish_room_sessions_deleted db room_id occ of
                       (occ', evs) \<Rightarrow> Inr (RoomDeleted, delete_room_cascade room_id db, occ', evs))
                | Some new_owner_id \<Rightarrow>
                    Inr (TransferredOwnership new_owner_id,
                         remove_member room_id user_id
                           (set_owner room_id new_owner_id
                             (set_role room_id new_owner_id ''owner'' db)), occ, []))))"

definition promote_member :: "id \<Rightarrow> id \<Rightarrow> id \<Rightarrow> string \<Rightarrow> db \<Rightarrow> room_error + db" where
  "promote_member room_id requester_id target_user_id moderation_mode db =
     (if moderation_mode \<noteq> ''discord'' then Inl ModerationDisabled
      else
        (case member_role db room_id requester_id of
           None \<Rightarrow> Inl NotAMember
         | Some req_role \<Rightarrow>
             if req_role \<noteq> ''owner'' then Inl Forbidden
             else
               (case member_role db room_id target_user_id of
                  None \<Rightarrow> Inl TargetNotAMember
                | Some targ_role \<Rightarrow>
                    if targ_role = ''owner'' then Inl CannotModifyOwner
                    else if targ_role = ''moderator'' then Inl AlreadyModerator
                    else Inr (set_role room_id target_user_id ''moderator'' db))))"

definition demote_member :: "id \<Rightarrow> id \<Rightarrow> id \<Rightarrow> string \<Rightarrow> db \<Rightarrow> room_error + db" where
  "demote_member room_id requester_id target_user_id moderation_mode db =
     (if moderation_mode \<noteq> ''discord'' then Inl ModerationDisabled
      else
        (case member_role db room_id requester_id of
           None \<Rightarrow> Inl NotAMember
         | Some req_role \<Rightarrow>
             if req_role \<noteq> ''owner'' then Inl Forbidden
             else
               (case member_role db room_id target_user_id of
                  None \<Rightarrow> Inl TargetNotAMember
                | Some targ_role \<Rightarrow>
                    if targ_role = ''owner'' then Inl CannotModifyOwner
                    else if targ_role \<noteq> ''moderator'' then Inl NotAModerator
                    else Inr (set_role room_id target_user_id ''member'' db))))"

text \<open>\<open>rooms.owner_id\<close> references a user, as the target's membership does already.\<close>

definition transfer_ownership :: "id \<Rightarrow> id \<Rightarrow> id \<Rightarrow> db \<Rightarrow> room_error + db" where
  "transfer_ownership room_id requester_id target_user_id db =
     (case member_role db room_id requester_id of
        None \<Rightarrow> Inl NotAMember
      | Some req_role \<Rightarrow>
          if req_role \<noteq> ''owner'' then Inl Forbidden
          else if target_user_id = requester_id then Inl CannotTransferToSelf
          else if member_role db room_id target_user_id = None then Inl TargetNotAMember
          else
            Inr (set_owner room_id target_user_id
                   (set_role room_id requester_id ''member''
                     (set_role room_id target_user_id ''owner'' db))))"

end
