(* ===== verification/RoomMls.thy ===== *)
theory RoomMls
  imports Rooms
begin

text \<open>
  The part of \<open>server/src/rooms.rs\<close> that keeps the MLS group in step with the membership:
  queued additions and removals, the choice of key packages, adding and kicking members, the
  paged member list, and \<open>create_welcome\<close> of \<open>server/src/welcomes.rs\<close>.

  \<open>fresh i\<close> is the i-th ULID an operation generates.  A cursor is kept as the record that
  the code encodes as JSON and base64url.
\<close>

section \<open>Types\<close>

record pending_remove =
  pv_id :: id
  pv_room_id :: id
  pv_target_user_id :: "id option"
  pv_target_bot_id :: "id option"
  pv_queued_at :: time
  pv_stale_at :: "time option"
  pv_remove_confirmed_at :: "time option"

record room_member =
  rm_user_id :: id
  rm_username_token :: string
  rm_encrypted_display :: "string option"
  rm_role :: string
  rm_joined_at :: time

datatype room_member_item =
    UserItem (ui_user_id: id) (ui_role: string) (ui_joined_at: time)
  | BotItem (bi_bot_id: id) (bi_mode: string) (bi_display_name: string)
      (bi_avatar_file_id: "id option") (bi_joined_at: time)

datatype mls_target = TargetUser id | TargetBot id

record queued_add =
  qa_add_id :: id
  qa_target_client_id :: id
  qa_key_package_id :: id

record add_member_outcome =
  am_member :: room_member
  am_added_client_ids :: "id list"

record pending_add_view =
  pw_id :: id
  pw_target_user_id :: "id option"
  pw_target_bot_id :: "id option"
  pw_target_client_id :: id
  pw_key_package_id :: id
  pw_queued_at :: time

record member_cursor =
  mc_room_id :: id
  mc_last_user_id :: "id option"
  mc_last_bot_id :: "id option"
  mc_segment :: "string option"

record list_members_query =
  lm_room_id :: id
  lm_requester_id :: id
  lm_limit :: nat
  lm_cursor :: "member_cursor option"

record list_members_result =
  lr_members :: "room_member_item list"
  lr_next_cursor :: "member_cursor option"

section \<open>Queued removals\<close>

definition remove_view :: "pending_remove_row \<Rightarrow> pending_remove" where
  "remove_view r =
     \<lparr>pv_id = pr_id r, pv_room_id = pr_room_id r, pv_target_user_id = pr_target_user_id r,
      pv_target_bot_id = pr_target_bot_id r, pv_queued_at = pr_queued_at r, pv_stale_at = pr_stale_at r,
      pv_remove_confirmed_at = pr_remove_confirmed_at r\<rparr>"

definition list_pending_removes :: "db \<Rightarrow> id \<Rightarrow> id \<Rightarrow> room_error + pending_remove list" where
  "list_pending_removes db room_id requester_id =
     (if \<not> is_member db room_id requester_id then Inl NotAMember
      else
        Inr (map remove_view
          (sort_key (\<lambda>r. (pr_queued_at r, pr_id r))
            (filter (\<lambda>r. pr_room_id r = room_id \<and> pr_consumed_at r = None \<and> pr_cancelled_at r = None)
              (pending_mls_removes db)))))"

definition find_pending_remove :: "db \<Rightarrow> id \<Rightarrow> id \<Rightarrow> pending_remove_row option" where
  "find_pending_remove db remove_id room_id =
     List.find (\<lambda>r. pr_id r = remove_id \<and> pr_room_id r = room_id) (pending_mls_removes db)"

text \<open>
  The three allocations of \<open>consume_pending_remove\<close>, in order: the removed user, the
  requester unless that is the same user, the owner of a removed bot unless already listed.
\<close>

definition push_target :: "id option \<Rightarrow> (id \<times> int) list \<times> db \<Rightarrow> ((id \<times> int) list \<times> db) option" where
  "push_target who st =
     (case who of
        None \<Rightarrow> Some st
      | Some u \<Rightarrow>
          (case allocate_user_seq (snd st) u of
             None \<Rightarrow> None
           | Some (n, db') \<Rightarrow> Some (fst st @ [(u, n)], db')))"

definition remove_seq_targets ::
  "id option \<Rightarrow> id option \<Rightarrow> id \<Rightarrow> db \<Rightarrow> ((id \<times> int) list \<times> db) option"
where
  "remove_seq_targets target_user_id target_bot_id requester_id db =
     (case push_target target_user_id ([], db) of
        None \<Rightarrow> None
      | Some st1 \<Rightarrow>
          (case push_target (if target_user_id \<noteq> Some requester_id then Some requester_id else None) st1 of
             None \<Rightarrow> None
           | Some st2 \<Rightarrow>
               push_target
                 (case target_bot_id of
                    None \<Rightarrow> None
                  | Some tb_id \<Rightarrow>
                      (case List.find (\<lambda>b. b_id b = tb_id) (bot_accounts (snd st2)) of
                         None \<Rightarrow> None
                       | Some b \<Rightarrow>
                           if list_ex (\<lambda>t. fst t = b_owner_user_id b) (fst st2) then None
                           else Some (b_owner_user_id b)))
                 st2))"

definition remove_confirmed_events ::
  "id \<Rightarrow> id option \<Rightarrow> id option \<Rightarrow> time \<Rightarrow> (id \<times> int) list \<Rightarrow> event list"
where
  "remove_confirmed_events room_id target_user_id target_bot_id now targets =
     (let common = [(''room_id'', JString room_id), (''target_user_id'', json_opt target_user_id),
                    (''target_bot_id'', json_opt target_bot_id), (''confirmed_at'', JTime now)] in
      Event (''private-room-'' @ room_id) ''mls.remove_confirmed'' (JObject common) #
      map (\<lambda>(uid, user_seq). publish_user_event uid
             (new_envelope ''mls.remove_confirmed'' user_seq
               (JObject (common @ [(''user_seq'', JInt user_seq)])) now)) targets)"

definition consume_pending_remove ::
  "id \<Rightarrow> id \<Rightarrow> id \<Rightarrow> time \<Rightarrow> db \<Rightarrow> room_error + (db \<times> event list)"
where
  "consume_pending_remove room_id remove_id requester_id now db =
     (if \<not> is_member db room_id requester_id then Inl NotAMember
      else
        (case find_pending_remove db remove_id room_id of
           None \<Rightarrow> Inl RemoveNotFound
         | Some r \<Rightarrow>
             if pr_consumed_at r \<noteq> None then Inl RemoveNotFound
             else
               (let db1 = db\<lparr>pending_mls_removes :=
                  update_where (\<lambda>r. pr_id r = remove_id \<and> pr_room_id r = room_id)
                    (\<lambda>r. r\<lparr>pr_consumed_at := Some now, pr_remove_confirmed_at := Some now\<rparr>)
                    (pending_mls_removes db)\<rparr> in
                (case remove_seq_targets (pr_target_user_id r) (pr_target_bot_id r) requester_id db1 of
                   None \<Rightarrow> Inl RoomDatabase
                 | Some (targets, db2) \<Rightarrow>
                     Inr (db2, remove_confirmed_events room_id (pr_target_user_id r) (pr_target_bot_id r)
                                 now targets)))))"

definition target_ids :: "mls_target \<Rightarrow> id option \<times> id option" where
  "target_ids target = (case target of TargetUser uid \<Rightarrow> (Some uid, None) | TargetBot bid \<Rightarrow> (None, Some bid))"

definition target_exists :: "db \<Rightarrow> mls_target \<Rightarrow> bool" where
  "target_exists db target =
     (case target of
        TargetUser uid \<Rightarrow> user_exists db uid
      | TargetBot bid \<Rightarrow> exists_where (\<lambda>b. b_id b = bid) (bot_accounts db))"

definition queue_pending_mls_remove_batch ::
  "id \<Rightarrow> mls_target \<Rightarrow> id \<Rightarrow> time \<Rightarrow> db \<Rightarrow> room_error + (id \<times> db)"
where
  "queue_pending_mls_remove_batch room_id target remove_id now db =
     (if \<not> room_exists db room_id \<or> \<not> target_exists db target then Inl RoomDatabase
      else
        (case insert_row pr_id
                \<lparr>pr_id = remove_id, pr_room_id = room_id, pr_target_user_id = fst (target_ids target),
                 pr_target_bot_id = snd (target_ids target), pr_queued_at = current_timestamp now,
                 pr_stale_at = None, pr_consumed_at = None, pr_cancelled_at = None,
                 pr_remove_confirmed_at = None\<rparr> (pending_mls_removes db) of
           None \<Rightarrow> Inl RoomDatabase
         | Some t \<Rightarrow> Inr (remove_id, db\<lparr>pending_mls_removes := t\<rparr>)))"

section \<open>Queued additions and key packages\<close>

fun queue_pending_mls_add_batch ::
  "id \<Rightarrow> mls_target \<Rightarrow> (id \<times> id) list \<Rightarrow> (nat \<Rightarrow> id) \<Rightarrow> time \<Rightarrow> db \<Rightarrow> room_error + (queued_add list \<times> db)"
where
  "queue_pending_mls_add_batch room_id target [] fresh now db = Inr ([], db)"
| "queue_pending_mls_add_batch room_id target ((client_id, key_package_id) # sel) fresh now db =
     (if \<not> room_exists db room_id \<or> \<not> target_exists db target \<or>
         \<not> exists_where (\<lambda>k. k_id k = key_package_id) (key_packages db) then Inl RoomDatabase
      else
        (case insert_row pa_id
                \<lparr>pa_id = fresh 0, pa_room_id = room_id, pa_target_user_id = fst (target_ids target),
                 pa_target_bot_id = snd (target_ids target), pa_target_client_id = client_id,
                 pa_key_package_id = key_package_id, pa_queued_at = current_timestamp now,
                 pa_consumed_at = None\<rparr> (pending_mls_adds db) of
           None \<Rightarrow> Inl RoomDatabase
         | Some t \<Rightarrow>
             (case queue_pending_mls_add_batch room_id target sel (fresh \<circ> Suc) now
                     (db\<lparr>pending_mls_adds := t\<rparr>) of
                Inl e \<Rightarrow> Inl e
              | Inr (queued, db') \<Rightarrow>
                  Inr (\<lparr>qa_add_id = fresh 0, qa_target_client_id = client_id,
                        qa_key_package_id = key_package_id\<rparr> # queued, db'))))"

definition consume_key_package :: "id \<Rightarrow> time \<Rightarrow> db \<Rightarrow> db" where
  "consume_key_package kp_id now db = db\<lparr>key_packages :=
     update_where (\<lambda>k. k_id k = kp_id)
       (\<lambda>k. k\<lparr>k_consumed := True, k_consumed_at := Some (current_timestamp now)\<rparr>) (key_packages db)\<rparr>"

definition select_bot_key_packages :: "id \<Rightarrow> time \<Rightarrow> db \<Rightarrow> (id \<times> id) list \<times> db" where
  "select_bot_key_packages bot_id now db =
     (let kps = map (\<lambda>k. (k_client_id k, k_id k))
        (sort_key (\<lambda>k. (k_client_id k, k_created_at k))
          (filter (\<lambda>k. k_bot_id k = Some bot_id \<and> \<not> k_consumed k \<and> \<not> k_is_last_resort k)
            (key_packages db))) in
      (kps, fold (\<lambda>(_, kp_id). consume_key_package kp_id now) kps db))"

definition add_view :: "pending_add_row \<Rightarrow> pending_add_view" where
  "add_view r =
     \<lparr>pw_id = pa_id r, pw_target_user_id = pa_target_user_id r, pw_target_bot_id = pa_target_bot_id r,
      pw_target_client_id = pa_target_client_id r, pw_key_package_id = pa_key_package_id r,
      pw_queued_at = pa_queued_at r\<rparr>"

definition list_pending_adds :: "db \<Rightarrow> id \<Rightarrow> id \<Rightarrow> room_error + pending_add_view list" where
  "list_pending_adds db room_id requester_id =
     (if \<not> is_member db room_id requester_id then Inl NotAMember
      else
        Inr (map add_view
          (sort_key (\<lambda>r. (pa_queued_at r, pa_id r))
            (filter (\<lambda>r. pa_room_id r = room_id \<and> pa_consumed_at r = None) (pending_mls_adds db)))))"

definition consume_pending_add :: "id \<Rightarrow> id \<Rightarrow> id \<Rightarrow> time \<Rightarrow> db \<Rightarrow> room_error + (time \<times> db)" where
  "consume_pending_add room_id add_id requester_id now db =
     (if \<not> is_member db room_id requester_id then Inl NotAMember
      else
        (case List.find (\<lambda>r. pa_id r = add_id \<and> pa_room_id r = room_id) (pending_mls_adds db) of
           None \<Rightarrow> Inl PendingAddNotFound
         | Some r \<Rightarrow>
             if pa_consumed_at r \<noteq> None then Inl AlreadyConsumed
             else
               Inr (now, db\<lparr>pending_mls_adds :=
                 update_where (\<lambda>r. pa_id r = add_id \<and> pa_room_id r = room_id)
                   (\<lambda>r. r\<lparr>pa_consumed_at := Some now\<rparr>) (pending_mls_adds db)\<rparr>)))"

section \<open>The member list\<close>

definition user_items :: "db \<Rightarrow> id \<Rightarrow> id option \<Rightarrow> nat \<Rightarrow> room_member_item list" where
  "user_items db room_id last_user_id fetch_limit =
     map (\<lambda>m. UserItem (m_user_id m) (m_role m) (m_joined_at m))
       (take fetch_limit
         (sort_key m_user_id
           (filter (\<lambda>m. m_room_id m = room_id \<and>
                        (case last_user_id of Some l_uid \<Rightarrow> m_user_id m > l_uid | None \<Rightarrow> True))
             (room_members db))))"

definition active_room_bot :: "db \<Rightarrow> id \<Rightarrow> room_bot_row \<Rightarrow> bool" where
  "active_room_bot db room_id rb \<longleftrightarrow>
     rb_room_id rb = room_id \<and> rb_revoked_at rb = None \<and>
     exists_where (\<lambda>ba. b_id ba = rb_bot_id rb \<and> b_deleted_at ba = None \<and> b_disabled_at ba = None)
       (bot_accounts db)"

definition bot_item :: "db \<Rightarrow> room_bot_row \<Rightarrow> room_member_item" where
  "bot_item db rb =
     (case List.find (\<lambda>ba. b_id ba = rb_bot_id rb) (bot_accounts db) of
        Some ba \<Rightarrow> BotItem (rb_bot_id rb) (rb_mode rb) (b_display_name ba) (b_avatar_file_id ba) (rb_granted_at rb)
      | None \<Rightarrow> BotItem (rb_bot_id rb) (rb_mode rb) [] None (rb_granted_at rb))"

definition bot_items :: "db \<Rightarrow> id \<Rightarrow> id option \<Rightarrow> nat \<Rightarrow> room_member_item list" where
  "bot_items db room_id last_bot_id needed_bots =
     map (bot_item db)
       (take needed_bots
         (sort_key rb_bot_id
           (filter (\<lambda>rb. active_room_bot db room_id rb \<and>
                         (case last_bot_id of Some l_bid \<Rightarrow> rb_bot_id rb > l_bid | None \<Rightarrow> True))
             (room_bots db))))"

definition item_cursor :: "id \<Rightarrow> room_member_item \<Rightarrow> member_cursor" where
  "item_cursor room_id item =
     (case item of
        UserItem user_id _ _ \<Rightarrow>
          \<lparr>mc_room_id = room_id, mc_last_user_id = Some user_id, mc_last_bot_id = None,
           mc_segment = Some ''users''\<rparr>
      | BotItem bot_id _ _ _ _ \<Rightarrow>
          \<lparr>mc_room_id = room_id, mc_last_user_id = None, mc_last_bot_id = Some bot_id,
           mc_segment = Some ''bots''\<rparr>)"

definition list_members :: "db \<Rightarrow> list_members_query \<Rightarrow> room_error + list_members_result" where
  "list_members db q =
     (if \<not> is_member db (lm_room_id q) (lm_requester_id q) then Inl NotAMember
      else
        (let fetch_limit = lm_limit q + 1;
             segment = Option.bind (lm_cursor q) mc_segment;
             last_user_id = Option.bind (lm_cursor q) mc_last_user_id;
             last_bot_id = Option.bind (lm_cursor q) mc_last_bot_id;
             is_bot_segment = (segment = Some ''bots'' \<or> segment = None \<and> last_bot_id \<noteq> None);
             us = (if \<not> is_bot_segment then user_items db (lm_room_id q) last_user_id fetch_limit else []);
             members =
               (if length us < fetch_limit
                then us @ bot_items db (lm_room_id q) (if is_bot_segment then last_bot_id else None)
                            (fetch_limit - length us)
                else us);
             has_more = (length members > lm_limit q);
             page = (if has_more then take (lm_limit q) members else members) in
         Inr \<lparr>lr_members = page,
              lr_next_cursor =
                (if has_more \<and> page \<noteq> [] then Some (item_cursor (lm_room_id q) (last page)) else None)\<rparr>))"

section \<open>Adding and kicking\<close>

definition create_welcome :: "id \<Rightarrow> id \<Rightarrow> id \<Rightarrow> bytes \<Rightarrow> id \<Rightarrow> time \<Rightarrow> db \<Rightarrow> db option" where
  "create_welcome room_id recipient_user_id recipient_client_id welcome_data fresh_id now db =
     (if \<not> room_exists db room_id \<or> \<not> user_exists db recipient_user_id then None
      else
        map_option (\<lambda>t. db\<lparr>welcomes := t\<rparr>)
          (insert_row w_id
            \<lparr>w_id = fresh_id, w_room_id = room_id, w_recipient_user_id = recipient_user_id,
             w_recipient_client_id = recipient_client_id, w_welcome_data = welcome_data,
             w_consumed = False, w_created_at = current_timestamp now\<rparr> (welcomes db)))"

text \<open>The oldest unconsumed package of a device, with the given last-resort flag.\<close>

definition pick_package :: "db \<Rightarrow> id \<Rightarrow> id \<Rightarrow> bool \<Rightarrow> key_package_row option" where
  "pick_package db user_id client_id last_resort =
     min_row (\<lambda>k. (k_created_at k, k_id k))
       (filter (\<lambda>k. k_user_id k = Some user_id \<and> k_client_id k = client_id \<and> \<not> k_consumed k \<and>
                    k_is_last_resort k = last_resort) (key_packages db))"

text \<open>Step 9 of \<open>add_member\<close>: a package for each device; a last-resort one is not used up.\<close>

fun select_packages :: "id \<Rightarrow> id list \<Rightarrow> time \<Rightarrow> db \<Rightarrow> (id \<times> id) list \<times> db" where
  "select_packages user_id [] now db = ([], db)"
| "select_packages user_id (client_id # cs) now db =
     (let normal_pkg = pick_package db user_id client_id False;
          fallback_pkg = (if normal_pkg = None then pick_package db user_id client_id True else None);
          pkg = (case normal_pkg of Some k \<Rightarrow> Some k | None \<Rightarrow> fallback_pkg) in
      (case pkg of
         None \<Rightarrow> select_packages user_id cs now db
       | Some k \<Rightarrow>
           (let db1 = (if \<not> k_is_last_resort k then consume_key_package (k_id k) now db else db) in
            (case select_packages user_id cs now db1 of
               (sel, db2) \<Rightarrow> ((client_id, k_id k) # sel, db2)))))"

text \<open>Steps 1 to 6 of \<open>add_member\<close>.\<close>

definition check_add_member ::
  "id \<Rightarrow> id \<Rightarrow> id \<Rightarrow> InstanceLimits \<Rightarrow> ServerHardMax \<Rightarrow> db \<Rightarrow> room_error option"
where
  "check_add_member room_id requester_id target_user_id limits server_max db =
     (case member_role db room_id requester_id of
        None \<Rightarrow> Some NotAMember
      | Some role \<Rightarrow>
          (case find_room db room_id of
             None \<Rightarrow> Some RoomNotFound
           | Some room \<Rightarrow>
               if role \<noteq> ''owner'' \<and> requester_id \<noteq> r_owner_id room then Some Forbidden
               else if \<not> exists_where (\<lambda>u. u_id u = target_user_id \<and> u_deleted_at u = None) (users db)
               then Some UserNotFound
               else if is_member db room_id target_user_id then Some AlreadyMember
               else if member_count db room_id \<ge> min (il_room_size limits) (sm_room_size server_max)
               then Some RoomFull
               else None))"

text \<open>Step 7: the welcome goes to the device registered last.\<close>

definition deliver_welcome ::
  "id \<Rightarrow> id \<Rightarrow> bytes option \<Rightarrow> id \<Rightarrow> time \<Rightarrow> db \<Rightarrow> room_error + db"
where
  "deliver_welcome room_id target_user_id welcome_data fresh_id now db =
     (case welcome_data of
        None \<Rightarrow> Inr db
      | Some blob \<Rightarrow>
          (case max_row d_created_at (filter (\<lambda>d. d_user_id d = target_user_id) (devices db)) of
             None \<Rightarrow> Inl TargetHasNoDevice
           | Some d \<Rightarrow>
               (case create_welcome room_id target_user_id (d_client_id d) blob fresh_id now db of
                  None \<Rightarrow> Inl RoomDatabase
                | Some db' \<Rightarrow> Inr db')))"

text \<open>Step 10: the member row joined with its user.\<close>

definition fetch_member :: "db \<Rightarrow> id \<Rightarrow> id \<Rightarrow> room_member option" where
  "fetch_member db room_id user_id =
     (case (List.find (\<lambda>m. m_room_id m = room_id \<and> m_user_id m = user_id) (room_members db),
            List.find (\<lambda>u. u_id u = user_id) (users db)) of
        (Some m, Some u) \<Rightarrow>
          Some \<lparr>rm_user_id = m_user_id m, rm_username_token = u_username_token u,
                rm_encrypted_display = u_encrypted_display u, rm_role = m_role m, rm_joined_at = m_joined_at m\<rparr>
      | _ \<Rightarrow> None)"

definition add_member ::
  "id \<Rightarrow> id \<Rightarrow> id \<Rightarrow> bytes option \<Rightarrow> InstanceLimits \<Rightarrow> ServerHardMax \<Rightarrow> (nat \<Rightarrow> id) \<Rightarrow> time \<Rightarrow> db \<Rightarrow>
   room_error + (add_member_outcome \<times> db)"
where
  "add_member room_id requester_id target_user_id welcome_data limits server_max fresh now db =
     (case check_add_member room_id requester_id target_user_id limits server_max db of
        Some e \<Rightarrow> Inl e
      | None \<Rightarrow>
          (case deliver_welcome room_id target_user_id welcome_data (fresh 0) now db of
             Inl e \<Rightarrow> Inl e
           | Inr db1 \<Rightarrow>
               (case insert_member room_id target_user_id ''member'' ''add'' now db1 of
                  None \<Rightarrow> Inl RoomDatabase
                | Some db2 \<Rightarrow>
                    (case select_packages target_user_id
                            (map d_client_id (sort_key d_created_at
                              (filter (\<lambda>d. d_user_id d = target_user_id) (devices db2)))) now db2 of
                       (selections, db3) \<Rightarrow>
                         (case queue_pending_mls_add_batch room_id (TargetUser target_user_id) selections
                                 (fresh \<circ> Suc) now db3 of
                            Inl e \<Rightarrow> Inl e
                          | Inr (queued, db4) \<Rightarrow>
                              (case fetch_member db4 room_id target_user_id of
                                 None \<Rightarrow> Inl RoomDatabase
                               | Some member \<Rightarrow>
                                   Inr (\<lparr>am_member = member,
                                         am_added_client_ids = map qa_target_client_id queued\<rparr>, db4)))))))"

definition kick_member ::
  "id \<Rightarrow> id \<Rightarrow> id \<Rightarrow> string \<Rightarrow> id \<Rightarrow> time \<Rightarrow> db \<Rightarrow> room_error + db"
where
  "kick_member room_id requester_id target_user_id moderation_mode remove_id now db =
     (case member_role db room_id requester_id of
        None \<Rightarrow> Inl NotAMember
      | Some req_role \<Rightarrow>
          (case member_role db room_id target_user_id of
             None \<Rightarrow> Inl TargetNotAMember
           | Some targ_role \<Rightarrow>
               if \<not> (req_role = ''owner'' \<or> (req_role = ''moderator'' \<and> moderation_mode = ''discord''))
               then Inl Forbidden
               else if target_user_id = requester_id then Inl CannotKickSelf
               else if targ_role = ''owner'' then Inl CannotKickOwner
               else
                 (case queue_pending_mls_remove_batch room_id (TargetUser target_user_id) remove_id now
                         (remove_member room_id target_user_id db) of
                    Inl e \<Rightarrow> Inl e
                  | Inr (_, db') \<Rightarrow> Inr db')))"

end
