(* ===== verification/RoomInvariant.thy ===== *)
theory RoomInvariant
  imports RoomMls
begin

text \<open>
  What the operations of \<open>Rooms\<close> and \<open>RoomMls\<close> do to a room, in terms of two look-ups: the
  room row and the role of a user in it.  On these rests the invariant of the membership
  tables: every room has exactly one owner, the user of its \<open>owner_id\<close>.
\<close>

section \<open>The effect of each statement on the look-ups\<close>

abbreviation find_member :: "id \<Rightarrow> id \<Rightarrow> member_row list \<Rightarrow> member_row option" where
  "find_member r u t \<equiv> List.find (\<lambda>m. m_room_id m = r \<and> m_user_id m = u) t"

lemma find_member_update:
  "(\<And>m. m_room_id (f m) = m_room_id m \<and> m_user_id (f m) = m_user_id m) \<Longrightarrow>
     find_member r' u' (update_where (\<lambda>m. m_room_id m = r \<and> m_user_id m = u) f t) =
     (if r' = r \<and> u' = u then map_option f (find_member r u t) else find_member r' u' t)"
  by (induction t) auto

lemma find_member_delete:
  "find_member r' u' (delete_where (\<lambda>m. m_room_id m = r \<and> m_user_id m = u) t) =
     (if r' = r \<and> u' = u then None else find_member r' u' t)"
  by (induction t) auto

lemma find_member_delete_room:
  "find_member r' u' (delete_where (\<lambda>m. m_room_id m = r) t) = (if r' = r then None else find_member r' u' t)"
  by (induction t) auto

named_theorems room_effects \<open>member_role, find_room and is_member after a statement\<close>

lemma member_role_set_role [room_effects]:
  "member_role (set_role r u x db) r' u' =
     (if r' = r \<and> u' = u then map_option (\<lambda>_. x) (member_role db r u) else member_role db r' u')"
  by (simp add: member_role_def set_role_def find_member_update option.map_comp comp_def)

lemma member_role_remove_member [room_effects]:
  "member_role (remove_member r u db) r' u' =
     (if r' = r \<and> u' = u then None else member_role db r' u')"
  by (simp add: member_role_def remove_member_def find_member_delete)

lemma member_role_set_owner [room_effects]: "member_role (set_owner r u db) = member_role db"
  by (rule member_role_cong) (simp add: set_owner_def)

lemma member_role_cascade [room_effects]:
  "member_role (delete_room_cascade r db) r' u = (if r' = r then None else member_role db r' u)"
  by (simp add: member_role_def delete_room_cascade_def find_member_delete_room)

lemma member_role_insert_member [room_effects]:
  "insert_member r u x via now db = Some db' \<Longrightarrow>
     member_role db' r' u' = (if r' = r \<and> u' = u then Some x else member_role db r' u')"
  by (auto simp: insert_member_def is_member_def member_role_def find_append split: if_splits option.splits)

lemma find_room_set_role [room_effects]: "find_room (set_role r u x db) = find_room db"
  by (rule ext) (simp add: find_room_def set_role_def)

lemma find_room_remove_member [room_effects]: "find_room (remove_member r u db) = find_room db"
  by (rule ext) (simp add: find_room_def remove_member_def)

lemma find_room_set_owner [room_effects]:
  "find_room (set_owner r u db) r' =
     (if r' = r then map_option (\<lambda>x. x\<lparr>r_owner_id := u\<rparr>) (find_room db r) else find_room db r')"
proof (cases "r' = r")
  case True
  then show ?thesis
    by (auto simp: find_room_def set_owner_def find_update_where dest!: find_SomeD intro!: option.map_cong)
next
  case False
  then show ?thesis by (simp add: find_room_def set_owner_def find_update_where_frame)
qed

lemma find_room_cascade [room_effects]:
  "find_room (delete_room_cascade r db) r' = (if r' = r then None else find_room db r')"
  by (auto simp: find_room_def delete_room_cascade_def find_delete_where_gone find_delete_where_frame)

lemma find_room_insert_member [room_effects]:
  "insert_member r u x via now db = Some db' \<Longrightarrow> find_room db' = find_room db"
  by (rule ext) (auto simp: insert_member_def find_room_def split: if_splits)

lemma find_room_append:
  "find_room (db\<lparr>rooms := rooms db @ [x]\<rparr>) r =
     (case find_room db r of None \<Rightarrow> if r_id x = r then Some x else None | Some y \<Rightarrow> Some y)"
  by (simp add: find_room_def find_append split: option.splits)

text \<open>Statements on other tables change neither look-up.\<close>

definition same_rooms :: "db \<Rightarrow> db \<Rightarrow> bool" where
  "same_rooms db db' \<longleftrightarrow>
     rooms db' = rooms db \<and> room_members db' = room_members db \<and> users db' = users db"

lemma same_rooms_lookups:
  assumes "same_rooms db db'"
  shows "member_role db' = member_role db" "find_room db' = find_room db" "is_member db' = is_member db"
    "user_exists db' = user_exists db" "member_count db' = member_count db" "room_exists db' = room_exists db"
proof -
  have t: "rooms db' = rooms db" "room_members db' = room_members db" "users db' = users db"
    using assms by (simp_all add: same_rooms_def)
  show "member_role db' = member_role db" by (rule member_role_cong) (rule t)
  show "is_member db' = is_member db" by (rule is_member_cong) (rule t)
  show "find_room db' = find_room db" "user_exists db' = user_exists db" "member_count db' = member_count db"
    "room_exists db' = room_exists db"
    by (rule ext, simp only: find_room_def user_exists_def member_count_def room_exists_def t)+
qed

lemma same_rooms_refl [simp]: "same_rooms db db"
  by (simp add: same_rooms_def)

lemma same_rooms_trans [trans]: "same_rooms a b \<Longrightarrow> same_rooms b c \<Longrightarrow> same_rooms a c"
  by (simp add: same_rooms_def)

lemma consume_key_package_same: "same_rooms db (consume_key_package k now db)"
  by (simp add: same_rooms_def consume_key_package_def)

lemma select_packages_same: "select_packages u cs now db = (sel, db') \<Longrightarrow> same_rooms db db'"
proof (induction cs arbitrary: db sel)
  case (Cons c cs)
  from Cons.prems obtain db1 sel1 where "db1 = db \<or> (\<exists>k. db1 = consume_key_package k now db)"
    and "select_packages u cs now db1 = (sel1, db')"
    by (auto simp: Let_def split: option.splits prod.splits if_splits)
  then show ?case
    using Cons.IH same_rooms_trans[OF consume_key_package_same] by blast
qed simp

lemma queue_adds_same:
  "queue_pending_mls_add_batch r t sel fresh now db = Inr (q, db') \<Longrightarrow> same_rooms db db'"
proof (induction sel arbitrary: fresh db q)
  case (Cons s sel)
  obtain c k where s: "s = (c, k)" by (cases s)
  from Cons.prems obtain t' q' where
    "queue_pending_mls_add_batch r t sel (fresh \<circ> Suc) now (db\<lparr>pending_mls_adds := t'\<rparr>) = Inr (q', db')"
    by (auto simp: s split: if_splits option.splits sum.splits)
  from Cons.IH[OF this] show ?case by (simp add: same_rooms_def)
qed simp

lemma queue_remove_same:
  "queue_pending_mls_remove_batch r t i now db = Inr (j, db') \<Longrightarrow> same_rooms db db'"
  by (auto simp: queue_pending_mls_remove_batch_def same_rooms_def split: if_splits option.splits)

lemma deliver_welcome_same: "deliver_welcome r u w i now db = Inr db' \<Longrightarrow> same_rooms db db'"
  by (auto simp: deliver_welcome_def create_welcome_def same_rooms_def split: option.splits if_splits)

text \<open>What a successful \<open>add_member\<close> passed through.\<close>

lemma add_member_steps:
  assumes "add_member r req u w lim hard fresh now db = Inr (out, db')"
  obtains db1 db2 where "check_add_member r req u lim hard db = None"
    "deliver_welcome r u w (fresh 0) now db = Inr db1"
    "insert_member r u ''member'' ''add'' now db1 = Some db2" "same_rooms db db1" "same_rooms db2 db'"
proof -
  obtain db1 db2 sel db3 q where s: "check_add_member r req u lim hard db = None"
    "deliver_welcome r u w (fresh 0) now db = Inr db1"
    "insert_member r u ''member'' ''add'' now db1 = Some db2"
    "select_packages u (map d_client_id (sort_key d_created_at
       (filter (\<lambda>d. d_user_id d = u) (devices db2)))) now db2 = (sel, db3)"
    "queue_pending_mls_add_batch r (TargetUser u) sel (fresh \<circ> Suc) now db3 = Inr (q, db')"
    using assms unfolding add_member_def by (auto split: option.splits sum.splits prod.splits)
  show thesis
    by (rule that[OF s(1-3) deliver_welcome_same[OF s(2)]])
      (rule same_rooms_trans[OF select_packages_same[OF s(4)] queue_adds_same[OF s(5)]])
qed

section \<open>The invariant\<close>

definition valid_roles :: "string set" where
  "valid_roles = {''owner'', ''moderator'', ''member''}"

definition member_ok :: "db \<Rightarrow> id \<Rightarrow> id \<Rightarrow> bool" where
  "member_ok db r u \<longleftrightarrow>
     (case member_role db r u of
        None \<Rightarrow> True
      | Some role \<Rightarrow>
          role \<in> valid_roles \<and> user_exists db u \<and>
          (case find_room db r of
             None \<Rightarrow> False
           | Some room \<Rightarrow> (role = ''owner'') = (r_owner_id room = u)))"

definition room_ok :: "db \<Rightarrow> id \<Rightarrow> bool" where
  "room_ok db r \<longleftrightarrow>
     (case find_room db r of None \<Rightarrow> True | Some room \<Rightarrow> is_member db r (r_owner_id room))"

definition rooms_ok :: "db \<Rightarrow> bool" where
  "rooms_ok db \<longleftrightarrow>
     (\<forall>r u. member_ok db r u) \<and> (\<forall>r. room_ok db r) \<and>
     distinct (map (\<lambda>m. (m_room_id m, m_user_id m)) (room_members db)) \<and> distinct (map r_id (rooms db))"

lemmas invariant_defs = member_ok_def room_ok_def is_member_def

lemma rooms_okD:
  assumes "rooms_ok db"
  shows "member_ok db r u" "room_ok db r"
    "distinct (map (\<lambda>m. (m_room_id m, m_user_id m)) (room_members db))" "distinct (map r_id (rooms db))"
  using assms by (simp_all add: rooms_ok_def)

lemma rooms_ok_member:
  assumes "rooms_ok db" and "member_role db r u = Some role"
  obtains room where "find_room db r = Some room" "role \<in> valid_roles" "user_exists db u"
    "(role = ''owner'') = (r_owner_id room = u)" "member_role db r (r_owner_id room) = Some ''owner''"
proof -
  obtain room where room: "find_room db r = Some room" "role \<in> valid_roles" "user_exists db u"
    "(role = ''owner'') = (r_owner_id room = u)"
    using rooms_okD(1)[OF assms(1), of r u] assms(2) by (auto simp: member_ok_def split: option.splits)
  moreover have "member_role db r (r_owner_id room) = Some ''owner''"
    using rooms_okD(2)[OF assms(1), of r] rooms_okD(1)[OF assms(1), of r "r_owner_id room"] room(1)
    by (auto simp: invariant_defs)
  ultimately show thesis by (rule that)
qed

lemma rooms_ok_same: "rooms_ok db \<Longrightarrow> same_rooms db db' \<Longrightarrow> rooms_ok db'"
  unfolding rooms_ok_def invariant_defs
  by (simp only: same_rooms_lookups) (simp add: same_rooms_def)

lemma user_exists_statements [room_effects]:
  "user_exists (set_role r u x db) = user_exists db" "user_exists (remove_member r u db) = user_exists db"
  "user_exists (set_owner r u db) = user_exists db" "user_exists (delete_room_cascade r db) = user_exists db"
  by (simp_all add: user_exists_def set_role_def remove_member_def set_owner_def delete_room_cascade_def fun_eq_iff
      del: exists_where_iff)

lemma distinct_set_role:
  "map (\<lambda>m. (m_room_id m, m_user_id m)) (room_members (set_role r u x db)) =
     map (\<lambda>m. (m_room_id m, m_user_id m)) (room_members db)" "rooms (set_role r u x db) = rooms db"
  by (simp_all add: set_role_def map_update_where)

lemma distinct_set_owner:
  "map r_id (rooms (set_owner r u db)) = map r_id (rooms db)" "room_members (set_owner r u db) = room_members db"
  by (simp_all add: set_owner_def map_update_where)

lemma distinct_remove_member:
  "distinct (map (\<lambda>m. (m_room_id m, m_user_id m)) (room_members db)) \<Longrightarrow>
     distinct (map (\<lambda>m. (m_room_id m, m_user_id m)) (room_members (remove_member r u db)))"
  "rooms (remove_member r u db) = rooms db"
  by (simp_all add: remove_member_def distinct_map_delete_where)

lemma distinct_cascade:
  "distinct (map (\<lambda>m. (m_room_id m, m_user_id m)) (room_members db)) \<Longrightarrow>
     distinct (map (\<lambda>m. (m_room_id m, m_user_id m)) (room_members (delete_room_cascade r db)))"
  "distinct (map r_id (rooms db)) \<Longrightarrow> distinct (map r_id (rooms (delete_room_cascade r db)))"
  by (simp_all add: delete_room_cascade_def distinct_map_delete_where)

lemmas distinct_effects = distinct_set_role distinct_set_owner distinct_remove_member distinct_cascade

lemma rooms_okI:
  assumes "\<And>r u. member_ok db r u" and "\<And>r. room_ok db r"
    and "distinct (map (\<lambda>m. (m_room_id m, m_user_id m)) (room_members db))" and "distinct (map r_id (rooms db))"
  shows "rooms_ok db"
  using assms by (simp add: rooms_ok_def)

section \<open>Every operation keeps it\<close>

lemma cascade_ok:
  assumes "rooms_ok db"
  shows "rooms_ok (delete_room_cascade r db)"
proof (rule rooms_okI)
  fix r' u
  show "member_ok (delete_room_cascade r db) r' u"
    using rooms_okD(1)[OF assms, of r' u] by (simp add: member_ok_def room_effects cong: option.case_cong)
  show "room_ok (delete_room_cascade r db) r'"
    using rooms_okD(2)[OF assms, of r'] by (simp add: invariant_defs room_effects split: option.splits)
qed (use assms in \<open>simp_all add: distinct_effects rooms_ok_def\<close>)

text \<open>A change of a role other than to or from \<open>owner\<close>.\<close>

lemma set_plain_role_ok:
  assumes ok: "rooms_ok db" and "member_role db r u \<noteq> Some ''owner''" and "x \<in> {''moderator'', ''member''}"
  shows "rooms_ok (set_role r u x db)"
proof (rule rooms_okI)
  fix r' u'
  show "member_ok (set_role r u x db) r' u'"
  proof (cases "r' = r \<and> u' = u")
    case True
    with rooms_okD(1)[OF ok, of r u] assms(2,3) show ?thesis
      by (cases "member_role db r u")
        (auto simp: member_ok_def room_effects valid_roles_def cong: option.case_cong split: option.split_asm)
  next
    case False
    with rooms_okD(1)[OF ok, of r' u'] show ?thesis
      by (auto simp: member_ok_def room_effects cong: option.case_cong)
  qed
  show "room_ok (set_role r u x db) r'"
    using rooms_okD(2)[OF ok, of r'] by (auto simp: invariant_defs room_effects split: option.splits)
qed (use ok in \<open>simp_all add: distinct_effects rooms_ok_def\<close>)

lemma remove_plain_member_ok:
  assumes ok: "rooms_ok db" and owner: "\<And>room. find_room db r = Some room \<Longrightarrow> r_owner_id room \<noteq> u"
  shows "rooms_ok (remove_member r u db)"
proof (rule rooms_okI)
  fix r' u'
  show "member_ok (remove_member r u db) r' u'"
    using rooms_okD(1)[OF ok, of r' u'] by (simp add: member_ok_def room_effects cong: option.case_cong)
  show "room_ok (remove_member r u db) r'"
    using rooms_okD(2)[OF ok, of r'] owner by (auto simp: invariant_defs room_effects split: option.splits)
qed (use ok in \<open>simp_all add: distinct_effects rooms_ok_def\<close>)

text \<open>Ownership moves from \<open>old\<close> to \<open>new\<close>, both members, and \<open>old\<close> becomes a plain member.\<close>

lemma move_owner_ok:
  assumes ok: "rooms_ok db" and old: "member_role db r old = Some ''owner''" and new: "is_member db r new"
    and "old \<noteq> new"
  shows "rooms_ok (set_owner r new (set_role r old ''member'' (set_role r new ''owner'' db)))" (is "rooms_ok ?db")
proof (rule rooms_okI)
  obtain room where room: "find_room db r = Some room" "r_owner_id room = old" "user_exists db old"
    using rooms_ok_member[OF ok old] by auto
  obtain role where role: "member_role db r new = Some role"
    using new by (auto simp: is_member_role)
  then have "user_exists db new" by (rule rooms_ok_member[OF ok]) auto
  fix r' u
  consider (other) "r' \<noteq> r" | (new) "r' = r" "u = new" | (old) "r' = r" "u = old"
    | (third) "r' = r" "u \<noteq> new" "u \<noteq> old" by blast
  then show "member_ok ?db r' u"
  proof cases
    case other
    with rooms_okD(1)[OF ok, of r' u] show ?thesis
      by (simp add: member_ok_def room_effects cong: option.case_cong)
  next
    case new
    with room role assms(4) \<open>user_exists db new\<close> show ?thesis
      by (simp add: member_ok_def room_effects valid_roles_def)
  next
    case old
    with room role assms(2,4) show ?thesis by (simp add: member_ok_def room_effects valid_roles_def)
  next
    case third
    with room rooms_okD(1)[OF ok, of r u] show ?thesis
      by (auto simp: member_ok_def room_effects split: option.splits)
  qed
  show "room_ok ?db r'"
    using rooms_okD(2)[OF ok, of r'] room role assms(4)
    by (cases "r' = r") (auto simp: invariant_defs room_effects split: option.splits)
qed (use ok in \<open>simp_all add: distinct_effects rooms_ok_def\<close>)

lemma leave_succession_ok:
  assumes ok: "rooms_ok db" and old: "member_role db r old = Some ''owner''" and new: "is_member db r new"
    and "old \<noteq> new"
  shows "rooms_ok (remove_member r old (set_owner r new (set_role r new ''owner'' db)))" (is "rooms_ok ?db")
proof -
  let ?db1 = "set_owner r new (set_role r old ''member'' (set_role r new ''owner'' db))"
  note ok1 = move_owner_ok[OF assms]
  have "find_room ?db1 r \<noteq> None \<longrightarrow> r_owner_id (the (find_room ?db1 r)) = new"
    by (auto simp: room_effects)
  then have ok2: "rooms_ok (remove_member r old ?db1)"
    using assms(4) by (intro remove_plain_member_ok[OF ok1]) auto
  have "remove_member r old ?db1 = ?db"
    unfolding remove_member_def set_owner_def set_role_def
    by simp (subst delete_where_update_where, simp_all)
  with ok2 show ?thesis by simp
qed

lemma insert_plain_member_ok:
  assumes ok: "rooms_ok db" and ins: "insert_member r u ''member'' via now db = Some db'"
  shows "rooms_ok db'"
proof (rule rooms_okI)
  from ins have new: "member_role db r u = None" "user_exists db u" "room_exists db r"
    and db': "db' = db\<lparr>room_members := room_members db @
      [\<lparr>m_room_id = r, m_user_id = u, m_role = ''member'', m_joined_via = Some via,
        m_joined_at = current_timestamp now\<rparr>]\<rparr>"
    by (auto simp: insert_member_def is_member_def split: if_splits)
  have users: "user_exists db' = user_exists db" unfolding db' by (rule ext) (simp add: user_exists_def)
  obtain room where room: "find_room db r = Some room"
    using new(3) find_room_None_iff[of db r] by (cases "find_room db r") auto
  have owner: "r_owner_id room \<noteq> u"
    using rooms_okD(2)[OF ok, of r] room new(1) by (auto simp: invariant_defs)
  note effects = member_role_insert_member[OF ins] find_room_insert_member[OF ins] users
  fix r' u'
  show "member_ok db' r' u'"
    using rooms_okD(1)[OF ok, of r' u'] room owner new(2)
    by (cases "r' = r \<and> u' = u") (auto simp: member_ok_def effects valid_roles_def cong: option.case_cong)
  show "room_ok db' r'"
    using rooms_okD(2)[OF ok, of r'] by (auto simp: invariant_defs effects split: option.splits)
next
  show "distinct (map (\<lambda>m. (m_room_id m, m_user_id m)) (room_members db'))" "distinct (map r_id (rooms db'))"
    using ins rooms_okD(3,4)[OF ok] by (auto simp: insert_member_def is_member_iff split: if_splits)
qed

lemma create_room_ok:
  assumes ok: "rooms_ok db" and c: "create_room owner opts lim hard room_id now db = Inr (room, db')"
  shows "rooms_ok db'"
proof -
  obtain db1 ret size where room: "room = new_room_row room_id owner ret size now"
    and fresh: "\<not> room_exists db room_id" "user_exists db owner"
    and ins: "insert_member room_id owner ''owner'' ''create'' now (db\<lparr>rooms := rooms db @ [room]\<rparr>) = Some db1"
    and same: "same_rooms db1 db'"
    using c by (auto simp: create_room_def Let_def same_rooms_def split: if_splits sum.splits option.splits)
  let ?db0 = "db\<lparr>rooms := rooms db @ [room]\<rparr>"
  have none: "find_room db room_id = None" using fresh(1) by (simp add: find_room_None_iff)
  have fr: "find_room ?db0 r = (if r = room_id then Some room else find_room db r)" for r
    using none by (auto simp: find_room_append room new_room_row_def split: option.splits)
  have mr: "member_role ?db0 = member_role db" by (rule member_role_cong) simp
  have nm: "member_role db room_id u = None" for u
    using rooms_okD(1)[OF ok, of room_id u] none by (auto simp: member_ok_def split: option.splits)
  have m1: "member_role db1 r u = (if r = room_id \<and> u = owner then Some ''owner'' else member_role db r u)" for r u
    using member_role_insert_member[OF ins] mr by simp
  have f1: "find_room db1 r = (if r = room_id then Some room else find_room db r)" for r
    using find_room_insert_member[OF ins] fr by simp
  have u1: "user_exists db1 = user_exists db"
    using ins by (auto simp: insert_member_def user_exists_def fun_eq_iff split: if_splits simp del: exists_where_iff)
  have "rooms_ok db1"
  proof (rule rooms_okI)
    fix r u
    show "member_ok db1 r u"
      using rooms_okD(1)[OF ok, of r u] nm[of u] fresh
      by (cases "r = room_id")
        (auto simp: member_ok_def m1 f1 u1 valid_roles_def room new_room_row_def cong: option.case_cong)
    show "room_ok db1 r"
      using rooms_okD(2)[OF ok, of r]
      by (auto simp: invariant_defs m1 f1 room new_room_row_def split: option.splits)
  next
    have "r_id room = room_id" by (simp add: room new_room_row_def)
    then show "distinct (map r_id (rooms db1))"
      using ins rooms_okD(4)[OF ok] fresh(1)
      by (force simp: insert_member_def room_exists_def split: if_splits)
    show "distinct (map (\<lambda>m. (m_room_id m, m_user_id m)) (room_members db1))"
      using ins rooms_okD(3)[OF ok] by (auto simp: insert_member_def is_member_iff split: if_splits)
  qed
  then show ?thesis by (rule rooms_ok_same) (rule same)
qed

lemma metadata_ok:
  assumes ok: "rooms_ok db"
    and u: "update_room_metadata np pd enc r req meta mx mode db = Inr (res, db', evs)"
  shows "rooms_ok db'"
proof (cases "db' = db")
  case False
  with u obtain meta' v where db': "db' = db\<lparr>rooms := update_where (\<lambda>x. r_id x = r)
      (\<lambda>x. x\<lparr>r_metadata := meta', r_metadata_version := v\<rparr>) (rooms db)\<rparr>"
    by (auto simp: update_room_metadata_def Let_def split: option.splits sum.splits if_splits)
  have m: "member_role db' = member_role db" by (rule member_role_cong) (simp add: db')
  have us: "user_exists db' = user_exists db" by (rule ext) (simp only: user_exists_def db' db.simps db.ext_inject, simp)
  have f: "map_option r_owner_id (find_room db' x) = map_option r_owner_id (find_room db x)" for x
    unfolding find_room_def db' by (auto simp: find_update_where option.map_comp comp_def if_distrib intro!: option.map_cong)
  have f': "find_room db' x = None \<longleftrightarrow> find_room db x = None" for x
    using f[of x] by (metis map_option_is_None)
  show ?thesis
  proof (rule rooms_okI)
    fix x y
    show "member_ok db' x y"
      using rooms_okD(1)[OF ok, of x y] f[of x]
      by (auto simp: member_ok_def m us split: option.splits)
    show "room_ok db' x"
      using rooms_okD(2)[OF ok, of x] f[of x] by (auto simp: invariant_defs m split: option.splits)
  next
    show "distinct (map (\<lambda>m. (m_room_id m, m_user_id m)) (room_members db'))" "distinct (map r_id (rooms db'))"
      using rooms_okD(3,4)[OF ok] by (simp_all add: db' map_update_where)
  qed
qed (use ok in simp)

lemma promote_ok: "rooms_ok db \<Longrightarrow> promote_member r q u mode db = Inr db' \<Longrightarrow> rooms_ok db'"
  by (auto simp: promote_member_def split: if_splits option.splits intro!: set_plain_role_ok)

lemma demote_ok: "rooms_ok db \<Longrightarrow> demote_member r q u mode db = Inr db' \<Longrightarrow> rooms_ok db'"
  by (auto simp: demote_member_def split: if_splits option.splits intro!: set_plain_role_ok)

lemma transfer_ok: "rooms_ok db \<Longrightarrow> transfer_ownership r q u db = Inr db' \<Longrightarrow> rooms_ok db'"
  by (auto simp: transfer_ownership_def is_member_def split: if_splits option.splits intro!: move_owner_ok)

lemma successor_is_member:
  "successor db r u = Some v \<Longrightarrow> is_member db r v \<and> v \<noteq> u"
  by (auto simp: successor_def is_member_iff dest!: max_row_SomeD min_row_SomeD)

lemma leave_ok:
  assumes ok: "rooms_ok db" and l: "leave_room r u occ db = Inr (out, db', occ', evs)"
  shows "rooms_ok db'"
proof -
  obtain role room where role: "member_role db r u = Some role" and room: "find_room db r = Some room"
    using l by (auto simp: leave_room_def split: if_splits option.splits)
  show ?thesis
  proof (cases out)
    case Left
    with l role room have "db' = remove_member r u db" "u \<noteq> r_owner_id room"
      by (auto simp: leave_room_def split: if_splits option.splits prod.splits)
    with room show ?thesis by (auto intro!: remove_plain_member_ok[OF ok])
  next
    case (TransferredOwnership v)
    with l role room have "u = r_owner_id room" and s: "successor db r u = Some v"
      and db': "db' = remove_member r u (set_owner r v (set_role r v ''owner'' db))"
      by (auto simp: leave_room_def split: if_splits option.splits prod.splits)
    then have "member_role db r u = Some ''owner''"
      using rooms_ok_member[OF ok role] room by auto
    with successor_is_member[OF s] show ?thesis
      unfolding db' by (intro leave_succession_ok[OF ok]) auto
  next
    case RoomDeleted
    with l role room have "db' = delete_room_cascade r db"
      by (auto simp: leave_room_def split: if_splits option.splits prod.splits)
    then show ?thesis using cascade_ok[OF ok] by simp
  qed
qed

lemma kick_ok:
  assumes ok: "rooms_ok db" and k: "kick_member r q u mode i now db = Inr db'"
  shows "rooms_ok db'"
proof -
  obtain role j where role: "member_role db r u = Some role" "role \<noteq> ''owner''"
    and queue: "queue_pending_mls_remove_batch r (TargetUser u) i now (remove_member r u db) = Inr (j, db')"
    using k by (auto simp: kick_member_def split: if_splits option.splits sum.splits)
  have "rooms_ok (remove_member r u db)"
    using rooms_ok_member[OF ok role(1)] role(2) by (intro remove_plain_member_ok[OF ok]) auto
  then show ?thesis by (rule rooms_ok_same) (rule queue_remove_same[OF queue])
qed

lemma add_ok:
  assumes ok: "rooms_ok db" and a: "add_member r q u w lim hard fresh now db = Inr (out, db')"
  shows "rooms_ok db'"
  using a
proof (rule add_member_steps)
  fix db1 db2
  assume ins: "insert_member r u ''member'' ''add'' now db1 = Some db2"
    and same: "same_rooms db db1" "same_rooms db2 db'"
  from insert_plain_member_ok[OF rooms_ok_same[OF ok same(1)] ins] show "rooms_ok db'"
    by (rule rooms_ok_same) (rule same(2))
qed

section \<open>Reachable states\<close>

inductive room_step :: "db \<Rightarrow> db \<Rightarrow> bool" where
  create: "create_room owner opts lim hard room_id now db = Inr (room, db') \<Longrightarrow> room_step db db'"
| metadata: "update_room_metadata np pd enc r req meta mx mode db = Inr (res, db', evs) \<Longrightarrow> room_step db db'"
| delete: "delete_room r u occ db = Inr (db', occ', evs) \<Longrightarrow> room_step db db'"
| leave: "leave_room r u occ db = Inr (out, db', occ', evs) \<Longrightarrow> room_step db db'"
| add: "add_member r q u w lim hard fresh now db = Inr (added, db') \<Longrightarrow> room_step db db'"
| kick: "kick_member r q u mode i now db = Inr db' \<Longrightarrow> room_step db db'"
| promote: "promote_member r q u mode db = Inr db' \<Longrightarrow> room_step db db'"
| demote: "demote_member r q u mode db = Inr db' \<Longrightarrow> room_step db db'"
| transfer: "transfer_ownership r q u db = Inr db' \<Longrightarrow> room_step db db'"

lemma room_step_ok: "room_step db db' \<Longrightarrow> rooms_ok db \<Longrightarrow> rooms_ok db'"
proof (induction rule: room_step.induct)
  case (delete r u occ db db' occ' evs)
  then have "db' = delete_room_cascade r db"
    by (auto simp: delete_room_def split: if_splits option.splits prod.splits)
  with delete cascade_ok show ?case by simp
qed (blast intro: create_room_ok metadata_ok leave_ok add_ok kick_ok promote_ok demote_ok transfer_ok)+


text \<open>A small instance for the witnesses: a room with an owner and a member, and a third user.\<close>

definition room_example_db :: db where
  "room_example_db = empty_db\<lparr>
     users :=
       [\<lparr>u_id = ''a'', u_username_token = ''ta'', u_encrypted_display = None, u_disabled_at = None, u_deleted_at = None\<rparr>,
        \<lparr>u_id = ''b'', u_username_token = ''tb'', u_encrypted_display = None, u_disabled_at = None, u_deleted_at = None\<rparr>,
        \<lparr>u_id = ''c'', u_username_token = ''tc'', u_encrypted_display = None, u_disabled_at = None, u_deleted_at = None\<rparr>],
     rooms := [new_room_row ''r'' ''a'' None None 0],
     room_members :=
       [\<lparr>m_room_id = ''r'', m_user_id = ''a'', m_role = ''owner'', m_joined_via = Some ''create'', m_joined_at = 0\<rparr>,
        \<lparr>m_room_id = ''r'', m_user_id = ''b'', m_role = ''member'', m_joined_via = Some ''add'', m_joined_at = 5\<rparr>],
     room_epochs := [\<lparr>e_room_id = ''r'', e_epoch = 0, e_sequence = 0, e_transcript_hash = None, e_updated_at = 0\<rparr>],
     room_sessions := [\<lparr>rs_id = ''s'', rs_room_id = ''r'', rs_extension_id = ''x'', rs_session_type = ''t'', rs_created_by = ''a'',
       rs_metadata = None, rs_metadata_version = 1, rs_position = 0, rs_max_participants = None, rs_created_at = 0,
       rs_updated_at = 0\<rparr>],
     devices := [\<lparr>d_id = ''d'', d_user_id = ''c'', d_client_id = ''cc'', d_platform = ''web'', d_last_seen = None,
                  d_created_at = 0\<rparr>],
     key_packages :=
       [\<lparr>k_id = ''k1'', k_user_id = Some ''c'', k_bot_id = None, k_client_id = ''cc'', k_cipher_suite = 1, k_key_package = [],
         k_is_last_resort = False,
         k_consumed = False, k_consumed_at = None, k_created_at = 0\<rparr>,
        \<lparr>k_id = ''k2'', k_user_id = Some ''c'', k_bot_id = None, k_client_id = ''cc'', k_cipher_suite = 1, k_key_package = [],
         k_is_last_resort = True,
         k_consumed = False, k_consumed_at = None, k_created_at = 0\<rparr>]\<rparr>"

lemma room_example_lookups [simp]:
  "member_role room_example_db r u =
     (if r = ''r'' \<and> u = ''a'' then Some ''owner'' else if r = ''r'' \<and> u = ''b'' then Some ''member'' else None)"
  "find_room room_example_db r = (if r = ''r'' then Some (new_room_row ''r'' ''a'' None None 0) else None)"
  "user_exists room_example_db u \<longleftrightarrow> u \<in> {''a'', ''b'', ''c''}"
  by (auto simp: room_example_db_def member_role_def find_room_def user_exists_def new_room_row_def)

lemma room_example_tables:
  "room_members room_example_db =
     [\<lparr>m_room_id = ''r'', m_user_id = ''a'', m_role = ''owner'', m_joined_via = Some ''create'', m_joined_at = 0\<rparr>,
      \<lparr>m_room_id = ''r'', m_user_id = ''b'', m_role = ''member'', m_joined_via = Some ''add'', m_joined_at = 5\<rparr>]"
  "rooms room_example_db = [new_room_row ''r'' ''a'' None None 0]"
  "map u_id (users room_example_db) = [''a'', ''b'', ''c'']"
  "pending_mls_removes room_example_db = []" "pending_mls_adds room_example_db = []"
  "room_messages room_example_db = []" "user_seqs room_example_db = []" "bot_accounts room_example_db = []"
  by (simp_all add: room_example_db_def empty_db_def)

lemma room_example_users [simp]:
  "users db = users room_example_db \<Longrightarrow> user_exists db u \<longleftrightarrow> u \<in> {''a'', ''b'', ''c''}"
  using room_example_lookups(3)[of u] by (simp only: user_exists_def)

lemma room_example_ok: "rooms_ok room_example_db"
proof (rule rooms_okI)
  fix r u
  show "member_ok room_example_db r u" by (simp add: member_ok_def valid_roles_def new_room_row_def)
  show "room_ok room_example_db r" by (simp add: room_ok_def is_member_def new_room_row_def)
qed (simp_all add: room_example_db_def)


end
