(* ===== verification/Paging.thy ===== *)
theory Paging
  imports Prelude
begin

text \<open>
  Keyset pagination: a listing is read page by page, each page starting after the last item
  of the one before.  The locale states what a fetch of one page promises; its lemma is that
  a client who follows the cursors sees every item exactly once, in order.
\<close>

text \<open>Follow the cursors, at most \<open>fuel\<close> pages; \<open>None\<close> when they are not enough.\<close>

fun walk :: "('c option \<Rightarrow> nat \<Rightarrow> 'a list \<times> 'c option) \<Rightarrow> nat \<Rightarrow> nat \<Rightarrow> 'c option \<Rightarrow> 'a list option" where
  "walk fetch n 0 c = None"
| "walk fetch n (Suc fuel) c =
     (case fetch c n of
        (page, None) \<Rightarrow> Some page
      | (page, Some c') \<Rightarrow> map_option (\<lambda>rest. page @ rest) (walk fetch n fuel (Some c')))"

lemma walk_cong: "(\<And>c. fetch c n = fetch' c n) \<Longrightarrow> walk fetch n fuel c = walk fetch' n fuel c"
  by (induction fuel arbitrary: c) (simp_all split: prod.splits option.splits)

locale paged_listing =
  fixes fetch :: "'c option \<Rightarrow> nat \<Rightarrow> 'a list \<times> 'c option"
    and rest :: "'c option \<Rightarrow> 'a list"
    and cursor_at :: "'a \<Rightarrow> 'c"
    and sound :: bool
  assumes page: "sound \<Longrightarrow> fst (fetch c n) = take n (rest c)"
    and next_cursor: "sound \<Longrightarrow> 0 < n \<Longrightarrow>
      snd (fetch c n) = (if n < length (rest c) then Some (cursor_at (last (take n (rest c)))) else None)"
    and resume: "sound \<Longrightarrow> 0 < n \<Longrightarrow> n < length (rest c) \<Longrightarrow>
      rest (Some (cursor_at (last (take n (rest c))))) = drop n (rest c)"
begin

lemma walk_sees_everything:
  assumes "sound" and "0 < n" and "length (rest c) \<le> fuel"
  shows "walk fetch n (Suc fuel) c = Some (rest c)"
  using assms(3)
proof (induction fuel arbitrary: c)
  case 0
  with page[OF assms(1), of c n] next_cursor[OF assms(1,2), of c] show ?case
    by (cases "fetch c n") simp
next
  case (Suc fuel)
  show ?case
  proof (cases "n < length (rest c)")
    case True
    let ?c' = "Some (cursor_at (last (take n (rest c))))"
    have r: "rest ?c' = drop n (rest c)" by (rule resume[OF assms(1,2) True])
    then have "length (rest ?c') \<le> fuel" using Suc.prems assms(2) True by simp
    from Suc.IH[OF this] r True page[OF assms(1), of c n] next_cursor[OF assms(1,2), of c]
    show ?thesis by (cases "fetch c n") (simp add: walk.simps(2)[of fetch n "Suc fuel" c] del: walk.simps(2))
  next
    case False
    with page[OF assms(1), of c n] next_cursor[OF assms(1,2), of c] show ?thesis
      by (cases "fetch c n") simp
  qed
qed

end

section \<open>Sorted lists cut after a key\<close>

lemma filter_after_take:
  fixes key :: "'a \<Rightarrow> 'k::linorder"
  assumes "sorted (map key t)" and "distinct (map key t)" and "0 < n" and "n \<le> length t"
  shows "filter (\<lambda>x. key (last (take n t)) < key x) t = drop n t"
proof -
  have strict: "sorted_wrt (<) (map key t)"
    using assms(1,2) by (simp add: strict_sorted_iff)
  have l: "last (take n t) = t ! (n - 1)"
    using assms(3,4) by (subst last_conv_nth) (auto simp: min_absorb2)
  have "\<not> key (last (take n t)) < key x" if x: "x \<in> set (take n t)" for x
  proof -
    obtain i where "i < n" "i < length t" "x = t ! i"
      using x assms(4) by (auto simp: in_set_conv_nth)
    then have "key (t ! i) \<le> key (t ! (n - 1))"
      using sorted_nth_mono[OF assms(1), of i "n - 1"] assms(3,4) by simp
    with \<open>x = t ! i\<close> show ?thesis unfolding l by simp
  qed
  moreover have "key (last (take n t)) < key x" if x: "x \<in> set (drop n t)" for x
  proof -
    obtain j where "j < length t - n" "x = t ! (n + j)" using x by (auto simp: in_set_conv_nth)
    with strict assms(3,4) show ?thesis
      unfolding l sorted_wrt_iff_nth_less by simp
  qed
  ultimately have "filter (\<lambda>x. key (last (take n t)) < key x) (take n t @ drop n t) = drop n t"
    by (simp only: filter_append) (simp add: filter_empty_conv)
  then show ?thesis by simp
qed

definition after :: "'k::linorder option \<Rightarrow> 'k \<Rightarrow> bool" where
  "after l k = (case l of None \<Rightarrow> True | Some x \<Rightarrow> x < k)"

lemma after_simps [simp]: "after None k" "after (Some x) k \<longleftrightarrow> x < k"
  by (simp_all add: after_def)

text \<open>Cutting the whole list after the last item of a page leaves what the page left.\<close>

lemma resume_keyset:
  fixes key :: "'a \<Rightarrow> 'k::linorder"
  assumes "sorted (map key s)" and "distinct (map key s)" and t: "t = filter (\<lambda>x. after l (key x)) s"
    and "0 < n" and "n \<le> length t"
  shows "filter (\<lambda>x. after (Some (key (last (take n t)))) (key x)) s = drop n t"
proof -
  have "last (take n t) \<in> set (take n t)" using assms(4,5) by (intro last_in_set) auto
  then have l: "after l (key (last (take n t)))" unfolding t by (auto dest: in_set_takeD)
  have "filter (\<lambda>x. after (Some (key (last (take n t)))) (key x)) s =
      filter (\<lambda>x. key (last (take n t)) < key x) (filter (\<lambda>x. after l (key x)) s)"
    unfolding filter_filter using l
    by (intro filter_cong) (auto simp: after_def split: option.splits)
  also have "\<dots> = drop n t"
    unfolding t[symmetric]
    by (rule filter_after_take)
      (use assms in \<open>simp_all add: sorted_map_filter distinct_map_filter\<close>)
  finally show ?thesis .
qed

end
