(* ===== verification/RoomProps.thy ===== *)
theory RoomProps
  imports RoomInvariant Paging
begin

text \<open>
  What the room operations promise their callers: the member list seen through its pages,
  the effect of a kick, of a departure, of an addition and of a deletion, the use of key
  packages, and what a confirmed removal tells to whom.
\<close>

section \<open>The pages of the member list\<close>

definition member_fetch ::
  "db \<Rightarrow> id \<Rightarrow> id \<Rightarrow> member_cursor option \<Rightarrow> nat \<Rightarrow> room_member_item list \<times> member_cursor option"
where
  "member_fetch db room_id requester_id cursor limit =
     (case list_members db
             \<lparr>lm_room_id = room_id, lm_requester_id = requester_id, lm_limit = limit, lm_cursor = cursor\<rparr> of
        Inl e \<Rightarrow> ([], None)
      | Inr r \<Rightarrow> (lr_members r, lr_next_cursor r))"

definition room_users :: "db \<Rightarrow> id \<Rightarrow> member_row list" where
  "room_users db room_id = sort_key m_user_id (filter (\<lambda>m. m_room_id m = room_id) (room_members db))"

definition room_active_bots :: "db \<Rightarrow> id \<Rightarrow> room_bot_row list" where
  "room_active_bots db room_id = sort_key rb_bot_id (filter (active_room_bot db room_id) (room_bots db))"

definition user_item :: "member_row \<Rightarrow> room_member_item" where
  "user_item m = UserItem (m_user_id m) (m_role m) (m_joined_at m)"

definition in_bots :: "member_cursor option \<Rightarrow> bool" where
  "in_bots c \<longleftrightarrow> Option.bind c mc_segment = Some ''bots'' \<or>
     Option.bind c mc_segment = None \<and> Option.bind c mc_last_bot_id \<noteq> None"

definition users_left :: "db \<Rightarrow> id \<Rightarrow> member_cursor option \<Rightarrow> member_row list" where
  "users_left db room_id c =
     (if in_bots c then []
      else filter (\<lambda>m. after (Option.bind c mc_last_user_id) (m_user_id m)) (room_users db room_id))"

definition bots_left :: "db \<Rightarrow> id \<Rightarrow> member_cursor option \<Rightarrow> room_bot_row list" where
  "bots_left db room_id c =
     filter (\<lambda>b. after (if in_bots c then Option.bind c mc_last_bot_id else None) (rb_bot_id b))
       (room_active_bots db room_id)"

definition members_left :: "db \<Rightarrow> id \<Rightarrow> member_cursor option \<Rightarrow> room_member_item list" where
  "members_left db room_id c = map user_item (users_left db room_id c) @ map (bot_item db) (bots_left db room_id c)"

definition member_keys_ok :: "db \<Rightarrow> id \<Rightarrow> id \<Rightarrow> bool" where
  "member_keys_ok db room_id requester_id \<longleftrightarrow>
     is_member db room_id requester_id \<and>
     distinct (map m_user_id (room_users db room_id)) \<and>
     distinct (map rb_bot_id (room_active_bots db room_id))"

lemma user_items_eq:
  "user_items db room_id l n =
     take n (map user_item (filter (\<lambda>m. after l (m_user_id m)) (room_users db room_id)))"
  unfolding user_items_def room_users_def user_item_def
  by (simp add: take_map filter_sort[symmetric] after_def conj_commute cong: option.case_cong)

lemma bot_items_eq:
  "bot_items db room_id l n =
     take n (map (bot_item db) (filter (\<lambda>b. after l (rb_bot_id b)) (room_active_bots db room_id)))"
  unfolding bot_items_def room_active_bots_def
  by (simp add: take_map filter_sort[symmetric] after_def conj_commute cong: option.case_cong)

lemma take_append_fill:
  "(if length (take k xs) < k then take k xs @ take (k - length (take k xs)) ys else take k xs) = take k (xs @ ys)"
  by (auto simp: take_all_iff)

lemma list_members_page:
  assumes "is_member db room_id requester_id"
  shows "list_members db
      \<lparr>lm_room_id = room_id, lm_requester_id = requester_id, lm_limit = n, lm_cursor = c\<rparr> =
    Inr \<lparr>lr_members = take n (members_left db room_id c),
         lr_next_cursor =
           (if n < length (members_left db room_id c) \<and> 0 < n
            then Some (item_cursor room_id (last (take n (members_left db room_id c)))) else None)\<rparr>"
proof -
  let ?b = "Option.bind c mc_segment = Some ''bots'' \<or>
      Option.bind c mc_segment = None \<and> Option.bind c mc_last_bot_id \<noteq> None"
  let ?us = "if \<not> ?b then user_items db room_id (Option.bind c mc_last_user_id) (n + 1) else []"
  let ?bs = "bot_items db room_id (if ?b then Option.bind c mc_last_bot_id else None) (n + 1 - length ?us)"
  have us: "?us = take (n + 1) (map user_item (users_left db room_id c))"
    by (auto simp: users_left_def in_bots_def user_items_eq)
  have bs: "?bs = take (n + 1 - length ?us) (map (bot_item db) (bots_left db room_id c))"
    by (simp only: bots_left_def in_bots_def bot_items_eq)
  have m: "(if length ?us < n + 1 then ?us @ ?bs else ?us) = take (n + 1) (members_left db room_id c)"
    unfolding bs unfolding us members_left_def by (rule take_append_fill)
  have "list_members db
      \<lparr>lm_room_id = room_id, lm_requester_id = requester_id, lm_limit = n, lm_cursor = c\<rparr> =
    (let members = (if length ?us < n + 1 then ?us @ ?bs else ?us);
         page = (if n < length members then take n members else members) in
     Inr \<lparr>lr_members = page,
          lr_next_cursor = (if n < length members \<and> page \<noteq> [] then Some (item_cursor room_id (last page)) else None)\<rparr>)"
    by (simp only: list_members_def assms Let_def list_members_query.simps not_True_eq_False if_False)
  also have "\<dots> = Inr \<lparr>lr_members = take n (members_left db room_id c),
         lr_next_cursor =
           (if n < length (members_left db room_id c) \<and> 0 < n
            then Some (item_cursor room_id (last (take n (members_left db room_id c)))) else None)\<rparr>"
    unfolding m by (cases "n < length (members_left db room_id c)") (auto simp: Let_def)
  finally show ?thesis .
qed

lemma members_left_resume:
  assumes k: "member_keys_ok db room_id requester_id" and n: "0 < n" "n < length (members_left db room_id c)"
  shows "members_left db room_id (Some (item_cursor room_id (last (take n (members_left db room_id c))))) =
    drop n (members_left db room_id c)"
proof -
  let ?u = "users_left db room_id c" and ?b = "bots_left db room_id c"
  have su: "sorted (map m_user_id (room_users db room_id))" by (simp add: room_users_def)
  have sb: "sorted (map rb_bot_id (room_active_bots db room_id))" by (simp add: room_active_bots_def)
  show ?thesis
  proof (cases "n \<le> length ?u")
    case True
    then have "\<not> in_bots c" using n(1) by (auto simp: users_left_def)
    then have u: "?u = filter (\<lambda>m. after (Option.bind c mc_last_user_id) (m_user_id m)) (room_users db room_id)"
      and b: "?b = room_active_bots db room_id"
      by (simp_all add: users_left_def bots_left_def)
    have last: "last (take n (members_left db room_id c)) = user_item (last (take n ?u))"
    proof -
      have "take n ?u \<noteq> []" using True n(1) by auto
      then show ?thesis using True by (simp add: members_left_def take_map last_map)
    qed
    have "users_left db room_id (Some (item_cursor room_id (user_item (last (take n ?u))))) = drop n ?u"
      unfolding users_left_def[of db room_id "Some _"]
      using resume_keyset[OF su _ u n(1) True] k
      by (simp add: in_bots_def item_cursor_def user_item_def member_keys_ok_def)
    moreover have "bots_left db room_id (Some (item_cursor room_id (user_item (last (take n ?u))))) = ?b"
      unfolding b by (simp add: bots_left_def in_bots_def item_cursor_def user_item_def)
    ultimately show ?thesis
      unfolding last unfolding members_left_def using True by (simp add: drop_map)
  next
    case False
    define j where "j = n - length ?u"
    have j: "0 < j" "j \<le> length ?b" using False n by (auto simp: j_def members_left_def)
    have t: "take n (members_left db room_id c) = map user_item ?u @ map (bot_item db) (take j ?b)"
      using False by (simp add: members_left_def j_def take_map)
    have last: "last (take n (members_left db room_id c)) = bot_item db (last (take j ?b))"
    proof -
      have "take j ?b \<noteq> []" using j by auto
      then show ?thesis unfolding t by (simp add: last_map)
    qed
    have cur: "item_cursor room_id (bot_item db x) = \<lparr>mc_room_id = room_id, mc_last_user_id = None,
        mc_last_bot_id = Some (rb_bot_id x), mc_segment = Some ''bots''\<rparr>" for x
      by (simp add: bot_item_def item_cursor_def split: option.split)
    have "bots_left db room_id (Some (item_cursor room_id (bot_item db (last (take j ?b))))) = drop j ?b"
      unfolding bots_left_def[of db room_id "Some _"]
      using resume_keyset[OF sb _ bots_left_def j] k
      by (simp add: in_bots_def cur member_keys_ok_def)
    moreover have "users_left db room_id (Some (item_cursor room_id (bot_item db (last (take j ?b))))) = []"
      by (simp add: users_left_def in_bots_def cur)
    ultimately show ?thesis
      unfolding last unfolding members_left_def using False by (simp add: drop_map j_def)
  qed
qed

interpretation member_pages: paged_listing
  "member_fetch db room_id requester_id" "members_left db room_id" "item_cursor room_id"
  "member_keys_ok db room_id requester_id"
  for db room_id requester_id
proof unfold_locales
  fix c n
  assume k: "member_keys_ok db room_id requester_id"
  then have m: "is_member db room_id requester_id" by (simp add: member_keys_ok_def)
  show "fst (member_fetch db room_id requester_id c n) = take n (members_left db room_id c)"
    by (simp add: member_fetch_def list_members_page[OF m])
  assume n: "0 < n"
  then show "snd (member_fetch db room_id requester_id c n) =
      (if n < length (members_left db room_id c)
       then Some (item_cursor room_id (last (take n (members_left db room_id c)))) else None)"
    by (simp add: member_fetch_def list_members_page[OF m])
  assume "n < length (members_left db room_id c)"
  then show "members_left db room_id (Some (item_cursor room_id (last (take n (members_left db room_id c))))) =
      drop n (members_left db room_id c)"
    by (rule members_left_resume[OF k n])
qed

text \<open>
  A member who follows the cursors of the member list, with any page size, sees every
  user of the room once, by id, then every bot that is granted, enabled and not deleted,
  by id, and nothing else.
\<close>

theorem member_pages_complete:
  assumes "rooms_ok db" and "is_member db room_id requester_id" and "0 < n"
    and "distinct (map (\<lambda>b. (rb_room_id b, rb_bot_id b)) (room_bots db))"
    and "length (room_users db room_id) + length (room_active_bots db room_id) \<le> fuel"
  shows "walk (member_fetch db room_id requester_id) n (Suc fuel) None =
    Some (map user_item (room_users db room_id) @ map (bot_item db) (room_active_bots db room_id))"
proof -
  have all: "members_left db room_id None =
      map user_item (room_users db room_id) @ map (bot_item db) (room_active_bots db room_id)"
    by (simp add: members_left_def users_left_def bots_left_def in_bots_def)
  have "distinct (map m_user_id (filter (\<lambda>m. m_room_id m = room_id) (room_members db)))"
    using rooms_okD(3)[OF assms(1)] by (auto simp: distinct_map inj_on_def)
  moreover have "distinct (map rb_bot_id (filter (active_room_bot db room_id) (room_bots db)))"
    using assms(4) by (auto simp: distinct_map inj_on_def active_room_bot_def)
  ultimately have "member_keys_ok db room_id requester_id"
    using assms(2) by (simp add: member_keys_ok_def room_users_def room_active_bots_def distinct_map)
  from member_pages.walk_sees_everything[OF this assms(3), of None fuel] assms(5) show ?thesis
    by (simp add: all)
qed

theorem member_pages_complete_witness:
  "walk (member_fetch room_example_db ''r'' ''b'') 1 (Suc 2) None =
     Some (map user_item (room_users room_example_db ''r'') @
       map (bot_item room_example_db) (room_active_bots room_example_db ''r''))"
  by (rule member_pages_complete)
    (simp_all add: room_example_ok is_member_def room_users_def room_active_bots_def,
     simp_all add: room_example_db_def empty_db_def)

section \<open>Kicking\<close>

lemma queue_remove_listed:
  assumes "queue_pending_mls_remove_batch r t i now db = Inr (j, db')" and "is_member db' r x"
  shows "\<exists>rs. list_pending_removes db' r x = Inr rs \<and>
    (\<exists>p \<in> set rs. pv_id p = i \<and> (pv_target_user_id p, pv_target_bot_id p) = target_ids t)"
  using assms
  by (auto simp: queue_pending_mls_remove_batch_def list_pending_removes_def insert_row_def remove_view_def
      split: if_splits option.splits)



section \<open>Leaving\<close>

text \<open>
  C23. A departure: a plain member just leaves; the owner's place goes to the moderator, else
  the member, who has been in the room longest, and \<open>owner_id\<close> with it; the room is deleted
  exactly when nobody else is in it.
\<close>

theorem leave_effect:
  assumes "rooms_ok db" and "leave_room r u occ db = Inr (out, db', occ', evs)"
  shows "\<not> is_member db' r u \<and>
    (case out of
       Left \<Rightarrow>
         member_role db r u \<noteq> Some ''owner'' \<and> find_room db' r = find_room db r \<and>
         (\<forall>v. v = u \<or> member_role db' r v = member_role db r v)
     | TransferredOwnership v \<Rightarrow>
         member_role db r u = Some ''owner'' \<and> is_member db r v \<and>
         (\<forall>w. w = u \<or> member_role db' r w = (if w = v then Some ''owner'' else member_role db r w)) \<and>
         map_option r_owner_id (find_room db' r) = Some v \<and>
         (\<exists>m \<in> set (room_members db). m_room_id m = r \<and> m_user_id m = v \<and>
            (\<forall>n \<in> set (room_members db). m_room_id n = r \<and> m_user_id n \<noteq> u \<longrightarrow>
               (role_rank (m_role m), m_joined_at m) \<le> (role_rank (m_role n), m_joined_at n)))
     | RoomDeleted \<Rightarrow> find_room db' r = None \<and> (\<forall>v. is_member db r v \<longleftrightarrow> v = u))"
proof -
  obtain role room where role: "member_role db r u = Some role" and room: "find_room db r = Some room"
    using assms(2) by (auto simp: leave_room_def split: if_splits option.splits)
  note owner = rooms_ok_member[OF assms(1) role]
  show ?thesis
  proof (cases out)
    case Left
    with assms(2) role room have "db' = remove_member r u db" "u \<noteq> r_owner_id room"
      by (auto simp: leave_room_def split: if_splits option.splits prod.splits)
    with Left role room owner show ?thesis by (auto simp: is_member_def room_effects)
  next
    case (TransferredOwnership v)
    with assms(2) role room have u: "u = r_owner_id room" and s: "successor db r u = Some v"
      and db': "db' = remove_member r u (set_owner r v (set_role r v ''owner'' db))"
      by (auto simp: leave_room_def split: if_splits option.splits prod.splits)
    note v = successor_is_member[OF s]
    from s obtain m where m: "min_row (\<lambda>m. (role_rank (m_role m), m_joined_at m))
        (filter (\<lambda>m. m_room_id m = r \<and> m_user_id m \<noteq> u) (room_members db)) = Some m" "m_user_id m = v"
      by (auto simp: successor_def)
    from min_row_SomeD[OF m(1)] m(2) have best:
      "\<exists>m \<in> set (room_members db). m_room_id m = r \<and> m_user_id m = v \<and>
         (\<forall>n \<in> set (room_members db). m_room_id n = r \<and> m_user_id n \<noteq> u \<longrightarrow>
            (role_rank (m_role m), m_joined_at m) \<le> (role_rank (m_role n), m_joined_at n))"
      by auto
    obtain x where "member_role db r v = Some x" using v by (auto simp: is_member_role)
    moreover have "member_role db r u = Some ''owner''"
      using rooms_ok_member[OF assms(1) role] room u by auto
    ultimately have "\<not> is_member db' r u \<and>
        (\<forall>w. w = u \<or> member_role db' r w = (if w = v then Some ''owner'' else member_role db r w)) \<and>
        map_option r_owner_id (find_room db' r) = Some v"
      using room unfolding db' by (auto simp: is_member_def room_effects)
    with TransferredOwnership v best \<open>member_role db r u = Some ''owner''\<close> show ?thesis by simp
  next
    case RoomDeleted
    have succ: "successor db r u = None \<longleftrightarrow>
        count_where (\<lambda>m. m_room_id m = r \<and> m_user_id m \<noteq> u) (room_members db) = 0"
      by (auto simp: successor_def count_where_zero_iff filter_empty_conv)
    from RoomDeleted assms(2) role room succ have db': "db' = delete_room_cascade r db"
      and none: "count_where (\<lambda>m. m_room_id m = r \<and> m_user_id m \<noteq> u) (room_members db) = 0"
      by (auto simp: leave_room_def split: if_splits option.splits prod.splits)
    have "is_member db r v \<longleftrightarrow> v = u" for v
      using none role by (auto simp: is_member_iff count_where_zero_iff elim!: member_role_SomeD)
    with RoomDeleted db' show ?thesis by (simp add: is_member_def room_effects)
  qed
qed

theorem leave_effect_witness:
  "\<exists>db'. leave_room ''r'' ''a'' [] room_example_db = Inr (TransferredOwnership ''b'', db', [], []) \<and>
     member_role db' ''r'' ''b'' = Some ''owner'' \<and> map_option r_owner_id (find_room db' ''r'') = Some ''b''"
proof -
  obtain db' where l: "leave_room ''r'' ''a'' [] room_example_db = Inr (TransferredOwnership ''b'', db', [], [])"
    by (simp add: leave_room_def successor_def min_row_def new_room_row_def room_example_tables)
  from leave_effect[OF room_example_ok l] have
    "\<forall>w. w = ''a'' \<or> member_role db' ''r'' w =
       (if w = ''b'' then Some ''owner'' else member_role room_example_db ''r'' w)"
    and "map_option r_owner_id (find_room db' ''r'') = Some ''b''" by simp_all
  then show ?thesis using l by (auto dest!: spec[of _ "''b''"])
qed

section \<open>Adding members and handing out key packages\<close>

lemma insert_member_count:
  "insert_member r u x via now db = Some db' \<Longrightarrow> member_count db' r = member_count db r + 1"
  by (auto simp: insert_member_def member_count_def split: if_splits)

text \<open>
  C24. An addition respects the room: it is made by the owner, of a user who exists, is not
  deleted and was not in the room, the room had a free place and gains exactly that one
  member, with the plain role; nobody else's role changes.
\<close>

theorem add_member_effect:
  assumes "rooms_ok db" and "add_member r q u w lim hard fresh now db = Inr (out, db')"
  shows "member_role db r q = Some ''owner'' \<and>
    (\<exists>user \<in> set (users db). u_id user = u \<and> u_deleted_at user = None) \<and>
    \<not> is_member db r u \<and>
    (\<forall>r' v. member_role db' r' v = (if r' = r \<and> v = u then Some ''member'' else member_role db r' v)) \<and>
    member_count db' r = member_count db r + 1 \<and>
    member_count db' r \<le> min (il_room_size lim) (sm_room_size hard)"
proof -
  from assms(2) obtain db1 db2 where c: "check_add_member r q u lim hard db = None"
    and ins: "insert_member r u ''member'' ''add'' now db1 = Some db2"
    and same: "same_rooms db db1" "same_rooms db2 db'" by (rule add_member_steps)
  from c obtain role room where role: "member_role db r q = Some role" "find_room db r = Some room"
    and guard: "role = ''owner'' \<or> q = r_owner_id room" "\<not> is_member db r u"
      "\<not> min (il_room_size lim) (sm_room_size hard) \<le> member_count db r"
      "\<exists>user \<in> set (users db). u_id user = u \<and> u_deleted_at user = None"
    by (auto simp: check_add_member_def split: option.splits if_splits)
  have "member_role db r q = Some ''owner''"
    using rooms_ok_member[OF assms(1) role(1)] role guard(1) by auto
  moreover have "member_role db' r' v = (if r' = r \<and> v = u then Some ''member'' else member_role db r' v)" for r' v
    using member_role_insert_member[OF ins] same_rooms_lookups(1)[OF same(1)] same_rooms_lookups(1)[OF same(2)]
    by simp
  moreover have "member_count db' r = member_count db r + 1"
    using insert_member_count[OF ins] same_rooms_lookups(5)[OF same(1)] same_rooms_lookups(5)[OF same(2)]
    by simp
  moreover have "member_count db r < min (il_room_size lim) (sm_room_size hard)"
    using guard(3) by (simp only: not_le)
  ultimately show ?thesis using guard(2,4) by (simp del: min_less_iff_conj min.bounded_iff)
qed

text \<open>What the selection hands out, and what it leaves behind.\<close>

definition package_offered :: "db \<Rightarrow> id \<Rightarrow> id \<times> id \<Rightarrow> bool" where
  "package_offered db u s \<longleftrightarrow>
     (\<exists>k \<in> set (key_packages db). k_id k = snd s \<and> k_user_id k = Some u \<and> k_client_id k = fst s \<and> \<not> k_consumed k)"

definition package_spent :: "db \<Rightarrow> id \<Rightarrow> bool" where
  "package_spent db i \<longleftrightarrow>
     (\<forall>k \<in> set (key_packages db). k_id k = i \<longrightarrow> k_consumed k \<or> k_is_last_resort k)"

definition packages_used :: "db \<Rightarrow> db \<Rightarrow> bool" where
  "packages_used db db' \<longleftrightarrow>
     map (\<lambda>k. (k_id k, k_is_last_resort k)) (key_packages db') =
       map (\<lambda>k. (k_id k, k_is_last_resort k)) (key_packages db) \<and>
     (\<forall>i. package_spent db i \<longrightarrow> package_spent db' i)"

lemma packages_used_refl [simp]: "packages_used db db"
  by (simp add: packages_used_def)

lemma packages_used_ids:
  assumes "packages_used db db'"
  shows "map k_id (key_packages db') = map k_id (key_packages db)"
    "k \<in> set (key_packages db') \<Longrightarrow>
       \<exists>k0 \<in> set (key_packages db). k_id k0 = k_id k \<and> k_is_last_resort k0 = k_is_last_resort k"
proof -
  have m: "map (\<lambda>k. (k_id k, k_is_last_resort k)) (key_packages db') =
      map (\<lambda>k. (k_id k, k_is_last_resort k)) (key_packages db)"
    using assms by (simp add: packages_used_def)
  from arg_cong[where f = "map fst", OF m] show "map k_id (key_packages db') = map k_id (key_packages db)"
    by (simp add: comp_def)
  assume "k \<in> set (key_packages db')"
  then have "(k_id k, k_is_last_resort k) \<in> set (map (\<lambda>k. (k_id k, k_is_last_resort k)) (key_packages db'))"
    by simp
  then show "\<exists>k0 \<in> set (key_packages db). k_id k0 = k_id k \<and> k_is_last_resort k0 = k_is_last_resort k"
    unfolding m by auto
qed

lemma packages_used_trans: "packages_used a b \<Longrightarrow> packages_used b c \<Longrightarrow> packages_used a c"
  by (simp add: packages_used_def)

lemma packages_used_same: "key_packages db' = key_packages db \<Longrightarrow> packages_used db db'"
  by (simp add: packages_used_def package_spent_def)

lemma consume_packages_used: "packages_used db (consume_key_package i now db)"
  by (auto simp: packages_used_def consume_key_package_def map_update_where package_spent_def ball_update_where)

lemma consume_spends: "package_spent (consume_key_package i now db) i"
  by (auto simp: package_spent_def consume_key_package_def ball_update_where)

lemma pick_packageD:
  "pick_package db u c b = Some k \<Longrightarrow> package_offered db u (c, k_id k) \<and> k_is_last_resort k = b \<and>
     k \<in> set (key_packages db)"
  by (auto simp: pick_package_def package_offered_def dest!: min_row_SomeD)

lemma package_offered_before:
  "package_offered (consume_key_package i now db) u s \<Longrightarrow> package_offered db u s"
  by (auto simp: package_offered_def consume_key_package_def bex_update_where split: if_splits)

lemma select_packages_used:
  assumes "select_packages u cs now db = (sel, db')" and "distinct (map k_id (key_packages db))"
  shows "packages_used db db' \<and>
    (\<forall>s \<in> set sel. package_offered db u s \<and> package_spent db' (snd s))"
  using assms
proof (induction cs arbitrary: db sel)
  case (Cons c cs)
  let ?normal = "pick_package db u c False"
  let ?pkg = "case ?normal of Some k \<Rightarrow> Some k | None \<Rightarrow> (if ?normal = None then pick_package db u c True else None)"
  show ?case
  proof (cases ?pkg)
    case None
    with Cons show ?thesis by (auto simp: Let_def)
  next
    case (Some k)
    define db1 where "db1 = (if \<not> k_is_last_resort k then consume_key_package (k_id k) now db else db)"
    from Cons.prems Some obtain sel1 where sel: "sel = (c, k_id k) # sel1"
      and rest: "select_packages u cs now db1 = (sel1, db')"
      by (auto simp: Let_def db1_def split: prod.splits)
    have used: "packages_used db db1" using consume_packages_used by (simp add: db1_def)
    have k: "package_offered db u (c, k_id k)" "k \<in> set (key_packages db)"
      using Some by (auto dest: pick_packageD split: option.splits if_splits)
    have spent: "package_spent db1 (k_id k)"
    proof (cases "k_is_last_resort k")
      case True
      then have "\<And>x. x \<in> set (key_packages db) \<Longrightarrow> k_id x = k_id k \<Longrightarrow> k_is_last_resort x"
        using k(2) Cons.prems(2) by (auto simp: distinct_map dest: inj_onD)
      with True show ?thesis by (auto simp: db1_def package_spent_def)
    next
      case False
      then show ?thesis by (simp add: db1_def consume_spends)
    qed
    have "distinct (map k_id (key_packages db1))" using packages_used_ids(1)[OF used] Cons.prems(2) by simp
    from Cons.IH[OF rest this] have IH: "packages_used db1 db'"
      "\<And>s. s \<in> set sel1 \<Longrightarrow> package_offered db1 u s \<and> package_spent db' (snd s)" by auto
    have "package_offered db u s" if "package_offered db1 u s" for s
      using that package_offered_before by (simp add: db1_def split: if_splits)
    with IH k spent packages_used_trans[OF used IH(1)] show ?thesis
      by (auto simp: sel packages_used_def)
  qed
qed simp

lemma queue_adds_rows:
  "queue_pending_mls_add_batch r t sel fresh now db = Inr (q, db') \<Longrightarrow>
     key_packages db' = key_packages db \<and>
     (\<exists>new. pending_mls_adds db' = pending_mls_adds db @ new \<and>
        map (\<lambda>p. (pa_target_client_id p, pa_key_package_id p)) new = sel \<and>
        (\<forall>p \<in> set new. pa_room_id p = r \<and> (pa_target_user_id p, pa_target_bot_id p) = target_ids t))"
proof (induction sel arbitrary: fresh db q)
  case (Cons s sel)
  obtain c k where s: "s = (c, k)" by (cases s)
  let ?row = "\<lparr>pa_id = fresh 0, pa_room_id = r, pa_target_user_id = fst (target_ids t),
      pa_target_bot_id = snd (target_ids t), pa_target_client_id = c, pa_key_package_id = k,
      pa_queued_at = current_timestamp now, pa_consumed_at = None\<rparr>"
  from Cons.prems obtain q' where
    "queue_pending_mls_add_batch r t sel (fresh \<circ> Suc) now
       (db\<lparr>pending_mls_adds := pending_mls_adds db @ [?row]\<rparr>) = Inr (q', db')"
    by (auto simp: s insert_row_def split: if_splits sum.splits)
  from Cons.IH[OF this] obtain new where "key_packages db' = key_packages db"
    "pending_mls_adds db' = pending_mls_adds db @ ?row # new"
    "map (\<lambda>p. (pa_target_client_id p, pa_key_package_id p)) new = sel"
    "\<forall>p \<in> set new. pa_room_id p = r \<and> (pa_target_user_id p, pa_target_bot_id p) = target_ids t" by auto
  then show ?case by (intro conjI exI[of _ "?row # new"]) (auto simp: s)
qed simp

lemma select_packages_frame:
  "select_packages u cs now db = (sel, db') \<Longrightarrow> pending_mls_adds db' = pending_mls_adds db"
proof (induction cs arbitrary: db sel)
  case (Cons c cs)
  from Cons.prems obtain db1 sel1 where "db1 = db \<or> (\<exists>k. db1 = consume_key_package k now db)"
    and "select_packages u cs now db1 = (sel1, db')"
    by (auto simp: Let_def split: option.splits prod.splits if_splits)
  then show ?case using Cons.IH[of db1 sel1] by (auto simp: consume_key_package_def)
qed simp

lemma add_member_packages:
  assumes "add_member r q u w lim hard fresh now db = Inr (out, db')" and "distinct (map k_id (key_packages db))"
  obtains new where "pending_mls_adds db' = pending_mls_adds db @ new" "packages_used db db'"
    "\<forall>p \<in> set new. pa_room_id p = r \<and> pa_target_user_id p = Some u \<and>
       package_offered db u (pa_target_client_id p, pa_key_package_id p) \<and>
       package_spent db' (pa_key_package_id p)"
proof -
  obtain db1 db2 cs sel db3 qd where w: "deliver_welcome r u w (fresh 0) now db = Inr db1"
    and i: "insert_member r u ''member'' ''add'' now db1 = Some db2"
    and s: "select_packages u cs now db2 = (sel, db3)"
    and qa: "queue_pending_mls_add_batch r (TargetUser u) sel (fresh \<circ> Suc) now db3 = Inr (qd, db')"
    using assms(1) unfolding add_member_def by (auto split: option.splits sum.splits prod.splits)
  have "key_packages db1 = key_packages db \<and> pending_mls_adds db1 = pending_mls_adds db"
    using w by (auto simp: deliver_welcome_def create_welcome_def split: option.splits if_splits)
  moreover have "key_packages db2 = key_packages db1 \<and> pending_mls_adds db2 = pending_mls_adds db1"
    using i by (auto simp: insert_member_def split: if_splits)
  ultimately have kp: "key_packages db2 = key_packages db" "pending_mls_adds db2 = pending_mls_adds db" by simp_all
  from select_packages_used[OF s] assms(2) kp(1) have used: "packages_used db db3"
    and sel: "\<And>x. x \<in> set sel \<Longrightarrow> package_offered db u x \<and> package_spent db3 (snd x)"
    by (auto simp: packages_used_def package_offered_def package_spent_def)
  from queue_adds_rows[OF qa] select_packages_frame[OF s] kp(2) obtain new where
    k: "key_packages db' = key_packages db3" and n: "pending_mls_adds db' = pending_mls_adds db @ new"
    and m: "map (\<lambda>p. (pa_target_client_id p, pa_key_package_id p)) new = sel"
    and t: "\<forall>p \<in> set new. pa_room_id p = r \<and> (pa_target_user_id p, pa_target_bot_id p) = target_ids (TargetUser u)"
    by auto
  show thesis
  proof (rule that[OF n])
    show "packages_used db db'" using used k by (simp add: packages_used_def package_spent_def)
    show "\<forall>p \<in> set new. pa_room_id p = r \<and> pa_target_user_id p = Some u \<and>
       package_offered db u (pa_target_client_id p, pa_key_package_id p) \<and> package_spent db' (pa_key_package_id p)"
    proof
      fix p
      assume p: "p \<in> set new"
      then have "(pa_target_client_id p, pa_key_package_id p) \<in> set sel" unfolding m[symmetric] by simp
      from sel[OF this] t p k show "pa_room_id p = r \<and> pa_target_user_id p = Some u \<and>
         package_offered db u (pa_target_client_id p, pa_key_package_id p) \<and> package_spent db' (pa_key_package_id p)"
        by (simp add: package_spent_def target_ids_def)
    qed
  qed
qed


definition add_example_id :: "nat \<Rightarrow> id" where
  "add_example_id n = show_nat n"

definition add_example_db :: db where
  "add_example_db = room_example_db\<lparr>
     rooms := rooms room_example_db @ [new_room_row ''q'' ''a'' None None 0],
     room_members := room_members room_example_db @
       [\<lparr>m_room_id = ''q'', m_user_id = ''a'', m_role = ''owner'', m_joined_via = Some ''create'', m_joined_at = 0\<rparr>]\<rparr>"

definition add_example_step :: "id \<Rightarrow> (nat \<Rightarrow> id) \<Rightarrow> db \<Rightarrow> room_error + (add_member_outcome \<times> db)" where
  "add_example_step r fresh db = add_member r ''a'' ''c'' None limit_default default_hard_max fresh 0 db"

lemma add_example_first: "\<exists>out db1. add_example_step ''r'' add_example_id room_example_db = Inr (out, db1)"
  by (rule not_isl_pair) code_simp

lemma add_example_both:
  "\<exists>out db1 out' db2. add_example_step ''r'' add_example_id add_example_db = Inr (out, db1) \<and>
     add_example_step ''q'' (\<lambda>n. ''x'' @ add_example_id n) db1 = Inr (out', db2)"
proof -
  have "case add_example_step ''r'' add_example_id add_example_db of
      Inl e \<Rightarrow> False
    | Inr (out, db1) \<Rightarrow> \<not> isl (add_example_step ''q'' (\<lambda>n. ''x'' @ add_example_id n) db1)"
    by code_simp
  then obtain out db1 where "add_example_step ''r'' add_example_id add_example_db = Inr (out, db1)"
    and "\<not> isl (add_example_step ''q'' (\<lambda>n. ''x'' @ add_example_id n) db1)"
    by (auto split: sum.splits prod.splits)
  then show ?thesis using not_isl_pair by blast
qed

theorem add_member_effect_witness:
  "\<exists>out db'. add_example_step ''r'' add_example_id room_example_db = Inr (out, db') \<and>
     \<not> is_member room_example_db ''r'' ''c'' \<and> member_role db' ''r'' ''c'' = Some ''member'' \<and>
     member_count db' ''r'' = 3"
proof -
  obtain out db' where a: "add_example_step ''r'' add_example_id room_example_db = Inr (out, db')"
    using add_example_first by blast
  have "member_count room_example_db ''r'' = 2" by (simp add: member_count_def room_example_tables)
  with add_member_effect[OF room_example_ok a[unfolded add_example_step_def]] a show ?thesis by auto
qed


section \<open>Confirming a removal\<close>

lemma push_target_run:
  assumes "push_target who (ts, db) = Some (ts', db')" and "run_allocations allocate_user_seq db0 (map fst ts) = Some (ts, db)"
    and "distinct (map fst ts)" and "\<And>u. who = Some u \<Longrightarrow> u \<notin> fst ` set ts"
  shows "run_allocations allocate_user_seq db0 (map fst ts') = Some (ts', db') \<and> distinct (map fst ts')"
proof -
  have run_append: "run_allocations allocate_user_seq d (ks @ ls) =
      (case run_allocations allocate_user_seq d ks of None \<Rightarrow> None
       | Some (o1, d1) \<Rightarrow> map_option (\<lambda>(o2, d2). (o1 @ o2, d2)) (run_allocations allocate_user_seq d1 ls))" for d ks ls
    by (induction ks arbitrary: d) (auto split: option.splits simp: map_option_case)
  show ?thesis
    using assms by (auto simp: push_target_def run_append split: option.splits)
qed

lemma remove_targets_run:
  assumes "remove_seq_targets tu tb q db = Some (ts, db')"
  shows "run_allocations allocate_user_seq db (map fst ts) = Some (ts, db') \<and> distinct (map fst ts) \<and>
    fst ` set ts = set_option tu \<union> {q} \<union>
      (\<Union>b \<in> set_option tb. set_option (map_option b_owner_user_id (List.find (\<lambda>x. b_id x = b) (bot_accounts db))))"
proof -
  obtain ts1 db1 ts2 db2 where 1: "push_target tu ([], db) = Some (ts1, db1)"
    and 2: "push_target (if tu \<noteq> Some q then Some q else None) (ts1, db1) = Some (ts2, db2)"
    and 3: "push_target (case tb of None \<Rightarrow> None | Some tb_id \<Rightarrow>
        (case List.find (\<lambda>b. b_id b = tb_id) (bot_accounts db2) of
           None \<Rightarrow> None
         | Some b \<Rightarrow> if list_ex (\<lambda>t. fst t = b_owner_user_id b) ts2 then None else Some (b_owner_user_id b)))
        (ts2, db2) = Some (ts, db')"
    using assms by (auto simp: remove_seq_targets_def split: option.splits)
  have ids: "fst ` set t' = fst ` set t \<union> set_option who" "bot_accounts d' = bot_accounts d"
    if "push_target who (t, d) = Some (t', d')" for who t d t' d'
    using that by (auto simp: push_target_def row_frames split: option.splits dest: allocate_user_seq_frame allocation_frame)
  have r1: "run_allocations allocate_user_seq db (map fst ts1) = Some (ts1, db1) \<and> distinct (map fst ts1)"
    using push_target_run[OF 1] by simp
  have r2: "run_allocations allocate_user_seq db (map fst ts2) = Some (ts2, db2) \<and> distinct (map fst ts2)"
    by (rule push_target_run[OF 2]) (use r1 ids(1)[OF 1] in \<open>auto split: if_splits\<close>)
  have r3: "run_allocations allocate_user_seq db (map fst ts) = Some (ts, db') \<and> distinct (map fst ts)"
    by (rule push_target_run[OF 3]) (use r2 in \<open>force simp: list_ex_iff split: option.splits if_splits\<close>)+
  have "bot_accounts db2 = bot_accounts db" using ids(2)[OF 1] ids(2)[OF 2] by simp
  moreover have "list_ex (\<lambda>t. fst t = o') ts2 \<longleftrightarrow> o' \<in> fst ` set ts2" for o'
    by (force simp: list_ex_iff)
  ultimately show ?thesis
    using r3 ids(1)[OF 1] ids(1)[OF 2] ids(1)[OF 3]
    by (auto split: option.splits if_splits)
qed

lemma count_list_distinct: "distinct xs \<Longrightarrow> x \<in> set xs \<Longrightarrow> count_list xs x = 1"
  by (induction xs) auto

lemma listed_removeD:
  assumes "list_pending_removes db r x = Inr rs" and "p \<in> set rs"
  shows "\<exists>row \<in> set (pending_mls_removes db). pr_id row = pv_id p \<and> pr_room_id row = r \<and> pr_consumed_at row = None"
proof -
  from assms(1) have rs: "rs = map remove_view (sort_key (\<lambda>r. (pr_queued_at r, pr_id r))
      (filter (\<lambda>q. pr_room_id q = r \<and> pr_consumed_at q = None \<and> pr_cancelled_at q = None) (pending_mls_removes db)))"
    by (cases "is_member db r x") (simp_all add: list_pending_removes_def)
  from assms(2) obtain row where "row \<in> set (pending_mls_removes db)" "pr_room_id row = r" "pr_consumed_at row = None"
    "p = remove_view row" unfolding rs set_map set_sort set_filter by blast
  moreover from this have "pr_id row = pv_id p" by (simp add: remove_view_def)
  ultimately show ?thesis by blast
qed

text \<open>
  Confirming a queued removal works once: the same call again answers that there is no
  such removal, and no list shows it any more.  Besides the room, the removed user, the
  member who confirmed and the owner of a removed bot are each told exactly once, and each
  event carries the next sequence number of its user.
\<close>

theorem consume_remove_effect:
  assumes "consume_pending_remove r i q now db = Inr (db', evs)"
  shows "consume_pending_remove r i q later db' = Inl RemoveNotFound \<and>
    (\<forall>x rs. list_pending_removes db' r x = Inr rs \<longrightarrow> i \<notin> pv_id ` set rs) \<and>
    (\<exists>row ts. find_pending_remove db i r = Some row \<and>
       evs = remove_confirmed_events r (pr_target_user_id row) (pr_target_bot_id row) now ts \<and>
       distinct (map fst ts) \<and> q \<in> fst ` set ts \<and> set_option (pr_target_user_id row) \<subseteq> fst ` set ts \<and>
       (\<forall>(u, n) \<in> set ts. n = highest_user_seq db u + 1 \<and> highest_user_seq db' u = n))"
proof -
  obtain row ts where mem: "is_member db r q" and row: "find_pending_remove db i r = Some row"
    and t: "remove_seq_targets (pr_target_user_id row) (pr_target_bot_id row) q
      (db\<lparr>pending_mls_removes := update_where (\<lambda>r'. pr_id r' = i \<and> pr_room_id r' = r)
         (\<lambda>r'. r'\<lparr>pr_consumed_at := Some now, pr_remove_confirmed_at := Some now\<rparr>) (pending_mls_removes db)\<rparr>)
      = Some (ts, db')" (is "remove_seq_targets _ _ _ ?db1 = _")
    and evs: "evs = remove_confirmed_events r (pr_target_user_id row) (pr_target_bot_id row) now ts"
    using assms by (auto simp: consume_pending_remove_def Let_def split: if_splits option.splits)
  from remove_targets_run[OF t] have run: "run_allocations allocate_user_seq ?db1 (map fst ts) = Some (ts, db')"
    and d: "distinct (map fst ts)" and users: "q \<in> fst ` set ts" "set_option (pr_target_user_id row) \<subseteq> fst ` set ts"
    by auto
  have "allocation_updates d d'" if "run_allocations allocate_user_seq d ks = Some (os, d')" for d d' ks os
    using that
  proof (induction ks arbitrary: d os)
    case Nil
    then show ?case by (auto simp: allocation_updates_def intro: exI[of _ "user_seqs d"])
  next
    case (Cons k ks)
    then show ?case
      by (fastforce simp: allocation_updates_def dest: allocate_user_seq_frame split: option.splits)
  qed
  from allocation_frame[OF this[OF run]] have frame: "pending_mls_removes db' = pending_mls_removes ?db1"
    "room_members db' = room_members db" by simp_all
  have mem': "is_member db' = is_member db" by (rule is_member_cong) (rule frame)
  have "find_pending_remove db' i r = Some (row\<lparr>pr_consumed_at := Some now, pr_remove_confirmed_at := Some now\<rparr>)"
    using row unfolding find_pending_remove_def frame by (auto simp: find_update_where dest: find_SomeD)
  then have again: "consume_pending_remove r i q later db' = Inl RemoveNotFound"
    using mem mem' by (simp add: consume_pending_remove_def)
  have removes: "pending_mls_removes db' = update_where (\<lambda>r'. pr_id r' = i \<and> pr_room_id r' = r)
      (\<lambda>r'. r'\<lparr>pr_consumed_at := Some now, pr_remove_confirmed_at := Some now\<rparr>) (pending_mls_removes db)"
    using frame(1) by simp
  have gone: "i \<notin> pv_id ` set rs" if "list_pending_removes db' r x = Inr rs" for x rs
  proof
    assume "i \<in> pv_id ` set rs"
    then obtain p where p: "p \<in> set rs" "pv_id p = i" by blast
    from listed_removeD[OF that p(1)] obtain row' where "row' \<in> set (pending_mls_removes db')"
      "pr_id row' = i" "pr_room_id row' = r" "pr_consumed_at row' = None" using p(2) by blast
    then consider "\<not> (pr_id row' = i \<and> pr_room_id row' = r)"
      | y where "row' = y\<lparr>pr_consumed_at := Some now, pr_remove_confirmed_at := Some now\<rparr>"
      unfolding removes set_update_where by blast
    then show False
    proof cases
      case 1
      then show False using \<open>pr_id row' = i\<close> \<open>pr_room_id row' = r\<close> by simp
    next
      case (2 y)
      then show False using \<open>pr_consumed_at row' = None\<close> by simp
    qed
  qed
  have seqs: "n = highest_user_seq db u + 1 \<and> highest_user_seq db' u = n" if un: "(u, n) \<in> set ts" for u n
  proof -
    have c: "count_list (map fst ts) u = 1"
      using d un by (intro count_list_distinct) force+
    from user_seq_alloc.run_numbers[OF run, of u] have
      "map snd (filter (\<lambda>p. fst p = u) ts) = [highest_user_seq ?db1 u + 1 .. highest_user_seq db' u]"
      "highest_user_seq db' u = highest_user_seq ?db1 u + 1" using c by simp_all
    moreover have "n \<in> set (map snd (filter (\<lambda>p. fst p = u) ts))" using un by force
    moreover have "highest_user_seq ?db1 u = highest_user_seq db u" by (simp add: highest_user_seq_def)
    ultimately show ?thesis by simp
  qed
  have told: "\<forall>(u, n) \<in> set ts. n = highest_user_seq db u + 1 \<and> highest_user_seq db' u = n"
    using seqs by blast
  have "\<exists>row ts. find_pending_remove db i r = Some row \<and>
      evs = remove_confirmed_events r (pr_target_user_id row) (pr_target_bot_id row) now ts \<and>
      distinct (map fst ts) \<and> q \<in> fst ` set ts \<and> set_option (pr_target_user_id row) \<subseteq> fst ` set ts \<and>
      (\<forall>(u, n) \<in> set ts. n = highest_user_seq db u + 1 \<and> highest_user_seq db' u = n)"
    using row evs d users told by blast
  with again gone show ?thesis by blast
qed

definition queued_remove_db :: db where
  "queued_remove_db =
    (case kick_member ''r'' ''a'' ''b'' ''none'' ''p'' 0 room_example_db of
       Inr db \<Rightarrow> db | Inl _ \<Rightarrow> room_example_db)"

lemma queued_remove_run: "case consume_pending_remove ''r'' ''p'' ''a'' 1 queued_remove_db of Inl _ \<Rightarrow> False | Inr _ \<Rightarrow> True"
  by code_simp

theorem consume_remove_effect_witness:
  "\<exists>db' evs. consume_pending_remove ''r'' ''p'' ''a'' 1 queued_remove_db = Inr (db', evs) \<and>
     consume_pending_remove ''r'' ''p'' ''a'' 2 db' = Inl RemoveNotFound"
proof -
  obtain db' evs where c: "consume_pending_remove ''r'' ''p'' ''a'' 1 queued_remove_db = Inr (db', evs)"
    using queued_remove_run by (cases "consume_pending_remove ''r'' ''p'' ''a'' 1 queued_remove_db") auto
  from consume_remove_effect[OF c, of 2] c show ?thesis by blast
qed

section \<open>Deleting a room\<close>

lemma publish_sessions_deleted_events:
  assumes "publish_sessions_deleted r ss occ = (occ', evs)"
  shows "filter (\<lambda>e. ev_name e = ''session.deleted'') evs =
    map (\<lambda>s. Event (''private-room-'' @ r) ''session.deleted''
      (JObject [(''room_id'', JString r), (''session_id'', JString (rs_id s)), (''extension_id'', JString (rs_extension_id s))])) ss"
  using assms
  by (induction ss arbitrary: occ occ' evs)
    (auto simp: teardown_session_def publish_occupancy_event_def split: prod.splits option.splits if_splits)

lemma publish_sessions_deleted_occupancy:
  assumes "publish_sessions_deleted r ss occ = (occ', evs)"
  shows "map_of occ' s = (if s \<in> rs_id ` set ss then None else map_of occ s)"
  using assms
proof (induction ss arbitrary: occ occ' evs)
  case (Cons x ss)
  obtain occ1 evs1 where t: "teardown_session r (rs_id x) occ = (occ1, evs1)" by fastforce
  then have "map_of occ1 s = (if s = rs_id x then None else map_of occ s)"
    by (auto simp: teardown_session_def delete_conv split: option.splits)
  with Cons t show ?case by (auto split: prod.splits)
qed simp

text \<open>
  Deleting a room: only its owner may; afterwards nobody is a member, no message of the
  room can be read, every session of the room is torn down and announced as deleted exactly
  once, and all other rooms, their members, messages and sessions are as before.
\<close>

theorem delete_room_effect:
  assumes "delete_room r u occ db = Inr (db', occ', evs)"
  shows "member_role db r u = Some ''owner'' \<and> find_room db' r = None \<and>
    (\<forall>r' v. member_role db' r' v = (if r' = r then None else member_role db r' v)) \<and>
    (\<forall>m r'. find_message db' m r' = (if r' = r then None else find_message db m r')) \<and>
    (\<forall>r'. r' = r \<or> find_room db' r' = find_room db r') \<and>
    (\<forall>s. map_of occ' s =
       (if \<exists>row \<in> set (room_sessions db). rs_room_id row = r \<and> rs_id row = s then None else map_of occ s)) \<and>
    filter (\<lambda>e. ev_name e = ''session.deleted'') evs =
      map (\<lambda>s. Event (''private-room-'' @ r) ''session.deleted''
          (JObject [(''room_id'', JString r), (''session_id'', JString (rs_id s)),
                    (''extension_id'', JString (rs_extension_id s))]))
        (filter (\<lambda>s. rs_room_id s = r) (room_sessions db))"
proof -
  from assms have owner: "member_role db r u = Some ''owner''" and db': "db' = delete_room_cascade r db"
    and pub: "publish_sessions_deleted r (filter (\<lambda>s. rs_room_id s = r) (room_sessions db)) occ = (occ', evs)"
    by (auto simp: delete_room_def publish_room_sessions_deleted_def split: if_splits option.splits prod.splits)
  have "member_role db' r' v = (if r' = r then None else member_role db r' v)" for r' v
    unfolding db' by (simp add: room_effects)
  moreover have "find_room db' r' = (if r' = r then None else find_room db r')" for r'
    unfolding db' by (simp add: room_effects)
  moreover have "find_message db' m r' = (if r' = r then None else find_message db m r')" for m r'
    unfolding db' find_message_def delete_room_cascade_def
    by (cases "r' = r") (simp, rule find_delete_where_gone, blast, simp, rule find_delete_where_frame, blast)
  moreover have "map_of occ' s =
      (if \<exists>row \<in> set (room_sessions db). rs_room_id row = r \<and> rs_id row = s then None else map_of occ s)" for s
    using publish_sessions_deleted_occupancy[OF pub, of s] by (auto simp: image_iff)
  ultimately show ?thesis using owner publish_sessions_deleted_events[OF pub] by simp
qed

theorem delete_room_effect_witness:
  "\<exists>db' occ' evs. delete_room ''r'' ''a'' [] room_example_db = Inr (db', occ', evs) \<and>
     find_room db' ''r'' = None \<and> \<not> is_member db' ''r'' ''b''"
proof -
  obtain db' occ' evs where d: "delete_room ''r'' ''a'' [] room_example_db = Inr (db', occ', evs)"
    by (cases "publish_room_sessions_deleted room_example_db ''r'' []")
      (simp add: delete_room_def new_room_row_def)
  from delete_room_effect[OF d] d show ?thesis by (auto simp: is_member_def)
qed

end
