(* ===== verification/Reactions.thy ===== *)
theory Reactions
  imports Schema
begin

text \<open>
  Reactions to messages: \<open>server/src/reactions/list.rs\<close>, \<open>write.rs\<close> and \<open>mod.rs\<close>.  Parameters
  of the model: \<open>parse_ids\<close> stands for \<open>serde_json::from_str::<Vec<String>>\<close> on the stored
  \<open>target_user_ids\<close>.  A Rust string is given by its Unicode scalar values where the code
  counts characters; the database holds its UTF-8 bytes.
\<close>

section \<open>Strings by their characters\<close>

type_synonym scalars = "nat list"

definition utf8_char :: "nat \<Rightarrow> string" where
  "utf8_char c = map char_of
     (if c < 128 then [c]
      else if c < 2048 then [192 + c div 64, 128 + c mod 64]
      else if c < 65536 then [224 + c div 4096, 128 + c div 64 mod 64, 128 + c mod 64]
      else [240 + c div 262144, 128 + c div 4096 mod 64, 128 + c div 64 mod 64, 128 + c mod 64])"

definition utf8 :: "scalars \<Rightarrow> string" where
  "utf8 s = concat (map utf8_char s)"

section \<open>Data\<close>

record reaction_summary =
  rv_reaction :: string
  rv_count :: int
  rv_reacted_by_me :: bool

datatype reaction_error =
    ReactionDatabase
  | ReactionMessageNotFound
  | ReactionNotAMember
  | ReactionNotFound
  | ReactionForbidden
  | InvalidReaction string
  | ReactionLimitReached

abbreviation max_reaction_length :: nat where "max_reaction_length \<equiv> 64"
abbreviation max_reaction_bytes :: nat where "max_reaction_bytes \<equiv> 256"

record add_reaction_request =
  ad_room_id :: id
  ad_message_id :: id
  ad_user_id :: id
  ad_client_id :: id
  ad_reaction :: scalars

record add_reaction_result =
  ar_id :: id
  ar_message_id :: id
  ar_reaction :: scalars
  ar_user_id :: id
  ar_client_id :: id
  ar_created_at :: time
  ar_reactions_per_message_effective :: int
  ar_is_new :: bool
  ar_parent_sender_user_id :: id
  ar_target_user_ids :: "string list option"

record remove_reaction_request =
  rm_room_id :: id
  rm_message_id :: id
  rm_reaction_id :: id
  rm_requester_user_id :: id

record remove_reaction_result =
  rmr_reaction_id :: id
  rmr_sender_user_id :: id
  rmr_reaction :: string
  rmr_parent_sender_user_id :: id
  rmr_target_user_ids :: "string list option"

section \<open>Reading\<close>

text \<open>The rows of one group of \<open>GROUP BY reaction\<close>.\<close>

definition active_reactions :: "db \<Rightarrow> id \<Rightarrow> reaction_row list" where
  "active_reactions db message_id =
     filter (\<lambda>x. rx_message_id x = message_id \<and> rx_deleted_at x = None) (reactions db)"

definition summarise :: "id \<Rightarrow> reaction_row list \<Rightarrow> string \<Rightarrow> reaction_summary" where
  "summarise requester rows reaction =
     \<lparr>rv_reaction = reaction,
      rv_count = count_where (\<lambda>x. rx_reaction x = reaction) rows,
      rv_reacted_by_me =
        0 < sum_list (map (\<lambda>x. if rx_sender_user_id x = requester then 1 else 0 :: int)
              (filter (\<lambda>x. rx_reaction x = reaction) rows))\<rparr>"

definition aggregate :: "db \<Rightarrow> id \<Rightarrow> id \<Rightarrow> reaction_summary list" where
  "aggregate db requester message_id =
     (let rows = active_reactions db message_id in
      sort_key (\<lambda>s. (- rv_count s, rv_reaction s))
        (map (summarise requester rows) (remdups (map rx_reaction rows))))"

definition list_reactions :: "db \<Rightarrow> id \<Rightarrow> id \<Rightarrow> id \<Rightarrow> reaction_error + reaction_summary list" where
  "list_reactions db room_id message_id requester =
     (if \<not> is_member db room_id requester then Inl ReactionNotAMember
      else if \<not> exists_where
                (\<lambda>g. g_id g = message_id \<and> g_room_id g = room_id \<and> g_deleted_at g = None)
                (room_messages db)
      then Inl ReactionMessageNotFound
      else Inr (aggregate db requester message_id))"

fun chunks :: "nat \<Rightarrow> 'a list \<Rightarrow> 'a list list" where
  "chunks n xs = (if n = 0 \<or> xs = [] then [] else take n xs # chunks n (drop n xs))"

declare chunks.simps [simp del]

lemma chunks_Nil [simp]: "chunks n [] = []"
  by (simp add: chunks.simps)

text \<open>
  One chunk: the rows come grouped by message, each group in the order of \<open>aggregate\<close>, and
  every row is pushed on the entry of its message.
\<close>

definition push_chunk ::
  "db \<Rightarrow> id \<Rightarrow> id list \<Rightarrow> (id \<rightharpoonup> reaction_summary list) \<Rightarrow> (id \<rightharpoonup> reaction_summary list)"
where
  "push_chunk db requester chunk m =
     (\<lambda>i. if i \<in> set chunk \<and> aggregate db requester i \<noteq> []
          then Some ((case m i of None \<Rightarrow> [] | Some l \<Rightarrow> l) @ aggregate db requester i)
          else m i)"

definition list_reactions_for_messages ::
  "db \<Rightarrow> id \<Rightarrow> id \<Rightarrow> id list \<Rightarrow> reaction_error + (id \<rightharpoonup> reaction_summary list)"
where
  "list_reactions_for_messages db room_id requester message_ids =
     (if message_ids = [] then Inr Map.empty
      else if \<not> is_member db room_id requester then Inl ReactionNotAMember
      else Inr (fold (push_chunk db requester) (chunks 500 message_ids) Map.empty))"

section \<open>Writing\<close>

definition control_char :: "nat \<Rightarrow> bool" where
  "control_char c \<longleftrightarrow> c \<le> 0x1F \<or> (0x7F \<le> c \<and> c \<le> 0x9F)"

definition validate_reaction_string :: "scalars \<Rightarrow> reaction_error option" where
  "validate_reaction_string r =
     (if r = [] then Some (InvalidReaction ''reaction string cannot be empty'')
      else if max_reaction_length < length r
      then Some (InvalidReaction ''reaction exceeds maximum char limit of 64'')
      else if max_reaction_bytes < length (utf8 r)
      then Some (InvalidReaction ''reaction exceeds maximum byte limit of 256'')
      else if list_ex control_char r
      then Some (InvalidReaction ''reaction contains control characters'')
      else None)"

text \<open>
  Step 2 of \<open>add_reaction\<close>: \<open>sender_user_id\<close> is read into a \<open>String\<close>, which is empty for a
  message of a bot.
\<close>

definition parent_message ::
  "db \<Rightarrow> id \<Rightarrow> id \<Rightarrow> reaction_error + (id \<times> string option)"
where
  "parent_message db message_id room_id =
     (case find_message db message_id room_id of
        None \<Rightarrow> Inl ReactionMessageNotFound
      | Some g \<Rightarrow> Inr (null_text (g_sender_user_id g), g_target_user_ids g))"

definition same_reaction :: "add_reaction_request \<Rightarrow> reaction_row \<Rightarrow> bool" where
  "same_reaction req x \<longleftrightarrow>
     rx_message_id x = ad_message_id req \<and> rx_sender_user_id x = ad_user_id req \<and>
     rx_sender_client_id x = ad_client_id req \<and> rx_reaction x = utf8 (ad_reaction req)"

text \<open>Step 4: repeat, revive or insert; the result is id, time and whether it is new.\<close>

definition put_reaction ::
  "add_reaction_request \<Rightarrow> id \<Rightarrow> time \<Rightarrow> db \<Rightarrow> ((id \<times> time \<times> bool) \<times> db) option"
where
  "put_reaction req fresh_id now db =
     (case List.find (same_reaction req) (reactions db) of
        Some x \<Rightarrow>
          (case rx_deleted_at x of
             None \<Rightarrow> Some ((rx_id x, rx_created_at x, False), db)
           | Some _ \<Rightarrow>
               Some ((rx_id x, current_timestamp now, True),
                 db\<lparr>reactions := update_where (\<lambda>y. rx_id y = rx_id x)
                     (\<lambda>y. y\<lparr>rx_deleted_at := None, rx_created_at := current_timestamp now\<rparr>)
                     (reactions db)\<rparr>))
      | None \<Rightarrow>
          if user_exists db (ad_user_id req) then
            map_option (\<lambda>t. ((fresh_id, current_timestamp now, True), db\<lparr>reactions := t\<rparr>))
              (insert_row rx_id
                 \<lparr>rx_id = fresh_id, rx_room_id = ad_room_id req, rx_message_id = ad_message_id req,
                  rx_sender_user_id = ad_user_id req, rx_sender_client_id = ad_client_id req,
                  rx_reaction = utf8 (ad_reaction req), rx_created_at = current_timestamp now,
                  rx_deleted_at = None\<rparr> (reactions db))
          else None)"

definition add_reaction ::
  "(string \<Rightarrow> string list option) \<Rightarrow> add_reaction_request \<Rightarrow> int \<Rightarrow> id \<Rightarrow> time \<Rightarrow> db \<Rightarrow>
   reaction_error + (add_reaction_result \<times> db)"
where
  "add_reaction parse_ids req per_message_limit fresh_id now db =
     (case validate_reaction_string (ad_reaction req) of
        Some e \<Rightarrow> Inl e
      | None \<Rightarrow>
          if \<not> is_member db (ad_room_id req) (ad_user_id req) then Inl ReactionNotAMember
          else
            (case parent_message db (ad_message_id req) (ad_room_id req) of
               Inl e \<Rightarrow> Inl e
             | Inr (parent, targets) \<Rightarrow>
                 if per_message_limit \<le> int (length (active_reactions db (ad_message_id req)))
                 then Inl ReactionLimitReached
                 else
                   (case put_reaction req fresh_id now db of
                      None \<Rightarrow> Inl ReactionDatabase
                    | Some ((i, created_at, is_new), db') \<Rightarrow>
                        Inr (\<lparr>ar_id = i, ar_message_id = ad_message_id req, ar_reaction = ad_reaction req,
                              ar_user_id = ad_user_id req, ar_client_id = ad_client_id req,
                              ar_created_at = created_at,
                              ar_reactions_per_message_effective = per_message_limit, ar_is_new = is_new,
                              ar_parent_sender_user_id = parent,
                              ar_target_user_ids = Option.bind targets parse_ids\<rparr>, db'))))"

text \<open>Step 2 of \<open>remove_reaction\<close>: the active row joined with its message.\<close>

definition active_reaction ::
  "db \<Rightarrow> remove_reaction_request \<Rightarrow> (reaction_row \<times> message_row) option"
where
  "active_reaction db req =
     (case List.find (\<lambda>x. rx_id x = rm_reaction_id req \<and> rx_room_id x = rm_room_id req \<and>
               rx_message_id x = rm_message_id req \<and> rx_deleted_at x = None) (reactions db) of
        None \<Rightarrow> None
      | Some x \<Rightarrow> map_option (\<lambda>g. (x, g)) (List.find (\<lambda>g. g_id g = rx_message_id x) (room_messages db)))"

definition remove_reaction ::
  "(string \<Rightarrow> string list option) \<Rightarrow> remove_reaction_request \<Rightarrow> string \<Rightarrow> time \<Rightarrow> db \<Rightarrow>
   reaction_error + (remove_reaction_result \<times> db)"
where
  "remove_reaction parse_ids req instance_moderation_mode now db =
     (case (member_role db (rm_room_id req) (rm_requester_user_id req), find_room db (rm_room_id req)) of
        (Some role, Some room) \<Rightarrow>
          (case active_reaction db req of
             None \<Rightarrow> Inl ReactionNotFound
           | Some (x, g) \<Rightarrow>
               (let mode = (case r_moderation_override room of
                              None \<Rightarrow> instance_moderation_mode | Some m \<Rightarrow> m);
                    is_sender = (rx_sender_user_id x = rm_requester_user_id req);
                    is_owner = (r_owner_id room = rm_requester_user_id req \<or> role = ''owner'');
                    is_mod_discord = (role = ''moderator'' \<and> mode = ''discord'')
                in
                if \<not> is_sender \<and> \<not> is_owner \<and> \<not> is_mod_discord then Inl ReactionForbidden
                else
                  Inr (\<lparr>rmr_reaction_id = rx_id x, rmr_sender_user_id = rx_sender_user_id x,
                        rmr_reaction = rx_reaction x, rmr_parent_sender_user_id = null_text (g_sender_user_id g),
                        rmr_target_user_ids = Option.bind (g_target_user_ids g) parse_ids\<rparr>,
                    db\<lparr>reactions := update_where (\<lambda>y. rx_id y = rx_id x)
                         (\<lambda>y. y\<lparr>rx_deleted_at := Some (current_timestamp now)\<rparr>) (reactions db)\<rparr>)))
      | _ \<Rightarrow> Inl ReactionNotAMember)"

section \<open>The batched reading agrees with the single one\<close>

lemma concat_chunks: "0 < n \<Longrightarrow> concat (chunks n xs) = xs"
proof (induction n xs rule: chunks.induct)
  case (1 n xs)
  then show ?case by (subst chunks.simps) simp
qed

lemma push_chunk_apply:
  "push_chunk db requester c m i =
     (if i \<in> set c \<and> aggregate db requester i \<noteq> []
      then Some ((case m i of None \<Rightarrow> [] | Some l \<Rightarrow> l) @ aggregate db requester i) else m i)"
  by (simp add: push_chunk_def)

lemma fold_push_chunk:
  assumes "distinct (concat cs)" and "\<forall>i \<in> set (concat cs). m i = None"
  shows "fold (push_chunk db requester) cs m i =
    (if i \<in> set (concat cs) \<and> aggregate db requester i \<noteq> [] then Some (aggregate db requester i) else m i)"
  using assms
proof (induction cs arbitrary: m)
  case (Cons c cs)
  have none: "\<forall>j \<in> set (concat cs). push_chunk db requester c m j = None"
  proof
    fix j
    assume "j \<in> set (concat cs)"
    then have "j \<notin> set c" "m j = None" using Cons.prems by auto
    with push_chunk_apply[of db requester c m j] show "push_chunk db requester c m j = None" by simp
  qed
  have d: "distinct (concat cs)" using Cons.prems by simp
  have fresh: "i \<in> set c \<Longrightarrow> i \<notin> set (concat cs)" "i \<in> set c \<Longrightarrow> m i = None" using Cons.prems by auto
  have fold: "fold (push_chunk db requester) (c # cs) m i =
      (if i \<in> set (concat cs) \<and> aggregate db requester i \<noteq> []
       then Some (aggregate db requester i) else push_chunk db requester c m i)"
    using Cons.IH[OF d none] by simp
  show ?case
  proof (cases "i \<in> set c")
    case True
    with fresh have "push_chunk db requester c m i =
        (if aggregate db requester i \<noteq> [] then Some (aggregate db requester i) else m i)"
      by (subst push_chunk_apply) simp
    then show ?thesis unfolding fold using fresh[OF True] True by (simp del: set_concat)
  next
    case False
    then have "push_chunk db requester c m i = m i" by (subst push_chunk_apply) simp
    then show ?thesis unfolding fold using False by (simp del: set_concat)
  qed
qed simp


section \<open>Adding and removing\<close>

definition reaction_key :: "reaction_row \<Rightarrow> id \<times> id \<times> id \<times> string" where
  "reaction_key x = (rx_message_id x, rx_sender_user_id x, rx_sender_client_id x, rx_reaction x)"

definition reactions_ok :: "db \<Rightarrow> bool" where
  "reactions_ok db \<longleftrightarrow> distinct (map rx_id (reactions db)) \<and> distinct (map reaction_key (reactions db)) \<and>
     distinct (map g_id (room_messages db)) \<and>
     (\<forall>x \<in> set (reactions db). \<forall>g \<in> set (room_messages db).
        g_id g = rx_message_id x \<longrightarrow> rx_room_id x = g_room_id g)"

lemma same_reaction_key:
  "same_reaction req x \<longleftrightarrow>
     reaction_key x = (ad_message_id req, ad_user_id req, ad_client_id req, utf8 (ad_reaction req))"
  by (auto simp: same_reaction_def reaction_key_def)

lemma add_reactionE:
  assumes "add_reaction parse_ids req lim i now db = Inr (res, db')"
  obtains parent targets is_new created where
    "validate_reaction_string (ad_reaction req) = None" "is_member db (ad_room_id req) (ad_user_id req)"
    "parent_message db (ad_message_id req) (ad_room_id req) = Inr (parent, targets)"
    "int (length (active_reactions db (ad_message_id req))) < lim"
    "put_reaction req i now db = Some ((ar_id res, created, ar_is_new res), db')"
  using assms by (auto simp: add_reaction_def split: option.splits if_splits sum.splits)

text \<open>What \<open>put_reaction\<close> does to the table: one of three changes.\<close>

lemma put_reactionE:
  assumes "put_reaction req i now db = Some ((k, created, is_new), db')"
  obtains (repeat) x where "x \<in> set (reactions db)" "same_reaction req x" "rx_deleted_at x = None"
      "k = rx_id x" "\<not> is_new" "db' = db"
  | (revive) x where "x \<in> set (reactions db)" "same_reaction req x" "rx_deleted_at x \<noteq> None"
      "k = rx_id x" "is_new"
      "db' = db\<lparr>reactions := update_where (\<lambda>y. rx_id y = rx_id x)
         (\<lambda>y. y\<lparr>rx_deleted_at := None, rx_created_at := current_timestamp now\<rparr>) (reactions db)\<rparr>"
  | (insert) x where "\<forall>y \<in> set (reactions db). \<not> same_reaction req y" "same_reaction req x"
      "rx_deleted_at x = None" "rx_room_id x = ad_room_id req" "rx_id x = i" "k = i" "is_new"
      "i \<notin> rx_id ` set (reactions db)" "db' = db\<lparr>reactions := reactions db @ [x]\<rparr>"
proof (cases "List.find (same_reaction req) (reactions db)")
  case None
  show ?thesis
  proof (rule insert)
    show "\<forall>y \<in> set (reactions db). \<not> same_reaction req y" using None by (simp add: find_None_iff_all)
  qed (use assms None in \<open>auto simp: put_reaction_def insert_row_def same_reaction_def split: if_splits\<close>)
next
  case (Some x)
  then have x: "x \<in> set (reactions db)" "same_reaction req x" by (auto dest: find_SomeD)
  show ?thesis
  proof (cases "rx_deleted_at x")
    case None
    with x assms Some show ?thesis by (intro repeat[of x]) (auto simp: put_reaction_def)
  next
    case (Some t)
    with x assms \<open>List.find _ _ = Some x\<close> show ?thesis by (intro revive[of x]) (auto simp: put_reaction_def)
  qed
qed

lemma reactions_ok_insert:
  assumes "reactions_ok db" and "rx_id x \<notin> rx_id ` set (reactions db)"
    and "\<forall>y \<in> set (reactions db). reaction_key y \<noteq> reaction_key x"
    and "\<forall>g \<in> set (room_messages db). g_id g = rx_message_id x \<longrightarrow> rx_room_id x = g_room_id g"
  shows "reactions_ok (db\<lparr>reactions := reactions db @ [x]\<rparr>)"
  using assms by (auto simp: reactions_ok_def)

lemma reactions_ok_update:
  assumes "reactions_ok db" and "\<And>y. rx_id (f y) = rx_id y" and "\<And>y. reaction_key (f y) = reaction_key y"
    and "\<And>y. rx_room_id (f y) = rx_room_id y"
  shows "reactions_ok (db\<lparr>reactions := update_where p f (reactions db)\<rparr>)"
proof -
  have "rx_message_id (f y) = rx_message_id y" for y using assms(3)[of y] by (simp add: reaction_key_def)
  with assms show ?thesis by (auto simp: reactions_ok_def map_update_where set_update_where)
qed

text \<open>The active rows after one row has changed its state.\<close>

lemma active_after_insert:
  "rx_deleted_at x = None \<Longrightarrow> active_reactions (db\<lparr>reactions := reactions db @ [x]\<rparr>) m =
     active_reactions db m @ (if rx_message_id x = m then [x] else [])"
  by (simp add: active_reactions_def)

lemma filter_update_one:
  assumes "x \<in> set xs" and "distinct (map key xs)" and "\<And>y. key (f y) = key y"
  shows "length (filter p (update_where (\<lambda>y. key y = key x) f xs)) + (if p x then 1 else 0) =
    length (filter p xs) + (if p (f x) then 1 else 0)"
  using assms(1,2)
proof (induction xs)
  case (Cons z zs)
  show ?case
  proof (cases "z = x")
    case True
    have "update_where (\<lambda>y. key y = key x) f zs = zs"
      by (rule update_where_id) (metis Cons.prems(2) True distinct.simps(2) list.set_map image_eqI list.simps(9))
    then show ?thesis using True by simp
  next
    case False
    with Cons.prems have "x \<in> set zs" "key z \<noteq> key x" by auto
    with Cons show ?thesis by simp
  qed
qed simp

lemma update_where_twice:
  "(\<And>y. key (f y) = key y) \<Longrightarrow>
     update_where (\<lambda>y. key y = k) g (update_where (\<lambda>y. key y = k) f xs) =
     update_where (\<lambda>y. key y = k) (\<lambda>y. g (f y)) xs"
  by (induction xs) auto

lemma filter_update_miss:
  assumes "\<And>y. y \<in> set xs \<Longrightarrow> q y \<Longrightarrow> \<not> p y \<and> \<not> p (f y)"
  shows "filter p (update_where q f xs) = filter p xs"
  using assms by (induction xs) auto

lemma reaction_by_id:
  "reactions_ok db \<Longrightarrow> x \<in> set (reactions db) \<Longrightarrow> y \<in> set (reactions db) \<Longrightarrow> rx_id y = rx_id x \<Longrightarrow> y = x"
  by (auto simp: reactions_ok_def distinct_map inj_on_def)

lemma parent_room:
  assumes "reactions_ok db" and "parent_message db m r = Inr pt"
    and "g \<in> set (room_messages db)" and "g_id g = m"
  shows "g_room_id g = r"
proof -
  obtain h where "h \<in> set (room_messages db)" "g_id h = m" "g_room_id h = r"
    using assms(2) by (auto simp: parent_message_def dest!: find_message_SomeD split: option.splits)
  with assms show ?thesis by (auto simp: reactions_ok_def distinct_map inj_on_def)
qed

lemma put_reaction_ok:
  assumes "put_reaction req i now db = Some ((k, created, is_new), db')" and ok: "reactions_ok db"
    and parent: "parent_message db (ad_message_id req) (ad_room_id req) = Inr pt"
  shows "reactions_ok db'"
  using assms(1)
proof (cases rule: put_reactionE)
  case repeat
  then show ?thesis using ok by simp
next
  case (revive x)
  show ?thesis unfolding revive(6) by (rule reactions_ok_update[OF ok]) (simp_all add: reaction_key_def)
next
  case (insert x)
  show ?thesis unfolding insert(9)
  proof (rule reactions_ok_insert[OF ok])
    show "\<forall>g \<in> set (room_messages db). g_id g = rx_message_id x \<longrightarrow> rx_room_id x = g_room_id g"
      using parent_room[OF ok parent] insert by (auto simp: same_reaction_def)
  qed (use insert in \<open>auto simp: same_reaction_key\<close>)
qed

lemma put_reaction_active:
  assumes "put_reaction req i now db = Some ((k, created, is_new), db')" and ok: "reactions_ok db"
  shows "length (active_reactions db' (ad_message_id req)) =
      length (active_reactions db (ad_message_id req)) + (if is_new then 1 else 0) \<and>
    (\<forall>m. m = ad_message_id req \<or> active_reactions db' m = active_reactions db m) \<and>
    (\<exists>x \<in> set (active_reactions db' (ad_message_id req)). rx_id x = k \<and> same_reaction req x)"
  using assms(1)
proof (cases rule: put_reactionE)
  case (repeat x)
  then show ?thesis by (auto simp: active_reactions_def same_reaction_def)
next
  case (revive x)
  let ?f = "\<lambda>y. y\<lparr>rx_deleted_at := None, rx_created_at := current_timestamp now\<rparr>"
  have d: "distinct (map rx_id (reactions db))" using ok by (simp add: reactions_ok_def)
  have other: "active_reactions db' m = active_reactions db m" if "m \<noteq> ad_message_id req" for m
    unfolding active_reactions_def revive(6) reaction_row.select_convs db.select_convs
    using revive(1,2) that
    by simp (rule filter_update_miss, auto dest: reaction_by_id[OF ok revive(1)] simp: same_reaction_def)
  have "length (active_reactions db' (ad_message_id req)) = length (active_reactions db (ad_message_id req)) + 1"
    using filter_update_one[OF revive(1) d, of ?f "\<lambda>x. rx_message_id x = ad_message_id req \<and> rx_deleted_at x = None"]
      revive(2,3) by (simp add: active_reactions_def revive(6) same_reaction_def)
  moreover have "?f x \<in> set (active_reactions db' (ad_message_id req))"
    using revive(1,2) by (auto simp: active_reactions_def revive(6) same_reaction_def set_update_where)
  moreover have "same_reaction req (?f x)" using revive(2) by (simp add: same_reaction_def)
  ultimately show ?thesis using other revive(4,5) by (auto intro!: bexI[of _ "?f x"])
next
  case (insert x)
  then show ?thesis using active_after_insert[of x db] by (auto simp: same_reaction_def)
qed

text \<open>
  A reaction that is accepted is there exactly once: it appears once among the active
  reactions of its message, under the id that is answered; the number of active reactions
  grows by one if it is new, stays as it is for a repeat and never exceeds the limit; other
  messages keep theirs, and ids and (message, user, client, reaction) stay unique.
\<close>

theorem add_reaction_effect:
  assumes "reactions_ok db" and "add_reaction parse_ids req limit i now db = Inr (res, db')"
  shows "reactions_ok db' \<and>
    filter (same_reaction req) (active_reactions db' (ad_message_id req)) \<noteq> [] \<and>
    (\<forall>x \<in> set (active_reactions db' (ad_message_id req)). same_reaction req x \<longrightarrow> rx_id x = ar_id res) \<and>
    length (active_reactions db' (ad_message_id req)) =
      length (active_reactions db (ad_message_id req)) + (if ar_is_new res then 1 else 0) \<and>
    int (length (active_reactions db' (ad_message_id req))) \<le> limit \<and>
    (\<forall>m. m = ad_message_id req \<or> active_reactions db' m = active_reactions db m)"
proof -
  from add_reactionE[OF assms(2)] obtain created where
    lim: "int (length (active_reactions db (ad_message_id req))) < limit"
    and put: "put_reaction req i now db = Some ((ar_id res, created, ar_is_new res), db')"
    and "\<exists>pt. parent_message db (ad_message_id req) (ad_room_id req) = Inr pt" by metis
  then obtain pt where parent: "parent_message db (ad_message_id req) (ad_room_id req) = Inr pt" by blast
  note ok' = put_reaction_ok[OF put assms(1) parent] and act = put_reaction_active[OF put assms(1)]
  then obtain x where x: "x \<in> set (active_reactions db' (ad_message_id req))" "rx_id x = ar_id res" "same_reaction req x"
    by blast
  have "y = x" if "y \<in> set (active_reactions db' (ad_message_id req))" "same_reaction req y" for y
  proof -
    have "reaction_key y = reaction_key x" "y \<in> set (reactions db')" "x \<in> set (reactions db')"
      using that x by (simp_all add: same_reaction_key active_reactions_def)
    with ok' show ?thesis by (auto simp: reactions_ok_def distinct_map inj_on_def)
  qed
  with x have ids: "\<forall>y \<in> set (active_reactions db' (ad_message_id req)). same_reaction req y \<longrightarrow> rx_id y = ar_id res"
    by blast
  have "filter (same_reaction req) (active_reactions db' (ad_message_id req)) \<noteq> []"
    using x by (auto simp: filter_empty_conv)
  with ok' act ids lim show ?thesis by simp
qed

lemma put_reaction_revert:
  assumes "put_reaction req i now db = Some ((k, created, True), db')" and ok: "reactions_ok db"
    and f: "\<And>y. rx_id (f y) = rx_id y" "\<And>y. rx_deleted_at (f y) \<noteq> None"
  shows "active_reactions (db'\<lparr>reactions := update_where (\<lambda>y. rx_id y = k) f (reactions db')\<rparr>) m = active_reactions db m"
  using assms(1)
proof (cases rule: put_reactionE)
  case (revive x)
  have "active_reactions (db'\<lparr>reactions := update_where (\<lambda>y. rx_id y = k) f (reactions db')\<rparr>) m =
      filter (\<lambda>x. rx_message_id x = m \<and> rx_deleted_at x = None)
        (update_where (\<lambda>y. rx_id y = rx_id x)
          (\<lambda>y. f (y\<lparr>rx_deleted_at := None, rx_created_at := current_timestamp now\<rparr>)) (reactions db))"
    by (simp add: active_reactions_def revive(4,6) update_where_twice)
  also have "\<dots> = active_reactions db m"
    unfolding active_reactions_def
    by (rule filter_update_miss) (use f revive(3) in \<open>auto dest: reaction_by_id[OF ok revive(1)]\<close>)
  finally show ?thesis .
next
  case (insert x)
  have "update_where (\<lambda>y. rx_id y = k) f (reactions db) = reactions db"
    by (rule update_where_id) (use insert(6,8) in auto)
  then show ?thesis using f insert by (simp add: active_reactions_def update_where_append)
qed simp

text \<open>
  Taking a reaction back: the member who added a new reaction to a message can remove it
  under the id that was answered, after which every reader sees the message exactly as before
  the addition; removing it again finds nothing.
\<close>

theorem add_then_remove_reaction:
  assumes "reactions_ok db" and "room_exists db (ad_room_id req)"
    and "add_reaction parse_ids req limit i now db = Inr (res, db')" and "ar_is_new res"
  shows "\<exists>out db''. remove_reaction parse_ids
       \<lparr>rm_room_id = ad_room_id req, rm_message_id = ad_message_id req, rm_reaction_id = ar_id res,
        rm_requester_user_id = ad_user_id req\<rparr> mode later db' = Inr (out, db'') \<and>
     (\<forall>q m. aggregate db'' q m = aggregate db q m) \<and>
     remove_reaction parse_ids
       \<lparr>rm_room_id = ad_room_id req, rm_message_id = ad_message_id req, rm_reaction_id = ar_id res,
        rm_requester_user_id = ad_user_id req\<rparr> mode later db'' = Inl ReactionNotFound"
proof -
  let ?req = "\<lparr>rm_room_id = ad_room_id req, rm_message_id = ad_message_id req, rm_reaction_id = ar_id res,
        rm_requester_user_id = ad_user_id req\<rparr>"
  let ?f = "\<lambda>y. y\<lparr>rx_deleted_at := Some (current_timestamp later)\<rparr>"
  from add_reactionE[OF assms(3)] obtain created pt where
    member: "is_member db (ad_room_id req) (ad_user_id req)"
    and put: "put_reaction req i now db = Some ((ar_id res, created, ar_is_new res), db')"
    and parent: "parent_message db (ad_message_id req) (ad_room_id req) = Inr pt" by metis
  note ok' = put_reaction_ok[OF put assms(1) parent]
  have frame: "room_members db' = room_members db" "rooms db' = rooms db" "room_messages db' = room_messages db"
    using put by (cases rule: put_reactionE; simp)+
  obtain g where g: "g \<in> set (room_messages db')" "g_id g = ad_message_id req" "g_room_id g = ad_room_id req"
    using parent unfolding frame
    by (auto simp: parent_message_def dest!: find_message_SomeD split: option.splits)
  obtain x where x: "x \<in> set (reactions db')" "rx_deleted_at x = None" "rx_id x = ar_id res" "same_reaction req x"
    using put_reaction_active[OF put assms(1)] by (auto simp: active_reactions_def)
  have room: "rx_room_id x = ad_room_id req"
    using ok' x(1,4) g by (auto simp: reactions_ok_def same_reaction_def)
  have unique: "y = x" if "y \<in> set (reactions db')" "rx_id y = ar_id res" for y
    using reaction_by_id[OF ok' x(1) that(1)] that(2) x(3) by simp
  have "List.find (\<lambda>y. rx_id y = ar_id res \<and> rx_room_id y = ad_room_id req \<and>
      rx_message_id y = ad_message_id req \<and> rx_deleted_at y = None) (reactions db') = Some x"
  proof (rule find_unique[OF x(1)])
    show "rx_id x = ar_id res \<and> rx_room_id x = ad_room_id req \<and> rx_message_id x = ad_message_id req \<and> rx_deleted_at x = None"
      using x(2,3,4) room by (simp add: same_reaction_def)
  qed (use unique in blast)
  moreover have "List.find (\<lambda>h. g_id h = ad_message_id req) (room_messages db') = Some g"
    by (rule find_unique) (use g ok' in \<open>auto simp: reactions_ok_def distinct_map inj_on_def\<close>)
  ultimately have act: "active_reaction db' ?req = Some (x, g)"
    using x(4) by (simp add: active_reaction_def same_reaction_def)
  define db'' where "db'' = db'\<lparr>reactions := update_where (\<lambda>y. rx_id y = ar_id res) ?f (reactions db')\<rparr>"
  obtain role where role: "member_role db' (ad_room_id req) (ad_user_id req) = Some role"
    using member member_role_cong[OF frame(1)] by (auto simp: is_member_role)
  obtain rm where rm: "find_room db' (ad_room_id req) = Some rm"
    using assms(2) find_room_None_iff[of db' "ad_room_id req"] frame(2) by (auto simp: room_exists_def)
  have rx: "rx_sender_user_id x = ad_user_id req" using x(4) by (simp add: same_reaction_def)
  obtain out where removed: "remove_reaction parse_ids ?req mode later db' = Inr (out, db'')"
    using role rm act  rx x(3) by (auto simp: remove_reaction_def Let_def db''_def)
  have "active_reactions db'' m = active_reactions db m" for m
    unfolding db''_def by (rule put_reaction_revert[OF _ assms(1)]) (use put assms(4) in auto)
  then have same: "aggregate db'' q m = aggregate db q m" for q m by (simp add: aggregate_def)
  have "List.find (\<lambda>y. rx_id y = ar_id res \<and> rx_room_id y = ad_room_id req \<and>
      rx_message_id y = ad_message_id req \<and> rx_deleted_at y = None) (reactions db'') = None"
    by (auto simp: find_None_iff_all db''_def set_update_where)
  then have "active_reaction db'' ?req = None" by (simp add: active_reaction_def)
  moreover have "member_role db'' (ad_room_id req) (ad_user_id req) = Some role" "find_room db'' (ad_room_id req) = Some rm"
    using role rm by (simp_all add: db''_def member_role_def find_room_def)
  ultimately have "remove_reaction parse_ids ?req mode later db'' = Inl ReactionNotFound"
    by (simp add: remove_reaction_def)
  with removed same show ?thesis by blast
qed

section \<open>An instance\<close>

definition reactions_example_db :: db where
  "reactions_example_db = empty_db\<lparr>
     users := [\<lparr>u_id = ''a'', u_username_token = ''ta'', u_encrypted_display = None, u_disabled_at = None, u_deleted_at = None\<rparr>],
     rooms := [\<lparr>r_id = ''r'', r_owner_id = ''a'', r_metadata = None, r_metadata_version = 1, r_retention_days = None,
                r_max_file_size_bytes = None, r_moderation_override = None, r_created_at = 0\<rparr>],
     room_members := [\<lparr>m_room_id = ''r'', m_user_id = ''a'', m_role = ''owner'', m_joined_via = None, m_joined_at = 0\<rparr>],
     room_messages :=
       [\<lparr>g_id = ''m'', g_room_id = ''r'', g_sender_user_id = Some ''a'', g_sender_bot_id = None, g_sender_client_id = ''c'',
         g_bot_key_leaf_index = None, g_epoch = 0, g_seq = 1, g_content_type = ''application'', g_ciphertext = [],
         g_reply_to = None, g_target_user_ids = None, g_edit_of = None, g_edit_sequence = 0, g_edited_at = None,
         g_deleted_at = None, g_created_at = 0\<rparr>]\<rparr>"

definition plus_one :: add_reaction_request where
  "plus_one = \<lparr>ad_room_id = ''r'', ad_message_id = ''m'', ad_user_id = ''a'', ad_client_id = ''c'', ad_reaction = [43]\<rparr>"

lemma reactions_example_ok: "reactions_ok reactions_example_db"
  by (simp add: reactions_ok_def reactions_example_db_def empty_db_def)

lemma plus_one_run:
  "case add_reaction (\<lambda>_. None) plus_one 5 ''x'' 0 reactions_example_db of
     Inl _ \<Rightarrow> False | Inr (res, db) \<Rightarrow> ar_is_new res \<and> ar_id res = ''x''"
  by code_simp

lemma plus_oneE:
  obtains res db where "add_reaction (\<lambda>_. None) plus_one 5 ''x'' 0 reactions_example_db = Inr (res, db)"
    "ar_is_new res" "ar_id res = ''x''"
  using plus_one_run by (auto split: sum.splits prod.splits)

theorem add_reaction_effect_witness:
  "\<exists>res db. add_reaction (\<lambda>_. None) plus_one 5 ''x'' 0 reactions_example_db = Inr (res, db) \<and>
     length (active_reactions db ''m'') = 1 \<and> reactions_ok db"
proof -
  obtain res db where r: "add_reaction (\<lambda>_. None) plus_one 5 ''x'' 0 reactions_example_db = Inr (res, db)"
      "ar_is_new res" by (rule plus_oneE)
  have "active_reactions reactions_example_db ''m'' = []"
    by (simp add: active_reactions_def reactions_example_db_def empty_db_def)
  with add_reaction_effect[OF reactions_example_ok r(1)] r show ?thesis
    by (auto simp: plus_one_def)
qed

theorem add_then_remove_reaction_witness:
  "\<exists>res db. add_reaction (\<lambda>_. None) plus_one 5 ''x'' 0 reactions_example_db = Inr (res, db) \<and>
     (\<exists>out db''. remove_reaction (\<lambda>_. None)
        \<lparr>rm_room_id = ''r'', rm_message_id = ''m'', rm_reaction_id = ''x'', rm_requester_user_id = ''a''\<rparr> ''none'' 1 db
        = Inr (out, db'') \<and> aggregate db'' ''a'' ''m'' = [])"
proof -
  obtain res db where r: "add_reaction (\<lambda>_. None) plus_one 5 ''x'' 0 reactions_example_db = Inr (res, db)"
      "ar_is_new res" "ar_id res = ''x''" by (rule plus_oneE)
  have "room_exists reactions_example_db (ad_room_id plus_one)"
    by (simp add: room_exists_def reactions_example_db_def empty_db_def plus_one_def)
  moreover have "aggregate reactions_example_db ''a'' ''m'' = []"
    by (simp add: aggregate_def active_reactions_def reactions_example_db_def empty_db_def)
  ultimately show ?thesis
    using add_then_remove_reaction[OF reactions_example_ok _ r(1,2), of "''none''" 1] r
    by (auto simp: plus_one_def)
qed


end
