(* ===== verification/RoomMessages.thy ===== *)
theory RoomMessages
  imports Reactions
begin

text \<open>
  The message log of a room: \<open>server/src/room_messages.rs\<close>.  Parameters of the model:
  \<open>ids_json\<close> and \<open>parse_ids\<close> stand for \<open>serde_json::to_string\<close> and \<open>from_str\<close> on a list of
  user ids, \<open>b64\<close> for the unpadded base64url encoder.  Every operation that starts with
  \<open>BEGIN IMMEDIATE\<close> is one step: an \<open>Inl\<close> is the branch that rolls back.  A message id that is
  drawn twice violates the primary key.
\<close>

section \<open>Data\<close>

record message_cursor =
  mc_epoch :: int
  mc_seq :: int

record list_messages_query =
  lq_room_id :: id
  lq_requester_id :: id
  lq_since :: "message_cursor option"
  lq_limit :: int

record room_message_view =
  mv_id :: id
  mv_room_id :: id
  mv_sender_type :: string
  mv_sender_id :: id
  mv_sender_client_id :: id
  mv_epoch :: int
  mv_seq :: int
  mv_content_type :: string
  mv_ciphertext :: "string option"
  mv_reply_to :: "id option"
  mv_target_user_ids :: "string list option"
  mv_edit_of :: "id option"
  mv_edit_sequence :: int
  mv_bot_key_leaf_index :: "int option"
  mv_read_by_count :: int
  mv_edited_at :: "time option"
  mv_deleted_at :: "time option"
  mv_created_at :: time
  mv_reactions :: "reaction_summary list"

record list_messages_result =
  lm_messages :: "room_message_view list"
  lm_next_cursor :: "message_cursor option"
  lm_has_more :: bool

datatype message_content_type = ContentApplication | ContentCommit | ContentProposal

fun content_type_str :: "message_content_type \<Rightarrow> string" where
  "content_type_str ContentApplication = ''application''"
| "content_type_str ContentCommit = ''commit''"
| "content_type_str ContentProposal = ''proposal''"

record submit_request =
  sq_room_id :: id
  sq_sender_user_id :: id
  sq_sender_client_id :: id
  sq_epoch :: int
  sq_content_type :: message_content_type
  sq_ciphertext :: bytes
  sq_transcript_hash :: "bytes option"
  sq_reply_to :: "id option"
  sq_target_user_ids :: "string list option"

datatype submit_outcome =
    SubmittedApplication (sb_message_id: id) int int "id option" "string list option" time
  | SubmittedCommit (sb_message_id: id) int "bytes option" time

record edit_request =
  eq_room_id :: id
  eq_message_id :: id
  eq_requester_user_id :: id
  eq_requester_client_id :: id
  eq_new_ciphertext :: bytes
  eq_content_type :: "string option"

record delete_request =
  dq_room_id :: id
  dq_message_id :: id
  dq_requester_id :: id
  dq_moderation_mode :: string

record delete_result =
  dr_sender_user_id :: id
  dr_target_user_ids :: "string list option"

datatype room_message_error =
    MessageDatabase
  | MessageRoomNotFound
  | MessageNotAMember
  | EpochMismatch int int
  | MissingTranscriptHash
  | ReplyToNotFound
  | ReplyToNotInRoom
  | MessageNotFound
  | AlreadyDeleted
  | MessageForbidden
  | MessageDeleted
  | EditDeleted
  | CannotEditEdit
  | ContentTypeMismatch
  | NotSender
  | WindowExpired
  | NotEditable

section \<open>Submitting\<close>

text \<open>\<open>INSERT INTO room_messages\<close> with the constraints of the table.\<close>

definition insert_message :: "message_row \<Rightarrow> db \<Rightarrow> db option" where
  "insert_message g db =
     (if room_exists db (g_room_id g) \<and>
         (case g_sender_user_id g of
            None \<Rightarrow> g_sender_bot_id g \<noteq> None \<and>
              exists_where (\<lambda>b. Some (b_id b) = g_sender_bot_id g) (bot_accounts db)
          | Some u \<Rightarrow> user_exists db u \<and> g_sender_bot_id g = None) \<and>
         g_content_type g \<in> {''application'', ''commit'', ''proposal'', ''bot''} \<and>
         (\<forall>m \<in> set_option (g_reply_to g) \<union> set_option (g_edit_of g).
            exists_where (\<lambda>h. g_id h = m) (room_messages db))
      then map_option (\<lambda>t. db\<lparr>room_messages := t\<rparr>) (insert_row g_id g (room_messages db))
      else None)"

definition message_row_of ::
  "submit_request \<Rightarrow> id \<Rightarrow> int \<Rightarrow> int \<Rightarrow> id option \<Rightarrow> string option \<Rightarrow> time \<Rightarrow> message_row"
where
  "message_row_of req message_id epoch seq reply_to targets now =
     \<lparr>g_id = message_id, g_room_id = sq_room_id req, g_sender_user_id = Some (sq_sender_user_id req),
      g_sender_bot_id = None, g_sender_client_id = sq_sender_client_id req, g_bot_key_leaf_index = None,
      g_epoch = epoch, g_seq = seq, g_content_type = content_type_str (sq_content_type req),
      g_ciphertext = sq_ciphertext req, g_reply_to = reply_to, g_target_user_ids = targets,
      g_edit_of = None, g_edit_sequence = 0, g_edited_at = None, g_deleted_at = None,
      g_created_at = current_timestamp now\<rparr>"

definition set_epoch :: "id \<Rightarrow> (epoch_row \<Rightarrow> epoch_row) \<Rightarrow> db \<Rightarrow> db" where
  "set_epoch room_id f db =
     db\<lparr>room_epochs := update_where (\<lambda>e. e_room_id e = room_id) f (room_epochs db)\<rparr>"

definition submit_commit ::
  "submit_request \<Rightarrow> int \<Rightarrow> id \<Rightarrow> time \<Rightarrow> db \<Rightarrow> room_message_error + (submit_outcome \<times> db)"
where
  "submit_commit req current_epoch message_id now db =
     (if sq_epoch req \<noteq> current_epoch then Inl (EpochMismatch current_epoch (sq_epoch req))
      else
        (case sq_transcript_hash req of
           None \<Rightarrow> Inl MissingTranscriptHash
         | Some th \<Rightarrow>
             (case insert_message (message_row_of req message_id current_epoch 0 None None now) db of
                None \<Rightarrow> Inl MessageDatabase
              | Some db1 \<Rightarrow>
                  Inr (SubmittedCommit message_id (current_epoch + 1) (Some th) (current_timestamp now),
                    set_epoch (sq_room_id req)
                      (\<lambda>e. e\<lparr>e_epoch := current_epoch + 1, e_sequence := 0, e_transcript_hash := Some th,
                            e_updated_at := current_timestamp now\<rparr>) db1))))"

definition check_reply_to :: "db \<Rightarrow> id \<Rightarrow> id option \<Rightarrow> room_message_error option" where
  "check_reply_to db room_id reply_to =
     (case reply_to of
        None \<Rightarrow> None
      | Some target_id \<Rightarrow>
          (case List.find (\<lambda>g. g_id g = target_id) (room_messages db) of
             None \<Rightarrow> Some ReplyToNotFound
           | Some g \<Rightarrow> if g_room_id g \<noteq> room_id then Some ReplyToNotInRoom else None))"

definition submit_application ::
  "(string list \<Rightarrow> string) \<Rightarrow> submit_request \<Rightarrow> int \<Rightarrow> int \<Rightarrow> id \<Rightarrow> time \<Rightarrow> db \<Rightarrow>
   room_message_error + (submit_outcome \<times> db)"
where
  "submit_application ids_json req current_epoch current_sequence message_id now db =
     (if sq_epoch req \<noteq> current_epoch then Inl (EpochMismatch current_epoch (sq_epoch req))
      else
        (case check_reply_to db (sq_room_id req) (sq_reply_to req) of
           Some e \<Rightarrow> Inl e
         | None \<Rightarrow>
             (case insert_message
                     (message_row_of req message_id current_epoch (current_sequence + 1) (sq_reply_to req)
                        (map_option ids_json (sq_target_user_ids req)) now) db of
                None \<Rightarrow> Inl MessageDatabase
              | Some db1 \<Rightarrow>
                  Inr (SubmittedApplication message_id current_epoch (current_sequence + 1)
                         (sq_reply_to req) (sq_target_user_ids req) (current_timestamp now),
                    set_epoch (sq_room_id req) (\<lambda>e. e\<lparr>e_sequence := current_sequence + 1\<rparr>) db1))))"

definition submit_message ::
  "(string list \<Rightarrow> string) \<Rightarrow> submit_request \<Rightarrow> id \<Rightarrow> time \<Rightarrow> db \<Rightarrow>
   room_message_error + (submit_outcome \<times> db)"
where
  "submit_message ids_json req message_id now db =
     (if \<not> is_member db (sq_room_id req) (sq_sender_user_id req) then Inl MessageNotAMember
      else
        (case find_epoch db (sq_room_id req) of
           None \<Rightarrow> Inl MessageRoomNotFound
         | Some e \<Rightarrow>
             (case sq_content_type req of
                ContentCommit \<Rightarrow> submit_commit req (e_epoch e) message_id now db
              | _ \<Rightarrow> submit_application ids_json req (e_epoch e) (e_sequence e) message_id now db)))"

definition get_current_epoch :: "db \<Rightarrow> id \<Rightarrow> id \<Rightarrow> room_message_error + (int \<times> int)" where
  "get_current_epoch db room_id user_id =
     (if \<not> is_member db room_id user_id then Inl MessageNotAMember
      else
        (case find_epoch db room_id of
           None \<Rightarrow> Inl MessageRoomNotFound
         | Some e \<Rightarrow> Inr (e_epoch e, e_sequence e)))"

section \<open>Listing\<close>

text \<open>
  SQLite's \<open>LIKE\<close>: \<open>%\<close> matches any run of characters, \<open>_\<close> any one, letters match in either
  case.
\<close>

definition ascii_lower :: "char \<Rightarrow> char" where
  "ascii_lower c = (if CHR ''A'' \<le> c \<and> c \<le> CHR ''Z'' then char_of (of_char c + 32 :: nat) else c)"

fun sql_like :: "string \<Rightarrow> string \<Rightarrow> bool" where
  "sql_like [] s \<longleftrightarrow> s = []"
| "sql_like (p # ps) [] \<longleftrightarrow> p = CHR ''%'' \<and> sql_like ps []"
| "sql_like (p # ps) (c # cs) \<longleftrightarrow>
     (if p = CHR ''%'' then sql_like ps (c # cs) \<or> sql_like (p # ps) cs
      else (p = CHR ''_'' \<or> ascii_lower p = ascii_lower c) \<and> sql_like ps cs)"

definition quoted :: "string \<Rightarrow> string" where
  "quoted s = [CHR 0x22] @ s @ [CHR 0x22]"

definition like_pattern :: "id \<Rightarrow> string" where
  "like_pattern requester_id = ''%'' @ quoted requester_id @ ''%''"

text \<open>The prefilter of the \<open>WHERE\<close> clause and the exact filter on the fetched rows.\<close>

definition prefiltered :: "id \<Rightarrow> message_row \<Rightarrow> bool" where
  "prefiltered requester g \<longleftrightarrow>
     (case g_target_user_ids g of
        None \<Rightarrow> True
      | Some text \<Rightarrow> g_sender_user_id g = Some requester \<or> sql_like (like_pattern requester) text)"

definition visible :: "(string \<Rightarrow> string list option) \<Rightarrow> id \<Rightarrow> message_row \<Rightarrow> bool" where
  "visible parse_ids requester g \<longleftrightarrow>
     (case Option.bind (g_target_user_ids g) parse_ids of
        None \<Rightarrow> True
      | Some targets \<Rightarrow> g_sender_user_id g = Some requester \<or> requester \<in> set targets)"

definition message_view ::
  "(string \<Rightarrow> string list option) \<Rightarrow> (bytes \<Rightarrow> string) \<Rightarrow> (id \<rightharpoonup> reaction_summary list) \<Rightarrow>
   message_row \<Rightarrow> room_message_view"
where
  "message_view parse_ids b64 reactions_map g =
     \<lparr>mv_id = g_id g, mv_room_id = g_room_id g,
      mv_sender_type = (case g_sender_bot_id g of Some _ \<Rightarrow> ''bot'' | None \<Rightarrow> ''user''),
      mv_sender_id =
        (case g_sender_bot_id g of
           Some b \<Rightarrow> b
         | None \<Rightarrow> (case g_sender_user_id g of Some u \<Rightarrow> u | None \<Rightarrow> [])),
      mv_sender_client_id = g_sender_client_id g, mv_epoch = g_epoch g, mv_seq = g_seq g,
      mv_content_type = g_content_type g, mv_ciphertext = Some (b64 (g_ciphertext g)),
      mv_reply_to = g_reply_to g, mv_target_user_ids = Option.bind (g_target_user_ids g) parse_ids,
      mv_edit_of = g_edit_of g, mv_edit_sequence = g_edit_sequence g,
      mv_bot_key_leaf_index = g_bot_key_leaf_index g, mv_read_by_count = 0,
      mv_edited_at = g_edited_at g, mv_deleted_at = g_deleted_at g, mv_created_at = g_created_at g,
      mv_reactions = (case reactions_map (g_id g) of None \<Rightarrow> [] | Some l \<Rightarrow> l)\<rparr>"

definition message_key :: "message_row \<Rightarrow> int \<times> int" where
  "message_key g = (g_epoch g, g_seq g)"

definition page_limit :: "int \<Rightarrow> nat" where
  "page_limit limit = nat (if limit \<le> 0 then 50 else max 1 (min 500 limit))"

text \<open>
  The rows of the two queries.  Rows with equal (epoch, seq) come in row order, which the
  index on (room_id, epoch, seq) gives them; the newest-first query scans it backwards.
\<close>

definition page_rows :: "db \<Rightarrow> list_messages_query \<Rightarrow> message_row list" where
  "page_rows db q =
     (case lq_since q of
        Some since \<Rightarrow>
          take (page_limit (lq_limit q) + 1)
            (sort_key message_key
              (filter (\<lambda>g. g_room_id g = lq_room_id q \<and> prefiltered (lq_requester_id q) g \<and>
                  (mc_epoch since, mc_seq since) < message_key g) (room_messages db)))
      | None \<Rightarrow>
          take (page_limit (lq_limit q) + 1)
            (rev (sort_key message_key
              (filter (\<lambda>g. g_room_id g = lq_room_id q \<and> prefiltered (lq_requester_id q) g)
                (room_messages db)))))"

definition page_reactions :: "db \<Rightarrow> list_messages_query \<Rightarrow> message_row list \<Rightarrow> (id \<rightharpoonup> reaction_summary list)" where
  "page_reactions db q rows =
     (case list_reactions_for_messages db (lq_room_id q) (lq_requester_id q) (map g_id rows) of
        Inl _ \<Rightarrow> Map.empty | Inr m \<Rightarrow> m)"

definition list_messages ::
  "(string \<Rightarrow> string list option) \<Rightarrow> (bytes \<Rightarrow> string) \<Rightarrow> db \<Rightarrow> list_messages_query \<Rightarrow>
   room_message_error + list_messages_result"
where
  "list_messages parse_ids b64 db q =
     (if \<not> is_member db (lq_room_id q) (lq_requester_id q) then Inl MessageNotAMember
      else
        let rows = page_rows db q;
            msgs = map (message_view parse_ids b64 (page_reactions db q rows))
              (filter (visible parse_ids (lq_requester_id q)) rows);
            has_more = (page_limit (lq_limit q) < length msgs);
            kept = (if has_more then butlast msgs else msgs);
            messages = (if lq_since q = None then rev kept else kept)
        in Inr \<lparr>lm_messages = messages,
                lm_next_cursor =
                  (if messages = [] then None
                   else Some \<lparr>mc_epoch = mv_epoch (last messages), mc_seq = mv_seq (last messages)\<rparr>),
                lm_has_more = has_more\<rparr>)"

definition get_message_ciphertext :: "db \<Rightarrow> id \<Rightarrow> id \<Rightarrow> id \<Rightarrow> room_message_error + bytes" where
  "get_message_ciphertext db room_id user_id message_id =
     (if \<not> is_member db room_id user_id then Inl MessageNotAMember
      else
        (case find_message db message_id room_id of
           None \<Rightarrow> Inl MessageNotFound
         | Some g \<Rightarrow> if g_deleted_at g \<noteq> None then Inl MessageDeleted else Inr (g_ciphertext g)))"

section \<open>Deleting and editing\<close>

text \<open>Both read \<open>sender_user_id\<close> into a \<open>String\<close>, which is empty for a message of a bot.\<close>

definition delete_message ::
  "(string \<Rightarrow> string list option) \<Rightarrow> delete_request \<Rightarrow> time \<Rightarrow> db \<Rightarrow>
   room_message_error + (delete_result \<times> db)"
where
  "delete_message parse_ids req now db =
     (case member_role db (dq_room_id req) (dq_requester_id req) of
        None \<Rightarrow> Inl MessageNotAMember
      | Some role \<Rightarrow>
          (case find_message db (dq_message_id req) (dq_room_id req) of
             None \<Rightarrow> Inl MessageNotFound
           | Some g \<Rightarrow>
               if g_deleted_at g \<noteq> None then Inl AlreadyDeleted
               else if \<not> (dq_requester_id req = null_text (g_sender_user_id g) \<or> role = ''owner'' \<or>
                         (role = ''moderator'' \<and> dq_moderation_mode req = ''discord''))
               then Inl MessageForbidden
               else
                 Inr (\<lparr>dr_sender_user_id = null_text (g_sender_user_id g),
                       dr_target_user_ids = Option.bind (g_target_user_ids g) parse_ids\<rparr>,
                   db\<lparr>room_messages :=
                     update_where (\<lambda>h. g_id h = dq_message_id req \<and> g_room_id h = dq_room_id req)
                       (\<lambda>h. h\<lparr>g_deleted_at := Some (current_timestamp now)\<rparr>) (room_messages db)\<rparr>)))"

text \<open>\<open>SELECT MAX(edit_sequence) ... WHERE edit_of = ?\<close> and the next number.\<close>

definition next_edit_sequence :: "db \<Rightarrow> id \<Rightarrow> int" where
  "next_edit_sequence db message_id =
     (case max_row g_edit_sequence (filter (\<lambda>g. g_edit_of g = Some message_id) (room_messages db)) of
        None \<Rightarrow> 1
      | Some g \<Rightarrow> g_edit_sequence g + 1)"

definition check_edit :: "edit_request \<Rightarrow> int \<Rightarrow> time \<Rightarrow> message_row \<Rightarrow> room_message_error option" where
  "check_edit req edit_window_seconds now g =
     (if g_edit_of g \<noteq> None then Some CannotEditEdit
      else if g_deleted_at g \<noteq> None then Some EditDeleted
      else if g_content_type g \<noteq> ''application'' \<and> g_content_type g \<noteq> ''bot'' then Some NotEditable
      else if (case eq_content_type req of None \<Rightarrow> False | Some ct \<Rightarrow> ct \<noteq> g_content_type g)
      then Some ContentTypeMismatch
      else if null_text (g_sender_user_id g) \<noteq> eq_requester_user_id req then Some NotSender
      else if edit_window_seconds < num_seconds (now - g_created_at g) then Some WindowExpired
      else None)"

definition edit_row :: "db \<Rightarrow> edit_request \<Rightarrow> message_row \<Rightarrow> id \<Rightarrow> time \<Rightarrow> message_row" where
  "edit_row db req g edit_id now =
     \<lparr>g_id = edit_id, g_room_id = eq_room_id req, g_sender_user_id = Some (eq_requester_user_id req),
      g_sender_bot_id = None, g_sender_client_id = eq_requester_client_id req, g_bot_key_leaf_index = None,
      g_epoch = g_epoch g, g_seq = 0,
      g_content_type = (case eq_content_type req of Some ct \<Rightarrow> ct | None \<Rightarrow> g_content_type g),
      g_ciphertext = eq_new_ciphertext req, g_reply_to = g_reply_to g,
      g_target_user_ids = g_target_user_ids g, g_edit_of = Some (eq_message_id req),
      g_edit_sequence = next_edit_sequence db (eq_message_id req),
      g_edited_at = Some (current_timestamp now), g_deleted_at = None,
      g_created_at = current_timestamp now\<rparr>"

definition edit_message ::
  "(string \<Rightarrow> string list option) \<Rightarrow> (bytes \<Rightarrow> string) \<Rightarrow> edit_request \<Rightarrow> int \<Rightarrow> id \<Rightarrow> time \<Rightarrow> db \<Rightarrow>
   room_message_error + (room_message_view \<times> db)"
where
  "edit_message parse_ids b64 req edit_window_seconds edit_id now db =
     (if \<not> is_member db (eq_room_id req) (eq_requester_user_id req) then Inl MessageNotAMember
      else
        (case find_message db (eq_message_id req) (eq_room_id req) of
           None \<Rightarrow> Inl MessageNotFound
         | Some g \<Rightarrow>
             (case check_edit req edit_window_seconds now g of
                Some e \<Rightarrow> Inl e
              | None \<Rightarrow>
                  (case insert_message (edit_row db req g edit_id now) db of
                     None \<Rightarrow> Inl MessageDatabase
                   | Some db' \<Rightarrow>
                       Inr (message_view parse_ids b64 Map.empty (edit_row db req g edit_id now), db')))))"

end
