(* ===== verification/MessageChannel.thy ===== *)
theory MessageChannel
  imports RoomMessages RoomInvariant
begin

text \<open>
  What a room's log promises its MLS group, as an abstract channel, and the refinement of
  \<open>room_messages.rs\<close> to it.  The channel has the closed epochs, each with the messages
  delivered in it and the commit that ended it, and the messages of the open epoch.  The rows
  of \<open>room_messages\<close> that users submitted, in row order and without the edits, are that
  delivery sequence, and \<open>room_epochs\<close> holds the number of closed epochs and the length of
  the open one.  Bots number their messages apart (\<open>routes/room_bots.rs\<close>).
\<close>

section \<open>The channel\<close>

record channel =
  ch_closed :: "(id list \<times> id) list"
  ch_open :: "id list"

definition empty_channel :: channel where
  "empty_channel = \<lparr>ch_closed = [], ch_open = []\<rparr>"

datatype delivery = Deliver id | Close id

fun deliver :: "delivery \<Rightarrow> channel \<Rightarrow> channel" where
  "deliver (Deliver i) ch = ch\<lparr>ch_open := ch_open ch @ [i]\<rparr>"
| "deliver (Close i) ch = \<lparr>ch_closed = ch_closed ch @ [(ch_open ch, i)], ch_open = []\<rparr>"

type_synonym entry = "id \<times> int \<times> int \<times> bool"

text \<open>The entries of one epoch, numbered from 1, and of the whole log.\<close>

fun number_from :: "int \<Rightarrow> int \<Rightarrow> id list \<Rightarrow> entry list" where
  "number_from e k [] = []"
| "number_from e k (i # is) = (i, e, k, False) # number_from e (k + 1) is"

fun closed_entries :: "int \<Rightarrow> (id list \<times> id) list \<Rightarrow> entry list" where
  "closed_entries e [] = []"
| "closed_entries e ((is, c) # rest) = number_from e 1 is @ [(c, e, 0, True)] @ closed_entries (e + 1) rest"

definition entries :: "channel \<Rightarrow> entry list" where
  "entries ch = closed_entries 0 (ch_closed ch) @ number_from (int (length (ch_closed ch))) 1 (ch_open ch)"

lemma number_from_append:
  "number_from e k (xs @ ys) = number_from e k xs @ number_from e (k + int (length xs)) ys"
  by (induction xs arbitrary: k) (auto simp: algebra_simps)

lemma closed_entries_append:
  "closed_entries e (xs @ ys) = closed_entries e xs @ closed_entries (e + int (length xs)) ys"
  by (induction e xs rule: closed_entries.induct) (auto simp: algebra_simps)

lemma entries_deliver:
  "entries (deliver (Deliver i) ch) =
     entries ch @ [(i, int (length (ch_closed ch)), int (length (ch_open ch)) + 1, False)]"
  "entries (deliver (Close i) ch) = entries ch @ [(i, int (length (ch_closed ch)), 0, True)]"
  by (simp_all add: entries_def number_from_append closed_entries_append algebra_simps)

section \<open>The abstraction relation\<close>

definition delivered :: "db \<Rightarrow> id \<Rightarrow> entry list" where
  "delivered db r =
     map (\<lambda>g. (g_id g, g_epoch g, g_seq g, g_content_type g = ''commit''))
       (filter (\<lambda>g. g_room_id g = r \<and> g_edit_of g = None \<and> g_sender_user_id g \<noteq> None) (room_messages db))"

definition represents :: "db \<Rightarrow> id \<Rightarrow> channel \<Rightarrow> bool" where
  "represents db r ch \<longleftrightarrow>
     map_option (\<lambda>e. (e_epoch e, e_sequence e)) (find_epoch db r) =
       Some (int (length (ch_closed ch)), int (length (ch_open ch))) \<and>
     delivered db r = entries ch"

definition delivery_of :: "submit_request \<Rightarrow> id \<Rightarrow> delivery" where
  "delivery_of req i = (if sq_content_type req = ContentCommit then Close i else Deliver i)"

lemma insert_message_rows:
  "insert_message g db = Some db' \<Longrightarrow>
     db' = db\<lparr>room_messages := room_messages db @ [g]\<rparr> \<and> g_id g \<notin> g_id ` set (room_messages db)"
  by (auto simp: insert_message_def insert_row_def split: if_splits)

lemma find_epoch_set_epoch:
  "(\<And>e. e_room_id (f e) = e_room_id e) \<Longrightarrow>
     find_epoch (set_epoch r f db) r' = (if r' = r then map_option f (find_epoch db r) else find_epoch db r')"
proof -
  assume "\<And>e. e_room_id (f e) = e_room_id e"
  then have "find_epoch (set_epoch r f db) r' =
      map_option (\<lambda>e. if e_room_id e = r then f e else e) (find_epoch db r')"
    by (simp add: find_epoch_def set_epoch_def find_update_where)
  then show ?thesis by (cases "find_epoch db r'") (auto dest: find_epoch_SomeD)
qed

lemma set_epoch_messages [simp]: "room_messages (set_epoch r f db) = room_messages db"
  by (simp add: set_epoch_def)

lemma delivered_append:
  "delivered (db\<lparr>room_messages := room_messages db @ [g]\<rparr>) r =
     delivered db r @ (if g_room_id g = r \<and> g_edit_of g = None \<and> g_sender_user_id g \<noteq> None
       then [(g_id g, g_epoch g, g_seq g, g_content_type g = ''commit'')] else [])"
  by (simp add: delivered_def)

lemma delivered_set_epoch [simp]: "delivered (set_epoch r f db) r' = delivered db r'"
  by (simp add: delivered_def)

lemma find_epoch_messages [simp]: "find_epoch (db\<lparr>room_messages := t\<rparr>) r = find_epoch db r"
  by (simp add: find_epoch_def)

section \<open>The operations refine the channel\<close>

lemma submit_messageE:
  assumes "submit_message ids req i now db = Inr (out, db')"
  obtains e seq reply targets f where "find_epoch db (sq_room_id req) = Some e" "sq_epoch req = e_epoch e"
    "db' = set_epoch (sq_room_id req) f
       (db\<lparr>room_messages := room_messages db @ [message_row_of req i (e_epoch e) seq reply targets now]\<rparr>)"
    "\<And>e. e_room_id (f e) = e_room_id e"
    "i \<notin> g_id ` set (room_messages db)"
    "if sq_content_type req = ContentCommit
     then seq = 0 \<and> e_epoch (f e) = e_epoch e + 1 \<and> e_sequence (f e) = 0 \<and>
       out = SubmittedCommit i (e_epoch e + 1) (sq_transcript_hash req) (current_timestamp now)
     else seq = e_sequence e + 1 \<and> e_epoch (f e) = e_epoch e \<and> e_sequence (f e) = seq \<and>
       out = SubmittedApplication i (e_epoch e) seq (sq_reply_to req) (sq_target_user_ids req) (current_timestamp now)"
proof -
  from assms obtain e where e: "find_epoch db (sq_room_id req) = Some e"
    by (auto simp: submit_message_def split: if_splits option.splits)
  show ?thesis
  proof (cases "sq_content_type req = ContentCommit")
    case True
    with assms e show ?thesis
      by (auto simp: submit_message_def submit_commit_def message_row_of_def intro!: that[OF e]
          dest!: insert_message_rows split: if_splits option.splits)
  next
    case False
    then have "submit_application ids req (e_epoch e) (e_sequence e) i now db = Inr (out, db')"
      using assms e by (auto simp: submit_message_def split: if_splits message_content_type.splits)
    with False show ?thesis
      by (auto simp: submit_application_def message_row_of_def intro!: that[OF e]
          dest!: insert_message_rows split: if_splits option.splits)
  qed
qed

lemma content_type_commit: "content_type_str c = ''commit'' \<longleftrightarrow> c = ContentCommit"
  by (cases c) auto

lemma submit_refines:
  assumes "submit_message ids req i now db = Inr (out, db')" and "represents db r ch"
  shows "represents db' r (if sq_room_id req = r then deliver (delivery_of req i) ch else ch)"
  using assms(1)
proof (rule submit_messageE)
  fix e seq reply targets f
  assume e: "find_epoch db (sq_room_id req) = Some e"
    and db': "db' = set_epoch (sq_room_id req) f
       (db\<lparr>room_messages := room_messages db @ [message_row_of req i (e_epoch e) seq reply targets now]\<rparr>)"
    and key: "\<And>e. e_room_id (f e) = e_room_id e"
    and upd: "if sq_content_type req = ContentCommit
     then seq = 0 \<and> e_epoch (f e) = e_epoch e + 1 \<and> e_sequence (f e) = 0 \<and>
       out = SubmittedCommit i (e_epoch e + 1) (sq_transcript_hash req) (current_timestamp now)
     else seq = e_sequence e + 1 \<and> e_epoch (f e) = e_epoch e \<and> e_sequence (f e) = seq \<and>
       out = SubmittedApplication i (e_epoch e) seq (sq_reply_to req) (sq_target_user_ids req) (current_timestamp now)"
  have ep: "find_epoch db' r = (if r = sq_room_id req then Some (f e) else find_epoch db r)"
    unfolding db' by (simp add: find_epoch_set_epoch[OF key] e)
  have d: "delivered db' r = delivered db r @ (if sq_room_id req = r
      then [(i, e_epoch e, seq, sq_content_type req = ContentCommit)] else [])"
    unfolding db' by (simp add: delivered_append message_row_of_def content_type_commit)
  show ?thesis
    using assms(2) ep d upd e
    by (cases "sq_content_type req = ContentCommit"; cases "sq_room_id req = r")
      (auto simp: represents_def delivery_of_def entries_deliver simp del: deliver.simps, (auto simp: algebra_simps)?)
qed

lemma represents_frame:
  assumes "find_epoch db' r = find_epoch db r" and "delivered db' r = delivered db r"
  shows "represents db' r ch = represents db r ch"
  using assms by (simp add: represents_def)

lemma delivered_update:
  assumes "\<And>g. g_id (f g) = g_id g" "\<And>g. g_epoch (f g) = g_epoch g" "\<And>g. g_seq (f g) = g_seq g"
    "\<And>g. g_content_type (f g) = g_content_type g" "\<And>g. g_room_id (f g) = g_room_id g"
    "\<And>g. g_edit_of (f g) = g_edit_of g" "\<And>g. g_sender_user_id (f g) = g_sender_user_id g"
  shows "delivered (db\<lparr>room_messages := update_where p f (room_messages db)\<rparr>) r = delivered db r"
proof -
  have "map (\<lambda>g. (g_id g, g_epoch g, g_seq g, g_content_type g = ''commit''))
      (filter (\<lambda>g. g_room_id g = r \<and> g_edit_of g = None \<and> g_sender_user_id g \<noteq> None) (update_where p f t)) =
    map (\<lambda>g. (g_id g, g_epoch g, g_seq g, g_content_type g = ''commit''))
      (filter (\<lambda>g. g_room_id g = r \<and> g_edit_of g = None \<and> g_sender_user_id g \<noteq> None) t)" for t
    by (induction t) (simp_all add: assms)
  then show ?thesis by (simp add: delivered_def)
qed

lemma delete_keeps_channel:
  assumes "delete_message parse_ids req now db = Inr (res, db')"
  shows "represents db' r ch = represents db r ch"
proof -
  have db': "db' = db\<lparr>room_messages := update_where (\<lambda>h. g_id h = dq_message_id req \<and> g_room_id h = dq_room_id req)
      (\<lambda>h. h\<lparr>g_deleted_at := Some (current_timestamp now)\<rparr>) (room_messages db)\<rparr>"
    using assms by (auto simp: delete_message_def split: option.splits if_splits)
  show ?thesis
    by (rule represents_frame) (simp_all add: db' delivered_update)
qed

lemma edit_keeps_channel:
  assumes "edit_message parse_ids b64 req w i now db = Inr (res, db')"
  shows "represents db' r ch = represents db r ch"
proof -
  obtain g where "db' = db\<lparr>room_messages := room_messages db @ [edit_row db req g i now]\<rparr>"
    using assms by (auto simp: edit_message_def dest!: insert_message_rows split: option.splits if_splits)
  then show ?thesis
    by (intro represents_frame) (simp_all add: delivered_append edit_row_def)
qed

section \<open>Sequences of calls\<close>

text \<open>Calls in the order in which their transactions run; a call that fails changes nothing.\<close>

datatype message_op =
    SubmitOp submit_request id time
  | EditOp edit_request int id time
  | DeleteOp delete_request time

fun exec_op :: "(string list \<Rightarrow> string) \<Rightarrow> (string \<Rightarrow> string list option) \<Rightarrow> (bytes \<Rightarrow> string) \<Rightarrow> message_op \<Rightarrow> db \<Rightarrow> db" where
  "exec_op ids parse b64 (SubmitOp req i now) db =
     (case submit_message ids req i now db of Inl _ \<Rightarrow> db | Inr (_, db') \<Rightarrow> db')"
| "exec_op ids parse b64 (EditOp req w i now) db =
     (case edit_message parse b64 req w i now db of Inl _ \<Rightarrow> db | Inr (_, db') \<Rightarrow> db')"
| "exec_op ids parse b64 (DeleteOp req now) db =
     (case delete_message parse req now db of Inl _ \<Rightarrow> db | Inr (_, db') \<Rightarrow> db')"

text \<open>What a call delivers to the group of room \<open>r\<close>.\<close>

fun deliveries :: "(string list \<Rightarrow> string) \<Rightarrow> id \<Rightarrow> message_op \<Rightarrow> db \<Rightarrow> delivery list" where
  "deliveries ids r (SubmitOp req i now) db =
     (if sq_room_id req = r \<and> \<not> isl (submit_message ids req i now db) then [delivery_of req i] else [])"
| "deliveries ids r _ db = []"

fun run_ops ::
  "(string list \<Rightarrow> string) \<Rightarrow> (string \<Rightarrow> string list option) \<Rightarrow> (bytes \<Rightarrow> string) \<Rightarrow> id \<Rightarrow>
   message_op list \<Rightarrow> db \<Rightarrow> delivery list \<times> db"
where
  "run_ops ids parse b64 r [] db = ([], db)"
| "run_ops ids parse b64 r (op # ops) db =
     (case run_ops ids parse b64 r ops (exec_op ids parse b64 op db) of
        (ds, db') \<Rightarrow> (deliveries ids r op db @ ds, db'))"

lemma exec_op_refines:
  "represents db r ch \<Longrightarrow>
     represents (exec_op ids parse b64 op db) r (fold deliver (deliveries ids r op db) ch)"
proof (cases op)
  case (SubmitOp req i now)
  assume "represents db r ch"
  with SubmitOp show ?thesis
    by (cases "submit_message ids req i now db") (auto dest: submit_refines split: if_splits)
qed (auto simp: edit_keeps_channel delete_keeps_channel split: sum.splits)

text \<open>
  C1. The message log refines the channel: whatever calls the members of all rooms make, in
  any order and with any epochs, the log of a room is the channel of the submissions that were
  accepted for it, in the order in which they were accepted; edits, deletions and refused
  calls do not show in it.
\<close>

theorem message_log_refines_channel:
  assumes "represents db r ch" and "run_ops ids parse b64 r ops db = (ds, db')"
  shows "represents db' r (fold deliver ds ch)"
  using assms
proof (induction ops arbitrary: db ch ds)
  case (Cons op ops)
  then obtain ds' where "run_ops ids parse b64 r ops (exec_op ids parse b64 op db) = (ds', db')"
    and "ds = deliveries ids r op db @ ds'" by (auto split: prod.splits)
  with Cons.IH[OF exec_op_refines[OF Cons.prems(1)]] show ?case by simp
qed simp

section \<open>What a client can rely on\<close>

definition epoch_messages :: "entry list \<Rightarrow> int \<Rightarrow> int list" where
  "epoch_messages es e = map (\<lambda>(_, _, s, _). s) (filter (\<lambda>(_, e', _, c). e' = e \<and> \<not> c) es)"

definition commit_epochs :: "entry list \<Rightarrow> int list" where
  "commit_epochs es = map (\<lambda>(_, e, _, _). e) (filter (\<lambda>(_, _, _, c). c) es)"

lemma epoch_messages_append: "epoch_messages (xs @ ys) e = epoch_messages xs e @ epoch_messages ys e"
  by (simp add: epoch_messages_def)

lemma commit_epochs_append: "commit_epochs (xs @ ys) = commit_epochs xs @ commit_epochs ys"
  by (simp add: commit_epochs_def)

lemma number_from_messages:
  "epoch_messages (number_from e k is) e' = (if e' = e then [k .. k + int (length is) - 1] else [])"
proof (induction e k "is" rule: number_from.induct)
  case (2 e k i "is")
  then show ?case by (auto simp: epoch_messages_def upto_rec1[of k] algebra_simps)
qed (simp add: epoch_messages_def)

lemma number_from_commits [simp]: "commit_epochs (number_from e k is) = []"
  by (induction e k "is" rule: number_from.induct) (auto simp: commit_epochs_def)

lemma closed_entries_commits: "commit_epochs (closed_entries e xs) = [e .. e + int (length xs) - 1]"
proof (induction e xs rule: closed_entries.induct)
  case (2 e "is" c rest)
  have "commit_epochs [(c, e, 0, True)] = [e]" by (simp add: commit_epochs_def)
  with 2 show ?case by (simp add: commit_epochs_append upto_rec1[of e] algebra_simps del: append.simps)
qed (simp add: commit_epochs_def)

lemma closed_entries_messages:
  "\<exists>n. epoch_messages (closed_entries e xs) e' = [1 .. int n] \<and> (e' < e \<or> e + int (length xs) \<le> e' \<longrightarrow> n = 0)"
proof (induction e xs rule: closed_entries.induct)
  case (2 e "is" c rest)
  then obtain n where n: "epoch_messages (closed_entries (e + 1) rest) e' = [1 .. int n]"
      "e' < e + 1 \<or> e + 1 + int (length rest) \<le> e' \<Longrightarrow> n = 0" by auto
  have c: "epoch_messages [(c, e, 0, True)] e' = []" by (simp add: epoch_messages_def)
  show ?case
  proof (cases "e' = e")
    case True
    with n c show ?thesis
      by (intro exI[of _ "length is"]) (simp add: epoch_messages_append number_from_messages del: append.simps)
  next
    case False
    with n c show ?thesis
      by (intro exI[of _ n]) (auto simp: epoch_messages_append number_from_messages simp del: append.simps)
  qed
qed (auto simp: epoch_messages_def intro: exI[of _ 0])

text \<open>
  What follows for a room whose log started empty: the commits carry the epochs 0, 1, 2,
  ... without gap or repetition, so there is one commit per epoch; the messages of each epoch
  carry the numbers 1, 2, 3, ...; and the room's counters are the epoch after the last commit
  and the number of messages since.
\<close>

theorem message_log_numbering:
  assumes "represents db r empty_channel" and "run_ops ids parse b64 r ops db = (ds, db')"
  shows "\<exists>e. find_epoch db' r = Some e \<and>
    commit_epochs (delivered db' r) = [0 .. e_epoch e - 1] \<and>
    epoch_messages (delivered db' r) (e_epoch e) = [1 .. e_sequence e] \<and>
    (\<forall>k. \<exists>n. epoch_messages (delivered db' r) k = [1 .. int n])"
proof -
  let ?ch = "fold deliver ds empty_channel"
  have rep: "represents db' r ?ch" by (rule message_log_refines_channel[OF assms])
  then obtain e where e: "find_epoch db' r = Some e" "e_epoch e = int (length (ch_closed ?ch))"
      "e_sequence e = int (length (ch_open ?ch))" and d: "delivered db' r = entries ?ch"
    by (auto simp: represents_def)
  have commits: "commit_epochs (delivered db' r) = [0 .. e_epoch e - 1]"
    unfolding d e entries_def by (simp add: commit_epochs_append closed_entries_commits)
  have msgs: "\<exists>n. epoch_messages (delivered db' r) k = [1 .. int n] \<and> (k = e_epoch e \<longrightarrow> int n = e_sequence e)" for k
  proof -
    obtain n where n: "epoch_messages (closed_entries 0 (ch_closed ?ch)) k = [1 .. int n]"
        "k < 0 \<or> int (length (ch_closed ?ch)) \<le> k \<Longrightarrow> n = 0"
      using closed_entries_messages[of 0 "ch_closed ?ch" k] by auto
    show ?thesis
    proof (cases "k = e_epoch e")
      case True
      with n e show ?thesis
        by (intro exI[of _ "length (ch_open ?ch)"])
          (simp add: d entries_def epoch_messages_append number_from_messages)
    next
      case False
      with n e show ?thesis
        by (intro exI[of _ n]) (simp add: d entries_def epoch_messages_append number_from_messages)
    qed
  qed
  from msgs[of "e_epoch e"] msgs commits e show ?thesis by (metis (no_types, lifting))
qed

section \<open>Rooms start with an empty channel\<close>

lemma create_room_channel:
  assumes "create_room owner opts limits hard room_id now db = Inr (room, db')"
    and "\<forall>g \<in> set (room_messages db). g_room_id g \<noteq> room_id"
  shows "represents db' room_id empty_channel"
proof -
  obtain db1 where ins: "insert_member room_id owner ''owner'' ''create'' now (db\<lparr>rooms := rooms db @ [room]\<rparr>) = Some db1"
    and none: "find_epoch db1 room_id = None"
    and db': "db' = db1\<lparr>room_epochs := room_epochs db1 @
        [\<lparr>e_room_id = room_id, e_epoch = 0, e_sequence = 0, e_transcript_hash = None,
          e_updated_at = current_timestamp now\<rparr>]\<rparr>"
    using assms(1) by (auto simp: create_room_def Let_def split: if_splits sum.splits option.splits)
  have "room_messages db' = room_messages db"
    using ins unfolding db' by (auto simp: insert_member_def split: if_splits)
  then have "delivered db' room_id = []" using assms(2) by (auto simp: delivered_def filter_empty_conv)
  moreover have "find_epoch db' room_id = Some \<lparr>e_room_id = room_id, e_epoch = 0, e_sequence = 0,
      e_transcript_hash = None, e_updated_at = current_timestamp now\<rparr>"
    using none by (simp add: db' find_epoch_def find_append)
  ultimately show ?thesis by (simp add: represents_def empty_channel_def entries_def)
qed

definition app_request :: "id \<Rightarrow> int \<Rightarrow> submit_request" where
  "app_request u e = \<lparr>sq_room_id = ''r'', sq_sender_user_id = u, sq_sender_client_id = ''c'', sq_epoch = e,
     sq_content_type = ContentApplication, sq_ciphertext = [1], sq_transcript_hash = None, sq_reply_to = None,
     sq_target_user_ids = None\<rparr>"

definition commit_request :: "id \<Rightarrow> int \<Rightarrow> submit_request" where
  "commit_request u e = (app_request u e)\<lparr>sq_content_type := ContentCommit, sq_transcript_hash := Some [7]\<rparr>"

text \<open>Two members race: the second submission for epoch 0 after the commit is refused.\<close>

definition race :: "message_op list" where
  "race = [SubmitOp (app_request ''a'' 0) ''m1'' 0, SubmitOp (commit_request ''b'' 0) ''m2'' 1,
           SubmitOp (commit_request ''a'' 0) ''m3'' 2, SubmitOp (app_request ''a'' 1) ''m4'' 3]"

lemma race_run:
  "fst (run_ops (\<lambda>_. []) (\<lambda>_. None) (\<lambda>_. []) ''r'' race room_example_db) = [Deliver ''m1'', Close ''m2'', Deliver ''m4'']"
  by code_simp

lemma room_example_channel: "represents room_example_db ''r'' empty_channel"
  by (simp add: represents_def find_epoch_def delivered_def empty_channel_def entries_def room_example_db_def empty_db_def)

theorem message_log_refines_channel_witness:
  "represents (snd (run_ops (\<lambda>_. []) (\<lambda>_. None) (\<lambda>_. []) ''r'' race room_example_db)) ''r''
     \<lparr>ch_closed = [([''m1''], ''m2'')], ch_open = [''m4'']\<rparr>"
proof -
  have "run_ops (\<lambda>_. []) (\<lambda>_. None) (\<lambda>_. []) ''r'' race room_example_db =
      ([Deliver ''m1'', Close ''m2'', Deliver ''m4''],
       snd (run_ops (\<lambda>_. []) (\<lambda>_. None) (\<lambda>_. []) ''r'' race room_example_db))"
    by (rule prod_eqI) (simp_all only: race_run fst_conv snd_conv)
  from message_log_refines_channel[OF room_example_channel this] show ?thesis
    by (simp add: empty_channel_def)
qed

theorem message_log_numbering_witness:
  "\<exists>e. find_epoch (snd (run_ops (\<lambda>_. []) (\<lambda>_. None) (\<lambda>_. []) ''r'' race room_example_db)) ''r'' = Some e"
proof -
  obtain ds db' where r: "run_ops (\<lambda>_. []) (\<lambda>_. None) (\<lambda>_. []) ''r'' race room_example_db = (ds, db')" by fastforce
  from message_log_numbering[OF room_example_channel r] r show ?thesis by auto
qed

end
