(* ===== verification/MessageProps.thy ===== *)
theory MessageProps
  imports MessageChannel
begin

text \<open>
  What \<open>list_messages\<close>, \<open>get_message_ciphertext\<close>, \<open>delete_message\<close> and \<open>edit_message\<close>
  promise to a member: pages, whispers, tombstones and edits.
\<close>

section \<open>The prefilter\<close>

lemma sql_like_self: "sql_like p p"
proof (induction p)
  case (Cons c cs)
  then show ?case
  proof (cases "c = CHR ''%''")
    case True
    have "sql_like (CHR ''%'' # cs) cs" using Cons by (cases cs) auto
    with True show ?thesis by simp
  qed simp
qed simp

lemma sql_like_percent: "sql_like ps s \<Longrightarrow> sql_like (CHR ''%'' # ps) (pre @ s)"
proof (induction pre)
  case Nil
  then show ?case by (cases s) auto
qed simp

lemma sql_like_any: "sql_like ''%'' s"
  by (induction s) auto

lemma sql_like_append: "sql_like p s \<Longrightarrow> sql_like q t \<Longrightarrow> sql_like (p @ q) (s @ t)"
proof (induction p s rule: sql_like.induct)
  case (2 p ps)
  then show ?case using sql_like_percent[of "ps @ q" t "[]"] by simp
qed auto

lemma like_pattern_finds: "sql_like (like_pattern u) (pre @ quoted u @ post)"
proof -
  have "sql_like (quoted u @ ''%'') (quoted u @ post)"
    by (rule sql_like_append[OF sql_like_self sql_like_any])
  from sql_like_percent[OF this, of pre] show ?thesis by (simp add: like_pattern_def)
qed

text \<open>
  What the code relies on of \<open>serde_json\<close>: a stored list of ids can be read back, and its text
  has every id between quotes (ids need no escapes).
\<close>

definition targets_encoded :: "(string \<Rightarrow> string list option) \<Rightarrow> db \<Rightarrow> bool" where
  "targets_encoded parse_ids db \<longleftrightarrow>
     (\<forall>g \<in> set (room_messages db). \<forall>text. g_target_user_ids g = Some text \<longrightarrow>
        (\<exists>ts. parse_ids text = Some ts \<and> (\<forall>u \<in> set ts. \<exists>pre post. text = pre @ quoted u @ post)))"

lemma visible_prefiltered:
  assumes "targets_encoded parse_ids db" and "g \<in> set (room_messages db)" and "visible parse_ids u g"
  shows "prefiltered u g"
proof (cases "g_target_user_ids g")
  case (Some t)
  then obtain ts where ts: "parse_ids t = Some ts" "\<forall>u \<in> set ts. \<exists>pre post. t = pre @ quoted u @ post"
    using assms(1,2) Some unfolding targets_encoded_def by blast
  from assms(3) Some ts(1) consider "g_sender_user_id g = Some u" | "u \<in> set ts" by (auto simp: visible_def)
  then show ?thesis
  proof cases
    case 2
    with ts(2) like_pattern_finds[of u] Some show ?thesis by (fastforce simp: prefiltered_def)
  qed (simp add: prefiltered_def Some)
qed (simp add: prefiltered_def)

section \<open>Pages\<close>

lemma take_all_min: "take (min (length xs) k) xs = take k xs"
  by (simp add: min_def)

definition after_cursor :: "message_cursor option \<Rightarrow> message_row \<Rightarrow> bool" where
  "after_cursor since g \<longleftrightarrow>
     (case since of None \<Rightarrow> True | Some c \<Rightarrow> (mc_epoch c, mc_seq c) < message_key g)"

text \<open>The messages a member may see after a cursor, in order.\<close>

definition readable ::
  "(string \<Rightarrow> string list option) \<Rightarrow> db \<Rightarrow> list_messages_query \<Rightarrow> message_row list"
where
  "readable parse_ids db q =
     sort_key message_key
       (filter (\<lambda>g. g_room_id g = lq_room_id q \<and> visible parse_ids (lq_requester_id q) g \<and>
          after_cursor (lq_since q) g) (room_messages db))"

lemma filter_take_prefix: "\<exists>m. filter P (take k xs) = take m (filter P xs)"
proof (induction xs arbitrary: k)
  case (Cons x xs)
  show ?case
  proof (cases k)
    case (Suc j)
    obtain m where "filter P (take j xs) = take m (filter P xs)" using Cons by blast
    then show ?thesis using Suc by (cases "P x") (auto intro: exI[of _ "Suc m"] exI[of _ m])
  qed (auto intro: exI[of _ 0])
qed simp

lemma prefix_unless_has_more:
  "\<exists>n. (if b then butlast (take m xs) else take m xs) = take n xs"
  by (auto simp: butlast_take butlast_conv_take intro: exI[of _ "min (length xs) m - 1"])

lemma filter_page_rows:
  assumes "targets_encoded parse_ids db"
  shows "sort_key message_key
      (filter (\<lambda>g. visible parse_ids (lq_requester_id q) g)
        (filter (\<lambda>g. g_room_id g = lq_room_id q \<and> prefiltered (lq_requester_id q) g \<and> after_cursor (lq_since q) g)
          (room_messages db))) = readable parse_ids db q"
  unfolding readable_def filter_filter
  by (rule arg_cong[of _ _ "sort_key message_key"], rule filter_cong[OF refl])
    (use visible_prefiltered[OF assms] in blast)

lemma page_rows_after:
  "page_rows db q =
     (let rows = sort_key message_key
          (filter (\<lambda>g. g_room_id g = lq_room_id q \<and> prefiltered (lq_requester_id q) g \<and> after_cursor (lq_since q) g)
             (room_messages db))
      in take (page_limit (lq_limit q) + 1) (if lq_since q = None then rev rows else rows))"
  by (auto simp: page_rows_def after_cursor_def split: option.splits)

text \<open>
  C26. A page shows a member the right messages and no other: forwards from a cursor it is a
  run of the messages after the cursor that the member may see, from the first on; without a
  cursor it ends with the latest.  Whispers to others never appear, the prefilter drops
  nothing that may be seen, a page is never longer than the limit, it is full when there is
  more, and when the query has fetched all rows it shows all there is.
\<close>

theorem list_messages_page:
  assumes "targets_encoded parse_ids db" and "list_messages parse_ids b64 db q = Inr page"
  shows "\<exists>n m. lm_messages page =
      map (message_view parse_ids b64 m)
        (if lq_since q = None then drop (length (readable parse_ids db q) - n) (readable parse_ids db q)
         else take n (readable parse_ids db q)) \<and>
    n \<le> page_limit (lq_limit q) \<and> n \<le> length (readable parse_ids db q) \<and>
    (lm_has_more page \<longrightarrow> n = page_limit (lq_limit q)) \<and>
    (length (page_rows db q) \<le> page_limit (lq_limit q) \<longrightarrow>
       n = length (readable parse_ids db q) \<and> \<not> lm_has_more page)"
proof -
  let ?lim = "page_limit (lq_limit q)" and ?vis = "readable parse_ids db q"
  let ?P = "visible parse_ids (lq_requester_id q)"
  let ?rows = "sort_key message_key
      (filter (\<lambda>g. g_room_id g = lq_room_id q \<and> prefiltered (lq_requester_id q) g \<and> after_cursor (lq_since q) g)
         (room_messages db))"
  let ?dir = "\<lambda>xs. if lq_since q = None then rev xs else xs"
  define m where "m = page_reactions db q (page_rows db q)"
  define shown where "shown = filter ?P (page_rows db q)"
  have vis: "filter ?P (?dir ?rows) = ?dir ?vis"
    by (simp only: if_distrib[of "filter ?P"] rev_filter[symmetric] filter_sort filter_page_rows[OF assms(1)])
  have rows: "page_rows db q = take (?lim + 1) (?dir ?rows)" by (simp add: page_rows_after Let_def)
  obtain k where k: "shown = take k (?dir ?vis)"
    using filter_take_prefix[of ?P "?lim + 1" "?dir ?rows"] unfolding shown_def rows vis by blast
  have le: "length shown \<le> length (page_rows db q)" unfolding shown_def by (rule length_filter_le)
  moreover have "length (page_rows db q) \<le> ?lim + 1" unfolding rows length_take by (rule min.cobounded2)
  ultimately have short: "length shown \<le> ?lim + 1" by (rule order_trans)
  have all: "length (page_rows db q) \<le> ?lim \<Longrightarrow> shown = ?dir ?vis"
    unfolding shown_def vis[symmetric] rows by (cases "length (?dir ?rows) \<le> ?lim") auto
  have more: "lm_has_more page \<longleftrightarrow> ?lim < length shown"
    and msgs: "lm_messages page = map (message_view parse_ids b64 m)
      (if lq_since q = None then rev (if ?lim < length shown then butlast shown else shown)
       else if ?lim < length shown then butlast shown else shown)"
    using assms(2) unfolding list_messages_def shown_def m_def
    by (auto simp: Let_def rev_map map_butlast[symmetric] split: if_splits)
  define n where "n = (if ?lim < length shown then ?lim else length shown)"
  have kept: "(if ?lim < length shown then butlast shown else shown) = take n (?dir ?vis)"
  proof (cases "?lim < length shown")
    case True
    then have "length shown = ?lim + 1" using short by simp
    then have "butlast shown = take ?lim shown" by (simp add: butlast_conv_take)
    moreover have "take ?lim shown = take ?lim (?dir ?vis)"
    proof -
      have "?lim \<le> k" using \<open>length shown = ?lim + 1\<close> unfolding k length_take by linarith
      then show ?thesis unfolding k take_take by (simp only: min_absorb1)
    qed
    ultimately show ?thesis using True by (simp only: n_def if_True)
  next
    case False
    have "take (length shown) (?dir ?vis) = shown" unfolding k by (simp only: length_take take_take min.assoc[symmetric] min.idem) (simp only: take_all_min)
    then show ?thesis using False by (simp only: n_def if_False)
  qed
  have "length shown \<le> length (?dir ?vis)" unfolding k length_take by (rule min.cobounded1)
  then have "length shown \<le> length ?vis" by (simp split: if_splits)
  then have n: "n \<le> ?lim" "n \<le> length ?vis" by (auto simp: n_def)
  have "length (page_rows db q) \<le> ?lim \<longrightarrow> n = length ?vis \<and> \<not> ?lim < length shown"
  proof
    assume "length (page_rows db q) \<le> ?lim"
    then have "shown = ?dir ?vis" "\<not> ?lim < length shown" using all le by simp_all
    then show "n = length ?vis \<and> \<not> ?lim < length shown" by (simp add: n_def)
  qed
  moreover have "rev (take n (rev ?vis)) = drop (length ?vis - n) ?vis" by (simp add: rev_take)
  ultimately show ?thesis
    using n more msgs kept by (intro exI[of _ n] exI[of _ m]) (auto simp: n_def split: if_splits)
qed

end
