(* ===== verification/MessageChanges.thy ===== *)
theory MessageChanges
  imports MessageProps
begin

text \<open>
  Deleting and editing: who may do it, what it changes, and what the reading operations of
  \<open>room_messages.rs\<close> and the reactions show afterwards.
\<close>

section \<open>Deleting\<close>

lemma delete_messageE:
  assumes "delete_message parse_ids req now db = Inr (res, db')"
  obtains role g where "member_role db (dq_room_id req) (dq_requester_id req) = Some role"
    and "find_message db (dq_message_id req) (dq_room_id req) = Some g"
    and "dr_sender_user_id res = null_text (g_sender_user_id g)" and "g_deleted_at g = None"
    and "dq_requester_id req = dr_sender_user_id res \<or> role = ''owner'' \<or>
         role = ''moderator'' \<and> dq_moderation_mode req = ''discord''"
    and "db' = db\<lparr>room_messages :=
           update_where (\<lambda>h. g_id h = dq_message_id req \<and> g_room_id h = dq_room_id req)
             (\<lambda>h. h\<lparr>g_deleted_at := Some (current_timestamp now)\<rparr>) (room_messages db)\<rparr>"
  using assms by (auto simp: delete_message_def split: option.splits if_splits)

lemma find_message_tombstone:
  "find_message (db\<lparr>room_messages := update_where (\<lambda>h. g_id h = m \<and> g_room_id h = r)
       (\<lambda>h. h\<lparr>g_deleted_at := t\<rparr>) (room_messages db)\<rparr>) m' r' =
     map_option (\<lambda>h. if m' = m \<and> r' = r then h\<lparr>g_deleted_at := t\<rparr> else h) (find_message db m' r')"
proof -
  have "List.find (\<lambda>h. g_id h = m' \<and> g_room_id h = r')
      (update_where (\<lambda>h. g_id h = m \<and> g_room_id h = r) (\<lambda>h. h\<lparr>g_deleted_at := t\<rparr>) (room_messages db)) =
      map_option (\<lambda>h. if g_id h = m \<and> g_room_id h = r then h\<lparr>g_deleted_at := t\<rparr> else h)
        (List.find (\<lambda>h. g_id h = m' \<and> g_room_id h = r') (room_messages db))"
    by (rule find_update_where) simp
  then show ?thesis
    by (cases "find_message db m' r'") (auto simp: find_message_def dest: find_SomeD)
qed

text \<open>
  Only the sender, the owner of the room or, in the moderation mode \<open>discord\<close>, a moderator
  deletes a message.  Deleting sets the mark on this message alone and changes no other table;
  from then on nobody fetches its ciphertext, deletes it again or edits it.
\<close>

theorem delete_message_effect:
  assumes "delete_message parse_ids req now db = Inr (res, db')"
  shows "(\<exists>role. member_role db (dq_room_id req) (dq_requester_id req) = Some role \<and>
      (dq_requester_id req = dr_sender_user_id res \<or> role = ''owner'' \<or>
       role = ''moderator'' \<and> dq_moderation_mode req = ''discord'')) \<and>
    (\<forall>m r. find_message db' m r =
      map_option (\<lambda>g. if m = dq_message_id req \<and> r = dq_room_id req
        then g\<lparr>g_deleted_at := Some (current_timestamp now)\<rparr> else g) (find_message db m r)) \<and>
    db' = db\<lparr>room_messages := room_messages db'\<rparr> \<and>
    (\<forall>u. get_message_ciphertext db' (dq_room_id req) u (dq_message_id req) =
      Inl (if is_member db (dq_room_id req) u then MessageDeleted else MessageNotAMember)) \<and>
    (\<forall>req' now'. dq_room_id req' = dq_room_id req \<longrightarrow> dq_message_id req' = dq_message_id req \<longrightarrow>
      delete_message parse_ids req' now' db' =
        Inl (if member_role db (dq_room_id req') (dq_requester_id req') = None then MessageNotAMember
             else AlreadyDeleted)) \<and>
    (\<forall>req' w i now'. eq_room_id req' = dq_room_id req \<longrightarrow> eq_message_id req' = dq_message_id req \<longrightarrow>
      isl (edit_message parse_ids b64 req' w i now' db'))"
proof -
  from assms obtain role g where role: "member_role db (dq_room_id req) (dq_requester_id req) = Some role"
    and g: "find_message db (dq_message_id req) (dq_room_id req) = Some g"
      "dr_sender_user_id res = null_text (g_sender_user_id g)"
    and may: "dq_requester_id req = dr_sender_user_id res \<or> role = ''owner'' \<or>
         role = ''moderator'' \<and> dq_moderation_mode req = ''discord''"
    and db': "db' = db\<lparr>room_messages :=
           update_where (\<lambda>h. g_id h = dq_message_id req \<and> g_room_id h = dq_room_id req)
             (\<lambda>h. h\<lparr>g_deleted_at := Some (current_timestamp now)\<rparr>) (room_messages db)\<rparr>"
    by (rule delete_messageE)
  have find: "find_message db' m r =
      map_option (\<lambda>g. if m = dq_message_id req \<and> r = dq_room_id req
        then g\<lparr>g_deleted_at := Some (current_timestamp now)\<rparr> else g) (find_message db m r)" for m r
    unfolding db' by (rule find_message_tombstone)
  have gone: "find_message db' (dq_message_id req) (dq_room_id req) =
      Some (g\<lparr>g_deleted_at := Some (current_timestamp now)\<rparr>)" using find g by simp
  have frame: "is_member db' r u = is_member db r u" "member_role db' r u = member_role db r u" for r u
    unfolding db' by (simp_all add: is_member_def member_role_def)
  show ?thesis
  proof (intro conjI allI impI)
    show "\<exists>role. member_role db (dq_room_id req) (dq_requester_id req) = Some role \<and>
      (dq_requester_id req = dr_sender_user_id res \<or> role = ''owner'' \<or>
       role = ''moderator'' \<and> dq_moderation_mode req = ''discord'')" using role may by blast
    show "db' = db\<lparr>room_messages := room_messages db'\<rparr>" by (simp add: db')
    show "find_message db' m r =
      map_option (\<lambda>g. if m = dq_message_id req \<and> r = dq_room_id req
        then g\<lparr>g_deleted_at := Some (current_timestamp now)\<rparr> else g) (find_message db m r)" for m r
      by (rule find)
  qed (use gone g(2) in \<open>auto simp: get_message_ciphertext_def delete_message_def edit_message_def
      check_edit_def frame split: option.splits\<close>)
qed

text \<open>
  The list of messages does not drop the ciphertext of a tombstone: every view of a page
  carries one.
\<close>

lemma page_rows_messages: "set (page_rows db q) \<subseteq> set (room_messages db)"
  by (auto simp: page_rows_def split: option.splits dest!: in_set_takeD)

lemma listed_views:
  assumes "list_messages parse_ids b64 db q = Inr page" and "v \<in> set (lm_messages page)"
  obtains m g where "g \<in> set (page_rows db q)" and "v = message_view parse_ids b64 m g"
proof -
  from assms have "v \<in> set (map (message_view parse_ids b64 (page_reactions db q (page_rows db q)))
      (filter (visible parse_ids (lq_requester_id q)) (page_rows db q)))"
    by (auto simp: list_messages_def Let_def simp del: set_map set_filter split: if_splits dest!: in_set_butlastD)
  with that show ?thesis by auto
qed

lemma tombstones_keep_ciphertext:
  assumes "list_messages parse_ids b64 db q = Inr page" and "v \<in> set (lm_messages page)"
  shows "\<exists>g \<in> set (room_messages db). mv_id v = g_id g \<and> mv_deleted_at v = g_deleted_at g \<and>
       mv_ciphertext v = Some (b64 (g_ciphertext g))"
proof -
  from assms obtain m g where "g \<in> set (page_rows db q)" "v = message_view parse_ids b64 m g" by (rule listed_views)
  with page_rows_messages show ?thesis by (intro bexI[of _ g]) (auto simp: message_view_def)
qed

section \<open>Editing\<close>

lemma edit_row_id: "g_id (edit_row db req g i now) = i"
  by (simp add: edit_row_def)

lemma edit_messageE:
  assumes "edit_message parse_ids b64 req w i now db = Inr (view, db')"
  obtains g where "is_member db (eq_room_id req) (eq_requester_user_id req)"
    and "find_message db (eq_message_id req) (eq_room_id req) = Some g"
    and "check_edit req w now g = None"
    and "view = message_view parse_ids b64 Map.empty (edit_row db req g i now)"
    and "db' = db\<lparr>room_messages := room_messages db @ [edit_row db req g i now]\<rparr>"
    and "i \<notin> g_id ` set (room_messages db)"
  using assms by (auto simp: edit_message_def edit_row_id split: option.splits if_splits dest!: insert_message_rows)

lemma next_edit_sequence_greater:
  "h \<in> set (room_messages db) \<Longrightarrow> g_edit_of h = Some m \<Longrightarrow> g_edit_sequence h < next_edit_sequence db m"
  unfolding next_edit_sequence_def
  by (auto split: option.splits simp: filter_empty_conv dest!: max_row_SomeD)

text \<open>
  Only the sender edits, within the window and never an edit, a tombstone or a handshake
  message.  The original row stays as it is; the edit is a new row in the same epoch with the
  same recipients and content type, and its number is above those of all earlier edits of the
  message.
\<close>

theorem edit_message_effect:
  assumes "edit_message parse_ids b64 req w i now db = Inr (view, db')"
  shows "\<exists>g e. find_message db (eq_message_id req) (eq_room_id req) = Some g \<and>
    is_member db (eq_room_id req) (eq_requester_user_id req) \<and>
    null_text (g_sender_user_id g) = eq_requester_user_id req \<and> g_edit_of g = None \<and> g_deleted_at g = None \<and>
    g_content_type g \<in> {''application'', ''bot''} \<and> num_seconds (now - g_created_at g) \<le> w \<and>
    db' = db\<lparr>room_messages := room_messages db @ [e]\<rparr> \<and>
    view = message_view parse_ids b64 Map.empty e \<and>
    g_id e = i \<and> g_room_id e = g_room_id g \<and> g_sender_user_id e = Some (eq_requester_user_id req) \<and>
    g_epoch e = g_epoch g \<and> g_content_type e = g_content_type g \<and>
    g_target_user_ids e = g_target_user_ids g \<and> g_ciphertext e = eq_new_ciphertext req \<and>
    g_edit_of e = Some (g_id g) \<and>
    (\<forall>h \<in> set (room_messages db). g_edit_of h = Some (g_id g) \<longrightarrow> g_edit_sequence h < g_edit_sequence e)"
proof -
  from assms obtain g where g: "is_member db (eq_room_id req) (eq_requester_user_id req)"
      "find_message db (eq_message_id req) (eq_room_id req) = Some g" "check_edit req w now g = None"
      "view = message_view parse_ids b64 Map.empty (edit_row db req g i now)"
      "db' = db\<lparr>room_messages := room_messages db @ [edit_row db req g i now]\<rparr>"
    by (rule edit_messageE)
  have ids: "g_id g = eq_message_id req" "g_room_id g = eq_room_id req" using find_message_SomeD[OF g(2)] by auto
  have checks: "null_text (g_sender_user_id g) = eq_requester_user_id req" "g_edit_of g = None"
      "g_deleted_at g = None" "g_content_type g \<in> {''application'', ''bot''}"
      "num_seconds (now - g_created_at g) \<le> w" "eq_content_type req \<in> {None, Some (g_content_type g)}"
    using g(3) by (auto simp: check_edit_def split: if_splits option.splits)
  show ?thesis
    by (rule exI[of _ g], rule exI[of _ "edit_row db req g i now"])
      (use g ids checks next_edit_sequence_greater in \<open>auto simp: edit_row_def\<close>)
qed

text \<open>
  An edit is invisible to a client that catches up: its row is numbered 0 in the epoch of
  the original, so a page after any cursor into that epoch leaves it out.
\<close>

theorem edit_missed_by_cursor:
  assumes "edit_message parse_ids b64 req w i now db = Inr (view, db')"
    and "list_messages parse_ids b64 db' q = Inr page"
    and "lq_since q = Some c" and "mc_epoch c = mv_epoch view" and "0 \<le> mc_seq c"
  shows "mv_id view \<notin> mv_id ` set (lm_messages page)"
proof
  from assms(1) obtain g where g: "view = message_view parse_ids b64 Map.empty (edit_row db req g i now)"
      "db' = db\<lparr>room_messages := room_messages db @ [edit_row db req g i now]\<rparr>"
      "i \<notin> g_id ` set (room_messages db)"
    by (rule edit_messageE)
  have v: "mv_id view = i" "mv_epoch view = g_epoch g" by (simp_all add: g message_view_def edit_row_def)
  assume "mv_id view \<in> mv_id ` set (lm_messages page)"
  then obtain x where x: "x \<in> set (lm_messages page)" "mv_id x = i" using v(1) by auto
  from assms(2) x(1) obtain m h where m: "h \<in> set (page_rows db' q)" "x = message_view parse_ids b64 m h"
    by (rule listed_views)
  with x(2) have h: "h \<in> set (page_rows db' q)" "g_id h = i" by (simp_all add: message_view_def)
  then have "h \<in> set (room_messages db')" "(mc_epoch c, mc_seq c) < message_key h"
    using assms(3) by (auto simp: page_rows_def dest!: in_set_takeD)
  moreover from this h(2) g(2,3) have "h = edit_row db req g i now" by auto
  ultimately show False using assms(4,5) v(2) by (simp add: message_key_def edit_row_def less_prod_def)
qed

section \<open>A conversation with an edit and a deletion\<close>

definition talk_db :: db where
  "talk_db = snd (run_ops (\<lambda>_. []) (\<lambda>_. None) (\<lambda>_. []) ''r'' race room_example_db)"

definition talk_edit :: edit_request where
  "talk_edit = \<lparr>eq_room_id = ''r'', eq_message_id = ''m1'', eq_requester_user_id = ''a'',
     eq_requester_client_id = ''c'', eq_new_ciphertext = [2], eq_content_type = None\<rparr>"

definition talk_delete :: delete_request where
  "talk_delete = \<lparr>dq_room_id = ''r'', dq_message_id = ''m1'', dq_requester_id = ''a'', dq_moderation_mode = ''signal''\<rparr>"

definition talk_query :: list_messages_query where
  "talk_query = \<lparr>lq_room_id = ''r'', lq_requester_id = ''a'', lq_since = Some \<lparr>mc_epoch = 0, mc_seq = 0\<rparr>, lq_limit = 2\<rparr>"

lemma talk_delete_ok: "\<not> isl (delete_message (\<lambda>_. None) talk_delete 9 talk_db)"
  by code_simp

lemma talk_edit_ok: "\<not> isl (edit_message (\<lambda>_. None) (\<lambda>_. []) talk_edit 10 ''e1'' 5 talk_db)"
  by code_simp

theorem delete_message_effect_witness:
  "\<exists>res db'. delete_message (\<lambda>_. None) talk_delete 9 talk_db = Inr (res, db') \<and>
     get_message_ciphertext db' ''r'' ''a'' ''m1'' = Inl (if is_member talk_db ''r'' ''a'' then MessageDeleted else MessageNotAMember)"
proof -
  obtain res db' where d: "delete_message (\<lambda>_. None) talk_delete 9 talk_db = Inr (res, db')"
    using not_isl_pair[OF talk_delete_ok] by blast
  from delete_message_effect[OF d] d show ?thesis by (auto simp: talk_delete_def)
qed

theorem edit_message_effect_witness:
  "\<exists>view db'. edit_message (\<lambda>_. None) (\<lambda>_. []) talk_edit 10 ''e1'' 5 talk_db = Inr (view, db') \<and>
     (\<exists>g. find_message talk_db ''m1'' ''r'' = Some g \<and> null_text (g_sender_user_id g) = ''a'')"
proof -
  obtain view db' where d: "edit_message (\<lambda>_. None) (\<lambda>_. []) talk_edit 10 ''e1'' 5 talk_db = Inr (view, db')"
    using not_isl_pair[OF talk_edit_ok] by blast
  from edit_message_effect[OF d] d show ?thesis by (auto simp: talk_edit_def)
qed

definition talk_after_edit :: "room_message_view \<times> db" where
  "talk_after_edit = projr (edit_message (\<lambda>_. None) (\<lambda>_. []) talk_edit 10 ''e1'' 5 talk_db)"

lemma talk_page_ok:
  "\<not> isl (list_messages (\<lambda>_. None) (\<lambda>_. []) (snd talk_after_edit) talk_query) \<and> mv_epoch (fst talk_after_edit) = 0"
  by code_simp

theorem edit_missed_by_cursor_witness:
  "\<exists>page. list_messages (\<lambda>_. None) (\<lambda>_. []) (snd talk_after_edit) talk_query = Inr page \<and>
     mv_id (fst talk_after_edit) \<notin> mv_id ` set (lm_messages page)"
proof -
  obtain page where p: "list_messages (\<lambda>_. None) (\<lambda>_. []) (snd talk_after_edit) talk_query = Inr page"
    using talk_page_ok by (cases "list_messages (\<lambda>_. None) (\<lambda>_. []) (snd talk_after_edit) talk_query") auto
  have e: "edit_message (\<lambda>_. None) (\<lambda>_. []) talk_edit 10 ''e1'' 5 talk_db = Inr (fst talk_after_edit, snd talk_after_edit)"
    using not_isl_pair[OF talk_edit_ok] unfolding talk_after_edit_def by (elim exE) (simp only: sum.sel prod.sel)
  from edit_missed_by_cursor[OF e p, of "\<lparr>mc_epoch = 0, mc_seq = 0\<rparr>"] talk_page_ok p show ?thesis
    by (auto simp: talk_query_def)
qed

lemma talk_targets: "targets_encoded (\<lambda>_. None) talk_db"
proof -
  have "list_all (\<lambda>g. g_target_user_ids g = None) (room_messages talk_db)" by code_simp
  then show ?thesis by (auto simp: targets_encoded_def list_all_iff)
qed

lemma talk_db_page_ok: "\<not> isl (list_messages (\<lambda>_. None) (\<lambda>_. []) talk_db talk_query)"
  by code_simp

theorem list_messages_page_witness:
  "\<exists>page n. list_messages (\<lambda>_. None) (\<lambda>_. []) talk_db talk_query = Inr page \<and>
     n \<le> page_limit 2 \<and> (lm_has_more page \<longrightarrow> n = page_limit 2)"
proof -
  obtain page where p: "list_messages (\<lambda>_. None) (\<lambda>_. []) talk_db talk_query = Inr page"
    using talk_db_page_ok by (cases "list_messages (\<lambda>_. None) (\<lambda>_. []) talk_db talk_query") auto
  from list_messages_page[OF talk_targets p] p show ?thesis by (auto simp: talk_query_def)
qed

end
