(* ===== verification/RateLimit.thy ===== *)
theory RateLimit
  imports Schema Texts
begin

text \<open>
  Request limits: \<open>server/src/rate_limit.rs\<close> and the cleanup job
  \<open>server/src/cleanup/rate_limits.rs\<close>.  Every request names a key; the key has a text, a
  window that starts at a round minute, hour or day, and a limit, and the table counts the
  requests per text and window start.  \<open>chrono\<close>'s formatting is the argument \<open>fmt\<close>; all the
  formats used give digits and dashes.  Times are nanoseconds since the epoch, so a UTC
  minute, hour or day starts at a multiple of its length.
\<close>

section \<open>Data\<close>

datatype Window = Minute | Hour | Day

datatype rate_limit_key =
    InviteCreate id Window |
    InviteRedeem id |
    KpClaim id Window |
    Login id |
    DataExport id |
    Presign id |
    OprfBlind id Window |
    Lookup id |
    ReadState id |
    Preference id |
    DeviceName id |
    AdminOprfRotate id |
    RoomMetadata id |
    Edit id |
    Reaction id |
    MemberList id |
    RecoverStart id Window |
    LinkPreview id |
    ModelDownload id |
    TurnCredentials id |
    SessionCreate id Window |
    SessionJoin id |
    SessionHeartbeat id id |
    SessionSignal id id |
    CallSignal id id |
    BotCreate id |
    BotGrant id |
    BotTokenIssue id |
    BotCommand id id |
    BotMessage id |
    BotCommandResult id id |
    BotLocalMessage id |
    BotKeyRotate id |
    BotObserverStream id |
    OperatorQueueList id id |
    OperatorQueueRespond id id |
    OperatorQueueEnqueue id |
    WebSocketAuth id |
    P2pSignal id id

record RateLimitConfig =
  invite_create_hourly :: "32 word"
  invite_create_daily :: "32 word"
  invite_redeem_per_min :: "32 word"
  kp_claim_per_min :: "32 word"
  kp_claim_hourly :: "32 word"
  login_per_min :: "32 word"
  login_lockout_min :: "32 word"
  export_rate_limit_hours :: "64 word"
  presign_per_min :: "32 word"
  oprf_blind_per_min :: "32 word"
  oprf_blind_per_hour :: "32 word"
  read_state_per_min :: "32 word"
  preference_per_min :: "32 word"
  rate_device_name_per_min :: "32 word"
  rate_admin_oprf_rotate_per_hour :: "32 word"
  rate_room_metadata_per_min :: "32 word"
  rate_edit_per_min :: "32 word"
  rate_reaction_per_min :: "32 word"
  rate_member_list_per_min :: "32 word"
  rate_recover_start_per_min :: "32 word"
  rate_recover_start_per_hour :: "32 word"
  rate_link_preview_per_min :: "32 word"
  rate_model_download_per_min :: "32 word"
  rate_turn_credentials_per_min :: "32 word"
  rate_session_create_hourly :: "32 word"
  rate_session_create_daily :: "32 word"
  rate_session_join_per_min :: "32 word"
  rate_session_heartbeat_per_min :: "32 word"
  rate_session_signal_per_min :: "32 word"
  rate_call_signal_per_min :: "32 word"
  rate_bot_create_per_hour :: "32 word"
  rate_bot_grant_per_hour :: "32 word"
  rate_bot_token_issue_per_hour :: "32 word"
  rate_bot_command_per_min :: "32 word"
  rate_bot_message_per_min :: "32 word"
  rate_bot_command_result_per_min :: "32 word"
  rate_bot_local_message_per_min :: "32 word"
  rate_bot_key_rotate_per_hour :: "32 word"
  rate_bot_observer_stream_per_min :: "32 word"
  rate_operator_queue_list_per_min :: "32 word"
  rate_operator_queue_respond_per_min :: "32 word"
  rate_operator_queue_enqueue_per_min :: "32 word"
  rate_websocket_auth_per_min :: "32 word"
  rate_p2p_signal_per_min :: "32 word"

datatype rate_limit_error =
    RateDatabase
  | InvalidKey string

record rate_limit_decision =
  rd_allowed :: bool
  rd_remaining :: "32 word"
  rd_reset_at :: time

text \<open>Text, start of the window, end of the window, limit.\<close>

type_synonym plan = "string \<times> time \<times> time \<times> 32 word"

section \<open>Windows\<close>

fun window_length :: "Window \<Rightarrow> time" where
  "window_length Minute = 60 * nanos_per_sec"
| "window_length Hour = 3600 * nanos_per_sec"
| "window_length Day = 86400 * nanos_per_sec"

definition window_start :: "Window \<Rightarrow> time \<Rightarrow> time" where
  "window_start w now = now - now mod window_length w"

definition compute_window :: "time \<Rightarrow> Window \<Rightarrow> time \<times> time" where
  "compute_window now w = (window_start w now, window_start w now + window_length w)"

text \<open>\<open>format!("{a}:{b}:...")\<close>\<close>

fun colons :: "string list \<Rightarrow> string" where
  "colons [] = []"
| "colons [s] = s"
| "colons (s # ss) = s @ '':'' @ colons ss"

definition windowed :: "string list \<Rightarrow> Window \<Rightarrow> 32 word \<Rightarrow> time \<Rightarrow> plan" where
  "windowed parts w limit now = (let (start, reset) = compute_window now w in (colons parts, start, reset, limit))"

abbreviation day_format :: string where "day_format \<equiv> ''%Y-%m-%d''"
abbreviation hour_format :: string where "hour_format \<equiv> ''%Y-%m-%d-%H''"
abbreviation minute_format :: string where "minute_format \<equiv> ''%Y-%m-%d-%H-%M''"

section \<open>Keys\<close>

text \<open>The five keys with a window of their own; one of the three windows is not supported.\<close>

definition invite_create_plan :: "RateLimitConfig \<Rightarrow> id \<Rightarrow> Window \<Rightarrow> time \<Rightarrow> rate_limit_error + plan" where
  "invite_create_plan config user_id window now =
     (case window of
        Hour \<Rightarrow> Inr (windowed [''invite_create'', user_id, ''hour''] Hour (invite_create_hourly config) now)
      | Day \<Rightarrow> Inr (windowed [''invite_create'', user_id, ''day''] Day (invite_create_daily config) now)
      | Minute \<Rightarrow> Inl (InvalidKey ''unsupported window for InviteCreate''))"

definition kp_claim_plan :: "RateLimitConfig \<Rightarrow> id \<Rightarrow> Window \<Rightarrow> time \<Rightarrow> rate_limit_error + plan" where
  "kp_claim_plan config user_id window now =
     (case window of
        Minute \<Rightarrow> Inr (windowed [''kp_claim'', user_id, ''min''] Minute (kp_claim_per_min config) now)
      | Hour \<Rightarrow> Inr (windowed [''kp_claim'', user_id, ''hour''] Hour (kp_claim_hourly config) now)
      | Day \<Rightarrow> Inl (InvalidKey ''unsupported window for KpClaim''))"

definition oprf_blind_plan :: "RateLimitConfig \<Rightarrow> string \<Rightarrow> Window \<Rightarrow> time \<Rightarrow> rate_limit_error + plan" where
  "oprf_blind_plan config ip window now =
     (case window of
        Minute \<Rightarrow> Inr (windowed [''oprf_blind'', ip, ''min''] Minute (oprf_blind_per_min config) now)
      | Hour \<Rightarrow> Inr (windowed [''oprf_blind'', ip, ''hour''] Hour (oprf_blind_per_hour config) now)
      | Day \<Rightarrow> Inl (InvalidKey ''unsupported window for OprfBlind''))"

definition recover_start_plan ::
  "(string \<Rightarrow> time \<Rightarrow> string) \<Rightarrow> RateLimitConfig \<Rightarrow> string \<Rightarrow> Window \<Rightarrow> time \<Rightarrow> rate_limit_error + plan"
where
  "recover_start_plan fmt config ip window now =
     (case window of
        Minute \<Rightarrow> Inr (windowed [''recover_start'', ip, ''min''] Minute (rate_recover_start_per_min config) now)
      | Hour \<Rightarrow>
          Inr (windowed [''recover_start'', ip, ''hour'', fmt hour_format (window_start Hour now)] Hour
                (rate_recover_start_per_hour config) now)
      | Day \<Rightarrow> Inl (InvalidKey ''unsupported window for RecoverStart''))"

definition session_create_plan ::
  "(string \<Rightarrow> time \<Rightarrow> string) \<Rightarrow> RateLimitConfig \<Rightarrow> id \<Rightarrow> Window \<Rightarrow> time \<Rightarrow> rate_limit_error + plan"
where
  "session_create_plan fmt config user_id window now =
     (case window of
        Hour \<Rightarrow>
          Inr (windowed [''session_create'', user_id, ''hour'', fmt hour_format (window_start Hour now)] Hour
                (rate_session_create_hourly config) now)
      | Day \<Rightarrow>
          Inr (windowed [''session_create'', user_id, ''day'', fmt day_format (window_start Day now)] Day
                (rate_session_create_daily config) now)
      | Minute \<Rightarrow> Inl (InvalidKey ''unsupported window for SessionCreate''))"

text \<open>
  An export is limited to one per clock hour, although the answer names the end of
  \<open>export_rate_limit_hours\<close>.
\<close>

definition data_export_plan ::
  "(string \<Rightarrow> time \<Rightarrow> string) \<Rightarrow> RateLimitConfig \<Rightarrow> id \<Rightarrow> time \<Rightarrow> plan"
where
  "data_export_plan fmt config user_id now =
     (let start = window_start Hour now
      in (colons [''data_export'', user_id, fmt hour_format start], start,
          start + sint (export_rate_limit_hours config) * window_length Hour, 1))"

text \<open>Keys whose text carries the minute or the hour.\<close>

definition dated_minute ::
  "(string \<Rightarrow> time \<Rightarrow> string) \<Rightarrow> string list \<Rightarrow> 32 word \<Rightarrow> time \<Rightarrow> rate_limit_error + plan"
where
  "dated_minute fmt parts limit now =
     Inr (windowed (parts @ [''min'', fmt minute_format (window_start Minute now)]) Minute limit now)"

definition dated_hour ::
  "(string \<Rightarrow> time \<Rightarrow> string) \<Rightarrow> string list \<Rightarrow> 32 word \<Rightarrow> time \<Rightarrow> rate_limit_error + plan"
where
  "dated_hour fmt parts limit now =
     Inr (windowed (parts @ [''hour'', fmt hour_format (window_start Hour now)]) Hour limit now)"

definition plain_minute :: "string list \<Rightarrow> 32 word \<Rightarrow> time \<Rightarrow> rate_limit_error + plan" where
  "plain_minute parts limit now = Inr (windowed (parts @ [''min'']) Minute limit now)"

fun rate_plan ::
  "(string \<Rightarrow> time \<Rightarrow> string) \<Rightarrow> RateLimitConfig \<Rightarrow> time \<Rightarrow> rate_limit_key \<Rightarrow> rate_limit_error + plan"
where
  "rate_plan fmt config now (InviteCreate user_id window) =
     invite_create_plan config user_id window now"
| "rate_plan fmt config now (InviteRedeem ip) =
     plain_minute [''invite_redeem'', ip] (invite_redeem_per_min config) now"
| "rate_plan fmt config now (KpClaim user_id window) =
     kp_claim_plan config user_id window now"
| "rate_plan fmt config now (Login ip) =
     plain_minute [''login'', ip] (login_per_min config) now"
| "rate_plan fmt config now (DataExport user_id) =
     Inr (data_export_plan fmt config user_id now)"
| "rate_plan fmt config now (Presign user_id) =
     plain_minute [''presign'', user_id] (presign_per_min config) now"
| "rate_plan fmt config now (OprfBlind ip window) =
     oprf_blind_plan config ip window now"
| "rate_plan fmt config now (Lookup user_id) =
     plain_minute [''lookup'', user_id] 60 now"
| "rate_plan fmt config now (ReadState user_id) =
     plain_minute [''read_state'', user_id] (read_state_per_min config) now"
| "rate_plan fmt config now (Preference user_id) =
     plain_minute [''preference'', user_id] (preference_per_min config) now"
| "rate_plan fmt config now (DeviceName user_id) =
     plain_minute [''device_name'', user_id] (rate_device_name_per_min config) now"
| "rate_plan fmt config now (AdminOprfRotate user_id) =
     dated_hour fmt [''admin_oprf_rotate'', user_id] (rate_admin_oprf_rotate_per_hour config) now"
| "rate_plan fmt config now (RoomMetadata user_id) =
     plain_minute [''room_metadata'', user_id] (rate_room_metadata_per_min config) now"
| "rate_plan fmt config now (Edit user_id) =
     plain_minute [''edit'', user_id] (rate_edit_per_min config) now"
| "rate_plan fmt config now (Reaction user_id) =
     plain_minute [''reaction'', user_id] (rate_reaction_per_min config) now"
| "rate_plan fmt config now (MemberList user_id) =
     plain_minute [''member_list'', user_id] (rate_member_list_per_min config) now"
| "rate_plan fmt config now (RecoverStart ip window) =
     recover_start_plan fmt config ip window now"
| "rate_plan fmt config now (LinkPreview user_id) =
     dated_minute fmt [''link_preview'', user_id] (rate_link_preview_per_min config) now"
| "rate_plan fmt config now (ModelDownload ip) =
     dated_minute fmt [''model_download'', ip] (rate_model_download_per_min config) now"
| "rate_plan fmt config now (TurnCredentials user_id) =
     dated_minute fmt [''turn_credentials'', user_id] (rate_turn_credentials_per_min config) now"
| "rate_plan fmt config now (SessionCreate user_id window) =
     session_create_plan fmt config user_id window now"
| "rate_plan fmt config now (SessionJoin user_id) =
     dated_minute fmt [''session_join'', user_id] (rate_session_join_per_min config) now"
| "rate_plan fmt config now (SessionHeartbeat user_id session_id) =
     dated_minute fmt [''session_heartbeat'', user_id, session_id] (rate_session_heartbeat_per_min config) now"
| "rate_plan fmt config now (SessionSignal user_id session_id) =
     dated_minute fmt [''session_signal'', user_id, session_id] (rate_session_signal_per_min config) now"
| "rate_plan fmt config now (CallSignal user_id call_id) =
     dated_minute fmt [''call_signal'', user_id, call_id] (rate_call_signal_per_min config) now"
| "rate_plan fmt config now (BotCreate user_id) =
     dated_hour fmt [''bot_create'', user_id] (rate_bot_create_per_hour config) now"
| "rate_plan fmt config now (BotGrant user_id) =
     dated_hour fmt [''bot_grant'', user_id] (rate_bot_grant_per_hour config) now"
| "rate_plan fmt config now (BotTokenIssue bot_id) =
     dated_hour fmt [''bot_token_issue'', bot_id] (rate_bot_token_issue_per_hour config) now"
| "rate_plan fmt config now (BotCommand bot_id user_id) =
     dated_minute fmt [''bot_command'', bot_id, user_id] (rate_bot_command_per_min config) now"
| "rate_plan fmt config now (BotMessage bot_id) =
     dated_minute fmt [''bot_message'', bot_id] (rate_bot_message_per_min config) now"
| "rate_plan fmt config now (BotCommandResult bot_id user_id) =
     dated_minute fmt [''bot_command_result'', bot_id, user_id] (rate_bot_command_result_per_min config) now"
| "rate_plan fmt config now (BotLocalMessage bot_id) =
     dated_minute fmt [''bot_local_message'', bot_id] (rate_bot_local_message_per_min config) now"
| "rate_plan fmt config now (BotKeyRotate bot_id) =
     dated_hour fmt [''bot_key_rotate'', bot_id] (rate_bot_key_rotate_per_hour config) now"
| "rate_plan fmt config now (BotObserverStream bot_id) =
     dated_minute fmt [''bot_observer_stream'', bot_id] (rate_bot_observer_stream_per_min config) now"
| "rate_plan fmt config now (OperatorQueueList bot_id user_id) =
     dated_minute fmt [''operator_queue_list'', bot_id, user_id] (rate_operator_queue_list_per_min config) now"
| "rate_plan fmt config now (OperatorQueueRespond bot_id user_id) =
     dated_minute fmt [''operator_queue_respond'', bot_id, user_id] (rate_operator_queue_respond_per_min config) now"
| "rate_plan fmt config now (OperatorQueueEnqueue bot_id) =
     dated_minute fmt [''operator_queue_enqueue'', bot_id] (rate_operator_queue_enqueue_per_min config) now"
| "rate_plan fmt config now (WebSocketAuth identity) =
     dated_minute fmt [''websocket_auth'', identity] (rate_websocket_auth_per_min config) now"
| "rate_plan fmt config now (P2pSignal user_id room_id) =
     dated_minute fmt [''p2p_signal'', user_id, room_id] (rate_p2p_signal_per_min config) now"

section \<open>The check\<close>

text \<open>
  \<open>INSERT INTO rate_limits ... ON CONFLICT (key, window_start) DO UPDATE SET count = count + 1
  RETURNING count\<close>.
\<close>

definition hits :: "db \<Rightarrow> string \<Rightarrow> time \<Rightarrow> int" where
  "hits db text start =
     (case List.find (\<lambda>r. rt_key r = text \<and> rt_window_start r = start) (rate_limits db) of
        None \<Rightarrow> 0 | Some r \<Rightarrow> rt_count r)"

definition bump :: "string \<Rightarrow> time \<Rightarrow> db \<Rightarrow> int \<times> db" where
  "bump text start db =
     (case List.find (\<lambda>r. rt_key r = text \<and> rt_window_start r = start) (rate_limits db) of
        None \<Rightarrow>
          (1, db\<lparr>rate_limits := rate_limits db @ [\<lparr>rt_key = text, rt_window_start = start, rt_count = 1\<rparr>]\<rparr>)
      | Some r \<Rightarrow>
          (rt_count r + 1,
           db\<lparr>rate_limits := update_where (\<lambda>r. rt_key r = text \<and> rt_window_start r = start)
                (\<lambda>r. r\<lparr>rt_count := rt_count r + 1\<rparr>) (rate_limits db)\<rparr>))"

definition saturating_sub :: "'a::len word \<Rightarrow> 'a word \<Rightarrow> 'a word" where
  "saturating_sub a b = (if a \<le> b then 0 else a - b)"

definition rate_check ::
  "(string \<Rightarrow> time \<Rightarrow> string) \<Rightarrow> RateLimitConfig \<Rightarrow> rate_limit_key \<Rightarrow> time \<Rightarrow> db \<Rightarrow>
   rate_limit_error + (rate_limit_decision \<times> db)"
where
  "rate_check fmt config key now db =
     (case rate_plan fmt config now key of
        Inl e \<Rightarrow> Inl e
      | Inr (text, start, reset_at, limit) \<Rightarrow>
          let (count, db') = bump text start db;
              allowed = (count \<le> uint limit)
          in Inr (\<lparr>rd_allowed = allowed,
                   rd_remaining = (if allowed then saturating_sub limit (word_of_int count) else 0),
                   rd_reset_at = reset_at\<rparr>, db'))"

text \<open>
  The cleanup compares the text of \<open>window_start\<close>, which \<open>sqlx\<close> writes as
  \<open>2026-01-02T...\<close>, with \<open>datetime('now', '-24 hours')\<close>, \<open>2026-01-02 ...\<close>.  A \<open>T\<close> is greater
  than a blank, so a row of the same date is not less, whatever its time.
\<close>

definition cleanup_rate_limits :: "time \<Rightarrow> db \<Rightarrow> db" where
  "cleanup_rate_limits now db =
     db\<lparr>rate_limits := delete_where
          (\<lambda>r. rt_window_start r div window_length Day < (now - window_length Day) div window_length Day)
          (rate_limits db)\<rparr>"

text \<open>The address of a client; a header that is not visible ASCII counts as absent.\<close>

definition extract_client_ip :: "string option \<Rightarrow> bool \<Rightarrow> string" where
  "extract_client_ip x_forwarded_for trust_proxy =
     (if trust_proxy
      then (case x_forwarded_for of
              Some forwarded \<Rightarrow>
                let trimmed = trim (takeWhile (\<lambda>c. c \<noteq> CHR '','') forwarded)
                in if trimmed \<noteq> [] then trimmed else ''127.0.0.1''
            | None \<Rightarrow> ''127.0.0.1'')
      else ''127.0.0.1'')"

text \<open>A check changes the counters only.\<close>

lemma rate_check_frame:
  "rate_check fmt config k now db = Inr (d, db') \<Longrightarrow> \<exists>t. db' = db\<lparr>rate_limits := t\<rparr>"
  unfolding rate_check_def bump_def by (auto simp: Let_def split: sum.splits option.splits prod.splits)

end
