(* ===== verification/RateKeys.thy ===== *)
theory RateKeys
  imports RateLimit
begin

text \<open>
  The key texts of \<open>rate_limit.rs\<close> keep the keys apart, and the counting allows exactly the
  first requests of every window, whatever the cleanup does in between.
\<close>

section \<open>The keys as data\<close>

text \<open>
  Every key is the text of its kind, one or two ids, and a window; the shape says what
  follows the ids.
\<close>

datatype key_shape =
    TagOnly     \<comment> \<open>\<open>kind:id:window\<close>\<close>
  | DateOnly    \<comment> \<open>\<open>kind:id:date\<close>\<close>
  | Dated       \<comment> \<open>\<open>kind:id:window:date\<close>\<close>
  | HourDated   \<comment> \<open>\<open>kind:id:min\<close> or \<open>kind:id:hour:date\<close>\<close>
  | TwoIds      \<comment> \<open>\<open>kind:id:id:min:date\<close>\<close>

definition rate_kinds :: "(string \<times> key_shape) list" where
  "rate_kinds =
    [(''invite_create'', TagOnly), (''invite_redeem'', TagOnly), (''kp_claim'', TagOnly),
     (''login'', TagOnly), (''data_export'', DateOnly), (''presign'', TagOnly),
     (''oprf_blind'', TagOnly), (''lookup'', TagOnly), (''read_state'', TagOnly),
     (''preference'', TagOnly), (''device_name'', TagOnly), (''admin_oprf_rotate'', Dated),
     (''room_metadata'', TagOnly), (''edit'', TagOnly), (''reaction'', TagOnly),
     (''member_list'', TagOnly), (''recover_start'', HourDated), (''link_preview'', Dated),
     (''model_download'', Dated), (''turn_credentials'', Dated), (''session_create'', Dated),
     (''session_join'', Dated), (''session_heartbeat'', TwoIds), (''session_signal'', TwoIds),
     (''call_signal'', TwoIds), (''bot_create'', Dated), (''bot_grant'', Dated),
     (''bot_token_issue'', Dated), (''bot_command'', TwoIds), (''bot_message'', Dated),
     (''bot_command_result'', TwoIds), (''bot_local_message'', Dated),
     (''bot_key_rotate'', Dated), (''bot_observer_stream'', Dated),
     (''operator_queue_list'', TwoIds), (''operator_queue_respond'', TwoIds),
     (''operator_queue_enqueue'', Dated), (''websocket_auth'', Dated), (''p2p_signal'', TwoIds)]"

fun rate_parts :: "rate_limit_key \<Rightarrow> nat \<times> id \<times> id \<times> Window" where
  "rate_parts (InviteCreate i w) = (0, i, [], w)"
| "rate_parts (InviteRedeem i) = (1, i, [], Minute)"
| "rate_parts (KpClaim i w) = (2, i, [], w)"
| "rate_parts (Login i) = (3, i, [], Minute)"
| "rate_parts (DataExport i) = (4, i, [], Hour)"
| "rate_parts (Presign i) = (5, i, [], Minute)"
| "rate_parts (OprfBlind i w) = (6, i, [], w)"
| "rate_parts (Lookup i) = (7, i, [], Minute)"
| "rate_parts (ReadState i) = (8, i, [], Minute)"
| "rate_parts (Preference i) = (9, i, [], Minute)"
| "rate_parts (DeviceName i) = (10, i, [], Minute)"
| "rate_parts (AdminOprfRotate i) = (11, i, [], Hour)"
| "rate_parts (RoomMetadata i) = (12, i, [], Minute)"
| "rate_parts (Edit i) = (13, i, [], Minute)"
| "rate_parts (Reaction i) = (14, i, [], Minute)"
| "rate_parts (MemberList i) = (15, i, [], Minute)"
| "rate_parts (RecoverStart i w) = (16, i, [], w)"
| "rate_parts (LinkPreview i) = (17, i, [], Minute)"
| "rate_parts (ModelDownload i) = (18, i, [], Minute)"
| "rate_parts (TurnCredentials i) = (19, i, [], Minute)"
| "rate_parts (SessionCreate i w) = (20, i, [], w)"
| "rate_parts (SessionJoin i) = (21, i, [], Minute)"
| "rate_parts (SessionHeartbeat i j) = (22, i, j, Minute)"
| "rate_parts (SessionSignal i j) = (23, i, j, Minute)"
| "rate_parts (CallSignal i j) = (24, i, j, Minute)"
| "rate_parts (BotCreate i) = (25, i, [], Hour)"
| "rate_parts (BotGrant i) = (26, i, [], Hour)"
| "rate_parts (BotTokenIssue i) = (27, i, [], Hour)"
| "rate_parts (BotCommand i j) = (28, i, j, Minute)"
| "rate_parts (BotMessage i) = (29, i, [], Minute)"
| "rate_parts (BotCommandResult i j) = (30, i, j, Minute)"
| "rate_parts (BotLocalMessage i) = (31, i, [], Minute)"
| "rate_parts (BotKeyRotate i) = (32, i, [], Hour)"
| "rate_parts (BotObserverStream i) = (33, i, [], Minute)"
| "rate_parts (OperatorQueueList i j) = (34, i, j, Minute)"
| "rate_parts (OperatorQueueRespond i j) = (35, i, j, Minute)"
| "rate_parts (OperatorQueueEnqueue i) = (36, i, [], Minute)"
| "rate_parts (WebSocketAuth i) = (37, i, [], Minute)"
| "rate_parts (P2pSignal i j) = (38, i, j, Minute)"

definition key_of_parts :: "nat \<Rightarrow> id \<Rightarrow> id \<Rightarrow> Window \<Rightarrow> rate_limit_key" where
  "key_of_parts n i j w =
    [InviteCreate i w, InviteRedeem i, KpClaim i w, Login i, DataExport i, Presign i,
     OprfBlind i w, Lookup i, ReadState i, Preference i, DeviceName i, AdminOprfRotate i,
     RoomMetadata i, Edit i, Reaction i, MemberList i, RecoverStart i w, LinkPreview i,
     ModelDownload i, TurnCredentials i, SessionCreate i w, SessionJoin i,
     SessionHeartbeat i j, SessionSignal i j, CallSignal i j, BotCreate i, BotGrant i,
     BotTokenIssue i, BotCommand i j, BotMessage i, BotCommandResult i j, BotLocalMessage i,
     BotKeyRotate i, BotObserverStream i, OperatorQueueList i j, OperatorQueueRespond i j,
     OperatorQueueEnqueue i, WebSocketAuth i, P2pSignal i j] ! n"

lemma key_of_parts: "rate_parts k = (n, i, j, w) \<Longrightarrow> key_of_parts n i j w = k"
  by (cases k) (auto simp: key_of_parts_def nth_Cons')

lemma rate_kinds_distinct: "distinct (map fst rate_kinds)" and rate_kinds_length: "length rate_kinds = 39"
  by (code_simp, simp add: rate_kinds_def)

lemma rate_parts_range: "rate_parts k = (n, i, j, w) \<Longrightarrow> n < length rate_kinds"
  by (cases k) (auto simp: rate_kinds_length)

lemma rate_kinds_colon: "n < length rate_kinds \<Longrightarrow> CHR '':'' \<notin> set (fst (rate_kinds ! n))"
proof -
  have "list_all (\<lambda>k. CHR '':'' \<notin> set (fst k)) rate_kinds" by code_simp
  then show "n < length rate_kinds \<Longrightarrow> CHR '':'' \<notin> set (fst (rate_kinds ! n))" by (simp add: list_all_length)
qed

fun window_tag :: "Window \<Rightarrow> string" where
  "window_tag Minute = ''min''"
| "window_tag Hour = ''hour''"
| "window_tag Day = ''day''"

fun key_rest :: "key_shape \<Rightarrow> id \<Rightarrow> id \<Rightarrow> Window \<Rightarrow> string \<Rightarrow> string list" where
  "key_rest TagOnly i j w date = [i, window_tag w]"
| "key_rest DateOnly i j w date = [i, date]"
| "key_rest Dated i j w date = [i, window_tag w, date]"
| "key_rest HourDated i j w date = (if w = Hour then [i, ''hour'', date] else [i, ''min''])"
| "key_rest TwoIds i j w date = [i, j, window_tag w, date]"

lemmas plan_defs = invite_create_plan_def kp_claim_plan_def oprf_blind_plan_def recover_start_plan_def
  session_create_plan_def data_export_plan_def dated_minute_def dated_hour_def plain_minute_def windowed_def
  compute_window_def

text \<open>What the code relies on of \<open>chrono\<close>: a formatted date has digits and dashes only.\<close>

definition date_text :: "(string \<Rightarrow> time \<Rightarrow> string) \<Rightarrow> bool" where
  "date_text fmt \<longleftrightarrow>
     (\<forall>f \<in> {day_format, hour_format, minute_format}. \<forall>t. set (fmt f t) \<subseteq> set ''0123456789-'')"

lemma rate_plan_text:
  assumes "rate_plan fmt config now k = Inr (text, start, reset, limit)" and "rate_parts k = (n, i, j, w)"
    and "date_text fmt"
  shows "(\<exists>date. set date \<subseteq> set ''0123456789-'' \<and>
      text = colons (fst (rate_kinds ! n) # key_rest (snd (rate_kinds ! n)) i j w date)) \<and>
    start = window_start w now \<and> (k = DataExport i \<or> reset = start + window_length w)"
proof -
  have fmt: "set (fmt day_format t) \<subseteq> set ''0123456789-''" "set (fmt hour_format t) \<subseteq> set ''0123456789-''"
      "set (fmt minute_format t) \<subseteq> set ''0123456789-''" for t
    using assms(3) unfolding date_text_def by blast+
  show ?thesis
    using assms(1,2) fmt[of "window_start w now"]
    by (cases k) (auto simp: plan_defs rate_kinds_def Let_def simp del: set_simps colons.simps split: Window.splits)
qed

section \<open>Different keys have different texts\<close>

lemma split_first:
  "c \<notin> set a \<Longrightarrow> c \<notin> set a' \<Longrightarrow> a @ c # b = a' @ c # b' \<longleftrightarrow> a = a' \<and> b = b'"
proof (induction a arbitrary: a')
  case Nil
  then show ?case by (cases a') auto
next
  case (Cons x a)
  then show ?case by (cases a') auto
qed

lemma split_last:
  assumes "c \<notin> set b" and "c \<notin> set b'"
  shows "a @ c # b = a' @ c # b' \<longleftrightarrow> a = a' \<and> b = b'"
proof -
  have "a @ c # b = a' @ c # b' \<longleftrightarrow> rev b @ c # rev a = rev b' @ c # rev a'"
    by (metis append.assoc append_Cons append_Nil rev.simps(2) rev_append rev_rev_ident)
  also have "\<dots> \<longleftrightarrow> rev b = rev b' \<and> rev a = rev a'" using assms by (intro split_first) simp_all
  finally show ?thesis by auto
qed

lemma colons_Cons: "ss \<noteq> [] \<Longrightarrow> colons (s # ss) = s @ CHR '':'' # colons ss"
  by (cases ss) simp_all

lemma colons_snoc: "ss \<noteq> [] \<Longrightarrow> colons (ss @ [s]) = colons ss @ CHR '':'' # s"
  by (induction ss rule: colons.induct) simp_all

lemma colons_first:
  "CHR '':'' \<notin> set a \<Longrightarrow> CHR '':'' \<notin> set a' \<Longrightarrow> ss \<noteq> [] \<Longrightarrow> ss' \<noteq> [] \<Longrightarrow>
     colons (a # ss) = colons (a' # ss') \<longleftrightarrow> a = a' \<and> colons ss = colons ss'"
  by (simp add: colons_Cons split_first)

lemma colons_last:
  "CHR '':'' \<notin> set b \<Longrightarrow> CHR '':'' \<notin> set b' \<Longrightarrow> ss \<noteq> [] \<Longrightarrow> ss' \<noteq> [] \<Longrightarrow>
     colons (ss @ [b]) = colons (ss' @ [b']) \<longleftrightarrow> colons ss = colons ss' \<and> b = b'"
  by (simp add: colons_snoc split_last)

lemma colons_last2: "CHR '':'' \<notin> set b \<Longrightarrow> CHR '':'' \<notin> set b' \<Longrightarrow>
     colons [i, b] = colons [i', b'] \<longleftrightarrow> i = i' \<and> b = b'"
  and colons_last3: "CHR '':'' \<notin> set b \<Longrightarrow> CHR '':'' \<notin> set b' \<Longrightarrow>
     colons [i, j, b] = colons [i', j', b'] \<longleftrightarrow> colons [i, j] = colons [i', j'] \<and> b = b'"
  and colons_last23: "CHR '':'' \<notin> set b \<Longrightarrow> CHR '':'' \<notin> set b' \<Longrightarrow>
     colons [i, b] = colons [i', j', b'] \<longleftrightarrow> i = colons [i', j'] \<and> b = b'"
  using colons_last[of b b' "[i]" "[i']"] colons_last[of b b' "[i, j]" "[i', j']"]
    colons_last[of b b' "[i]" "[i', j']"]
  by (simp_all only: append_Cons append_Nil colons.simps(2) list.distinct not_False_eq_True simp_thms)

lemma window_tag_colon: "CHR '':'' \<notin> set (window_tag w)"
  by (cases w) simp_all

lemma window_tag_inj: "window_tag w = window_tag w' \<longleftrightarrow> w = w'"
  by (cases w; cases w') simp_all

lemma date_colon: "set d \<subseteq> set ''0123456789-'' \<Longrightarrow> CHR '':'' \<notin> set d"
  and date_min: "set d \<subseteq> set ''0123456789-'' \<Longrightarrow> d \<noteq> ''min''"
  by auto

lemma key_rest_inj:
  assumes "colons (key_rest s i j w d) = colons (key_rest s i' j' w' d')"
    and "set d \<subseteq> set ''0123456789-''" and "set d' \<subseteq> set ''0123456789-''"
    and "s = TwoIds \<Longrightarrow> CHR '':'' \<notin> set i \<and> CHR '':'' \<notin> set i'" and "s \<noteq> TwoIds \<Longrightarrow> j = j'"
    and "s \<in> {DateOnly, TwoIds} \<Longrightarrow> w = w'" and "s = HourDated \<Longrightarrow> w \<noteq> Day \<and> w' \<noteq> Day"
  shows "i = i' \<and> j = j' \<and> w = w'"
proof -
  note date = date_colon[OF assms(2)] date_colon[OF assms(3)] date_min[OF assms(2)] date_min[OF assms(3)]
  have lits: "CHR '':'' \<notin> set ''min''" "CHR '':'' \<notin> set ''hour''" by simp_all
  note split = date(1,2) lits window_tag_colon window_tag_inj colons_last2 colons_last3 colons_last23
  show ?thesis
  proof (cases s)
    case HourDated
    have no: "colons [a, ''min''] \<noteq> colons [b, ''hour'', e]"
      if "CHR '':'' \<notin> set e" "e \<noteq> ''min''" for a b e :: string
      using colons_last23[OF lits(1) that(1), of a b "''hour''"] that(2) by (simp del: colons.simps)
    from HourDated assms(1,7) no[OF date(1,3), of i' i] no[OF date(2,4), of i i'] have "(w = Hour) = (w' = Hour)"
      by (auto simp del: colons.simps split: if_splits)
    then have w: "w = w'" using assms(7)[OF HourDated] by (cases w; cases w') simp_all
    then have "i = i'" using HourDated assms(1) split by (simp del: colons.simps split: if_splits)
    with w assms(5) HourDated show ?thesis by simp
  next
    case TwoIds
    then have "colons (i # [j, window_tag w, d]) = colons (i' # [j', window_tag w', d'])" using assms(1) by simp
    then have "i = i' \<and> colons [j, window_tag w, d] = colons [j', window_tag w', d']"
      using assms(4)[OF TwoIds] colons_first[of i i' "[j, window_tag w, d]" "[j', window_tag w', d']"] by blast
    with TwoIds assms(6) split show ?thesis by (simp del: colons.simps)
  qed (use assms(1,5,6) split in \<open>simp_all del: colons.simps\<close>)
qed

text \<open>
  What a key must satisfy for its text to be unambiguous: where a key has two ids, the first
  has no colon (ids are ULIDs).  A single id may have some, as an IPv6 address does.
\<close>

definition simple_ids :: "rate_limit_key \<Rightarrow> bool" where
  "simple_ids k = (case rate_parts k of (n, i, j, w) \<Rightarrow> snd (rate_kinds ! n) = TwoIds \<longrightarrow> CHR '':'' \<notin> set i)"

lemma rate_parts_other:
  assumes "rate_parts k = (n, i, j, w)" and "rate_parts k' = (n, i', j', w')"
    and "\<not> isl (rate_plan fmt config now k)" and "\<not> isl (rate_plan fmt config' now' k')"
  shows "(snd (rate_kinds ! n) \<noteq> TwoIds \<longrightarrow> j = j') \<and>
    (snd (rate_kinds ! n) \<in> {DateOnly, TwoIds} \<longrightarrow> w = w') \<and>
    (snd (rate_kinds ! n) = HourDated \<longrightarrow> w \<noteq> Day \<and> w' \<noteq> Day)"
proof -
  have one: "(snd (rate_kinds ! m) \<noteq> TwoIds \<longrightarrow> b = []) \<and>
      (snd (rate_kinds ! m) = DateOnly \<longrightarrow> v = Hour) \<and> (snd (rate_kinds ! m) = TwoIds \<longrightarrow> v = Minute) \<and>
      (snd (rate_kinds ! m) = HourDated \<longrightarrow> v \<noteq> Day)"
    if "rate_parts l = (m, a, b, v)" "\<not> isl (rate_plan fmt cfg t l)" for l m a b v cfg t
    using that by (cases l) (auto simp: rate_kinds_def recover_start_plan_def split: Window.splits)
  show ?thesis using one[OF assms(1,3)] one[OF assms(2,4)] by auto
qed

text \<open>
  C14. Two requests are counted under the same text only when they name the same key: no two
  kinds of request, no two users, bots, rooms or addresses share a counter.
\<close>

theorem rate_keys_apart:
  assumes "rate_plan fmt config now k = Inr (text, start, reset, limit)"
    and "rate_plan fmt config now' k' = Inr (text, start', reset', limit')"
    and "date_text fmt" and "simple_ids k" and "simple_ids k'"
  shows "k = k'"
proof -
  obtain n i j w where p: "rate_parts k = (n, i, j, w)" by (cases "rate_parts k")
  obtain n' i' j' w' where p': "rate_parts k' = (n', i', j', w')" by (cases "rate_parts k'")
  from rate_plan_text[OF assms(1) p assms(3)] obtain d where d: "set d \<subseteq> set ''0123456789-''"
      "text = colons (fst (rate_kinds ! n) # key_rest (snd (rate_kinds ! n)) i j w d)" by blast
  from rate_plan_text[OF assms(2) p' assms(3)] obtain d' where d': "set d' \<subseteq> set ''0123456789-''"
      "text = colons (fst (rate_kinds ! n') # key_rest (snd (rate_kinds ! n')) i' j' w' d')" by blast
  note range = rate_parts_range[OF p] rate_parts_range[OF p']
  have rest: "key_rest s a b v e \<noteq> []" for s a b v e by (cases s) simp_all
  have eq: "fst (rate_kinds ! n) = fst (rate_kinds ! n')"
      "colons (key_rest (snd (rate_kinds ! n)) i j w d) = colons (key_rest (snd (rate_kinds ! n')) i' j' w' d')"
    using colons_first[OF rate_kinds_colon[OF range(1)] rate_kinds_colon[OF range(2)] rest rest,
        of "snd (rate_kinds ! n)" i j w d "snd (rate_kinds ! n')" i' j' w' d'] d(2) d'(2) by simp_all
  from eq(1) range have n: "n = n'"
    using rate_kinds_distinct by (metis distinct_conv_nth length_map nth_map)
  have "\<not> isl (rate_plan fmt config now k)" "\<not> isl (rate_plan fmt config now' k')" using assms(1,2) by simp_all
  from rate_parts_other[OF p p'[folded n] this] key_rest_inj[OF eq(2)[folded n] d(1) d'(1)] assms(4,5) p p' n
  have "i = i' \<and> j = j' \<and> w = w'" by (auto simp: simple_ids_def)
  with key_of_parts[OF p] key_of_parts[OF p'] n show ?thesis by simp
qed

section \<open>Requests and cleanups over time\<close>

datatype rate_op = CheckOp rate_limit_key time | CleanupOp time

fun op_time :: "rate_op \<Rightarrow> time" where
  "op_time (CheckOp k t) = t"
| "op_time (CleanupOp t) = t"

text \<open>The decisions of a sequence of requests, each with its key and time.\<close>

fun rate_run ::
  "(string \<Rightarrow> time \<Rightarrow> string) \<Rightarrow> RateLimitConfig \<Rightarrow> rate_op list \<Rightarrow> db \<Rightarrow>
   (rate_limit_key \<times> time \<times> rate_limit_decision) list"
where
  "rate_run fmt config [] db = []"
| "rate_run fmt config (CheckOp k t # ops) db =
     (case rate_check fmt config k t db of
        Inl e \<Rightarrow> rate_run fmt config ops db
      | Inr (d, db') \<Rightarrow> (k, t, d) # rate_run fmt config ops db')"
| "rate_run fmt config (CleanupOp t # ops) db = rate_run fmt config ops (cleanup_rate_limits t db)"

definition counted_under ::
  "(string \<Rightarrow> time \<Rightarrow> string) \<Rightarrow> RateLimitConfig \<Rightarrow> string \<Rightarrow> time \<Rightarrow> rate_limit_key \<Rightarrow> time \<Rightarrow> bool"
where
  "counted_under fmt config text start k t \<longleftrightarrow>
     (case rate_plan fmt config t k of Inl e \<Rightarrow> False | Inr (x, s, r, l) \<Rightarrow> x = text \<and> s = start)"

lemma hits_bump:
  "fst (bump text start db) = hits db text start + 1"
  "hits (snd (bump text start db)) x s = hits db x s + (if x = text \<and> s = start then 1 else 0)"
proof -
  let ?p = "\<lambda>x s r. rt_key r = x \<and> rt_window_start r = s" and ?inc = "\<lambda>r. r\<lparr>rt_count := rt_count r + 1\<rparr>"
  show "fst (bump text start db) = hits db text start + 1"
    by (simp add: bump_def hits_def split: option.split)
  have upd: "List.find (?p x s) (update_where (?p text start) ?inc (rate_limits db)) =
      map_option (\<lambda>r. if ?p text start r then ?inc r else r) (List.find (?p x s) (rate_limits db))"
    by (rule find_update_where) simp
  show "hits (snd (bump text start db)) x s = hits db x s + (if x = text \<and> s = start then 1 else 0)"
  proof (cases "List.find (?p text start) (rate_limits db)")
    case None
    then show ?thesis by (auto simp: bump_def hits_def find_append split: option.splits)
  next
    case (Some r)
    have "hits (snd (bump text start db)) x s =
        (case map_option (\<lambda>r. if ?p text start r then ?inc r else r) (List.find (?p x s) (rate_limits db)) of
           None \<Rightarrow> 0 | Some r \<Rightarrow> rt_count r)"
      using upd by (simp add: Some bump_def hits_def)
    also have "\<dots> = hits db x s + (if x = text \<and> s = start then 1 else 0)"
      using Some by (cases "List.find (?p x s) (rate_limits db)")
        (auto simp: hits_def dest: find_SomeD)
    finally show ?thesis .
  qed
qed

lemma rate_check_hits:
  assumes "rate_check fmt config k t db = Inr (d, db')" and "rate_plan fmt config t k = Inr (text, start, reset, limit)"
  shows "(rd_allowed d \<longleftrightarrow> hits db text start < uint limit) \<and> rd_reset_at d = reset \<and>
    rd_remaining d = (if hits db text start < uint limit
      then saturating_sub limit (word_of_int (hits db text start + 1)) else 0) \<and>
    (\<forall>x s. hits db' x s = hits db x s + (if x = text \<and> s = start then 1 else 0))"
proof -
  obtain c db1 where b: "bump text start db = (c, db1)" by (cases "bump text start db")
  from hits_bump[of "text" start db]
  have h: "c = hits db text start + 1"
      "\<And>x s. hits db1 x s = hits db x s + (if x = text \<and> s = start then 1 else 0)"
    by (simp_all add: b)
  from assms b have "db' = db1" and d: "d = \<lparr>rd_allowed = (c \<le> uint limit),
       rd_remaining = (if c \<le> uint limit then saturating_sub limit (word_of_int c) else 0), rd_reset_at = reset\<rparr>"
    by (simp_all add: rate_check_def Let_def)
  with h show ?thesis by (simp add: add1_zle_eq)
qed

lemma window_start_close:
  "window_start w t \<le> t \<and> t < window_start w t + window_length Day"
proof -
  have "0 \<le> t mod window_length w \<and> t mod window_length w < window_length w" by (cases w) simp_all
  moreover have "window_length w \<le> window_length Day" by (cases w) simp_all
  ultimately show ?thesis unfolding window_start_def by linarith
qed

lemma cleanup_hits:
  assumes "start \<le> t'" and "t' < start + window_length Day" and "t \<le> t'"
  shows "hits (cleanup_rate_limits t db) text start = hits db text start"
proof -
  have "(t - window_length Day) div window_length Day \<le> start div window_length Day"
    using assms by (intro zdiv_mono1) simp_all
  then have "List.find (\<lambda>r. rt_key r = text \<and> rt_window_start r = start)
      (delete_where (\<lambda>r. rt_window_start r div window_length Day < (t - window_length Day) div window_length Day)
        (rate_limits db)) = List.find (\<lambda>r. rt_key r = text \<and> rt_window_start r = start) (rate_limits db)"
    by (intro find_delete_where_frame) (auto simp del: window_length.simps)
  then show ?thesis by (simp add: hits_def cleanup_rate_limits_def del: window_length.simps)
qed

lemma rate_plan_limit:
  assumes "rate_plan fmt config t k = Inr (x, s, r, l)" and "rate_plan fmt config t' k = Inr (x', s', r', l')"
  shows "l = l'"
  using assms by (cases k) (auto simp: plan_defs Let_def split: Window.splits)

lemma saturating_sub_nat:
  "unat (if int n < int (unat limit) then saturating_sub limit (word_of_int (int n + 1)) else 0) = unat limit - Suc n"
  for limit :: "32 word"
proof (cases "n < unat limit")
  case True
  have w: "word_of_int (int n + 1) = (word_of_nat (Suc n) :: 32 word)" by (simp add: add.commute)
  have "Suc n < 2 ^ 32" using True unsigned_less[of limit, where ?'a = nat] by simp
  then have u: "unat (word_of_nat (Suc n) :: 32 word) = Suc n" by (simp only: unsigned_of_nat) (simp add: take_bit_nat_eq_self)
  have "limit \<le> word_of_nat (Suc n) \<longleftrightarrow> unat limit = Suc n"
    unfolding word_le_nat_alt u using True by linarith
  moreover have c: "int n < int (unat limit)" using True by (simp only: of_nat_less_iff)
  ultimately show ?thesis using True u unfolding w if_P[OF c]
    by (auto simp: saturating_sub_def unat_sub word_le_nat_alt)
next
  case False
  then show ?thesis by (simp only: of_nat_less_iff if_False) simp
qed

text \<open>
  C13. For requests and cleanups in the order of time, the requests counted in one window are
  allowed exactly up to the limit of their key: the first \<open>limit\<close> of them and no other,
  whatever other requests and cleanups come between.
\<close>

theorem rate_limit_exact:
  assumes "rate_plan fmt config now key = Inr (text, start, reset, limit)" and "simple_ids key"
    and "date_text fmt" and "\<And>k t. CheckOp k t \<in> set ops \<Longrightarrow> simple_ids k"
    and "sorted (map op_time ops)" and "hits db text start = 0"
  defines "ds \<equiv> filter (\<lambda>(k, t, d). counted_under fmt config text start k t) (rate_run fmt config ops db)"
  shows "\<forall>i < length ds. fst (ds ! i) = key \<and>
    (rd_allowed (snd (snd (ds ! i))) \<longleftrightarrow> i < unat limit) \<and>
    unat (rd_remaining (snd (snd (ds ! i)))) = unat limit - Suc i"
proof -
  have general: "\<forall>i < length xs. fst (xs ! i) = key \<and>
      (rd_allowed (snd (snd (xs ! i))) \<longleftrightarrow> n + i < unat limit) \<and>
      unat (rd_remaining (snd (snd (xs ! i)))) = unat limit - Suc (n + i)"
    if "hits db text start = int n" "sorted (map op_time ops)" "\<And>k t. CheckOp k t \<in> set ops \<Longrightarrow> simple_ids k"
      "xs = filter (\<lambda>(k, t, d). counted_under fmt config text start k t) (rate_run fmt config ops db)"
    for xs n ops and db :: db
    using that
  proof (induction ops arbitrary: db n xs)
    case (Cons op ops)
    note sorted = Cons.prems(2) and simple = Cons.prems(3)
    have rest: "sorted (map op_time ops)" "\<And>k t. CheckOp k t \<in> set ops \<Longrightarrow> simple_ids k"
      using sorted simple by auto
    show ?case
    proof (cases op)
      case (CleanupOp t)
      show ?thesis
      proof (cases "\<exists>k' t'. CheckOp k' t' \<in> set ops \<and> counted_under fmt config text start k' t'")
        case True
        then obtain k' t' where k': "CheckOp k' t' \<in> set ops" "counted_under fmt config text start k' t'" by blast
        from k'(2) obtain r l where plan: "rate_plan fmt config t' k' = Inr (text, start, r, l)"
          by (auto simp: counted_under_def split: sum.splits)
        obtain n' i j w where p: "rate_parts k' = (n', i, j, w)" by (cases "rate_parts k'")
        have "start = window_start w t'" using rate_plan_text[OF plan p assms(3)] by simp
        moreover have "t \<le> t'" using sorted k'(1) CleanupOp by force
        ultimately have "hits (cleanup_rate_limits t db) text start = int n"
          using cleanup_hits[of start t' t db "text"] window_start_close[of w t'] Cons.prems(1) by simp
        from Cons.IH[OF this rest refl] Cons.prems(4) CleanupOp show ?thesis by simp
      next
        case False
        have none: "(k, t, d) \<in> set (rate_run fmt config ops db) \<Longrightarrow> CheckOp k t \<in> set ops" for k t d and db :: db
          by (induction fmt config ops db rule: rate_run.induct) (auto split: sum.splits)
        have "xs = []" using False none Cons.prems(4) CleanupOp by (fastforce simp: filter_empty_conv)
        then show ?thesis by simp
      qed
    next
      case (CheckOp k t)
      show ?thesis
      proof (cases "rate_check fmt config k t db")
        case (Inl e)
        from Cons.IH[OF Cons.prems(1) rest refl] Cons.prems(4) CheckOp Inl show ?thesis by simp
      next
        case (Inr ddb)
        obtain d db' where d: "rate_check fmt config k t db = Inr (d, db')" using Inr by (cases ddb) simp
        then obtain x s r l where plan: "rate_plan fmt config t k = Inr (x, s, r, l)"
          by (auto simp: rate_check_def split: sum.splits)
        note check = rate_check_hits[OF d plan]
        show ?thesis
        proof (cases "x = text \<and> s = start")
          case True
          have "simple_ids k" by (rule simple[of k t]) (simp add: CheckOp)
          then have "k = key"
            using rate_keys_apart[OF plan[unfolded conjunct1[OF True]] assms(1,3)] assms(2) by simp
          then have l: "l = limit" using rate_plan_limit[OF plan] assms(1) by simp
          have hits: "hits db' text start = int (Suc n)" using check True Cons.prems(1) by simp
          obtain ys where ys: "ys = filter (\<lambda>(k, t, d). counted_under fmt config text start k t) (rate_run fmt config ops db')"
            by simp
          then have xs: "xs = (key, t, d) # ys" using Cons.prems(4) CheckOp d plan True \<open>k = key\<close>
            by (simp add: counted_under_def)
          have first: "(rd_allowed d \<longleftrightarrow> n < unat limit) \<and> unat (rd_remaining d) = unat limit - Suc n"
          proof -
            have u: "uint limit = int (unat limit)" by simp
            have "rd_allowed d \<longleftrightarrow> int n < int (unat limit)" "rd_remaining d =
                (if int n < int (unat limit) then saturating_sub limit (word_of_int (int n + 1)) else 0)"
              using check True unfolding l Cons.prems(1)[symmetric] u[symmetric] by blast+
            then show ?thesis using saturating_sub_nat[of n limit] by (simp only: of_nat_less_iff)
          qed
          note IH = Cons.IH[OF hits rest ys]
          show ?thesis
          proof (intro allI impI)
            fix i
            assume "i < length xs"
            then show "fst (xs ! i) = key \<and> (rd_allowed (snd (snd (xs ! i))) \<longleftrightarrow> n + i < unat limit) \<and>
                unat (rd_remaining (snd (snd (xs ! i)))) = unat limit - Suc (n + i)"
              using first IH by (cases i) (simp_all add: xs)
          qed
        next
          case False
          then have "hits db' text start = int n" using check Cons.prems(1) by auto
          from Cons.IH[OF this rest refl] Cons.prems(4) CheckOp d False plan show ?thesis
            by (simp add: counted_under_def)
        qed
      qed
    qed
  qed simp
  have "hits db text start = int 0" using assms(6) by simp
  from general[OF this assms(5,4) refl] show ?thesis by (simp add: ds_def)
qed

section \<open>An example\<close>

definition example_config :: RateLimitConfig where
  "example_config = RateLimitConfig.make 2 2 2 2 2 2 2 24 2 2 2 2 2 2 2 2 2 2 2 2 2 2 2 2 2 2 2 2 2 2 2 2 2 2 2 2 2 2 2 2 2 2 2 2"

definition example_fmt :: "string \<Rightarrow> time \<Rightarrow> string" where
  "example_fmt f t = ''2026-01-01-00''"

lemma example_fmt: "date_text example_fmt"
  by (simp add: date_text_def example_fmt_def)

theorem rate_keys_apart_witness:
  "\<exists>p p'. rate_plan example_fmt example_config 0 (BotMessage ''b'') = Inr (''bot_message:b:min:2026-01-01-00'', p) \<and>
     rate_plan example_fmt example_config 5 (BotMessage ''b'') = Inr (''bot_message:b:min:2026-01-01-00'', p') \<and>
     BotMessage ''b'' = BotMessage ''b''"
proof -
  obtain a b c where p: "rate_plan example_fmt example_config 0 (BotMessage ''b'') =
      Inr (''bot_message:b:min:2026-01-01-00'', a, b, c)"
    by (simp add: plan_defs Let_def example_fmt_def)
  obtain a' b' c' where p': "rate_plan example_fmt example_config 5 (BotMessage ''b'') =
      Inr (''bot_message:b:min:2026-01-01-00'', a', b', c')"
    by (simp add: plan_defs Let_def example_fmt_def)
  have "simple_ids (BotMessage ''b'')" by (simp add: simple_ids_def rate_kinds_def)
  from rate_keys_apart[OF p p' example_fmt this this] p p' show ?thesis by blast
qed

definition example_ops :: "rate_op list" where
  "example_ops = [CheckOp (Login ''::1'') 1, CheckOp (BotMessage ''b'') 2, CheckOp (Login ''::1'') 3,
     CleanupOp 4, CheckOp (Login ''::1'') 5]"

abbreviation example_decisions :: "rate_limit_decision list" where
  "example_decisions \<equiv> map (\<lambda>x. snd (snd x))
     (filter (\<lambda>(k, t, d). counted_under example_fmt example_config ''login:::1:min'' 0 k t)
       (rate_run example_fmt example_config example_ops empty_db))"

theorem rate_limit_exact_witness:
  "map rd_allowed example_decisions = map (\<lambda>i. i < 2) [0..<length example_decisions]"
proof -
  have plan: "rate_plan example_fmt example_config 1 (Login ''::1'') = Inr (''login:::1:min'', 0, 60 * nanos_per_sec, 2)"
    by (simp add: plan_defs Let_def example_config_def RateLimitConfig.make_def window_start_def)
  have keys: "CheckOp k t \<in> set example_ops \<Longrightarrow> simple_ids k" for k t
    by (auto simp: example_ops_def simple_ids_def rate_kinds_def)
  have "simple_ids (Login ''::1'')" by (simp add: simple_ids_def rate_kinds_def)
  from rate_limit_exact[where ops = example_ops and db = empty_db, OF plan this example_fmt keys]
  have "\<forall>i < length example_decisions. rd_allowed (example_decisions ! i) \<longleftrightarrow> i < 2"
    by (simp add: example_ops_def hits_def empty_db_def)
  then show ?thesis by (auto intro: nth_equalityI)
qed

end
