(* ===== verification/Invites.thy ===== *)
theory Invites
  imports RoomInvariant Roles RateLimit
begin

text \<open>
  Invites to the server (\<open>server/src/invites.rs\<close>, \<open>routes/invites.rs\<close>) and to a room
  (\<open>server/src/room_invites.rs\<close>, \<open>join\<close> of \<open>routes/room_invites.rs\<close>).  The codes that the
  random generator draws are arguments, one per attempt.  \<open>ServerInvite\<close> and \<open>RoomInvite\<close> have
  the columns of their tables and are modelled by the rows.
\<close>

section \<open>Server invites\<close>

record create_invite_options =
  co_max_uses :: "int option"
  co_expires_in_days :: "int option"

text \<open>The fields of \<open>Config\<close> that invites read.\<close>

record invite_config =
  invite_default_uses :: int
  invite_expiry_days :: int
  invite_limited_max_uses :: int
  invite_limited_max_open :: int
  room_invite_default_uses :: int

datatype invite_error =
    InviteDatabase
  | InviteNotFound
  | InviteRevoked
  | InviteExpired
  | InviteExhausted
  | CodeGenerationFailed

definition days_from :: "time \<Rightarrow> int \<Rightarrow> time" where
  "days_from now n = now + n * 86400 * nanos_per_sec"

definition invite_uses :: "invite_config \<Rightarrow> int option \<Rightarrow> int" where
  "invite_uses config uses =
     (case uses of Some n \<Rightarrow> if 0 \<le> n then n else invite_default_uses config
      | None \<Rightarrow> invite_default_uses config)"

definition invite_expiry :: "invite_config \<Rightarrow> int option \<Rightarrow> time \<Rightarrow> time option" where
  "invite_expiry config days now =
     (let default = (if 0 < invite_expiry_days config then Some (days_from now (invite_expiry_days config)) else None)
      in (case days of
            Some n \<Rightarrow> if n = 0 then None else if 0 < n then Some (days_from now n) else default
          | None \<Rightarrow> default))"

text \<open>
  The loop over at most five codes: a taken id or code is a unique violation, which goes on
  with the next code; a creator that does not exist violates the foreign key.
\<close>

fun insert_invite :: "server_invite_row \<Rightarrow> string list \<Rightarrow> db \<Rightarrow> invite_error + (server_invite_row \<times> db)" where
  "insert_invite row [] db = Inl CodeGenerationFailed"
| "insert_invite row (code # codes) db =
     (if exists_where (\<lambda>i. si_id i = si_id row \<or> si_code i = code) (server_invites db)
      then insert_invite row codes db
      else if \<forall>u \<in> set_option (si_created_by row). user_exists db u
      then Inr (row\<lparr>si_code := code\<rparr>, db\<lparr>server_invites := server_invites db @ [row\<lparr>si_code := code\<rparr>]\<rparr>)
      else Inl InviteDatabase)"

definition new_invite :: "id \<Rightarrow> id \<Rightarrow> create_invite_options \<Rightarrow> invite_config \<Rightarrow> time \<Rightarrow> server_invite_row" where
  "new_invite invite_id created_by opts config now =
     \<lparr>si_id = invite_id, si_code = [], si_created_by = Some created_by,
      si_max_uses = invite_uses config (co_max_uses opts), si_current_uses = 0,
      si_expires_at = invite_expiry config (co_expires_in_days opts) now, si_revoked_at = None,
      si_created_at = now\<rparr>"

definition create_invite ::
  "(nat \<Rightarrow> string) \<Rightarrow> id \<Rightarrow> id \<Rightarrow> create_invite_options \<Rightarrow> invite_config \<Rightarrow> time \<Rightarrow> db \<Rightarrow>
   invite_error + (server_invite_row \<times> db)"
where
  "create_invite codes invite_id created_by opts config now db =
     insert_invite (new_invite invite_id created_by opts config now) (map codes [0..<5]) db"

definition list_invites :: "db \<Rightarrow> bool \<Rightarrow> server_invite_row list" where
  "list_invites db include_revoked =
     sort_key (\<lambda>i. - si_created_at i)
       (if include_revoked then server_invites db
        else filter (\<lambda>i. si_revoked_at i = None) (server_invites db))"

definition get_invite_by_id :: "db \<Rightarrow> id \<Rightarrow> server_invite_row option" where
  "get_invite_by_id db invite_id = List.find (\<lambda>i. si_id i = invite_id) (server_invites db)"

definition revoke_invite :: "id \<Rightarrow> time \<Rightarrow> db \<Rightarrow> bool \<times> db" where
  "revoke_invite invite_id now db =
     (let p = (\<lambda>i. si_id i = invite_id \<and> si_revoked_at i = None)
      in (0 < count_where p (server_invites db),
          db\<lparr>server_invites := update_where p
               (\<lambda>i. i\<lparr>si_revoked_at := Some (current_timestamp now)\<rparr>) (server_invites db)\<rparr>))"

text \<open>
  \<open>validate_and_consume_invite\<close> reads the row and its conditions, then writes with the
  condition that the count is still the one it read.
\<close>

definition check_invite :: "string \<Rightarrow> time \<Rightarrow> db \<Rightarrow> invite_error + server_invite_row" where
  "check_invite code now db =
     (case List.find (\<lambda>i. si_code i = code) (server_invites db) of
        None \<Rightarrow> Inl InviteNotFound
      | Some i \<Rightarrow>
          if si_revoked_at i \<noteq> None then Inl InviteRevoked
          else if (case si_expires_at i of None \<Rightarrow> False | Some e \<Rightarrow> e < now) then Inl InviteExpired
          else if 0 < si_max_uses i \<and> si_max_uses i \<le> si_current_uses i then Inl InviteExhausted
          else Inr i)"

definition consume_checked :: "server_invite_row \<Rightarrow> db \<Rightarrow> invite_error + (server_invite_row \<times> db)" where
  "consume_checked invite db =
     (let p = (\<lambda>i. si_id i = si_id invite \<and> si_current_uses i = si_current_uses invite);
          uses = si_current_uses invite + 1
      in if count_where p (server_invites db) = 0 then Inl InviteExhausted
         else Inr (invite\<lparr>si_current_uses := uses\<rparr>,
           db\<lparr>server_invites := update_where p (\<lambda>i. i\<lparr>si_current_uses := uses\<rparr>) (server_invites db)\<rparr>))"

definition validate_and_consume_invite ::
  "string \<Rightarrow> time \<Rightarrow> db \<Rightarrow> invite_error + (server_invite_row \<times> db)"
where
  "validate_and_consume_invite code now db =
     (case check_invite code now db of Inl e \<Rightarrow> Inl e | Inr i \<Rightarrow> consume_checked i db)"

section \<open>The routes of server invites\<close>

datatype invite_api_error =
    InviteRateError rate_limit_error
  | InviteTooManyRequests time
  | InviteForbidden
  | InviteLimitReached
  | InvalidMaxUses
  | InvalidExpiresInDays
  | InviteFailed invite_error
  | InviteUnknown
  | InviteAlreadyRevoked

text \<open>A role that does not decode is skipped here.  Encoding and decoding the list again gives it back.\<close>

definition get_user_permissions :: "perm_decoder \<Rightarrow> db \<Rightarrow> id \<Rightarrow> permissions" where
  "get_user_permissions parse db user_id =
     concat (map (\<lambda>r. case parse (rl_permissions r) of Inl _ \<Rightarrow> [] | Inr ps \<Rightarrow> ps) (user_role_rows db user_id))"

abbreviation has_unlimited :: "permissions \<Rightarrow> bool" where "has_unlimited ps \<equiv> has ps ''invite.unlimited''"
abbreviation has_limited :: "permissions \<Rightarrow> bool" where "has_limited ps \<equiv> has ps ''invite.limited''"

text \<open>
  The open invites of a user.  \<open>expires_at\<close> was written with a \<open>T\<close> between date and time and is
  compared as text with \<open>CURRENT_TIMESTAMP\<close>, which has a blank: on the day of its expiry an
  invite still counts.
\<close>

definition open_invite :: "id \<Rightarrow> time \<Rightarrow> server_invite_row \<Rightarrow> bool" where
  "open_invite user_id now i \<longleftrightarrow>
     si_created_by i = Some user_id \<and> si_revoked_at i = None \<and>
     (case si_expires_at i of None \<Rightarrow> True | Some e \<Rightarrow> now div window_length Day \<le> e div window_length Day) \<and>
     (si_max_uses i = 0 \<or> si_current_uses i < si_max_uses i)"

definition check_limited_inviter ::
  "invite_config \<Rightarrow> permissions \<Rightarrow> id \<Rightarrow> create_invite_options \<Rightarrow> time \<Rightarrow> db \<Rightarrow> invite_api_error option"
where
  "check_limited_inviter config ps user_id body now db =
     (if \<not> has_unlimited ps \<and> has_limited ps then
        let requested = (case co_max_uses body of None \<Rightarrow> invite_default_uses config | Some n \<Rightarrow> n)
        in if requested = 0 \<or> invite_limited_max_uses config < requested then Some InviteForbidden
           else if invite_limited_max_open config \<le> count_where (open_invite user_id now) (server_invites db)
           then Some InviteLimitReached
           else None
      else None)"

definition check_create_invite ::
  "invite_config \<Rightarrow> permissions \<Rightarrow> id \<Rightarrow> create_invite_options \<Rightarrow> time \<Rightarrow> db \<Rightarrow> invite_api_error option"
where
  "check_create_invite config ps user_id body now db =
     (if \<not> has_unlimited ps \<and> \<not> has_limited ps then Some InviteForbidden
      else if (case co_max_uses body of None \<Rightarrow> False | Some n \<Rightarrow> n < 0 \<or> 10000 < n) then Some InvalidMaxUses
      else if (case co_expires_in_days body of None \<Rightarrow> False | Some n \<Rightarrow> n < 0 \<or> 365 < n) then Some InvalidExpiresInDays
      else check_limited_inviter config ps user_id body now db)"

text \<open>A request passes a limit, or is refused with the database in which it was counted.\<close>

definition pass_limit ::
  "(string \<Rightarrow> time \<Rightarrow> string) \<Rightarrow> RateLimitConfig \<Rightarrow> rate_limit_key \<Rightarrow> time \<Rightarrow> db \<Rightarrow> invite_api_error option \<times> db"
where
  "pass_limit fmt limits key now db =
     (case rate_check fmt limits key now db of
        Inl e \<Rightarrow> (Some (InviteRateError e), db)
      | Inr (d, db') \<Rightarrow> (if rd_allowed d then None else Some (InviteTooManyRequests (rd_reset_at d)), db'))"

definition create_invite_handler ::
  "(string \<Rightarrow> time \<Rightarrow> string) \<Rightarrow> RateLimitConfig \<Rightarrow> invite_config \<Rightarrow> perm_decoder \<Rightarrow> id \<Rightarrow> create_invite_options \<Rightarrow>
   (nat \<Rightarrow> string) \<Rightarrow> id \<Rightarrow> id \<Rightarrow> time \<Rightarrow> db \<Rightarrow> (invite_api_error + server_invite_row) \<times> db"
where
  "create_invite_handler fmt limits config parse user_id body codes invite_id audit_id now db =
     (case pass_limit fmt limits (InviteCreate user_id Hour) now db of
        (Some e, db1) \<Rightarrow> (Inl e, db1)
      | (None, db1) \<Rightarrow>
          (case pass_limit fmt limits (InviteCreate user_id Day) now db1 of
             (Some e, db2) \<Rightarrow> (Inl e, db2)
           | (None, db2) \<Rightarrow>
               (case check_create_invite config (get_user_permissions parse db2 user_id) user_id body now db2 of
                  Some e \<Rightarrow> (Inl e, db2)
                | None \<Rightarrow>
                    (case create_invite codes invite_id user_id body config now db2 of
                       Inl e \<Rightarrow> (Inl (InviteFailed e), db2)
                     | Inr (i, db3) \<Rightarrow>
                         (Inr i, audit (Some user_id) ''invite.create'' (Some ''invite'') (Some (si_id i)) None
                            audit_id now db3)))))"

definition list_invites_handler ::
  "perm_decoder \<Rightarrow> id \<Rightarrow> bool option \<Rightarrow> bool option \<Rightarrow> db \<Rightarrow> invite_api_error + server_invite_row list"
where
  "list_invites_handler parse user_id include_revoked created_by_me db =
     (let ps = get_user_permissions parse db user_id
      in if \<not> has_unlimited ps \<and> \<not> has_limited ps then Inl InviteForbidden
         else Inr (filter (\<lambda>i. (\<not> has_unlimited ps \<or> created_by_me = Some True) \<longrightarrow> si_created_by i = Some user_id)
           (list_invites db (include_revoked = Some True))))"

definition revoke_invite_handler ::
  "perm_decoder \<Rightarrow> id \<Rightarrow> id \<Rightarrow> id \<Rightarrow> time \<Rightarrow> db \<Rightarrow> (invite_api_error + unit) \<times> db"
where
  "revoke_invite_handler parse user_id invite_id audit_id now db =
     (let ps = get_user_permissions parse db user_id
      in if \<not> has_unlimited ps \<and> \<not> has_limited ps then (Inl InviteForbidden, db)
         else
           (case get_invite_by_id db invite_id of
              None \<Rightarrow> (Inl InviteUnknown, db)
            | Some i \<Rightarrow>
                if \<not> has_unlimited ps \<and> si_created_by i \<noteq> Some user_id then (Inl InviteUnknown, db)
                else
                  let (revoked, db') = revoke_invite invite_id now db
                  in if revoked
                     then (Inr (), audit (Some user_id) ''invite.revoke'' (Some ''invite'') (Some invite_id) None
                             audit_id now db')
                     else (Inl InviteAlreadyRevoked, db')))"

record validate_invite_response =
  vr_valid :: bool
  vr_expires_at :: "time option"
  vr_remaining_uses :: "int option"
  vr_reason :: "string option"

definition invite_validity :: "string \<Rightarrow> time \<Rightarrow> db \<Rightarrow> validate_invite_response" where
  "invite_validity code now db =
     (case List.find (\<lambda>i. si_code i = trim code) (server_invites db) of
        None \<Rightarrow> \<lparr>vr_valid = False, vr_expires_at = None, vr_remaining_uses = None, vr_reason = Some ''not_found''\<rparr>
      | Some i \<Rightarrow>
          if si_revoked_at i \<noteq> None
          then \<lparr>vr_valid = False, vr_expires_at = None, vr_remaining_uses = None, vr_reason = Some ''revoked''\<rparr>
          else if (case si_expires_at i of None \<Rightarrow> False | Some e \<Rightarrow> e < now)
          then \<lparr>vr_valid = False, vr_expires_at = si_expires_at i, vr_remaining_uses = None,
                vr_reason = Some ''expired''\<rparr>
          else if 0 < si_max_uses i \<and> si_max_uses i \<le> si_current_uses i
          then \<lparr>vr_valid = False, vr_expires_at = si_expires_at i, vr_remaining_uses = Some 0,
                vr_reason = Some ''exhausted''\<rparr>
          else \<lparr>vr_valid = True, vr_expires_at = si_expires_at i,
                vr_remaining_uses =
                  (if 0 < si_max_uses i then Some (si_max_uses i - si_current_uses i) else None),
                vr_reason = None\<rparr>)"

text \<open>This route and \<open>join\<close> read the forwarded address whatever \<open>trust_proxy\<close> says.\<close>

definition forwarded_ip :: "string option \<Rightarrow> string" where
  "forwarded_ip x_forwarded_for =
     (case x_forwarded_for of
        None \<Rightarrow> ''127.0.0.1'' | Some s \<Rightarrow> trim (takeWhile (\<lambda>c. c \<noteq> CHR '','') s))"

definition validate_invite_public_handler ::
  "(string \<Rightarrow> time \<Rightarrow> string) \<Rightarrow> RateLimitConfig \<Rightarrow> string option \<Rightarrow> string \<Rightarrow> time \<Rightarrow> db \<Rightarrow>
   (invite_api_error + validate_invite_response) \<times> db"
where
  "validate_invite_public_handler fmt limits x_forwarded_for code now db =
     (case pass_limit fmt limits (InviteRedeem (forwarded_ip x_forwarded_for)) now db of
        (Some e, db') \<Rightarrow> (Inl e, db')
      | (None, db') \<Rightarrow> (Inr (invite_validity code now db'), db'))"

text \<open>The invite step of \<open>register_finish_handler\<close>: the first user needs none.\<close>

definition admit_registration :: "string option \<Rightarrow> time \<Rightarrow> db \<Rightarrow> (bool \<times> db) option" where
  "admit_registration invite_code now db =
     (if users db = [] then Some (True, db)
      else
        (case invite_code of
           None \<Rightarrow> None
         | Some raw \<Rightarrow>
             if trim raw = [] then None
             else
               (case validate_and_consume_invite (trim raw) now db of
                  Inl _ \<Rightarrow> None
                | Inr (_, db') \<Rightarrow> Some (False, db'))))"

section \<open>Room invites\<close>

datatype redeem_outcome = InviteJoined id string | InviteAlreadyMember id string

datatype room_invite_error =
    RoomInviteDatabase
  | RoomInviteRoomNotFound
  | RoomInviteNotAMember
  | RoomInviteNotFound
  | RoomInviteRevoked
  | RoomInviteExpired
  | RoomInviteExhausted
  | RoomInviteFull
  | RoomInviteInvalidMaxUses
  | RoomInviteInvalidExpiry
  | RoomInviteCodeGenerationFailed

fun insert_room_invite ::
  "room_invite_row \<Rightarrow> string list \<Rightarrow> db \<Rightarrow> room_invite_error + (room_invite_row \<times> db)"
where
  "insert_room_invite row [] db = Inl RoomInviteCodeGenerationFailed"
| "insert_room_invite row (code # codes) db =
     (if exists_where (\<lambda>i. ri_id i = ri_id row \<or> ri_code i = code) (room_invites db)
      then insert_room_invite row codes db
      else if room_exists db (ri_room_id row) \<and> user_exists db (ri_created_by row)
      then Inr (row\<lparr>ri_code := code\<rparr>, db\<lparr>room_invites := room_invites db @ [row\<lparr>ri_code := code\<rparr>]\<rparr>)
      else Inl RoomInviteDatabase)"

definition room_invite_uses :: "invite_config \<Rightarrow> int option \<Rightarrow> room_invite_error + int" where
  "room_invite_uses config uses =
     (case uses of
        Some n \<Rightarrow> if 0 \<le> n \<and> n \<le> 10000 then Inr n else Inl RoomInviteInvalidMaxUses
      | None \<Rightarrow> Inr (room_invite_default_uses config))"

definition room_invite_expiry :: "int option \<Rightarrow> time \<Rightarrow> room_invite_error + time option" where
  "room_invite_expiry days now =
     (case days of
        None \<Rightarrow> Inr None
      | Some n \<Rightarrow>
          if n = 0 then Inr None
          else if 1 \<le> n \<and> n \<le> 365 then Inr (Some (days_from now n))
          else Inl RoomInviteInvalidExpiry)"

text \<open>The two queries that create, list and revoke begin with.\<close>

definition check_room_member :: "db \<Rightarrow> id \<Rightarrow> id \<Rightarrow> room_invite_error option" where
  "check_room_member db room_id user_id =
     (if \<not> room_exists db room_id then Some RoomInviteRoomNotFound
      else if member_role db room_id user_id = None then Some RoomInviteNotAMember
      else None)"

definition create_room_invite ::
  "(nat \<Rightarrow> string) \<Rightarrow> id \<Rightarrow> id \<Rightarrow> id \<Rightarrow> create_invite_options \<Rightarrow> invite_config \<Rightarrow> time \<Rightarrow> db \<Rightarrow>
   room_invite_error + (room_invite_row \<times> db)"
where
  "create_room_invite codes invite_id room_id requester_id opts config now db =
     (case check_room_member db room_id requester_id of
        Some e \<Rightarrow> Inl e
      | None \<Rightarrow>
          (case room_invite_uses config (co_max_uses opts) of
             Inl e \<Rightarrow> Inl e
           | Inr max_uses \<Rightarrow>
               (case room_invite_expiry (co_expires_in_days opts) now of
                  Inl e \<Rightarrow> Inl e
                | Inr expires_at \<Rightarrow>
                    insert_room_invite
                      \<lparr>ri_id = invite_id, ri_room_id = room_id, ri_code = [], ri_created_by = requester_id,
                       ri_max_uses = max_uses, ri_current_uses = 0, ri_expires_at = expires_at,
                       ri_revoked_at = None, ri_created_at = now\<rparr>
                      (map codes [0..<5]) db)))"

record room_invite_view =
  rv_id :: id
  rv_max_uses :: int
  rv_current_uses :: int
  rv_expires_at :: "time option"
  rv_revoked_at :: "time option"
  rv_created_at :: time
  rv_created_by :: id

definition list_room_invites ::
  "db \<Rightarrow> id \<Rightarrow> id \<Rightarrow> bool \<Rightarrow> room_invite_error + room_invite_view list"
where
  "list_room_invites db room_id requester_id include_revoked =
     (case check_room_member db room_id requester_id of
        Some e \<Rightarrow> Inl e
      | None \<Rightarrow>
          Inr (map (\<lambda>i. \<lparr>rv_id = ri_id i, rv_max_uses = ri_max_uses i, rv_current_uses = ri_current_uses i,
                        rv_expires_at = ri_expires_at i, rv_revoked_at = ri_revoked_at i,
                        rv_created_at = ri_created_at i, rv_created_by = ri_created_by i\<rparr>)
            (sort_key (\<lambda>i. - ri_created_at i)
              (filter (\<lambda>i. ri_room_id i = room_id \<and> (include_revoked \<or> ri_revoked_at i = None))
                (room_invites db)))))"

definition revoke_room_invite :: "id \<Rightarrow> id \<Rightarrow> id \<Rightarrow> time \<Rightarrow> db \<Rightarrow> room_invite_error + db" where
  "revoke_room_invite room_id invite_id requester_id now db =
     (case check_room_member db room_id requester_id of
        Some e \<Rightarrow> Inl e
      | None \<Rightarrow>
          (case List.find (\<lambda>i. ri_room_id i = room_id \<and> ri_id i = invite_id) (room_invites db) of
             None \<Rightarrow> Inl RoomInviteNotFound
           | Some i \<Rightarrow>
               if ri_revoked_at i \<noteq> None then Inl RoomInviteNotFound
               else Inr (db\<lparr>room_invites :=
                 update_where (\<lambda>i. ri_room_id i = room_id \<and> ri_id i = invite_id \<and> ri_revoked_at i = None)
                   (\<lambda>i. i\<lparr>ri_revoked_at := Some (current_timestamp now)\<rparr>) (room_invites db)\<rparr>)))"

definition check_room_invite :: "string \<Rightarrow> time \<Rightarrow> db \<Rightarrow> room_invite_error + room_invite_row" where
  "check_room_invite code now db =
     (case List.find (\<lambda>i. ri_code i = code) (room_invites db) of
        None \<Rightarrow> Inl RoomInviteNotFound
      | Some i \<Rightarrow>
          if ri_revoked_at i \<noteq> None then Inl RoomInviteRevoked
          else if (case ri_expires_at i of None \<Rightarrow> False | Some e \<Rightarrow> e < now) then Inl RoomInviteExpired
          else if 0 < ri_max_uses i \<and> ri_max_uses i \<le> ri_current_uses i then Inl RoomInviteExhausted
          else Inr i)"

definition count_use :: "id \<Rightarrow> db \<Rightarrow> db" where
  "count_use invite_id db =
     db\<lparr>room_invites := update_where (\<lambda>r. ri_id r = invite_id)
          (\<lambda>r. r\<lparr>ri_current_uses := ri_current_uses r + 1\<rparr>) (room_invites db)\<rparr>"

definition redeem_room_invite ::
  "string \<Rightarrow> id \<Rightarrow> InstanceLimits \<Rightarrow> ServerHardMax \<Rightarrow> time \<Rightarrow> db \<Rightarrow> room_invite_error + (redeem_outcome \<times> db)"
where
  "redeem_room_invite code user_id limits server_max now db =
     (case check_room_invite code now db of
        Inl e \<Rightarrow> Inl e
      | Inr i \<Rightarrow>
          (case member_role db (ri_room_id i) user_id of
             Some role \<Rightarrow> Inr (InviteAlreadyMember (ri_room_id i) role, db)
           | None \<Rightarrow>
               if min (il_room_size limits) (sm_room_size server_max) \<le> member_count db (ri_room_id i)
               then Inl RoomInviteFull
               else
                 (case insert_member (ri_room_id i) user_id ''member'' code now db of
                    None \<Rightarrow> Inl RoomInviteDatabase
                  | Some db1 \<Rightarrow> Inr (InviteJoined (ri_room_id i) ''member'', count_use (ri_id i) db1))))"

datatype join_error = JoinRefused invite_api_error | JoinFailed room_invite_error

definition join_room ::
  "(string \<Rightarrow> time \<Rightarrow> string) \<Rightarrow> RateLimitConfig \<Rightarrow> ServerHardMax \<Rightarrow> string option \<Rightarrow> string \<Rightarrow> id \<Rightarrow> time \<Rightarrow> db \<Rightarrow>
   (join_error + redeem_outcome) \<times> db"
where
  "join_room fmt limits server_max x_forwarded_for code user_id now db =
     (case pass_limit fmt limits (InviteRedeem (forwarded_ip x_forwarded_for)) now db of
        (Some e, db1) \<Rightarrow> (Inl (JoinRefused e), db1)
      | (None, db1) \<Rightarrow>
          (case redeem_room_invite code user_id (get_limits db1 server_max) server_max now db1 of
             Inl e \<Rightarrow> (Inl (JoinFailed e), db1)
           | Inr (outcome, db2) \<Rightarrow> (Inr outcome, db2)))"

end
