(* ===== verification/InviteProps.thy ===== *)
theory InviteProps
  imports Invites RateKeys
begin

text \<open>
  What the invites promise.  A use of an invite, on the server or in a room, is taken from a
  budget: the contract \<open>use_limit\<close> says what one step may do to it and counts over whole runs;
  both kinds of invites are interpretations.
\<close>

section \<open>Budgets\<close>

text \<open>A step is labelled with the invite it uses, if it uses one; a budget is the pair of uses and cap.\<close>

locale use_limit =
  fixes step :: "'s \<Rightarrow> id option \<Rightarrow> 's \<Rightarrow> bool"
    and ok :: "'s \<Rightarrow> bool"
    and budget :: "'s \<Rightarrow> id \<Rightarrow> (int \<times> int) option"
  assumes step_ok: "step s l s' \<Longrightarrow> ok s \<Longrightarrow> ok s'"
    and step_budget: "step s l s' \<Longrightarrow> ok s \<Longrightarrow> budget s i = Some (u, c) \<Longrightarrow>
          budget s' i = Some (u + (if l = Some i then 1 else 0), c)"
    and step_within: "step s (Some i) s' \<Longrightarrow> ok s \<Longrightarrow> budget s i = Some (u, c) \<Longrightarrow> 0 < c \<Longrightarrow> u < c"
begin

lemma run_ok: "run step s ls s' \<Longrightarrow> ok s \<Longrightarrow> ok s'"
  by (induction rule: run.induct) (auto intro: step_ok)

lemma run_budget:
  assumes "run step s ls s'" and "ok s" and "budget s i = Some (u, c)"
  shows "budget s' i = Some (u + int (count_list ls (Some i)), c) \<and>
    (0 < c \<longrightarrow> u \<le> c \<longrightarrow> u + int (count_list ls (Some i)) \<le> c)"
  using assms
proof (induction arbitrary: u rule: run.induct)
  case (run_step s l t ls s')
  let ?d = "if l = Some i then 1 else 0 :: int"
  have t: "ok t" "budget t i = Some (u + ?d, c)"
    using run_step.hyps run_step.prems step_ok step_budget by blast+
  have "0 < c \<Longrightarrow> u \<le> c \<Longrightarrow> u + ?d \<le> c"
    using run_step.hyps(1) run_step.prems step_within[of s i t u c] by auto
  with run_step.IH[OF t] show ?case by (auto simp: algebra_simps)
qed simp

end

section \<open>Server invites\<close>

definition server_budget :: "server_invite_row list \<Rightarrow> id \<Rightarrow> (int \<times> int) option" where
  "server_budget t i = map_option (\<lambda>r. (si_current_uses r, si_max_uses r)) (List.find (\<lambda>r. si_id r = i) t)"

text \<open>
  The steps that touch server invites, with the rows that registrations have read and not yet
  written: any number of registrations may be between their read and their write.
\<close>

type_synonym invite_state = "db \<times> server_invite_row list"

inductive invite_step :: "invite_state \<Rightarrow> id option \<Rightarrow> invite_state \<Rightarrow> bool" where
  create: "create_invite codes invite_id creator opts config now db = Inr (i, db') \<Longrightarrow>
    invite_step (db, pend) None (db', pend)"
| revoke: "revoke_invite invite_id now db = (revoked, db') \<Longrightarrow> invite_step (db, pend) None (db', pend)"
| read: "check_invite code now db = Inr i \<Longrightarrow> invite_step (db, pend) None (db, i # pend)"
| consume: "i \<in> set pend \<Longrightarrow> consume_checked i db = Inr (j, db') \<Longrightarrow>
    invite_step (db, pend) (Some (si_id i)) (db', remove1 i pend)"
| refuse: "i \<in> set pend \<Longrightarrow> consume_checked i db = Inl e \<Longrightarrow> invite_step (db, pend) None (db, remove1 i pend)"

text \<open>Ids are unique; a row that was read has a use left, as far as it knows, and the stored cap.\<close>

definition pending_ok :: "db \<Rightarrow> server_invite_row \<Rightarrow> bool" where
  "pending_ok db i \<longleftrightarrow>
     (0 < si_max_uses i \<longrightarrow> si_current_uses i < si_max_uses i) \<and>
     (\<forall>r \<in> set (server_invites db). si_id r = si_id i \<longrightarrow> si_max_uses r = si_max_uses i)"

fun invites_ok :: "invite_state \<Rightarrow> bool" where
  "invites_ok (db, pend) \<longleftrightarrow>
     distinct (map si_id (server_invites db)) \<and> (\<forall>i \<in> set pend. pending_ok db i \<and>
       si_id i \<in> si_id ` set (server_invites db))"

lemma image_update_where:
  assumes "\<And>r. g (f r) = g r"
  shows "g ` set (update_where p f t) = g ` set t"
  by (simp flip: set_map add: map_update_where[of g, OF assms])

lemma invites_ok_update:
  assumes db': "server_invites db' = update_where p f (server_invites db)"
    and "invites_ok (db, pend)" and "set pend' \<subseteq> set pend"
    and f: "\<And>r. si_id (f r) = si_id r" "\<And>r. si_max_uses (f r) = si_max_uses r"
  shows "invites_ok (db', pend')"
proof -
  have "pending_ok db' i = pending_ok db i" for i
    unfolding pending_ok_def db' ball_update_where by (simp add: f if_distrib cong: if_cong)
  with assms show ?thesis by (auto simp: map_update_where image_update_where)
qed

lemma server_budget_update:
  assumes "\<And>r. si_id (f r) = si_id r"
  shows "server_budget (update_where p f t) i =
    map_option (\<lambda>r. (si_current_uses (if p r then f r else r), si_max_uses (if p r then f r else r)))
      (List.find (\<lambda>r. si_id r = i) t)"
proof -
  have upd: "List.find (\<lambda>r. si_id r = i) (update_where p f t) =
      map_option (\<lambda>r. if p r then f r else r) (List.find (\<lambda>r. si_id r = i) t)"
    by (rule find_update_where) (simp add: assms)
  show ?thesis by (simp add: server_budget_def upd option.map_comp comp_def)
qed

lemma insert_inviteE:
  assumes "insert_invite row codes db = Inr (i, db')"
  obtains code where "code \<in> set codes" and "i = row\<lparr>si_code := code\<rparr>"
    and "db' = db\<lparr>server_invites := server_invites db @ [i]\<rparr>"
    and "si_id row \<notin> si_id ` set (server_invites db)" and "code \<notin> si_code ` set (server_invites db)"
    and "\<forall>u \<in> set_option (si_created_by row). user_exists db u"
proof -
  from assms have "\<exists>code. code \<in> set codes \<and> i = row\<lparr>si_code := code\<rparr> \<and>
      db' = db\<lparr>server_invites := server_invites db @ [i]\<rparr> \<and>
      si_id row \<notin> si_id ` set (server_invites db) \<and> code \<notin> si_code ` set (server_invites db) \<and>
      (\<forall>u \<in> set_option (si_created_by row). user_exists db u)"
  proof (induction codes)
    case (Cons code codes)
    show ?case
    proof (cases "exists_where (\<lambda>i. si_id i = si_id row \<or> si_code i = code) (server_invites db)")
      case True
      with Cons show ?thesis by auto
    next
      case False
      with Cons.prems show ?thesis by (intro exI[of _ code]) (auto split: if_splits)
    qed
  qed simp
  then show thesis using that by blast
qed

lemma create_inviteE:
  assumes "create_invite codes invite_id creator opts config now db = Inr (i, db')"
  obtains "db' = db\<lparr>server_invites := server_invites db @ [i]\<rparr>" and "si_id i = invite_id"
    and "invite_id \<notin> si_id ` set (server_invites db)" and "si_code i \<notin> si_code ` set (server_invites db)"
    and "si_current_uses i = 0" and "si_revoked_at i = None" and "si_created_by i = Some creator"
    and "si_max_uses i = invite_uses config (co_max_uses opts)"
    and "si_expires_at i = invite_expiry config (co_expires_in_days opts) now" and "si_code i \<in> codes ` {..<5}"
    and "user_exists db creator"
  by (rule insert_inviteE[OF assms[unfolded create_invite_def]])
    (rule that, auto simp: new_invite_def)

lemma check_inviteE:
  assumes "check_invite code now db = Inr i"
  obtains "List.find (\<lambda>r. si_code r = code) (server_invites db) = Some i" and "i \<in> set (server_invites db)"
    and "si_code i = code" and "si_revoked_at i = None" and "\<forall>e \<in> set_option (si_expires_at i). now \<le> e"
    and "0 < si_max_uses i \<Longrightarrow> si_current_uses i < si_max_uses i"
  using assms by (auto simp: check_invite_def not_less not_le dest: find_SomeD split: option.splits if_splits)

lemma consume_checkedE:
  assumes "consume_checked i db = Inr (j, db')"
  obtains r where "r \<in> set (server_invites db)" and "si_id r = si_id i"
    and "si_current_uses r = si_current_uses i" and "j = i\<lparr>si_current_uses := si_current_uses i + 1\<rparr>"
    and "db' = db\<lparr>server_invites := update_where
      (\<lambda>r. si_id r = si_id i \<and> si_current_uses r = si_current_uses i)
      (\<lambda>r. r\<lparr>si_current_uses := si_current_uses i + 1\<rparr>) (server_invites db)\<rparr>"
  using assms by (auto simp: consume_checked_def Let_def count_where_zero_iff split: if_splits)

interpretation server_uses: use_limit invite_step invites_ok "\<lambda>(db, pend). server_budget (server_invites db)"
proof
  fix s l s'
  assume "invite_step s l s'" and "invites_ok s"
  then show "invites_ok s'"
  proof cases
    case (create codes invite_id creator opts config now db i db' pend)
    then show ?thesis using \<open>invites_ok s\<close>
      by (auto simp: pending_ok_def elim!: create_inviteE)
  next
    case (revoke invite_id now db revoked db' pend)
    then have "server_invites db' = update_where (\<lambda>i. si_id i = invite_id \<and> si_revoked_at i = None)
        (\<lambda>i. i\<lparr>si_revoked_at := Some (current_timestamp now)\<rparr>) (server_invites db)"
      by (auto simp: revoke_invite_def Let_def)
    from invites_ok_update[OF this, of pend pend] revoke \<open>invites_ok s\<close> show ?thesis by simp
  next
    case (read code now db i pend)
    then have i: "i \<in> set (server_invites db)" "0 < si_max_uses i \<Longrightarrow> si_current_uses i < si_max_uses i"
      by (auto elim!: check_inviteE)
    have "r = i" if "r \<in> set (server_invites db)" "si_id r = si_id i" for r
      using that i(1) read(1) \<open>invites_ok s\<close> by (auto simp: distinct_map dest: inj_onD)
    with i have "pending_ok db i" by (auto simp: pending_ok_def)
    with read i(1) \<open>invites_ok s\<close> show ?thesis by auto
  next
    case (consume i pend db j db')
    then have "server_invites db' = update_where (\<lambda>r. si_id r = si_id i \<and> si_current_uses r = si_current_uses i)
        (\<lambda>r. r\<lparr>si_current_uses := si_current_uses i + 1\<rparr>) (server_invites db)"
      by (auto elim!: consume_checkedE)
    from invites_ok_update[OF this, of pend "remove1 i pend"] consume \<open>invites_ok s\<close> set_remove1_subset[of i pend]
    show ?thesis by simp
  next
    case (refuse i pend db e)
    then show ?thesis using \<open>invites_ok s\<close> by (auto dest: set_remove1_subset[THEN subsetD])
  qed
next
  fix s :: invite_state and l s' i u c
  assume st: "invite_step s l s'" and ok: "invites_ok s"
    and b: "(case s of (db, pend) \<Rightarrow> server_budget (server_invites db)) i = Some (u, c)"
  from st show "(case s' of (db, pend) \<Rightarrow> server_budget (server_invites db)) i =
      Some (u + (if l = Some i then 1 else 0), c)"
  proof cases
    case (create codes invite_id creator opts config now db j db' pend)
    then show ?thesis using b by (auto simp: server_budget_def find_append elim!: create_inviteE)
  next
    case (revoke invite_id now db revoked db' pend)
    then have "server_budget (server_invites db') i = server_budget (server_invites db) i"
      by (auto simp: revoke_invite_def Let_def server_budget_update) (simp_all add: server_budget_def if_distrib cong: if_cong)
    with revoke b show ?thesis by simp
  next
    case (consume j pend db k db')
    then obtain r where r: "r \<in> set (server_invites db)" "si_id r = si_id j"
        "si_current_uses r = si_current_uses j"
      and db': "server_invites db' = update_where
        (\<lambda>r. si_id r = si_id j \<and> si_current_uses r = si_current_uses j)
        (\<lambda>r. r\<lparr>si_current_uses := si_current_uses j + 1\<rparr>) (server_invites db)"
      by (auto elim!: consume_checkedE)
    have fr: "List.find (\<lambda>r. si_id r = si_id j) (server_invites db) = Some r"
      using consume ok r by (auto intro!: find_key_eq)
    have eq: "server_budget (server_invites db') i =
        map_option (\<lambda>r. (if si_id r = si_id j \<and> si_current_uses r = si_current_uses j
          then si_current_uses j + 1 else si_current_uses r, si_max_uses r))
          (List.find (\<lambda>r. si_id r = i) (server_invites db))"
      unfolding db' by (simp add: server_budget_update if_distrib cong: if_cong)
    obtain z where z: "List.find (\<lambda>r. si_id r = i) (server_invites db) = Some z"
        "u = si_current_uses z" "c = si_max_uses z"
      using b consume by (auto simp: server_budget_def)
    have "si_id z = i" using find_SomeD[OF z(1)] by simp
    moreover have "z = r" if "i = si_id j" using z(1) fr that by simp
    ultimately show ?thesis using consume(2,3) eq z r(3) by (cases "i = si_id j") simp_all
  qed (use b in auto)
next
  fix s :: invite_state and i s' u c
  assume st: "invite_step s (Some i) s'" and ok: "invites_ok s"
    and b: "(case s of (db, pend) \<Rightarrow> server_budget (server_invites db)) i = Some (u, c)" and "0 < c"
  from st show "u < c"
  proof cases
    case (consume j pend db k db')
    then obtain r where r: "r \<in> set (server_invites db)" "si_id r = si_id j"
        "si_current_uses r = si_current_uses j" by (auto elim!: consume_checkedE)
    have "List.find (\<lambda>r. si_id r = si_id j) (server_invites db) = Some r"
      using consume ok r by (auto intro!: find_key_eq)
    then show ?thesis using b consume r ok \<open>0 < c\<close> by (auto simp: server_budget_def pending_ok_def)
  qed
qed

section \<open>Room invites\<close>

definition room_budget :: "db \<Rightarrow> id \<Rightarrow> (int \<times> int) option" where
  "room_budget db i =
     map_option (\<lambda>r. (ri_current_uses r, ri_max_uses r)) (List.find (\<lambda>r. ri_id r = i) (room_invites db))"

definition room_invites_ok :: "db \<Rightarrow> bool" where
  "room_invites_ok db \<longleftrightarrow> distinct (map ri_id (room_invites db))"

text \<open>Redeeming runs under \<open>BEGIN IMMEDIATE\<close>, so it is one step; room steps that leave the invites alone may come between.\<close>

inductive room_invite_step :: "db \<Rightarrow> id option \<Rightarrow> db \<Rightarrow> bool" where
  create: "create_room_invite codes invite_id room_id user_id opts config now db = Inr (i, db') \<Longrightarrow>
    room_invite_step db None db'"
| revoke: "revoke_room_invite room_id invite_id user_id now db = Inr db' \<Longrightarrow> room_invite_step db None db'"
| known: "redeem_room_invite code user_id limits hard now db = Inr (InviteAlreadyMember room role, db') \<Longrightarrow>
    room_invite_step db None db'"
| redeem: "redeem_room_invite code user_id limits hard now db = Inr (InviteJoined room role, db') \<Longrightarrow>
    check_room_invite code now db = Inr i \<Longrightarrow> room_invite_step db (Some (ri_id i)) db'"
| other: "room_invites db' = room_invites db \<Longrightarrow> room_invite_step db None db'"

lemma check_room_inviteE:
  assumes "check_room_invite code now db = Inr i"
  obtains "List.find (\<lambda>r. ri_code r = code) (room_invites db) = Some i" and "i \<in> set (room_invites db)"
    and "ri_code i = code" and "ri_revoked_at i = None" and "\<forall>e \<in> set_option (ri_expires_at i). now \<le> e"
    and "0 < ri_max_uses i \<Longrightarrow> ri_current_uses i < ri_max_uses i"
  using assms by (auto simp: check_room_invite_def not_less not_le dest: find_SomeD split: option.splits if_splits)

lemma redeemE:
  assumes "redeem_room_invite code user_id limits hard now db = Inr (outcome, db')"
  obtains (known) i role where "check_room_invite code now db = Inr i"
      and "member_role db (ri_room_id i) user_id = Some role"
      and "outcome = InviteAlreadyMember (ri_room_id i) role" and "db' = db"
  | (joined) i db1 where "check_room_invite code now db = Inr i"
      and "member_role db (ri_room_id i) user_id = None"
      and "member_count db (ri_room_id i) < min (il_room_size limits) (sm_room_size hard)"
      and "insert_member (ri_room_id i) user_id ''member'' code now db = Some db1"
      and "outcome = InviteJoined (ri_room_id i) ''member''" and "db' = count_use (ri_id i) db1"
proof (cases "check_room_invite code now db")
  case (Inr i)
  show thesis
  proof (cases "member_role db (ri_room_id i) user_id")
    case None
    with Inr assms joined[OF Inr None] show thesis
      by (simp add: redeem_room_invite_def not_le split: option.splits if_splits)
  next
    case (Some role)
    with Inr assms known[OF Inr Some] show thesis by (simp add: redeem_room_invite_def)
  qed
qed (use assms in \<open>simp add: redeem_room_invite_def\<close>)

lemma insert_room_inviteE:
  assumes "insert_room_invite row codes db = Inr (i, db')"
  obtains code where "code \<in> set codes" and "i = row\<lparr>ri_code := code\<rparr>"
    and "db' = db\<lparr>room_invites := room_invites db @ [i]\<rparr>"
    and "ri_id row \<notin> ri_id ` set (room_invites db)" and "code \<notin> ri_code ` set (room_invites db)"
proof -
  from assms have "\<exists>code. code \<in> set codes \<and> i = row\<lparr>ri_code := code\<rparr> \<and>
      db' = db\<lparr>room_invites := room_invites db @ [i]\<rparr> \<and>
      ri_id row \<notin> ri_id ` set (room_invites db) \<and> code \<notin> ri_code ` set (room_invites db)"
  proof (induction codes)
    case (Cons code codes)
    show ?case
    proof (cases "exists_where (\<lambda>i. ri_id i = ri_id row \<or> ri_code i = code) (room_invites db)")
      case True
      with Cons show ?thesis by auto
    next
      case False
      with Cons.prems show ?thesis by (intro exI[of _ code]) (auto split: if_splits)
    qed
  qed simp
  then show thesis using that by blast
qed

lemma create_room_inviteE:
  assumes "create_room_invite codes invite_id room_id user_id opts config now db = Inr (i, db')"
  obtains "db' = db\<lparr>room_invites := room_invites db @ [i]\<rparr>" and "ri_id i = invite_id"
    and "invite_id \<notin> ri_id ` set (room_invites db)" and "ri_room_id i = room_id" and "ri_current_uses i = 0"
    and "is_member db room_id user_id"
  using assms
  by (auto simp: create_room_invite_def check_room_member_def is_member_role split: option.splits sum.splits if_splits
      elim!: insert_room_inviteE)

lemma insert_member_invites: "insert_member r u role via now db = Some db' \<Longrightarrow> room_invites db' = room_invites db"
  by (auto simp: insert_member_def split: if_splits)

lemma room_budget_update:
  assumes "room_invites db' = update_where p f (room_invites db)" and "\<And>r. ri_id (f r) = ri_id r"
  shows "room_budget db' i =
    map_option (\<lambda>r. (ri_current_uses (if p r then f r else r), ri_max_uses (if p r then f r else r)))
      (List.find (\<lambda>r. ri_id r = i) (room_invites db))"
proof -
  have upd: "List.find (\<lambda>r. ri_id r = i) (update_where p f (room_invites db)) =
      map_option (\<lambda>r. if p r then f r else r) (List.find (\<lambda>r. ri_id r = i) (room_invites db))"
    by (rule find_update_where) (simp add: assms)
  show ?thesis by (simp add: room_budget_def assms(1) upd option.map_comp comp_def)
qed

lemma revoke_room_invite_rows:
  assumes "revoke_room_invite room_id invite_id user_id now db = Inr db'"
  shows "room_invites db' = update_where (\<lambda>i. ri_room_id i = room_id \<and> ri_id i = invite_id \<and> ri_revoked_at i = None)
    (\<lambda>i. i\<lparr>ri_revoked_at := Some (current_timestamp now)\<rparr>) (room_invites db)"
  using assms by (auto simp: revoke_room_invite_def split: option.splits if_splits)

lemma redeem_rows:
  assumes "redeem_room_invite code user_id limits hard now db = Inr (InviteJoined room role, db')"
    and "check_room_invite code now db = Inr i"
  shows "room_invites db' = update_where (\<lambda>r. ri_id r = ri_id i)
    (\<lambda>r. r\<lparr>ri_current_uses := ri_current_uses r + 1\<rparr>) (room_invites db)"
  using assms by (auto elim!: redeemE simp: count_use_def insert_member_invites)

lemma redeem_known: "redeem_room_invite code user_id limits hard now db = Inr (InviteAlreadyMember room role, db') \<Longrightarrow> db' = db"
  by (auto elim!: redeemE)

interpretation room_uses: use_limit room_invite_step room_invites_ok room_budget
proof
  fix db l db'
  assume "room_invite_step db l db'" and "room_invites_ok db"
  then show "room_invites_ok db'"
    by cases (auto simp: room_invites_ok_def map_update_where revoke_room_invite_rows redeem_rows
        elim!: create_room_inviteE dest!: redeem_known)
next
  fix db :: db and l db' i u c
  assume "room_invite_step db l db'" and b: "room_budget db i = Some (u, c)"
  then show "room_budget db' i = Some (u + (if l = Some i then 1 else 0), c)"
  proof cases
    case (create codes invite_id room_id user_id opts config now j)
    then show ?thesis using b by (auto simp: room_budget_def find_append elim!: create_room_inviteE)
  next
    case (revoke room_id invite_id user_id now)
    then show ?thesis
      using b unfolding room_budget_update[OF revoke_room_invite_rows[OF revoke(2)], simplified]
      by (auto simp: room_budget_def)
  next
    case (redeem code user_id limits hard now room role j)
    obtain z where z: "List.find (\<lambda>r. ri_id r = i) (room_invites db) = Some z"
        "u = ri_current_uses z" "c = ri_max_uses z"
      using b by (auto simp: room_budget_def)
    moreover have "ri_id z = i" using find_SomeD[OF z(1)] by simp
    ultimately show ?thesis
      using redeem(1) unfolding room_budget_update[OF redeem_rows[OF redeem(2,3)], simplified] by auto
  qed (use b in \<open>auto simp: room_budget_def dest!: redeem_known\<close>)
next
  fix db :: db and i db' u c
  assume "room_invite_step db (Some i) db'" and ok: "room_invites_ok db" and "room_budget db i = Some (u, c)"
    and "0 < c"
  then show "u < c"
  proof cases
    case (redeem code user_id limits hard now room role j)
    then have j: "j \<in> set (room_invites db)" "0 < ri_max_uses j \<Longrightarrow> ri_current_uses j < ri_max_uses j"
      by (auto elim!: check_room_inviteE)
    with ok have "List.find (\<lambda>r. ri_id r = ri_id j) (room_invites db) = Some j"
      by (auto intro!: find_key_eq simp: room_invites_ok_def)
    with j redeem \<open>room_budget db i = Some (u, c)\<close> \<open>0 < c\<close> show ?thesis by (auto simp: room_budget_def)
  qed
qed

section \<open>Properties\<close>

text \<open>
  C10. An invite admits at most \<open>max_uses\<close> registrations: whatever invites are created and revoked
  and however many registrations read the same row before the first of them writes, the
  stored count grows by one per accepted registration and never passes the cap.
\<close>

theorem invite_uses_bounded:
  assumes "run invite_step (db, pend) ls (db', pend')" and "invites_ok (db, pend)"
    and "get_invite_by_id db i = Some r"
  shows "\<exists>r'. get_invite_by_id db' i = Some r' \<and> si_max_uses r' = si_max_uses r \<and>
    si_current_uses r' = si_current_uses r + int (count_list ls (Some i)) \<and>
    (0 < si_max_uses r \<longrightarrow> si_current_uses r \<le> si_max_uses r \<longrightarrow> si_current_uses r' \<le> si_max_uses r)"
  using server_uses.run_budget[OF assms(1,2), of i "si_current_uses r" "si_max_uses r"] assms(3)
  by (auto simp: server_budget_def get_invite_by_id_def)

text \<open>A run of registrations that race for the last use of an invite.\<close>

definition race_invite :: server_invite_row where
  "race_invite = \<lparr>si_id = ''i'', si_code = ''c'', si_created_by = None, si_max_uses = 1, si_current_uses = 0,
     si_expires_at = None, si_revoked_at = None, si_created_at = 0\<rparr>"

definition race_db :: db where
  "race_db = empty_db\<lparr>server_invites := [race_invite]\<rparr>"

definition raced_db :: db where
  "raced_db = empty_db\<lparr>server_invites := [race_invite\<lparr>si_current_uses := 1\<rparr>]\<rparr>"

lemma invite_race_run: "run invite_step (race_db, []) [None, None, Some ''i'', None] (raced_db, [])"
proof -
  have r: "check_invite ''c'' 5 race_db = Inr race_invite"
    by (simp add: check_invite_def race_db_def race_invite_def)
  have "consume_checked race_invite race_db = Inr (race_invite\<lparr>si_current_uses := 1\<rparr>, raced_db)"
    by (simp add: consume_checked_def race_db_def raced_db_def race_invite_def)
  from invite_step.consume[OF _ this, of "[race_invite, race_invite]"]
  have c: "invite_step (race_db, [race_invite, race_invite]) (Some ''i'') (raced_db, [race_invite])"
    by (simp add: race_invite_def)
  have "consume_checked race_invite raced_db = Inl InviteExhausted"
    by (simp add: consume_checked_def raced_db_def race_invite_def)
  from invite_step.refuse[OF _ this, of "[race_invite]"]
  have "invite_step (raced_db, [race_invite]) None (raced_db, [])" by simp
  with c invite_step.read[OF r] show ?thesis by (blast intro: run.intros)
qed

theorem invite_uses_bounded_witness:
  "\<exists>r'. get_invite_by_id raced_db ''i'' = Some r' \<and> si_current_uses r' = 1 \<and> si_current_uses r' \<le> si_max_uses r'"
proof -
  have "invites_ok (race_db, [])" by (simp add: race_db_def)
  moreover have "get_invite_by_id race_db ''i'' = Some race_invite"
    by (simp add: get_invite_by_id_def race_db_def race_invite_def)
  ultimately show ?thesis
    using invite_uses_bounded[OF invite_race_run] by (fastforce simp: race_invite_def)
qed

text \<open>The same for the invites of a room.\<close>

lemma room_invite_uses_bounded:
  assumes "run room_invite_step db ls db'" and "distinct (map ri_id (room_invites db))"
    and "List.find (\<lambda>x. ri_id x = i) (room_invites db) = Some r"
  shows "\<exists>r'. List.find (\<lambda>x. ri_id x = i) (room_invites db') = Some r' \<and> ri_max_uses r' = ri_max_uses r \<and>
    ri_current_uses r' = ri_current_uses r + int (count_list ls (Some i)) \<and>
    (0 < ri_max_uses r \<longrightarrow> ri_current_uses r \<le> ri_max_uses r \<longrightarrow> ri_current_uses r' \<le> ri_max_uses r)"
  using room_uses.run_budget[OF assms(1), of i "ri_current_uses r" "ri_max_uses r"] assms(2,3)
  by (auto simp: room_budget_def room_invites_ok_def)

lemma check_then_consume:
  assumes "check_invite code now db = Inr i"
  shows "consume_checked i db = Inr (i\<lparr>si_current_uses := si_current_uses i + 1\<rparr>,
    db\<lparr>server_invites := update_where (\<lambda>r. si_id r = si_id i \<and> si_current_uses r = si_current_uses i)
      (\<lambda>r. r\<lparr>si_current_uses := si_current_uses i + 1\<rparr>) (server_invites db)\<rparr>)"
  using assms by (auto simp: consume_checked_def Let_def count_where_zero_iff elim!: check_inviteE)

lemma validity_iff_check: "vr_valid (invite_validity code now db) \<longleftrightarrow> \<not> isl (check_invite (trim code) now db)"
  by (simp add: invite_validity_def check_invite_def split: option.split)

lemma validity_of_check:
  assumes "check_invite (trim code) now db = Inr i"
  shows "vr_remaining_uses (invite_validity code now db) =
    (if 0 < si_max_uses i then Some (si_max_uses i - si_current_uses i) else None)"
  using assms by (auto simp: invite_validity_def check_invite_def split: option.splits if_splits)

text \<open>
  C31. The public look-up of an invite tells the truth: it calls a code valid exactly when a
  registration with it would be accepted, and after an accepted one it shows one use less and
  calls the code valid exactly when a use was left.
\<close>

theorem public_validation_agrees:
  "(vr_valid (invite_validity code now db) \<longleftrightarrow> \<not> isl (validate_and_consume_invite (trim code) now db)) \<and>
    (\<forall>i db'. validate_and_consume_invite (trim code) now db = Inr (i, db') \<longrightarrow>
      vr_remaining_uses (invite_validity code now db') =
        map_option (\<lambda>n. n - 1) (vr_remaining_uses (invite_validity code now db)) \<and>
      (vr_valid (invite_validity code now db') \<longleftrightarrow> vr_remaining_uses (invite_validity code now db) \<noteq> Some 1))"
proof (cases "check_invite (trim code) now db")
  case (Inr i)
  then have i: "List.find (\<lambda>r. si_code r = trim code) (server_invites db) = Some i" "i \<in> set (server_invites db)"
    "si_revoked_at i = None" "\<forall>e \<in> set_option (si_expires_at i). now \<le> e"
    "0 < si_max_uses i \<Longrightarrow> si_current_uses i < si_max_uses i" by (auto elim!: check_inviteE)
  define db' where "db' = db\<lparr>server_invites := update_where (\<lambda>r. si_id r = si_id i \<and> si_current_uses r = si_current_uses i)
      (\<lambda>r. r\<lparr>si_current_uses := si_current_uses i + 1\<rparr>) (server_invites db)\<rparr>"
  have "List.find (\<lambda>r. si_code r = trim code) (server_invites db') =
      Some (i\<lparr>si_current_uses := si_current_uses i + 1\<rparr>)"
    unfolding db'_def by (simp add: i(1) find_update_where)
  then have "vr_remaining_uses (invite_validity code now db') =
        (if 0 < si_max_uses i then Some (si_max_uses i - si_current_uses i - 1) else None) \<and>
      (vr_valid (invite_validity code now db') \<longleftrightarrow> (0 < si_max_uses i \<longrightarrow> si_current_uses i + 1 < si_max_uses i))"
    using i(3-5) by (auto simp: invite_validity_def not_less split: option.splits)
  moreover have "validate_and_consume_invite (trim code) now db =
      Inr (i\<lparr>si_current_uses := si_current_uses i + 1\<rparr>, db')"
    by (simp add: validate_and_consume_invite_def Inr check_then_consume[OF Inr] db'_def)
  ultimately show ?thesis
    using i(5) by (auto simp: validity_iff_check validity_of_check[OF Inr] Inr)
qed (simp add: validity_iff_check validate_and_consume_invite_def)

theorem public_validation_agrees_witness:
  "vr_valid (invite_validity ''c'' 5 race_db) \<and> \<not> isl (validate_and_consume_invite (trim ''c'') 5 race_db)"
proof -
  have "trim ''c'' = ''c''" by code_simp
  then have "vr_valid (invite_validity ''c'' 5 race_db)"
    by (simp add: invite_validity_def race_db_def race_invite_def)
  with public_validation_agrees[of "''c''" 5 race_db] show ?thesis by simp
qed

text \<open>
  Redeeming a room invite needs a code that is not revoked, not expired and not used up.
  It admits the user as a plain member of exactly that room, below both size limits, takes
  one use, and keeps the room invariant; a user who is already in changes nothing.
\<close>

theorem redeem_effect:
  assumes red: "redeem_room_invite code user_id limits hard now db = Inr (outcome, db')" and ok: "rooms_ok db"
  shows "rooms_ok db' \<and> (\<exists>i \<in> set (room_invites db). ri_code i = code \<and> ri_revoked_at i = None \<and>
    (\<forall>e \<in> set_option (ri_expires_at i). now \<le> e) \<and> (0 < ri_max_uses i \<longrightarrow> ri_current_uses i < ri_max_uses i) \<and>
    (case outcome of
       InviteAlreadyMember r role \<Rightarrow> r = ri_room_id i \<and> member_role db r user_id = Some role \<and> db' = db
     | InviteJoined r role \<Rightarrow>
         r = ri_room_id i \<and> \<not> is_member db r user_id \<and>
         member_count db' r = member_count db r + 1 \<and>
         member_count db' r \<le> min (il_room_size limits) (sm_room_size hard) \<and>
         (\<forall>r' u. member_role db' r' u = (if (r', u) = (r, user_id) then Some ''member'' else member_role db r' u)) \<and>
         room_invites db' = update_where (\<lambda>x. ri_id x = ri_id i)
           (\<lambda>x. x\<lparr>ri_current_uses := ri_current_uses x + 1\<rparr>) (room_invites db)))"
proof -
  from red show ?thesis
  proof (cases rule: redeemE)
    case (known i role)
    then show ?thesis using ok by (auto elim!: check_room_inviteE)
  next
    case (joined i db1)
    have db1: "rooms_ok db1" by (rule insert_plain_member_ok[OF ok joined(4)])
    have same: "same_rooms db1 db'" by (simp add: joined same_rooms_def count_use_def)
    have "room_members db' = room_members db1" by (simp add: joined count_use_def)
    moreover have "member_count db1 (ri_room_id i) = member_count db (ri_room_id i) + 1"
      using joined(4) by (auto simp: insert_member_def member_count_def split: if_splits)
    ultimately have n: "member_count db' (ri_room_id i) = member_count db (ri_room_id i) + 1"
      by (simp add: member_count_def)
    have roles: "member_role db' r' u = (if (r', u) = (ri_room_id i, user_id) then Some ''member''
        else member_role db r' u)" for r' u
      using member_role_insert_member[OF joined(4)] same_rooms_lookups[OF same] by simp
    have rows: "room_invites db' = update_where (\<lambda>x. ri_id x = ri_id i)
        (\<lambda>x. x\<lparr>ri_current_uses := ri_current_uses x + 1\<rparr>) (room_invites db)"
      using redeem_rows[of code user_id limits hard now db "ri_room_id i" "''member''" db' i] red joined by simp
    from joined(1) show ?thesis
      using rooms_ok_same[OF db1 same] joined(2,3,5) n roles rows
      by (elim check_room_inviteE) (intro conjI bexI[of _ i], auto simp: is_member_role)
  qed
qed

definition invited_db :: db where
  "invited_db = room_example_db\<lparr>room_invites :=
     [\<lparr>ri_id = ''ri'', ri_room_id = ''r'', ri_code = ''c'', ri_created_by = ''a'', ri_max_uses = 2,
       ri_current_uses = 1, ri_expires_at = Some 9, ri_revoked_at = None, ri_created_at = 0\<rparr>]\<rparr>"

lemma invited_db_ok: "rooms_ok invited_db"
  by (rule rooms_ok_same[OF room_example_ok]) (simp add: same_rooms_def invited_db_def)

lemma invited_db_lookups:
  "member_role invited_db = member_role room_example_db" "member_count invited_db = member_count room_example_db"
  "is_member invited_db = is_member room_example_db" "user_exists invited_db = user_exists room_example_db"
  "room_exists invited_db = room_exists room_example_db"
  by (rule same_rooms_lookups, simp add: same_rooms_def invited_db_def)+

theorem redeem_effect_witness:
  "\<exists>db'. redeem_room_invite ''c'' ''c'' (limit_default\<lparr>il_room_size := 3\<rparr>) default_hard_max 5 invited_db =
       Inr (InviteJoined ''r'' ''member'', db') \<and> rooms_ok db' \<and>
     member_role db' ''r'' ''c'' = Some ''member'' \<and> member_count db' ''r'' = 3"
proof -
  have "check_room_invite ''c'' 5 invited_db = Inr
      \<lparr>ri_id = ''ri'', ri_room_id = ''r'', ri_code = ''c'', ri_created_by = ''a'', ri_max_uses = 2,
       ri_current_uses = 1, ri_expires_at = Some 9, ri_revoked_at = None, ri_created_at = 0\<rparr>"
    by (simp add: check_room_invite_def invited_db_def)
  moreover have n: "member_role room_example_db ''r'' ''c'' = None" "user_exists room_example_db ''c''"
      "room_exists room_example_db ''r''" "member_count room_example_db ''r'' = 2"
    by (simp_all add: member_role_def user_exists_def room_exists_def member_count_def room_example_db_def new_room_row_def)
  ultimately obtain db' where red: "redeem_room_invite ''c'' ''c'' (limit_default\<lparr>il_room_size := 3\<rparr>)
      default_hard_max 5 invited_db = Inr (InviteJoined ''r'' ''member'', db')"
    by (simp add: redeem_room_invite_def invited_db_lookups insert_member_def is_member_role default_hard_max_def)
  from redeem_effect[OF red invited_db_ok] red n show ?thesis
    by (auto simp: invited_db_lookups)
qed

section \<open>Limited inviters\<close>

lemma pass_limit_frame:
  assumes "pass_limit fmt limits key now db = (r, db')"
  shows "server_invites db' = server_invites db" and "users db' = users db" and "roles db' = roles db"
    and "user_roles db' = user_roles db"
proof -
  have "\<exists>t. db' = db\<lparr>rate_limits := t\<rparr>"
    using assms
    by (auto simp: pass_limit_def split: sum.splits prod.splits if_splits dest!: rate_check_frame
        intro: exI[of _ "rate_limits db"])
  then show "server_invites db' = server_invites db" "users db' = users db" "roles db' = roles db"
    "user_roles db' = user_roles db" by auto
qed

lemma get_user_permissions_cong:
  "roles db' = roles db \<Longrightarrow> user_roles db' = user_roles db \<Longrightarrow>
     get_user_permissions parse db' u = get_user_permissions parse db u"
  by (simp add: get_user_permissions_def user_role_rows_def)

lemma audit_server_invites: "server_invites (audit a b c d e f now db) = server_invites db"
  by (simp add: audit_def split: option.split)


definition inviter_db :: db where
  "inviter_db = roles_example_db\<lparr>
     roles := [\<lparr>rl_id = ''ro'', rl_name = ''user'', rl_level = 10, rl_permissions = ''invite.limited''\<rparr>],
     user_roles := [\<lparr>ur_user_id = ''a'', ur_role_id = ''ro'', ur_granted_at = 0, ur_granted_by = None\<rparr>]\<rparr>"

definition inviter_config :: invite_config where
  "inviter_config = \<lparr>invite_default_uses = 1, invite_expiry_days = 0, invite_limited_max_uses = 10,
     invite_limited_max_open = 1, room_invite_default_uses = 1\<rparr>"

lemmas inviter_defs = inviter_db_def roles_example_db_def empty_db_def inviter_config_def

lemma inviter_limits:
  defines "hour \<equiv> \<lparr>rt_key = ''invite_create:a:hour'', rt_window_start = 0, rt_count = 1\<rparr>"
  shows "pass_limit example_fmt example_config (InviteCreate ''a'' Hour) 0 inviter_db =
      (None, inviter_db\<lparr>rate_limits := [hour]\<rparr>)"
    and "pass_limit example_fmt example_config (InviteCreate ''a'' Day) 0 (inviter_db\<lparr>rate_limits := [hour]\<rparr>) =
      (None, inviter_db\<lparr>rate_limits := [hour, \<lparr>rt_key = ''invite_create:a:day'', rt_window_start = 0, rt_count = 1\<rparr>]\<rparr>)"
  by (simp_all add: pass_limit_def rate_check_def plan_defs Let_def example_config_def RateLimitConfig.make_def
      window_start_def bump_def inviter_defs hour_def)

lemma inviter_permissions: "get_user_permissions (\<lambda>s. Inr [s]) (inviter_db\<lparr>rate_limits := t\<rparr>) ''a'' = [''invite.limited'']"
  by (simp add: get_user_permissions_def user_role_rows_def inviter_defs)

lemma inviter_admitted:
  defines "body \<equiv> \<lparr>co_max_uses = Some 3, co_expires_in_days = Some 7\<rparr>"
  shows "check_create_invite inviter_config [''invite.limited''] ''a'' body 0 (inviter_db\<lparr>rate_limits := t\<rparr>) = None"
    and "\<exists>i db'. create_invite (\<lambda>_. ''code'') ''inv'' ''a'' body inviter_config 0 (inviter_db\<lparr>rate_limits := t\<rparr>) = Inr (i, db')"
  by (simp_all add: check_create_invite_def has_def wildcard_def body_def check_limited_inviter_def create_invite_def
      new_invite_def upt_rec user_exists_def inviter_defs)

lemma inviter_run:
  "\<exists>i db'. create_invite_handler example_fmt example_config inviter_config (\<lambda>s. Inr [s]) ''a''
     \<lparr>co_max_uses = Some 3, co_expires_in_days = Some 7\<rparr> (\<lambda>_. ''code'') ''inv'' ''au'' 0 inviter_db = (Inr i, db')"
proof -
  let ?limits = "[\<lparr>rt_key = ''invite_create:a:hour'', rt_window_start = 0, rt_count = 1\<rparr>,
    \<lparr>rt_key = ''invite_create:a:day'', rt_window_start = 0, rt_count = 1\<rparr>]"
  obtain i db' where "create_invite (\<lambda>_. ''code'') ''inv'' ''a'' \<lparr>co_max_uses = Some 3, co_expires_in_days = Some 7\<rparr>
      inviter_config 0 (inviter_db\<lparr>rate_limits := ?limits\<rparr>) = Inr (i, db')"
    using inviter_admitted(2) by blast
  then show ?thesis
    by (simp add: create_invite_handler_def inviter_limits inviter_permissions inviter_admitted(1))
qed


end
