(* ===== verification/Sessions.thy ===== *)
theory Sessions
  imports RoomMls Occupancy Limits Texts
begin

text \<open>
  Who is calling: session tokens (\<open>server/src/session.rs\<close>, the extractor of
  \<open>server/src/auth.rs\<close>, \<open>routes/sessions.rs\<close>), bot tokens (\<open>server/src/bots/auth.rs\<close>,
  \<open>resolve_caller\<close> of \<open>routes/bots.rs\<close>), and the devices of a user (\<open>server/src/devices.rs\<close>).

  \<open>H\<close> is the hex SHA-256 of a token.  Random ids and tokens are arguments.  Times of sessions
  are written by SQLite, in one format, so they compare as times.
\<close>

section \<open>Sessions\<close>

record session_context =
  sx_session_id :: id
  sx_user_id :: id
  sx_device_id :: "id option"
  sx_expires_at :: time
  sx_created_at :: time

record session_info =
  sf_id :: id
  sf_device_id :: "id option"
  sf_created_at :: time
  sf_expires_at :: time
  sf_last_seen_at :: "time option"

text \<open>\<open>datetime('now', '+N days')\<close>, which is NULL after the year 9999.\<close>

definition datetime_days_ahead :: "time \<Rightarrow> int \<Rightarrow> time option" where
  "datetime_days_ahead now d =
     (let t = current_timestamp now + d * 86400 * nanos_per_sec
      in if t < 253402300800 * nanos_per_sec then Some t else None)"

definition create_session ::
  "id \<Rightarrow> string \<Rightarrow> id \<Rightarrow> id option \<Rightarrow> 32 word \<Rightarrow> time \<Rightarrow> db \<Rightarrow> db option"
where
  "create_session session_id token_hash user_id device_id expiry_days now db =
     (case datetime_days_ahead now (uint expiry_days) of
        None \<Rightarrow> None
      | Some expires_at \<Rightarrow>
          if user_exists db user_id \<and>
             (\<forall>d \<in> set_option device_id. exists_where (\<lambda>r. d_id r = d) (devices db)) \<and>
             \<not> exists_where (\<lambda>s. se_token_hash s = token_hash) (sessions db)
          then map_option (\<lambda>t. db\<lparr>sessions := t\<rparr>)
            (insert_row se_id
              \<lparr>se_id = session_id, se_user_id = user_id, se_device_id = device_id, se_token_hash = token_hash,
               se_created_at = current_timestamp now, se_expires_at = expires_at, se_revoked_at = None,
               se_last_seen_at = None\<rparr> (sessions db))
          else None)"

text \<open>\<open>SESSION_SLIDING\<close> and \<open>SESSION_EXPIRY_DAYS\<close> are read from the environment at each call.\<close>

definition session_sliding :: "string option \<Rightarrow> bool" where
  "session_sliding env =
     (case env of None \<Rightarrow> True | Some v \<Rightarrow> map lower (trim v) = ''true'' \<or> trim v = ''1'')"

definition parse_u32 :: "string \<Rightarrow> 32 word option" where
  "parse_u32 s =
     (case parse_nat (case s of c # cs \<Rightarrow> if c = CHR ''+'' then cs else s | [] \<Rightarrow> s) of
        None \<Rightarrow> None
      | Some n \<Rightarrow> if n < 2 ^ 32 then Some (word_of_nat n) else None)"

definition session_expiry_days :: "string option \<Rightarrow> 32 word" where
  "session_expiry_days env = (case Option.bind env parse_u32 of None \<Rightarrow> 30 | Some d \<Rightarrow> d)"

definition active_session :: "string \<Rightarrow> time \<Rightarrow> session_row \<Rightarrow> bool" where
  "active_session token_hash now s \<longleftrightarrow>
     se_token_hash s = token_hash \<and> se_revoked_at s = None \<and> current_timestamp now < se_expires_at s"

definition validate_session ::
  "(string \<Rightarrow> string) \<Rightarrow> string option \<Rightarrow> string option \<Rightarrow> string \<Rightarrow> time \<Rightarrow> db \<Rightarrow> session_context option \<times> db"
where
  "validate_session H env_sliding env_days raw_token now db =
     (case List.find (active_session (H raw_token) now) (sessions db) of
        None \<Rightarrow> (None, db)
      | Some s \<Rightarrow>
          (Some \<lparr>sx_session_id = se_id s, sx_user_id = se_user_id s, sx_device_id = se_device_id s,
                 sx_expires_at = se_expires_at s, sx_created_at = se_created_at s\<rparr>,
           db\<lparr>sessions := update_where (\<lambda>r. se_id r = se_id s)
             (\<lambda>r. r\<lparr>se_last_seen_at := Some (current_timestamp now),
                    se_expires_at :=
                      (if session_sliding env_sliding
                       then (case datetime_days_ahead now (uint (session_expiry_days env_days)) of
                               None \<Rightarrow> se_expires_at r | Some t \<Rightarrow> t)
                       else se_expires_at r)\<rparr>) (sessions db)\<rparr>))"

definition list_sessions :: "db \<Rightarrow> id \<Rightarrow> time \<Rightarrow> session_info list" where
  "list_sessions db user_id now =
     map (\<lambda>s. \<lparr>sf_id = se_id s, sf_device_id = se_device_id s, sf_created_at = se_created_at s,
               sf_expires_at = se_expires_at s, sf_last_seen_at = se_last_seen_at s\<rparr>)
       (sort_key (\<lambda>s. - se_created_at s)
         (filter (\<lambda>s. se_user_id s = user_id \<and> se_revoked_at s = None \<and> current_timestamp now < se_expires_at s)
           (sessions db)))"

definition revoke_where :: "(session_row \<Rightarrow> bool) \<Rightarrow> time \<Rightarrow> db \<Rightarrow> int \<times> db" where
  "revoke_where p now db =
     (count_where (\<lambda>s. p s \<and> se_revoked_at s = None) (sessions db),
      db\<lparr>sessions := update_where (\<lambda>s. p s \<and> se_revoked_at s = None)
           (\<lambda>s. s\<lparr>se_revoked_at := Some (current_timestamp now)\<rparr>) (sessions db)\<rparr>)"

definition revoke_session :: "id \<Rightarrow> id \<Rightarrow> time \<Rightarrow> db \<Rightarrow> bool \<times> db" where
  "revoke_session user_id session_id now db =
     (let (n, db') = revoke_where (\<lambda>s. se_id s = session_id \<and> se_user_id s = user_id) now db in (0 < n, db'))"

definition revoke_all_sessions :: "id \<Rightarrow> id option \<Rightarrow> time \<Rightarrow> db \<Rightarrow> int \<times> db" where
  "revoke_all_sessions user_id except_session_id now db =
     revoke_where (\<lambda>s. se_user_id s = user_id \<and>
       (case except_session_id of None \<Rightarrow> True | Some e \<Rightarrow> se_id s \<noteq> e)) now db"

section \<open>Authentication\<close>

record auth_user =
  au_user_id :: id
  au_session_id :: id
  au_device_id :: "id option"
  au_username_token :: string
  au_encrypted_display :: "string option"
  au_expires_at :: time
  au_session_created_at :: time

datatype auth_error = Unauthorized | AccountDisabled

definition bearer_token :: "string option \<Rightarrow> string option" where
  "bearer_token auth_header =
     (case Option.bind auth_header (strip_prefix ''Bearer '') of
        None \<Rightarrow> None
      | Some t \<Rightarrow> if trim t = [] then None else Some (trim t))"

text \<open>\<open>from_request_parts\<close>: a session whose user is gone or disabled is revoked on the way.\<close>

definition authenticate ::
  "(string \<Rightarrow> string) \<Rightarrow> string option \<Rightarrow> string option \<Rightarrow> string option \<Rightarrow> time \<Rightarrow> db \<Rightarrow>
   (auth_error + auth_user) \<times> db"
where
  "authenticate H env_sliding env_days auth_header now db =
     (case bearer_token auth_header of
        None \<Rightarrow> (Inl Unauthorized, db)
      | Some raw_token \<Rightarrow>
          (case validate_session H env_sliding env_days raw_token now db of
             (None, db1) \<Rightarrow> (Inl Unauthorized, db1)
           | (Some ctx, db1) \<Rightarrow>
               (case List.find (\<lambda>u. u_id u = sx_user_id ctx) (users db1) of
                  None \<Rightarrow> (Inl Unauthorized, snd (revoke_session (sx_user_id ctx) (sx_session_id ctx) now db1))
                | Some u \<Rightarrow>
                    if u_disabled_at u \<noteq> None
                    then (Inl AccountDisabled, snd (revoke_session (sx_user_id ctx) (sx_session_id ctx) now db1))
                    else (Inr \<lparr>au_user_id = sx_user_id ctx, au_session_id = sx_session_id ctx,
                               au_device_id = sx_device_id ctx, au_username_token = u_username_token u,
                               au_encrypted_display = u_encrypted_display u,
                               au_expires_at = sx_expires_at ctx, au_session_created_at = sx_created_at ctx\<rparr>, db1))))"

definition is_fresh :: "auth_user \<Rightarrow> time \<Rightarrow> time \<Rightarrow> bool" where
  "is_fresh auth max_age now \<longleftrightarrow>
     - (60 * nanos_per_sec) \<le> now - au_session_created_at auth \<and> now - au_session_created_at auth \<le> max_age"

text \<open>The handlers of \<open>DELETE /users/me/sessions/{id}\<close> and \<open>POST /auth/logout\<close>.\<close>

datatype revoke_error = CannotRevokeCurrentSession | RevokedSessionNotFound

definition revoke :: "auth_user \<Rightarrow> id \<Rightarrow> time \<Rightarrow> db \<Rightarrow> revoke_error option \<times> db" where
  "revoke auth target_session_id now db =
     (if target_session_id = au_session_id auth then (Some CannotRevokeCurrentSession, db)
      else
        let (revoked, db') = revoke_session (au_user_id auth) target_session_id now db
        in (if revoked then None else Some RevokedSessionNotFound, db'))"

definition logout :: "auth_user \<Rightarrow> bool \<Rightarrow> time \<Rightarrow> db \<Rightarrow> db" where
  "logout auth all_sessions now db =
     (if all_sessions
      then snd (revoke_session (au_user_id auth) (au_session_id auth) now
             (snd (revoke_all_sessions (au_user_id auth) (Some (au_session_id auth)) now db)))
      else snd (revoke_session (au_user_id auth) (au_session_id auth) now db))"

section \<open>Bots\<close>

record bot_auth_ctx =
  bx_token_id :: id
  bx_bot_id :: id
  bx_owner_user_id :: id
  bx_display_name :: string
  bx_avatar_file_id :: "id option"

text \<open>The spawned update of \<open>last_used_at\<close> is taken to run at once.\<close>

definition validate_bot_token ::
  "(string \<Rightarrow> string) \<Rightarrow> string \<Rightarrow> time \<Rightarrow> db \<Rightarrow> bot_auth_ctx option \<times> db"
where
  "validate_bot_token H raw_token now db =
     (case List.find (\<lambda>t. bt_token_hash t = H raw_token \<and> bt_revoked_at t = None \<and>
               (case bt_expires_at t of None \<Rightarrow> True | Some e \<Rightarrow> current_timestamp now < e) \<and>
               exists_where (\<lambda>b. b_id b = bt_bot_id t \<and> b_deleted_at b = None \<and> b_disabled_at b = None)
                 (bot_accounts db)) (bot_tokens db) of
        None \<Rightarrow> (None, db)
      | Some t \<Rightarrow>
          (map_option (\<lambda>b. \<lparr>bx_token_id = bt_id t, bx_bot_id = bt_bot_id t, bx_owner_user_id = b_owner_user_id b,
                            bx_display_name = b_display_name b, bx_avatar_file_id = b_avatar_file_id b\<rparr>)
             (List.find (\<lambda>b. b_id b = bt_bot_id t) (bot_accounts db)),
           db\<lparr>bot_tokens := update_where (\<lambda>r. bt_id r = bt_id t)
                (\<lambda>r. r\<lparr>bt_last_used_at := Some (current_timestamp now)\<rparr>) (bot_tokens db)\<rparr>))"

datatype caller_identity = UserCaller auth_user | BotCaller bot_auth_ctx

fun caller_user_id :: "caller_identity \<Rightarrow> id option" where
  "caller_user_id (UserCaller u) = Some (au_user_id u)"
| "caller_user_id (BotCaller b) = None"

fun is_owner_or_bot :: "caller_identity \<Rightarrow> id \<Rightarrow> id \<Rightarrow> bool" where
  "is_owner_or_bot (UserCaller u) target_bot_id target_owner_id \<longleftrightarrow> au_user_id u = target_owner_id"
| "is_owner_or_bot (BotCaller b) target_bot_id target_owner_id \<longleftrightarrow> bx_bot_id b = target_bot_id"

text \<open>Unlike \<open>authenticate\<close>, this one leaves the session of a disabled user alive.\<close>

definition resolve_caller ::
  "(string \<Rightarrow> string) \<Rightarrow> string option \<Rightarrow> string option \<Rightarrow> string option \<Rightarrow> time \<Rightarrow> db \<Rightarrow>
   (auth_error + caller_identity) \<times> db"
where
  "resolve_caller H env_sliding env_days auth_header now db =
     (case bearer_token auth_header of
        None \<Rightarrow> (Inl Unauthorized, db)
      | Some raw_token \<Rightarrow>
          (case validate_bot_token H raw_token now db of
             (Some b, db1) \<Rightarrow> (Inr (BotCaller b), db1)
           | (None, db1) \<Rightarrow>
               (case validate_session H env_sliding env_days raw_token now db1 of
                  (None, db2) \<Rightarrow> (Inl Unauthorized, db2)
                | (Some ctx, db2) \<Rightarrow>
                    (case List.find (\<lambda>u. u_id u = sx_user_id ctx) (users db2) of
                       None \<Rightarrow> (Inl Unauthorized, db2)
                     | Some u \<Rightarrow>
                         if u_disabled_at u \<noteq> None then (Inl AccountDisabled, db2)
                         else (Inr (UserCaller
                           \<lparr>au_user_id = sx_user_id ctx, au_session_id = sx_session_id ctx,
                            au_device_id = sx_device_id ctx, au_username_token = u_username_token u,
                            au_encrypted_display = u_encrypted_display u,
                            au_expires_at = now, au_session_created_at = now\<rparr>), db2)))))"

section \<open>Devices\<close>

datatype device_error =
    DeviceDatabase
  | DeviceLimitExceeded "32 word" "32 word"
  | DeviceNotFound

record revocation_summary =
  sm_sessions_removed :: int
  sm_key_packages_removed :: int
  sm_mls_removes_queued :: int

definition device_view :: "db \<Rightarrow> device_row \<Rightarrow> Device" where
  "device_view db d =
     \<lparr>dv_id = d_id d, dv_user_id = d_user_id d, dv_client_id = d_client_id d, dv_platform = d_platform d,
      dv_encrypted_device_name = map_option dn_encrypted_device_name
        (List.find (\<lambda>n. dn_device_id n = d_id d \<and> dn_user_id n = d_user_id d \<and> dn_deleted_at n = None)
          (device_names db)),
      dv_last_seen = d_last_seen d, dv_created_at = d_created_at d\<rparr>"

definition create_device :: "id \<Rightarrow> id \<Rightarrow> id \<Rightarrow> string \<Rightarrow> time \<Rightarrow> db \<Rightarrow> device_error + (Device \<times> db)" where
  "create_device device_id user_id client_id platform now db =
     (let row = \<lparr>d_id = device_id, d_user_id = user_id, d_client_id = client_id, d_platform = platform,
                 d_last_seen = None, d_created_at = current_timestamp now\<rparr>
      in if \<not> user_exists db user_id \<or> exists_where (\<lambda>d. d_client_id d = client_id) (devices db) \<or>
            platform \<notin> {''web'', ''ios'', ''android'', ''desktop''} then Inl DeviceDatabase
         else
           (case insert_row d_id row (devices db) of
              None \<Rightarrow> Inl DeviceDatabase
            | Some t \<Rightarrow> Inr (device_view db row, db\<lparr>devices := t\<rparr>)))"

definition touch_last_seen :: "id \<Rightarrow> time \<Rightarrow> db \<Rightarrow> db" where
  "touch_last_seen device_id now db =
     db\<lparr>devices := update_where (\<lambda>d. d_id d = device_id)
          (\<lambda>d. d\<lparr>d_last_seen := Some (current_timestamp now)\<rparr>) (devices db)\<rparr>"

definition list_devices :: "db \<Rightarrow> id \<Rightarrow> Device list" where
  "list_devices db user_id =
     map (device_view db) (sort_key (\<lambda>d. - d_created_at d) (filter (\<lambda>d. d_user_id d = user_id) (devices db)))"

definition count_devices :: "db \<Rightarrow> id \<Rightarrow> 32 word" where
  "count_devices db user_id = word_of_int (count_where (\<lambda>d. d_user_id d = user_id) (devices db))"

text \<open>Step 3: one MLS removal of the user per room, whatever device is revoked.\<close>

fun queue_device_removes ::
  "id list \<Rightarrow> id \<Rightarrow> (nat \<Rightarrow> id) \<Rightarrow> time \<Rightarrow> db \<Rightarrow> device_error + (int \<times> db)"
where
  "queue_device_removes [] user_id fresh now db = Inr (0, db)"
| "queue_device_removes (room_id # rs) user_id fresh now db =
     (case queue_pending_mls_remove_batch room_id (TargetUser user_id) (fresh 0) now db of
        Inl _ \<Rightarrow> Inl DeviceDatabase
      | Inr (_, db1) \<Rightarrow>
          (case queue_device_removes rs user_id (fresh \<circ> Suc) now db1 of
             Inl e \<Rightarrow> Inl e
           | Inr (n, db2) \<Rightarrow> Inr (n + 1, db2)))"

text \<open>\<open>DELETE FROM devices\<close> takes the sessions, names and push subscriptions of the device along.\<close>

definition delete_device_cascade :: "id \<Rightarrow> id \<Rightarrow> db \<Rightarrow> db" where
  "delete_device_cascade device_id user_id db =
     (if exists_where (\<lambda>d. d_id d = device_id \<and> d_user_id d = user_id) (devices db)
      then db\<lparr>devices := delete_where (\<lambda>d. d_id d = device_id) (devices db),
              sessions := delete_where (\<lambda>s. se_device_id s = Some device_id) (sessions db),
              device_names := delete_where (\<lambda>n. dn_device_id n = device_id) (device_names db),
              push_subscriptions := delete_where (\<lambda>p. ps_device_id p = Some device_id) (push_subscriptions db)\<rparr>
      else db)"

text \<open>
  A key package that a queued addition names cannot be deleted: \<open>pending_mls_adds\<close> references
  it without a delete rule, and its rows stay.
\<close>

definition revoke_device ::
  "id \<Rightarrow> id \<Rightarrow> (nat \<Rightarrow> id) \<Rightarrow> time \<Rightarrow> db \<Rightarrow> device_error + (revocation_summary \<times> event \<times> db)"
where
  "revoke_device user_id device_id fresh now db =
     (case List.find (\<lambda>d. d_id d = device_id \<and> d_user_id d = user_id) (devices db) of
        None \<Rightarrow> Inl DeviceNotFound
      | Some d \<Rightarrow>
          let n_sessions = count_where (\<lambda>s. se_device_id s = Some device_id) (sessions db);
              unconsumed = (\<lambda>k. k_user_id k = Some user_id \<and> k_client_id k = d_client_id d \<and> \<not> k_consumed k);
              n_packages = count_where unconsumed (key_packages db);
              db1 = db\<lparr>key_packages := delete_where unconsumed (key_packages db)\<rparr>
          in if exists_where (\<lambda>k. unconsumed k \<and> exists_where (\<lambda>p. pa_key_package_id p = k_id k) (pending_mls_adds db))
                  (key_packages db) then Inl DeviceDatabase
             else (case queue_device_removes (map m_room_id (filter (\<lambda>m. m_user_id m = user_id) (room_members db1)))
                     user_id fresh now db1 of
                Inl e \<Rightarrow> Inl e
              | Inr (n_removes, db2) \<Rightarrow>
                  (case allocate_user_seq
                          (db2\<lparr>push_subscriptions :=
                             delete_where (\<lambda>p. ps_device_id p = Some device_id) (push_subscriptions db2)\<rparr>) user_id of
                     None \<Rightarrow> Inl DeviceDatabase
                   | Some (user_seq, db3) \<Rightarrow>
                       Inr (\<lparr>sm_sessions_removed = n_sessions, sm_key_packages_removed = n_packages,
                             sm_mls_removes_queued = n_removes\<rparr>,
                         publish_user_event user_id (new_envelope ''device.revoked'' user_seq
                           (JObject [(''device_id'', JString device_id), (''reason'', JString ''revoked_by_user''),
                                     (''user_seq'', JInt user_seq)]) now),
                         delete_device_cascade device_id user_id db3))))"

end
