(* ===== verification/BotMessages.thy ===== *)
theory BotMessages
  imports Sessions RateLimit KeyTransparency MessageChanges
begin

text \<open>
  Messages of bots: \<open>server/src/signing.rs\<close>, \<open>server/src/bots/idempotency.rs\<close>,
  \<open>server/src/bots/delivery.rs\<close> and \<open>post_bot_message\<close> of \<open>server/src/routes/room_bots.rs\<close>.

  Arguments: \<open>b64_decode\<close> is the unpadded base64url decoder; \<open>vk_from_bytes\<close> and \<open>ed_verify\<close> are
  \<open>ed25519_dalek\<close>; \<open>fmt\<close> is \<open>chrono\<close>'s formatting.
\<close>

section \<open>Signing\<close>

definition u32_be :: "32 word \<Rightarrow> bytes" where
  "u32_be w = map (\<lambda>i. ucast (drop_bit (8 * (3 - i)) w)) [0..<4]"

text \<open>\<open>(len as u32).to_be_bytes()\<close> followed by the bytes.\<close>

definition framed :: "bytes \<Rightarrow> bytes" where
  "framed bs = u32_be (word_of_nat (length bs)) @ bs"

definition encode_bot_message_signing_input :: "string \<Rightarrow> 64 word \<Rightarrow> string \<Rightarrow> bytes \<Rightarrow> bytes" where
  "encode_bot_message_signing_input room_id epoch content_type ciphertext =
     framed (utf8_bytes room_id) @ u64_be epoch @ framed (utf8_bytes content_type) @ framed ciphertext"

definition encode_publisher_key_signing_input :: "string \<Rightarrow> 64 word \<Rightarrow> bytes \<Rightarrow> bytes" where
  "encode_publisher_key_signing_input room_id epoch publisher_public_key_raw =
     framed (utf8_bytes room_id) @ u64_be epoch @ publisher_public_key_raw"

definition verify_publisher_key_signature ::
  "(string \<Rightarrow> bytes option) \<Rightarrow> (bytes \<Rightarrow> 'k option) \<Rightarrow> ('k \<Rightarrow> bytes \<Rightarrow> bytes \<Rightarrow> bool) \<Rightarrow>
   string \<Rightarrow> bytes \<Rightarrow> string \<Rightarrow> bool"
where
  "verify_publisher_key_signature b64_decode vk_from_bytes ed_verify identity_pubkey_b64 signing_input signature_b64 =
     (case b64_decode identity_pubkey_b64 of
        None \<Rightarrow> False
      | Some pubkey_bytes \<Rightarrow>
          if length pubkey_bytes \<noteq> 32 then False
          else
            (case vk_from_bytes pubkey_bytes of
               None \<Rightarrow> False
             | Some verifying_key \<Rightarrow>
                 (case b64_decode signature_b64 of
                    None \<Rightarrow> False
                  | Some sig_bytes \<Rightarrow>
                      if length sig_bytes \<noteq> 64 then False
                      else ed_verify verifying_key signing_input sig_bytes)))"

section \<open>Idempotency\<close>

datatype idempotency_outcome = Reserved | Duplicate (dup_response_code: int) | IdempotencyConflict

definition validate_request_id :: "string \<Rightarrow> bool" where
  "validate_request_id request_id \<longleftrightarrow>
     (let trimmed = trim request_id
      in trimmed \<noteq> [] \<and> length trimmed \<le> 128 \<and> list_all (\<lambda>c. 32 \<le> (of_char c :: nat) \<and> of_char c \<le> (126 :: nat)) trimmed)"

text \<open>\<open>stored_code as u16\<close>\<close>

definition check_or_reserve_request_id ::
  "id \<Rightarrow> string \<Rightarrow> string \<Rightarrow> time \<Rightarrow> db \<Rightarrow> (idempotency_outcome \<times> db) option"
where
  "check_or_reserve_request_id bot_id request_id endpoint now db =
     (case List.find (\<lambda>r. bl_bot_id r = bot_id \<and> bl_request_id r = request_id) (bot_request_log db) of
        Some row \<Rightarrow>
          if bl_endpoint row \<noteq> endpoint then Some (IdempotencyConflict, db)
          else if bl_response_code row = 0 then Some (Reserved, db)
          else Some (Duplicate (bl_response_code row mod 2 ^ 16), db)
      | None \<Rightarrow>
          if exists_where (\<lambda>b. b_id b = bot_id) (bot_accounts db)
          then Some (Reserved, db\<lparr>bot_request_log := bot_request_log db @
            [\<lparr>bl_bot_id = bot_id, bl_request_id = request_id, bl_endpoint = endpoint, bl_response_code = 0,
              bl_created_at = current_timestamp now\<rparr>]\<rparr>)
          else None)"

definition record_response_code :: "id \<Rightarrow> string \<Rightarrow> int \<Rightarrow> db \<Rightarrow> db" where
  "record_response_code bot_id request_id response_code db =
     db\<lparr>bot_request_log := update_where (\<lambda>r. bl_bot_id r = bot_id \<and> bl_request_id r = request_id)
          (\<lambda>r. r\<lparr>bl_response_code := response_code\<rparr>) (bot_request_log db)\<rparr>"

section \<open>Durable bot events\<close>

definition allocate_bot_seq :: "db \<Rightarrow> id \<Rightarrow> (int \<times> db) option" where
  "allocate_bot_seq db bot_id =
     (case List.find (\<lambda>r. bq_bot_id r = bot_id) (bot_seq db) of
        Some r \<Rightarrow>
          Some (bq_next_seq r, db\<lparr>bot_seq := update_where (\<lambda>r. bq_bot_id r = bot_id)
            (\<lambda>r. r\<lparr>bq_next_seq := bq_next_seq r + 1\<rparr>) (bot_seq db)\<rparr>)
      | None \<Rightarrow>
          if exists_where (\<lambda>b. b_id b = bot_id) (bot_accounts db)
          then Some (1, db\<lparr>bot_seq := bot_seq db @ [\<lparr>bq_bot_id = bot_id, bq_next_seq = 2\<rparr>]\<rparr>)
          else None)"

definition append_bot_event_log :: "id \<Rightarrow> int \<Rightarrow> string \<Rightarrow> json \<Rightarrow> time \<Rightarrow> db \<Rightarrow> db option" where
  "append_bot_event_log bot_id seq event_type payload now db =
     (if exists_where (\<lambda>b. b_id b = bot_id) (bot_accounts db)
      then map_option (\<lambda>t. db\<lparr>bot_event_log := t\<rparr>)
        (insert_row (\<lambda>e. (be_bot_id e, be_bot_seq e))
          \<lparr>be_bot_id = bot_id, be_bot_seq = seq, be_event_type = event_type, be_payload = payload,
           be_created_at = current_timestamp now\<rparr> (bot_event_log db))
      else None)"

text \<open>\<open>map.insert\<close> replaces an entry of the same name.\<close>

fun json_insert :: "string \<Rightarrow> json \<Rightarrow> json \<Rightarrow> json" where
  "json_insert k v (JObject fs) = JObject (filter (\<lambda>f. fst f \<noteq> k) fs @ [(k, v)])"
| "json_insert k v j = j"

definition prepare_durable_bot_event ::
  "id \<Rightarrow> string \<Rightarrow> json \<Rightarrow> time \<Rightarrow> db \<Rightarrow> ((int \<times> json) \<times> db) option"
where
  "prepare_durable_bot_event bot_id event_type payload now db =
     (case allocate_bot_seq db bot_id of
        None \<Rightarrow> None
      | Some (seq, db1) \<Rightarrow>
          let payload' = json_insert ''bot_seq'' (JInt seq) payload
          in map_option (\<lambda>db2. ((seq, payload'), db2)) (append_bot_event_log bot_id seq event_type payload' now db1))"

section \<open>Posting\<close>

record post_bot_message_req =
  pq_epoch :: int
  pq_ciphertext :: string
  pq_content_type :: string
  pq_signature :: string
  pq_request_id :: "string option"

record post_bot_message_resp =
  pp_message_id :: id
  pp_created_at :: time
  pp_request_id :: "string option"
  pp_idempotent :: "bool option"

datatype bot_message_error =
    BotForbidden
  | BotNotGranted
  | InvalidContentType
  | InvalidCiphertext
  | CiphertextTooLarge
  | InvalidRequestId
  | EpochOutOfWindow
  | SignatureInvalid
  | BotRateLimited time
  | BotRateError rate_limit_error
  | RequestIdConflict
  | BotInternal

definition has_post_grant :: "db \<Rightarrow> id \<Rightarrow> id \<Rightarrow> bool" where
  "has_post_grant db room_id bot_id \<longleftrightarrow>
     exists_where (\<lambda>rb. rb_room_id rb = room_id \<and> rb_bot_id rb = bot_id \<and> rb_revoked_at rb = None)
       (room_bots db) \<and>
     exists_where (\<lambda>s. sc_room_id s = room_id \<and> sc_bot_id s = bot_id \<and> sc_scope s = ''post_message'')
       (room_bot_scopes db)"

definition current_epoch_or_0 :: "db \<Rightarrow> id \<Rightarrow> int" where
  "current_epoch_or_0 db room_id = (case find_epoch db room_id of None \<Rightarrow> 0 | Some e \<Rightarrow> e_epoch e)"

text \<open>Steps 1 to 6, which only read; the result is the decoded ciphertext and the request id.\<close>

definition check_bot_message ::
  "(string \<Rightarrow> bytes option) \<Rightarrow> (bytes \<Rightarrow> 'k option) \<Rightarrow> ('k \<Rightarrow> bytes \<Rightarrow> bytes \<Rightarrow> bool) \<Rightarrow>
   db \<Rightarrow> id \<Rightarrow> id \<Rightarrow> post_bot_message_req \<Rightarrow> bot_message_error + (bytes \<times> string option)"
where
  "check_bot_message b64_decode vk_from_bytes ed_verify db room_id bot_id req =
     (if \<not> has_post_grant db room_id bot_id then Inl BotNotGranted
      else if trim (pq_content_type req) \<noteq> ''bot'' then Inl InvalidContentType
      else if trim (pq_ciphertext req) = [] then Inl InvalidCiphertext
      else
        (case b64_decode (trim (pq_ciphertext req)) of
           None \<Rightarrow> Inl InvalidCiphertext
         | Some decoded \<Rightarrow>
             if decoded = [] then Inl InvalidCiphertext
             else if 65536 < length decoded then Inl CiphertextTooLarge
             else if (case pq_request_id req of None \<Rightarrow> False | Some s \<Rightarrow> \<not> validate_request_id (trim s))
             then Inl InvalidRequestId
             else
               let current_epoch = current_epoch_or_0 db room_id;
                   min_epoch = (if 3 \<le> current_epoch then current_epoch - 3 else 0)
               in if pq_epoch req < min_epoch \<or> current_epoch < pq_epoch req then Inl EpochOutOfWindow
                  else
                    (case List.find (\<lambda>b. b_id b = bot_id \<and> b_deleted_at b = None \<and> b_disabled_at b = None)
                            (bot_accounts db) of
                       None \<Rightarrow> Inl BotNotGranted
                     | Some b \<Rightarrow>
                         if verify_publisher_key_signature b64_decode vk_from_bytes ed_verify
                              (b_bot_identity_pubkey b)
                              (encode_bot_message_signing_input room_id (word_of_int (pq_epoch req))
                                 (pq_content_type req) decoded)
                              (pq_signature req)
                         then Inr (decoded, map_option trim (pq_request_id req))
                         else Inl SignatureInvalid)))"

text \<open>\<open>SELECT COALESCE(MAX(seq), 0) + 1 FROM room_messages WHERE room_id = ?\<close>\<close>

definition next_room_seq :: "db \<Rightarrow> id \<Rightarrow> int" where
  "next_room_seq db room_id =
     (case max_row g_seq (filter (\<lambda>g. g_room_id g = room_id) (room_messages db)) of
        None \<Rightarrow> 1 | Some g \<Rightarrow> g_seq g + 1)"

definition bot_message_row :: "db \<Rightarrow> id \<Rightarrow> id \<Rightarrow> post_bot_message_req \<Rightarrow> bytes \<Rightarrow> id \<Rightarrow> time \<Rightarrow> message_row" where
  "bot_message_row db room_id bot_id req decoded message_id now =
     \<lparr>g_id = message_id, g_room_id = room_id, g_sender_user_id = None, g_sender_bot_id = Some bot_id,
      g_sender_client_id = ''bot'', g_bot_key_leaf_index = current_bot_leaf_index db bot_id,
      g_epoch = pq_epoch req, g_seq = next_room_seq db room_id, g_content_type = pq_content_type req,
      g_ciphertext = decoded, g_reply_to = None, g_target_user_ids = None, g_edit_of = None,
      g_edit_sequence = 0, g_edited_at = None, g_deleted_at = None, g_created_at = current_timestamp now\<rparr>"

definition bot_message_event :: "message_row \<Rightarrow> id \<Rightarrow> event" where
  "bot_message_event g bot_id =
     Event (''private-room-'' @ g_room_id g) ''message.new''
       (JObject [(''id'', JString (g_id g)), (''room_id'', JString (g_room_id g)), (''sender_type'', JString ''bot''),
                 (''sender_id'', JString bot_id), (''sender_client_id'', JString ''bot''), (''epoch'', JInt (g_epoch g)),
                 (''seq'', JInt (g_seq g)), (''content_type'', JString (g_content_type g)),
                 (''bot_key_leaf_index'', (case g_bot_key_leaf_index g of None \<Rightarrow> JNull | Some i \<Rightarrow> JInt i)),
                 (''created_at'', JTime (g_created_at g))])"

text \<open>Steps 8 to 10: the transaction.\<close>

definition insert_bot_message ::
  "id \<Rightarrow> id \<Rightarrow> post_bot_message_req \<Rightarrow> bytes \<Rightarrow> string option \<Rightarrow> id \<Rightarrow> time \<Rightarrow> db \<Rightarrow>
   bot_message_error + (post_bot_message_resp \<times> event list \<times> db)"
where
  "insert_bot_message room_id bot_id req decoded request_id message_id now db =
     (case (case request_id of
              None \<Rightarrow> Some (Reserved, db)
            | Some r \<Rightarrow> check_or_reserve_request_id bot_id r ''bot-messages'' now db) of
        None \<Rightarrow> Inl BotInternal
      | Some (Duplicate code, _) \<Rightarrow>
          Inr (\<lparr>pp_message_id = ''idempotent'', pp_created_at = now, pp_request_id = request_id,
                pp_idempotent = Some True\<rparr>, [], db)
      | Some (IdempotencyConflict, _) \<Rightarrow> Inl RequestIdConflict
      | Some (Reserved, db1) \<Rightarrow>
          let g = bot_message_row db1 room_id bot_id req decoded message_id now
          in (case insert_message g db1 of
                None \<Rightarrow> Inl BotInternal
              | Some db2 \<Rightarrow>
                  Inr (\<lparr>pp_message_id = message_id, pp_created_at = g_created_at g, pp_request_id = request_id,
                        pp_idempotent = None\<rparr>, [bot_message_event g bot_id],
                    (case request_id of None \<Rightarrow> db2 | Some r \<Rightarrow> record_response_code bot_id r 202 db2))))"

text \<open>The rate limit is counted outside the transaction, so it also counts what fails later.\<close>

definition post_bot_message ::
  "(string \<Rightarrow> time \<Rightarrow> string) \<Rightarrow> RateLimitConfig \<Rightarrow> (string \<Rightarrow> bytes option) \<Rightarrow> (bytes \<Rightarrow> 'k option) \<Rightarrow>
   ('k \<Rightarrow> bytes \<Rightarrow> bytes \<Rightarrow> bool) \<Rightarrow> caller_identity \<Rightarrow> id \<Rightarrow> post_bot_message_req \<Rightarrow> id \<Rightarrow> time \<Rightarrow> db \<Rightarrow>
   (bot_message_error + (post_bot_message_resp \<times> event list)) \<times> db"
where
  "post_bot_message fmt config b64_decode vk_from_bytes ed_verify caller room_id req message_id now db =
     (case caller of
        UserCaller _ \<Rightarrow> (Inl BotForbidden, db)
      | BotCaller ctx \<Rightarrow>
          (case check_bot_message b64_decode vk_from_bytes ed_verify db room_id (bx_bot_id ctx) req of
             Inl e \<Rightarrow> (Inl e, db)
           | Inr (decoded, request_id) \<Rightarrow>
               (case rate_check fmt config (BotMessage (bx_bot_id ctx)) now db of
                  Inl e \<Rightarrow> (Inl (BotRateError e), db)
                | Inr (decision, db1) \<Rightarrow>
                    if \<not> rd_allowed decision then (Inl (BotRateLimited (rd_reset_at decision)), db1)
                    else
                      (case insert_bot_message room_id (bx_bot_id ctx) req decoded request_id message_id now db1 of
                         Inl e \<Rightarrow> (Inl e, db1)
                       | Inr (resp, events, db2) \<Rightarrow> (Inr (resp, events), db2)))))"

end
