(* ===== verification/BotProps.thy ===== *)
theory BotProps
  imports BotMessages
begin

text \<open>
  What the bot endpoints promise: unambiguous signatures, at most one message per request id,
  consecutive event numbers, and how the numbers of bot messages meet those of user messages.
\<close>

section \<open>Signing inputs\<close>

lemma be_bytes_inject:
  fixes v w :: "'a::len word"
  assumes "map (\<lambda>i. ucast (drop_bit (8 * (k - Suc i)) v) :: byte) [0..<k] =
      map (\<lambda>i. ucast (drop_bit (8 * (k - Suc i)) w)) [0..<k]"
    and "LENGTH('a) = 8 * k"
  shows "v = w"
proof (rule bit_word_eqI)
  fix n
  assume n: "n < LENGTH('a)"
  define i where "i = k - Suc (n div 8)"
  have i: "i < k" "k - Suc i = n div 8" using n assms(2) by (auto simp: i_def)
  have "(ucast (drop_bit (8 * (k - Suc i)) v) :: byte) = ucast (drop_bit (8 * (k - Suc i)) w)"
    using arg_cong[OF assms(1), of "\<lambda>xs. xs ! i"] i(1) by (simp del: upt_Suc)
  then have "bit (ucast (drop_bit (8 * (n div 8)) v) :: byte) (n mod 8) =
      bit (ucast (drop_bit (8 * (n div 8)) w) :: byte) (n mod 8)" unfolding i(2) by simp
  then show "bit v n = bit w n" by (simp add: bit_ucast_iff bit_drop_bit_eq)
qed

lemma u32_be_inject: "u32_be v = u32_be w \<longleftrightarrow> v = w"
  using be_bytes_inject[of 4 v w] by (auto simp: u32_be_def)

lemma u64_be_inject: "u64_be v = u64_be w \<longleftrightarrow> v = w"
  using be_bytes_inject[of 8 v w] by (auto simp: u64_be_def)

lemma length_u32_be [simp]: "length (u32_be w) = 4" and length_u64_be [simp]: "length (u64_be v) = 8"
  by (simp_all add: u32_be_def u64_be_def)

lemma framed_inject:
  assumes "length xs < 2 ^ 32" and "length ys < 2 ^ 32"
  shows "framed xs @ xs' = framed ys @ ys' \<longleftrightarrow> xs = ys \<and> xs' = ys'"
proof
  assume eq: "framed xs @ xs' = framed ys @ ys'"
  then have "u32_be (word_of_nat (length xs)) = u32_be (word_of_nat (length ys))" and rest: "xs @ xs' = ys @ ys'"
    by (simp_all add: framed_def append_eq_append_conv)
  then have "unat (word_of_nat (length xs) :: 32 word) = unat (word_of_nat (length ys) :: 32 word)"
    by (simp add: u32_be_inject)
  then have "length xs = length ys"
    using assms by (simp only: unsigned_of_nat) (simp add: take_bit_nat_eq_self)
  with rest show "xs = ys \<and> xs' = ys'" by simp
qed simp

text \<open>
  C27. What a bot signs determines the message: two messages whose texts are shorter than 4 GiB
  have the same signing input only if room, epoch, content type and ciphertext all agree, so a
  signature cannot be moved to another room, epoch or text.
\<close>

theorem bot_signing_input_injective:
  assumes "\<forall>n \<in> {length r, length r', length t, length t', length c, length c'}. n < 2 ^ 32"
    and "encode_bot_message_signing_input r e t c = encode_bot_message_signing_input r' e' t' c'"
  shows "r = r' \<and> e = e' \<and> t = t' \<and> c = c'"
proof -
  have f: "r = r'" "u64_be e @ framed (utf8_bytes t) @ framed c = u64_be e' @ framed (utf8_bytes t') @ framed c'"
    using assms by (simp_all add: encode_bot_message_signing_input_def framed_inject)
  then have "u64_be e = u64_be e'" "framed (utf8_bytes t) @ framed c = framed (utf8_bytes t') @ framed c'"
    by (simp_all add: append_eq_append_conv)
  then show ?thesis
    using f assms(1) framed_inject[of c c' "[]" "[]"] by (simp add: framed_inject u64_be_inject)
qed

theorem bot_signing_input_injective_witness:
  "encode_bot_message_signing_input ''r'' 1 ''bot'' [7] \<noteq> encode_bot_message_signing_input ''r'' 2 ''bot'' [7]"
  using bot_signing_input_injective[of "''r''" "''r''" "''bot''" "''bot''" "[7]" "[7]" 1 2] by auto

text \<open>The input of a publisher key has no tag, so it can be that of a short bot message.\<close>

lemma signing_inputs_overlap:
  "encode_publisher_key_signing_input r e (framed (utf8_bytes ''bot'') @ framed c) =
     encode_bot_message_signing_input r e ''bot'' c"
  by (simp add: encode_publisher_key_signing_input_def encode_bot_message_signing_input_def)

section \<open>Event numbers\<close>

definition highest_bot_seq :: "db \<Rightarrow> id \<Rightarrow> int" where
  "highest_bot_seq db bot_id =
     (case List.find (\<lambda>r. bq_bot_id r = bot_id) (bot_seq db) of None \<Rightarrow> 0 | Some r \<Rightarrow> bq_next_seq r - 1)"

interpretation bot_seq_alloc: sequence_allocator allocate_bot_seq highest_bot_seq
proof unfold_locales
  fix db k n db' j
  assume a: "allocate_bot_seq db k = Some (n, db')"
  show "n = highest_bot_seq db k + 1"
    using a by (auto simp: allocate_bot_seq_def highest_bot_seq_def split: option.splits if_splits)
  have upd: "List.find (\<lambda>r. bq_bot_id r = j) (update_where (\<lambda>r. bq_bot_id r = k)
      (\<lambda>r. r\<lparr>bq_next_seq := bq_next_seq r + 1\<rparr>) t) =
      map_option (\<lambda>r. if bq_bot_id r = k then r\<lparr>bq_next_seq := bq_next_seq r + 1\<rparr> else r)
        (List.find (\<lambda>r. bq_bot_id r = j) t)" for t :: "bot_seq_row list"
    by (rule find_update_where) simp
  show "highest_bot_seq db' j = (if j = k then n else highest_bot_seq db j)"
    using a upd
    by (auto simp: allocate_bot_seq_def highest_bot_seq_def find_append
        split: option.splits if_splits dest: find_SomeD)
qed

text \<open>A run of durable events, each for one bot.\<close>

fun prepare_bot_events :: "(id \<times> string \<times> json) list \<Rightarrow> time \<Rightarrow> db \<Rightarrow> ((id \<times> int) list \<times> db) option" where
  "prepare_bot_events [] now db = Some ([], db)"
| "prepare_bot_events ((b, t, p) # evs) now db =
     (case prepare_durable_bot_event b t p now db of
        None \<Rightarrow> None
      | Some ((n, _), db1) \<Rightarrow> map_option (\<lambda>(ns, db2). ((b, n) # ns, db2)) (prepare_bot_events evs now db1))"

definition bot_log :: "db \<Rightarrow> id \<Rightarrow> int list" where
  "bot_log db b = map be_bot_seq (filter (\<lambda>e. be_bot_id e = b) (bot_event_log db))"

definition bot_logs_ok :: "db \<Rightarrow> bool" where
  "bot_logs_ok db \<longleftrightarrow> (\<forall>b. bot_log db b = [1 .. highest_bot_seq db b] \<and> 0 \<le> highest_bot_seq db b)"

lemma prepare_step:
  assumes "bot_logs_ok db" and "exists_where (\<lambda>b. b_id b = bot_id) (bot_accounts db)"
  shows "\<exists>db' payload. prepare_durable_bot_event bot_id t p now db =
      Some ((highest_bot_seq db bot_id + 1, payload), db') \<and>
    bot_logs_ok db' \<and> bot_accounts db' = bot_accounts db \<and>
    (\<forall>b. highest_bot_seq db' b = highest_bot_seq db b + (if b = bot_id then 1 else 0))"
proof -
  have "allocate_bot_seq db bot_id \<noteq> None"
    using assms(2) by (simp add: allocate_bot_seq_def del: exists_where_iff split: option.splits)
  then obtain n db1 where a: "allocate_bot_seq db bot_id = Some (n, db1)" by fastforce
  have n: "n = highest_bot_seq db bot_id + 1" by (rule bot_seq_alloc.alloc_next[OF a])
  have h: "highest_bot_seq db1 b = (if b = bot_id then n else highest_bot_seq db b)" for b
    by (rule bot_seq_alloc.alloc_high[OF a])
  obtain tab where db1: "db1 = db\<lparr>bot_seq := tab\<rparr>"
    using a by (auto simp: allocate_bot_seq_def split: option.splits if_splits)
  have "(bot_id, n) \<notin> (\<lambda>e. (be_bot_id e, be_bot_seq e)) ` set (bot_event_log db)"
  proof
    assume "(bot_id, n) \<in> (\<lambda>e. (be_bot_id e, be_bot_seq e)) ` set (bot_event_log db)"
    then have "n \<in> set (bot_log db bot_id)" by (auto simp: bot_log_def)
    then show False using assms(1) n by (auto simp: bot_logs_ok_def)
  qed
  then obtain e where ins: "append_bot_event_log bot_id n t (json_insert ''bot_seq'' (JInt n) p) now db1 =
      Some (db1\<lparr>bot_event_log := bot_event_log db @ [e]\<rparr>)" and e: "be_bot_id e = bot_id" "be_bot_seq e = n"
    using assms(2) by (auto simp: append_bot_event_log_def insert_row_def db1)
  let ?db' = "db1\<lparr>bot_event_log := bot_event_log db @ [e]\<rparr>"
  have high: "highest_bot_seq ?db' b = highest_bot_seq db1 b" for b by (simp add: highest_bot_seq_def)
  have "bot_log ?db' b = bot_log db b @ (if b = bot_id then [n] else [])" for b
    using e by (simp add: bot_log_def)
  with assms(1) h n high have "bot_logs_ok ?db'" by (auto simp: bot_logs_ok_def upto_rec2)
  with a ins h n high show ?thesis
    by (auto simp: prepare_durable_bot_event_def Let_def db1)
qed


section \<open>Posting a message\<close>

lemma insert_messageD:
  "insert_message g db = Some db' \<Longrightarrow> db' = db\<lparr>room_messages := room_messages db @ [g]\<rparr>"
  using insert_message_rows by blast

lemma reserveD:
  assumes "check_or_reserve_request_id b r ep now db = Some (out, db')"
  shows "\<exists>t. db' = db\<lparr>bot_request_log := t\<rparr>"
  using assms unfolding check_or_reserve_request_id_def
  by (cases "List.find (\<lambda>x. bl_bot_id x = b \<and> bl_request_id x = r) (bot_request_log db)")
    (auto split: if_splits intro: exI[of _ "bot_request_log db"])

lemma insert_bot_messageE:
  assumes "insert_bot_message room b req decoded rid i now db = Inr (resp, evs, db')"
  obtains (duplicate) "pp_idempotent resp = Some True" "evs = []" "db' = db"
    | (inserted) g tab where "pp_idempotent resp = None" "pp_message_id resp = i"
      "g = bot_message_row db room b req decoded i now" "evs = [bot_message_event g b]"
      "db' = db\<lparr>bot_request_log := tab, room_messages := room_messages db @ [g]\<rparr>"
      "i \<notin> g_id ` set (room_messages db)"
proof -
  let ?out = "case rid of None \<Rightarrow> Some (Reserved, db) | Some r \<Rightarrow> check_or_reserve_request_id b r ''bot-messages'' now db"
  obtain out db1 where out: "?out = Some (out, db1)"
    using assms unfolding insert_bot_message_def by (cases ?out) auto
  obtain tab where db1: "db1 = db\<lparr>bot_request_log := tab\<rparr>"
  proof (cases rid)
    case None
    with out that[of "bot_request_log db"] show thesis by simp
  next
    case (Some r)
    with out reserveD[of b r _ now db out db1] that show thesis by auto
  qed
  show ?thesis
  proof (cases out)
    case Reserved
    let ?g = "bot_message_row db1 room b req decoded i now"
    have g: "?g = bot_message_row db room b req decoded i now"
      by (simp add: bot_message_row_def db1 next_room_seq_def current_bot_leaf_index_def)
    obtain db2 where ins: "insert_message ?g db1 = Some db2"
      using assms out Reserved unfolding insert_bot_message_def by (cases "insert_message ?g db1") auto
    note rows = insert_message_rows[OF ins]
    have db': "db' = (case rid of None \<Rightarrow> db2 | Some r \<Rightarrow> record_response_code b r 202 db2)"
      and r: "pp_idempotent resp = None" "pp_message_id resp = i" "evs = [bot_message_event ?g b]"
      using assms out Reserved ins unfolding insert_bot_message_def by (auto simp: Let_def)
    have "\<exists>t. db' = db\<lparr>bot_request_log := t, room_messages := room_messages db @ [?g]\<rparr>"
    proof (cases rid)
      case None
      with rows db' show ?thesis by (intro exI[of _ tab]) (simp add: db1)
    next
      case (Some r)
      with rows db' show ?thesis
        by (intro exI[of _ "update_where (\<lambda>x. bl_bot_id x = b \<and> bl_request_id x = r)
            (\<lambda>x. x\<lparr>bl_response_code := 202\<rparr>) tab"]) (cases db, simp add: record_response_code_def db1)
    qed
    moreover have "i \<notin> g_id ` set (room_messages db)" using rows by (simp add: bot_message_row_def db1)
    ultimately show ?thesis using inserted[OF r(1,2) g] r(3) by blast
  next
    case (Duplicate c)
    with assms out duplicate show ?thesis unfolding insert_bot_message_def by auto
  next
    case IdempotencyConflict
    with assms out show ?thesis unfolding insert_bot_message_def by auto
  qed
qed

text \<open>A post is refused, at most counted, or its transaction ran.\<close>

lemma post_cases:
  assumes "post_bot_message fmt config dec vk ver caller room req i now db = (res, db')"
  obtains (refused) e rates where "res = Inl e" "db' = db\<lparr>rate_limits := rates\<rparr>"
    | (ran) ctx decoded rid rates resp evs where "caller = BotCaller ctx"
      "check_bot_message dec vk ver db room (bx_bot_id ctx) req = Inr (decoded, rid)"
      "insert_bot_message room (bx_bot_id ctx) req decoded rid i now (db\<lparr>rate_limits := rates\<rparr>) = Inr (resp, evs, db')"
      "res = Inr (resp, evs)"
proof (cases caller)
  case (UserCaller u)
  with assms refused[of _ "rate_limits db"] show ?thesis by (auto simp: post_bot_message_def)
next
  case (BotCaller ctx)
  let ?b = "bx_bot_id ctx"
  show ?thesis
  proof (cases "check_bot_message dec vk ver db room ?b req")
    case (Inl e)
    with BotCaller assms refused[of _ "rate_limits db"] show ?thesis by (auto simp: post_bot_message_def)
  next
    case (Inr p)
    then obtain decoded rid where c: "check_bot_message dec vk ver db room ?b req = Inr (decoded, rid)" by (cases p) auto
    show ?thesis
    proof (cases "rate_check fmt config (BotMessage ?b) now db")
      case (Inl e)
      with BotCaller c assms refused[of _ "rate_limits db"] show ?thesis by (auto simp: post_bot_message_def)
    next
      case (Inr q)
      then obtain d db1 where r: "rate_check fmt config (BotMessage ?b) now db = Inr (d, db1)" by (cases q) auto
      from rate_check_frame[OF r] obtain rates where db1: "db1 = db\<lparr>rate_limits := rates\<rparr>" by blast
      show ?thesis
      proof (cases "rd_allowed d")
        case False
        with BotCaller c r assms db1 refused show ?thesis by (auto simp: post_bot_message_def)
      next
        case True
        show ?thesis
        proof (cases "insert_bot_message room ?b req decoded rid i now db1")
          case (Inl e)
          with True BotCaller c r assms db1 refused show ?thesis by (auto simp: post_bot_message_def)
        next
          case (Inr x)
          obtain resp evs db2 where x: "x = (resp, evs, db2)" by (cases x)
          have "db' = db2" "res = Inr (resp, evs)"
            using Inr x True BotCaller c r assms by (auto simp: post_bot_message_def)
          with ran[OF BotCaller c, of rates resp evs] Inr x db1 show ?thesis by simp
        qed
      qed
    qed
  qed
qed

text \<open>The same for the table of messages: nothing, or one new row.\<close>

lemma post_bot_messageE:
  assumes "post_bot_message fmt config dec vk ver caller room req i now db = (res, db')"
  obtains (nothing) "room_messages db' = room_messages db" "room_epochs db' = room_epochs db"
      "\<And>resp evs. res = Inr (resp, evs) \<Longrightarrow> pp_idempotent resp = Some True \<and> evs = []"
    | (inserted) ctx decoded rid resp g rates tab where "caller = BotCaller ctx"
      "check_bot_message dec vk ver db room (bx_bot_id ctx) req = Inr (decoded, rid)"
      "g = bot_message_row db room (bx_bot_id ctx) req decoded i now"
      "res = Inr (resp, [bot_message_event g (bx_bot_id ctx)])" "pp_idempotent resp = None" "pp_message_id resp = i"
      "db' = db\<lparr>rate_limits := rates, bot_request_log := tab, room_messages := room_messages db @ [g]\<rparr>"
      "i \<notin> g_id ` set (room_messages db)"
  using assms
proof (cases rule: post_cases)
  case (refused e rates)
  then show ?thesis by - (rule nothing, auto)
next
  case (ran ctx decoded rid rates resp evs)
  from ran(3) show ?thesis
  proof (cases rule: insert_bot_messageE)
    case duplicate
    with ran(4) show ?thesis by - (rule nothing, auto)
  next
    case (inserted g tab)
    moreover have "bot_message_row (db\<lparr>rate_limits := rates\<rparr>) room (bx_bot_id ctx) req decoded i now =
        bot_message_row db room (bx_bot_id ctx) req decoded i now"
      by (simp add: bot_message_row_def next_room_seq_def current_bot_leaf_index_def)
    ultimately show ?thesis
      using ran by (intro that(2)[where g = g and resp = resp and rates = rates and tab = tab]) simp_all
  qed
qed

lemma next_room_seq_greater:
  "h \<in> set (room_messages db) \<Longrightarrow> g_room_id h = r \<Longrightarrow> g_seq h < next_room_seq db r"
  unfolding next_room_seq_def by (auto split: option.splits simp: filter_empty_conv dest!: max_row_SomeD)


section \<open>One message per request id\<close>

definition logged :: "id \<Rightarrow> string \<Rightarrow> db \<Rightarrow> bool" where
  "logged b r db \<longleftrightarrow>
     (\<exists>row. List.find (\<lambda>x. bl_bot_id x = b \<and> bl_request_id x = r) (bot_request_log db) = Some row \<and>
        bl_endpoint row = ''bot-messages'' \<and> bl_response_code row = 202)"

lemma log_find_record:
  "List.find (\<lambda>x. bl_bot_id x = b \<and> bl_request_id x = r) (bot_request_log (record_response_code b' r' c db)) =
     map_option (\<lambda>x. if b' = b \<and> r' = r then x\<lparr>bl_response_code := c\<rparr> else x)
       (List.find (\<lambda>x. bl_bot_id x = b \<and> bl_request_id x = r) (bot_request_log db))"
proof -
  have "List.find (\<lambda>x. bl_bot_id x = b \<and> bl_request_id x = r) (bot_request_log (record_response_code b' r' c db)) =
     map_option (\<lambda>x. if bl_bot_id x = b' \<and> bl_request_id x = r' then x\<lparr>bl_response_code := c\<rparr> else x)
       (List.find (\<lambda>x. bl_bot_id x = b \<and> bl_request_id x = r) (bot_request_log db))"
    by (simp add: record_response_code_def find_update_where)
  then show ?thesis
    by (cases "List.find (\<lambda>x. bl_bot_id x = b \<and> bl_request_id x = r) (bot_request_log db)")
      (auto dest: find_SomeD)
qed

lemma logged_record: "logged b r db \<Longrightarrow> logged b r (record_response_code b' r' 202 db)"
  unfolding logged_def log_find_record by (cases "b' = b \<and> r' = r") auto

lemma reserve_logged:
  assumes "check_or_reserve_request_id b' r' ''bot-messages'' now db = Some (out, db')"
  shows "(logged b r db \<longrightarrow> logged b r db' \<and> (b' = b \<and> r' = r \<longrightarrow> out = Duplicate 202)) \<and>
    (out = Reserved \<longrightarrow> logged b' r' (record_response_code b' r' 202 db'))"
proof (cases "List.find (\<lambda>x. bl_bot_id x = b' \<and> bl_request_id x = r') (bot_request_log db)")
  case None
  have "find p xs = Some y \<Longrightarrow> List.find p (xs @ ys) = Some y" for p and xs ys :: "bot_request_row list" and y
    by (simp add: find_append)
  with None assms show ?thesis
    unfolding check_or_reserve_request_id_def logged_def log_find_record
    by (auto simp: find_append split: if_splits)
next
  case (Some row)
  with assms show ?thesis
    unfolding check_or_reserve_request_id_def logged_def log_find_record
    by (auto split: if_splits)
qed

lemma logged_frame: "bot_request_log db' = bot_request_log db \<Longrightarrow> logged b r db' = logged b r db"
  by (simp add: logged_def)

lemma insert_logged:
  assumes "insert_bot_message room b' req decoded rid i now db = Inr (resp, evs, db')"
  shows "(logged b r db \<longrightarrow> logged b r db' \<and> (b' = b \<and> rid = Some r \<longrightarrow> db' = db)) \<and>
    (pp_idempotent resp = None \<and> rid = Some r \<longrightarrow> logged b' r db')"
proof (cases rid)
  case None
  with assms show ?thesis
    by (auto simp: insert_bot_message_def Let_def logged_def dest!: insert_messageD split: option.splits)
next
  case (Some q)
  obtain out db1 where c: "check_or_reserve_request_id b' q ''bot-messages'' now db = Some (out, db1)"
    using assms Some by (auto simp: insert_bot_message_def split: option.splits)
  note res = reserve_logged[OF c, of b r] reserve_logged[OF c, of b' q]
  show ?thesis
  proof (cases out)
    case Reserved
    then obtain db2 where ins: "insert_message (bot_message_row db1 room b' req decoded i now) db1 = Some db2"
      and db': "db' = record_response_code b' q 202 db2" and "pp_idempotent resp = None"
      using assms Some c by (auto simp: insert_bot_message_def Let_def split: option.splits)
    have log2: "bot_request_log db2 = bot_request_log db1" using insert_messageD[OF ins] by simp
    have new: "logged b' q db'"
    proof -
      have "logged b' q (record_response_code b' q 202 db1)" using res(2) Reserved by blast
      then show ?thesis unfolding db' by (simp add: logged_def record_response_code_def log2)
    qed
    have old: "logged b r db \<Longrightarrow> logged b r db' \<and> (b', q) \<noteq> (b, r)"
      using res(1) Reserved logged_record logged_frame[OF log2] unfolding db' by fastforce
    from new old Some show ?thesis by auto
  next
    case (Duplicate code)
    then have "db' = db" "pp_idempotent resp = Some True"
      using assms Some c by (auto simp: insert_bot_message_def)
    then show ?thesis by simp
  next
    case IdempotencyConflict
    with assms Some c show ?thesis by (auto simp: insert_bot_message_def)
  qed
qed

lemma post_logged:
  assumes "post_bot_message fmt config dec vk ver caller room req i now db = (res, db')"
  shows "(logged b r db \<longrightarrow> logged b r db' \<and>
      ((\<exists>ctx. caller = BotCaller ctx \<and> bx_bot_id ctx = b) \<and> map_option trim (pq_request_id req) = Some r \<longrightarrow>
         room_messages db' = room_messages db)) \<and>
    (\<forall>ctx resp evs. caller = BotCaller ctx \<longrightarrow> res = Inr (resp, evs) \<longrightarrow> pp_idempotent resp = None \<longrightarrow>
       map_option trim (pq_request_id req) = Some r \<longrightarrow> logged (bx_bot_id ctx) r db')"
  using assms
proof (cases rule: post_cases)
  case (refused e rates)
  then show ?thesis by (auto simp: logged_def)
next
  case (ran ctx decoded rid rates resp evs)
  have rid: "rid = map_option trim (pq_request_id req)"
    using ran(2) by (auto simp: check_bot_message_def Let_def split: if_splits option.splits)
  from insert_logged[OF ran(3), of b r] insert_logged[OF ran(3), of "bx_bot_id ctx" r] ran(1,4) rid show ?thesis
    by (auto simp: logged_def)
qed

inductive bot_post_step ::
  "(string \<Rightarrow> time \<Rightarrow> string) \<Rightarrow> RateLimitConfig \<Rightarrow> (string \<Rightarrow> bytes option) \<Rightarrow> (bytes \<Rightarrow> 'k option) \<Rightarrow>
   ('k \<Rightarrow> bytes \<Rightarrow> bytes \<Rightarrow> bool) \<Rightarrow> db \<Rightarrow> db \<Rightarrow> bool"
  for fmt config dec vk ver where
  post: "post_bot_message fmt config dec vk ver caller room req i now db = (res, db') \<Longrightarrow>
     bot_post_step fmt config dec vk ver db db'"


section \<open>Bot numbers meet user numbers\<close>

text \<open>
  A bot message does not advance the counter of the room, so the next message of a user
  gets the number the bot message has: two messages with one position in the log.  A member
  who has the bot message and asks for what comes after it never gets the user's message.
\<close>

theorem bot_number_collides:
  assumes "post_bot_message fmt config dec vk ver caller room req b now db = (Inr (resp, evs), db1)"
    and "pp_idempotent resp = None" and "find_epoch db room = Some e" and "pq_epoch req = e_epoch e"
    and "next_room_seq db room = e_sequence e + 1"
    and "submit_message ids sreq i now' db1 = Inr (out, db2)" and "sq_room_id sreq = room"
    and "sq_content_type sreq \<noteq> ContentCommit"
  shows "\<exists>g h. g \<in> set (room_messages db2) \<and> h \<in> set (room_messages db2) \<and> g_id g = b \<and> g_id h = i \<and> b \<noteq> i \<and>
    message_key g = message_key h \<and>
    (\<forall>q page. lq_room_id q = room \<longrightarrow> lq_since q = Some \<lparr>mc_epoch = g_epoch g, mc_seq = g_seq g\<rparr> \<longrightarrow>
      list_messages parse b64 db2 q = Inr page \<longrightarrow> i \<notin> mv_id ` set (lm_messages page))"
  using assms(1)
proof (cases rule: post_bot_messageE)
  case nothing
  then show ?thesis using assms(2) by auto
next
  case (inserted ctx decoded rid resp' g rates tab)
  have g: "g_id g = b" "g_epoch g = e_epoch e" "g_seq g = e_sequence e + 1"
    using assms(4,5) by (simp_all add: inserted(3) bot_message_row_def)
  have ep: "find_epoch db1 room = Some e" using assms(3) by (simp add: inserted(7) find_epoch_def)
  obtain e' seq reply targets f where s: "find_epoch db1 (sq_room_id sreq) = Some e'"
    and db2: "db2 = set_epoch (sq_room_id sreq) f
       (db1\<lparr>room_messages := room_messages db1 @ [message_row_of sreq i (e_epoch e') seq reply targets now']\<rparr>)"
    and fresh: "i \<notin> g_id ` set (room_messages db1)"
    and seq: "seq = e_sequence e' + 1"
    using assms(6,8) by (elim submit_messageE) auto
  let ?h = "message_row_of sreq i (e_epoch e') seq reply targets now'"
  have e': "e' = e" using s ep assms(7) by simp
  have rows: "room_messages db2 = room_messages db @ [g, ?h]" by (simp add: db2 inserted(7))
  have h: "g_id ?h = i" "message_key ?h = message_key g"
    by (simp_all add: message_row_of_def message_key_def g e' seq)
  have ne: "b \<noteq> i" using fresh g(1) by (auto simp: inserted(7))
  have only: "x = ?h" if "x \<in> set (room_messages db2)" "g_id x = i" for x
    using that fresh by (auto simp: rows inserted(7))
  have missed: "i \<notin> mv_id ` set (lm_messages page)"
    if q: "lq_since q = Some \<lparr>mc_epoch = g_epoch g, mc_seq = g_seq g\<rparr>" "list_messages parse b64 db2 q = Inr page"
    for q page
  proof
    assume "i \<in> mv_id ` set (lm_messages page)"
    then obtain v where "v \<in> set (lm_messages page)" "mv_id v = i" by blast
    from q(2) this(1) obtain m x where x: "x \<in> set (page_rows db2 q)" "v = message_view parse b64 m x"
      by (rule listed_views)
    then have "x \<in> set (room_messages db2)" "(g_epoch g, g_seq g) < message_key x"
      using q(1) by (auto simp: page_rows_def dest!: in_set_takeD)
    moreover have "g_id x = i" using x(2) \<open>mv_id v = i\<close> by (simp add: message_view_def)
    ultimately show False using only[of x] h(2) by (simp add: message_key_def less_prod_def)
  qed
  show ?thesis
    by (rule exI[of _ g], rule exI[of _ ?h]) (use rows g(1) h ne missed in auto)
qed

section \<open>Examples\<close>

definition bot_example_db :: db where
  "bot_example_db = room_example_db\<lparr>
     bot_accounts := [\<lparr>b_id = ''bot1'', b_display_name = ''B'', b_avatar_file_id = None,
       b_bot_identity_pubkey = ''ik'', b_bot_command_pubkey = ''ck'', b_identity_pubkey = ''pk'',
       b_owner_user_id = ''a'', b_declarations = None, b_created_at = 0, b_disabled_at = None, b_deleted_at = None\<rparr>],
     room_bots := [\<lparr>rb_room_id = ''r'', rb_bot_id = ''bot1'', rb_mode = ''member'', rb_granted_by = ''u'', rb_granted_at = 0, rb_revoked_at = None\<rparr>],
     room_bot_scopes := [\<lparr>sc_room_id = ''r'', sc_bot_id = ''bot1'', sc_scope = ''post_message''\<rparr>]\<rparr>"

definition bot_example_ctx :: bot_auth_ctx where
  "bot_example_ctx = \<lparr>bx_token_id = ''t'', bx_bot_id = ''bot1'', bx_owner_user_id = ''a'', bx_display_name = ''B'',
     bx_avatar_file_id = None\<rparr>"

definition bot_example_req :: "string option \<Rightarrow> post_bot_message_req" where
  "bot_example_req rid = \<lparr>pq_epoch = 0, pq_ciphertext = ''x'', pq_content_type = ''bot'', pq_signature = ''s'',
     pq_request_id = rid\<rparr>"

definition bot_example_config :: RateLimitConfig where
  "bot_example_config = RateLimitConfig.make 2 2 2 2 2 2 2 24 2 2 2 2 2 2 2 2 2 2 2 2 2 2 2 2 2 2 2 2 2 2 2 2 2 2 2 2 2 2 2 2 2 2 2 2"

text \<open>A decoder and a signature scheme for the example: a text of one letter is 32 bytes, any other 64.\<close>

definition toy_decode :: "string \<Rightarrow> bytes option" where
  "toy_decode s = Some (replicate (if s = ''s'' then 64 else 32) 7)"

definition toy_post :: "string option \<Rightarrow> id \<Rightarrow> db \<Rightarrow> (bot_message_error + (post_bot_message_resp \<times> event list)) \<times> db" where
  "toy_post rid i db = post_bot_message (\<lambda>_ _. []) bot_example_config toy_decode Some (\<lambda>_ _ _. True)
     (BotCaller bot_example_ctx) ''r'' (bot_example_req rid) i 0 db"

definition toy_ok :: "(bot_message_error + (post_bot_message_resp \<times> event list)) \<times> db \<Rightarrow> bool" where
  "toy_ok x = (case fst x of Inl _ \<Rightarrow> False | Inr (resp, _) \<Rightarrow> pp_idempotent resp = None)"

lemma toy_texts: "trim ''bot'' = ''bot''" "trim ''x'' = ''x''" "trim ''q'' = ''q''" "validate_request_id ''q''"
  by code_simp+

lemma toy_check:
  assumes "rid \<in> {None, Some ''q''}"
  shows "check_bot_message toy_decode Some (\<lambda>_ _ _. True) bot_example_db ''r'' ''bot1'' (bot_example_req rid) =
    Inr (replicate 32 7, rid)"
proof -
  have "has_post_grant bot_example_db ''r'' ''bot1''" by (simp add: has_post_grant_def bot_example_db_def)
  moreover have "current_epoch_or_0 bot_example_db ''r'' = 0"
    by (simp add: current_epoch_or_0_def find_epoch_def bot_example_db_def room_example_db_def)
  moreover have "verify_publisher_key_signature toy_decode Some (\<lambda>_ _ _. True) ''ik'' m ''s''" for m
    by (simp add: verify_publisher_key_signature_def toy_decode_def)
  moreover have "toy_decode ''x'' = Some (replicate 32 7)" "replicate 32 (7::byte) \<noteq> []" by (simp_all add: toy_decode_def)
  ultimately show ?thesis
    using assms unfolding check_bot_message_def Let_def
    by (auto simp: bot_example_req_def toy_texts bot_example_db_def)
qed

lemma toy_post_ok:
  assumes "rid \<in> {None, Some ''q''}"
  shows "toy_ok (toy_post rid ''b1'' bot_example_db)"
proof -
  have "\<not> isl (rate_check (\<lambda>_ _. []) bot_example_config (BotMessage ''bot1'') 0 bot_example_db)"
    by (simp add: rate_check_def dated_minute_def Let_def split_beta)
  then obtain d db1 where r: "rate_check (\<lambda>_ _. []) bot_example_config (BotMessage ''bot1'') 0 bot_example_db = Inr (d, db1)"
    using not_isl_pair by blast
  then obtain rates where db1: "db1 = bot_example_db\<lparr>rate_limits := rates\<rparr>" using rate_check_frame by blast
  have "rd_allowed d"
    using r by (auto simp: rate_check_def dated_minute_def windowed_def compute_window_def Let_def bump_def
        bot_example_db_def room_example_db_def empty_db_def bot_example_config_def RateLimitConfig.make_def)
  moreover obtain resp evs db2 where "insert_bot_message ''r'' ''bot1'' (bot_example_req rid) (replicate 32 7) rid ''b1'' 0 db1 =
      Inr (resp, evs, db2)" "pp_idempotent resp = None"
    using assms unfolding db1
    by (auto simp: insert_bot_message_def check_or_reserve_request_id_def Let_def insert_message_def insert_row_def
        bot_message_row_def bot_example_req_def bot_example_db_def room_example_db_def empty_db_def room_exists_def
        new_room_row_def)
  ultimately show ?thesis
    using toy_check[OF assms] r by (simp add: toy_ok_def toy_post_def post_bot_message_def bot_example_ctx_def)
qed

lemma toy_postE:
  assumes "toy_ok (toy_post rid i db)"
  obtains resp evs db' where "toy_post rid i db = (Inr (resp, evs), db')" "pp_idempotent resp = None"
  using assms by (cases "toy_post rid i db") (auto simp: toy_ok_def split: sum.splits)




theorem bot_number_collides_witness:
  "\<exists>db1 out db2. snd (toy_post None ''b1'' bot_example_db) = db1 \<and>
     submit_message (\<lambda>_. []) (app_request ''a'' 0) ''m1'' 0 db1 = Inr (out, db2) \<and>
     (\<exists>g h. g \<in> set (room_messages db2) \<and> h \<in> set (room_messages db2) \<and> g_id g \<noteq> g_id h \<and>
        message_key g = message_key h)"
proof -
  obtain resp evs db1 where p: "toy_post None ''b1'' bot_example_db = (Inr (resp, evs), db1)"
      "pp_idempotent resp = None" by (rule toy_postE[OF toy_post_ok[of None]]) simp
  from p obtain g rates tab where db1: "db1 = bot_example_db\<lparr>rate_limits := rates, bot_request_log := tab,
      room_messages := room_messages bot_example_db @ [g]\<rparr>" and "g_id g = ''b1''"
    unfolding toy_post_def by (elim post_bot_messageE) (auto simp: bot_message_row_def)
  then obtain out db2 where s: "submit_message (\<lambda>_. []) (app_request ''a'' 0) ''m1'' 0 db1 = Inr (out, db2)"
    by (auto simp: submit_message_def submit_application_def app_request_def check_reply_to_def find_epoch_def is_member_def
        insert_message_def insert_row_def message_row_of_def member_role_def bot_example_db_def room_example_db_def
        empty_db_def room_exists_def user_exists_def new_room_row_def)
  have e: "find_epoch bot_example_db ''r'' = Some \<lparr>e_room_id = ''r'', e_epoch = 0, e_sequence = 0,
      e_transcript_hash = None, e_updated_at = 0\<rparr>" (is "_ = Some ?e")
    by (simp add: find_epoch_def bot_example_db_def room_example_db_def)
  have n: "next_room_seq bot_example_db ''r'' = e_sequence ?e + 1"
    by (simp add: next_room_seq_def bot_example_db_def room_example_db_def empty_db_def)
  have x: "pq_epoch (bot_example_req None) = e_epoch ?e" "sq_room_id (app_request ''a'' 0) = ''r''"
      "sq_content_type (app_request ''a'' 0) \<noteq> ContentCommit"
    by (simp_all add: bot_example_req_def app_request_def)
  from bot_number_collides[OF p(1)[unfolded toy_post_def] p(2) e x(1) n s x(2,3), of "\<lambda>_. None" "\<lambda>_. []"]
  obtain g h where "g \<in> set (room_messages db2)" "h \<in> set (room_messages db2)" "g_id g \<noteq> g_id h"
      "message_key g = message_key h" by auto
  with p(1) s show ?thesis by (intro exI[of _ db1] exI[of _ out] exI[of _ db2]) auto
qed

end
