(* ===== verification/SessionProps.thy ===== *)
theory SessionProps
  imports Sessions RoomProps
begin

text \<open>
  A session that has ended never comes back; what logging out and revoking a device do.
\<close>

section \<open>Steps on sessions\<close>

text \<open>
  The operations that write sessions, at increasing times.  The tokens are 256 random bits:
  \<open>h\<close>, the hash of the token under study, is not drawn again.
\<close>

inductive session_step ::
  "(string \<Rightarrow> string) \<Rightarrow> string \<Rightarrow> time \<times> db \<Rightarrow> time \<times> db \<Rightarrow> bool"
  for H h where
  create: "t \<le> now \<Longrightarrow> token_hash \<noteq> h \<Longrightarrow> create_session i token_hash u d days now db = Some db' \<Longrightarrow>
     session_step H h (t, db) (now, db')"
| validate: "t \<le> now \<Longrightarrow> validate_session H es ed raw now db = (r, db') \<Longrightarrow> session_step H h (t, db) (now, db')"
| authenticate: "t \<le> now \<Longrightarrow> authenticate H es ed header now db = (r, db') \<Longrightarrow> session_step H h (t, db) (now, db')"
| resolve: "t \<le> now \<Longrightarrow> resolve_caller H es ed header now db = (c, db') \<Longrightarrow> session_step H h (t, db) (now, db')"
| revoke: "t \<le> now \<Longrightarrow> revoke auth i now db = (e, db') \<Longrightarrow> session_step H h (t, db) (now, db')"
| logout: "t \<le> now \<Longrightarrow> logout auth every now db = db' \<Longrightarrow> session_step H h (t, db) (now, db')"
| revoke_device: "t \<le> now \<Longrightarrow> revoke_device u d fresh now db = Inr (s, e, db') \<Longrightarrow>
     session_step H h (t, db) (now, db')"

definition ended :: "string \<Rightarrow> time \<Rightarrow> session_row list \<Rightarrow> bool" where
  "ended h t ss \<longleftrightarrow> distinct (map se_id ss) \<and>
     (\<forall>s \<in> set ss. se_token_hash s = h \<longrightarrow> se_revoked_at s \<noteq> None \<or> se_expires_at s \<le> current_timestamp t)"

lemma current_timestamp_mono: "t \<le> t' \<Longrightarrow> current_timestamp t \<le> current_timestamp t'"
proof -
  have f: "current_timestamp x = nanos_per_sec * (x div nanos_per_sec)" for x
    by (simp add: current_timestamp_def minus_mod_eq_mult_div)
  show "t \<le> t' \<Longrightarrow> current_timestamp t \<le> current_timestamp t'" unfolding f by (simp add: zdiv_mono1)
qed

lemma ended_later: "ended h t ss \<Longrightarrow> t \<le> t' \<Longrightarrow> ended h t' ss"
  unfolding ended_def using current_timestamp_mono[of t t'] by fastforce

text \<open>An update that keeps ids and hashes keeps a session ended if it does not touch live rows of \<open>h\<close>.\<close>

lemma ended_update:
  assumes "ended h t ss" and "\<And>s. se_id (f s) = se_id s" and "\<And>s. se_token_hash (f s) = se_token_hash s"
    and "\<And>s. s \<in> set ss \<Longrightarrow> p s \<Longrightarrow> se_token_hash s = h \<Longrightarrow> se_revoked_at (f s) \<noteq> None"
  shows "ended h t (update_where p f ss)"
  using assms by (auto simp: ended_def map_update_where ball_update_where)

lemma ended_delete: "ended h t ss \<Longrightarrow> ended h t (delete_where p ss)"
  by (auto simp: ended_def distinct_map_delete_where)

lemma ended_revoke_where:
  "ended h t (sessions db) \<Longrightarrow> ended h t (sessions (snd (revoke_where p now db)))"
  by (auto simp: revoke_where_def intro!: ended_update)

lemma ended_revoke_session:
  "ended h t (sessions db) \<Longrightarrow> ended h t (sessions (snd (revoke_session u i now db)))"
  using ended_revoke_where by (simp add: revoke_session_def split_beta)

lemma ended_validate:
  assumes "ended h now (sessions db)" and "validate_session H es ed raw now db = (r, db')"
  shows "ended h now (sessions db')"
proof (cases "List.find (active_session (H raw) now) (sessions db)")
  case None
  with assms show ?thesis by (simp add: validate_session_def)
next
  case (Some s)
  then have s: "s \<in> set (sessions db)" "active_session (H raw) now s" by (auto dest: find_SomeD)
  then have live: "se_token_hash s \<noteq> h"
    using assms(1) by (auto simp: ended_def active_session_def not_le[symmetric])
  have only: "x = s" if "x \<in> set (sessions db)" "se_id x = se_id s" for x
    using assms(1) s(1) that by (auto simp: ended_def distinct_map inj_on_def)
  define f where "f = (\<lambda>r :: session_row. r\<lparr>se_last_seen_at := Some (current_timestamp now), se_expires_at :=
      (if session_sliding es
       then (case datetime_days_ahead now (uint (session_expiry_days ed)) of None \<Rightarrow> se_expires_at r | Some t \<Rightarrow> t)
       else se_expires_at r)\<rparr>)"
  have f: "\<And>r. se_id (f r) = se_id r \<and> se_token_hash (f r) = se_token_hash r" by (simp add: f_def)
  have "db' = db\<lparr>sessions := update_where (\<lambda>r. se_id r = se_id s) f (sessions db)\<rparr>"
    using assms(2) unfolding validate_session_def Some f_def by simp
  then have db': "sessions db' = update_where (\<lambda>r. se_id r = se_id s) f (sessions db)" by simp
  show ?thesis
    unfolding db'
  proof (rule ended_update[OF assms(1)])
    show "se_id (f r) = se_id r" "se_token_hash (f r) = se_token_hash r" for r using f by simp_all
    show "se_revoked_at (f x) \<noteq> None" if "x \<in> set (sessions db)" "se_id x = se_id s" "se_token_hash x = h" for x
      using only[OF that(1,2)] live that(3) by simp
  qed
qed

lemma queue_device_removes_effect:
  assumes "queue_device_removes rs u fresh now db = Inr (n, db')"
  shows "n = int (length rs) \<and> (\<exists>ps. db' = db\<lparr>pending_mls_removes := pending_mls_removes db @ ps\<rparr> \<and>
    map pr_room_id ps = rs \<and> (\<forall>p \<in> set ps. pr_target_user_id p = Some u \<and> pr_target_bot_id p = None \<and>
      pr_consumed_at p = None \<and> pr_cancelled_at p = None))"
  using assms
proof (induction rs u fresh now db arbitrary: n db' rule: queue_device_removes.induct)
  case (1 u fresh now db)
  then show ?case by (auto intro!: exI[of _ "[]"])
next
  case (2 r rs u fresh now db)
  from 2(2) obtain x db1 k where q: "queue_pending_mls_remove_batch r (TargetUser u) (fresh 0) now db = Inr (x, db1)"
    and rest: "queue_device_removes rs u (fresh \<circ> Suc) now db1 = Inr (k, db')" and n: "n = k + 1"
    by (auto split: sum.splits)
  from q obtain p where p: "db1 = db\<lparr>pending_mls_removes := pending_mls_removes db @ [p]\<rparr>" "pr_room_id p = r"
      "pr_target_user_id p = Some u" "pr_target_bot_id p = None" "pr_consumed_at p = None" "pr_cancelled_at p = None"
    by (auto simp: queue_pending_mls_remove_batch_def insert_row_Some_iff target_ids_def split: if_splits option.splits)
  from 2(1)[OF q refl rest] obtain ps where "k = int (length rs)"
      "db' = db1\<lparr>pending_mls_removes := pending_mls_removes db1 @ ps\<rparr>" "map pr_room_id ps = rs"
      "\<forall>p \<in> set ps. pr_target_user_id p = Some u \<and> pr_target_bot_id p = None \<and>
        pr_consumed_at p = None \<and> pr_cancelled_at p = None" by blast
  with p n show ?case by (intro conjI exI[of _ "p # ps"]) simp_all
qed

lemma queue_device_removes_sessions:
  assumes "queue_device_removes rs u fresh now db = Inr (n, db')"
  shows "sessions db' = sessions db \<and> devices db' = devices db"
proof -
  from queue_device_removes_effect[OF assms] obtain ps where
    "db' = db\<lparr>pending_mls_removes := pending_mls_removes db @ ps\<rparr>" by blast
  then show ?thesis by simp
qed

lemma revoke_deviceE:
  assumes "revoke_device u d fresh now db = Inr (s, e, db')"
  obtains dev n db2 k db3 where "List.find (\<lambda>x. d_id x = d \<and> d_user_id x = u) (devices db) = Some dev"
    and "queue_device_removes (map m_room_id (filter (\<lambda>m. m_user_id m = u) (room_members db))) u fresh now
      (db\<lparr>key_packages := delete_where
         (\<lambda>k. k_user_id k = Some u \<and> k_client_id k = d_client_id dev \<and> \<not> k_consumed k) (key_packages db)\<rparr>) =
      Inr (n, db2)"
    and "allocation_updates (db2\<lparr>push_subscriptions :=
        delete_where (\<lambda>p. ps_device_id p = Some d) (push_subscriptions db2)\<rparr>) db3"
    and "sm_mls_removes_queued s = n" and "db' = delete_device_cascade d u db3"
    and "e = publish_user_event u (new_envelope ''device.revoked'' k (JObject [(''device_id'', JString d),
        (''reason'', JString ''revoked_by_user''), (''user_seq'', JInt k)]) now)"
    and "sm_sessions_removed s = count_where (\<lambda>x. se_device_id x = Some d) (sessions db)"
  using assms
  by (auto simp: revoke_device_def Let_def dest!: allocate_user_seq_frame
      split: option.splits sum.splits prod.splits if_splits)

lemma revoke_device_sessions:
  assumes "revoke_device u d fresh now db = Inr (s, e, db')"
  shows "sessions db' = delete_where (\<lambda>x. se_device_id x = Some d) (sessions db)"
proof -
  from assms obtain dev n db2 db3 where dev: "List.find (\<lambda>x. d_id x = d \<and> d_user_id x = u) (devices db) = Some dev"
    and q: "queue_device_removes (map m_room_id (filter (\<lambda>m. m_user_id m = u) (room_members db))) u fresh now
      (db\<lparr>key_packages := delete_where
         (\<lambda>k. k_user_id k = Some u \<and> k_client_id k = d_client_id dev \<and> \<not> k_consumed k) (key_packages db)\<rparr>) =
      Inr (n, db2)"
    and a: "allocation_updates (db2\<lparr>push_subscriptions :=
        delete_where (\<lambda>p. ps_device_id p = Some d) (push_subscriptions db2)\<rparr>) db3"
    and db': "db' = delete_device_cascade d u db3"
    by (rule revoke_deviceE)
  have "sessions db3 = sessions db \<and> devices db3 = devices db"
    using queue_device_removes_sessions[OF q] a by (auto simp: allocation_updates_def)
  then show ?thesis
    using find_SomeD[OF dev] unfolding db' delete_device_cascade_def by (auto simp: exists_where_iff)
qed

lemma ended_authenticate:
  assumes "ended h now (sessions db)" and "authenticate H es ed header now db = (r, db')"
  shows "ended h now (sessions db')"
proof (cases "bearer_token header")
  case (Some raw)
  obtain c db1 where v: "validate_session H es ed raw now db = (c, db1)" by fastforce
  note e = ended_validate[OF assms(1) v]
  from assms(2) Some v e ended_revoke_session[OF e] show ?thesis
    by (auto simp: authenticate_def split: option.splits if_splits)
qed (use assms in \<open>simp add: authenticate_def\<close>)

lemma ended_resolve:
  assumes "ended h now (sessions db)" and "resolve_caller H es ed header now db = (r, db')"
  shows "ended h now (sessions db')"
proof (cases "bearer_token header")
  case (Some raw)
  obtain b db1 where b: "validate_bot_token H raw now db = (b, db1)" by fastforce
  then have "sessions db1 = sessions db" by (auto simp: validate_bot_token_def split: option.splits)
  then have e1: "ended h now (sessions db1)" using assms(1) by simp
  obtain c db2 where v: "validate_session H es ed raw now db1 = (c, db2)" by fastforce
  from assms(2) Some b v e1 ended_validate[OF e1 v] show ?thesis
    by (auto simp: resolve_caller_def split: option.splits if_splits)
qed (use assms in \<open>simp add: resolve_caller_def\<close>)

lemma ended_step:
  assumes "session_step H h (t, db) (t', db')" and "ended h t (sessions db)"
  shows "t \<le> t' \<and> ended h t' (sessions db')"
  using assms(1)
proof cases
  case (create hash i u d days)
  with ended_later[OF assms(2), of t'] show ?thesis
    by (auto simp: create_session_def ended_def insert_row_Some_iff split: option.splits if_splits)
next
  case (validate es ed raw r)
  with ended_validate[OF ended_later[OF assms(2)]] show ?thesis by blast
next
  case (authenticate es ed header r)
  with ended_authenticate[OF ended_later[OF assms(2)]] show ?thesis by blast
next
  case (resolve es ed header c)
  with ended_resolve[OF ended_later[OF assms(2)]] show ?thesis by blast
next
  case (revoke auth i e)
  have "ended h t' (sessions (snd (revoke_session (au_user_id auth) i t' db)))"
    using ended_revoke_session[OF ended_later[OF assms(2) revoke(1)]] .
  moreover have "db' = db \<or> db' = snd (revoke_session (au_user_id auth) i t' db)"
    using revoke(2) by (auto simp: revoke_def split_beta split: if_splits)
  ultimately show ?thesis using ended_later[OF assms(2) revoke(1)] revoke(1) by auto
next
  case (logout auth every)
  note e = ended_later[OF assms(2) logout(1)]
  have "ended h t' (sessions (snd (revoke_all_sessions (au_user_id auth) x t' db)))" for x
    using ended_revoke_where[OF e] by (simp add: revoke_all_sessions_def)
  from logout ended_revoke_session[OF e] ended_revoke_session[OF this] show ?thesis
    by (auto simp: logout_def split: if_splits)
next
  case (revoke_device u d fresh s e)
  from revoke_device_sessions[OF revoke_device(2)] ended_delete[OF ended_later[OF assms(2) revoke_device(1)]]
  show ?thesis using revoke_device(1) by simp
qed

text \<open>
  C15. A session that was revoked or has expired stays ended: whatever sessions are opened, used,
  revoked or logged out afterwards, and although using a session moves its expiry, its token
  is refused from then on.
\<close>

theorem ended_session_refused:
  assumes "ended (H raw) t (sessions db)" and "(session_step H (H raw))\<^sup>*\<^sup>* (t, db) (t', db')" and "t' \<le> now"
  shows "validate_session H es ed raw now db' = (None, db') \<and>
    (bearer_token header = Some raw \<longrightarrow> authenticate H es ed header now db' = (Inl Unauthorized, db'))"
proof -
  have "(session_step H (H raw))\<^sup>*\<^sup>* (t, db) c \<Longrightarrow> ended (H raw) (fst c) (sessions (snd c))" for c
  proof (induction rule: rtranclp_induct)
    case base
    then show ?case using assms(1) by simp
  next
    case (step c d)
    with ended_step[of H "H raw" "fst c" "snd c" "fst d" "snd d"] show ?case by simp
  qed
  from this[OF assms(2)] have "ended (H raw) now (sessions db')" using ended_later assms(3) by simp
  then have none: "List.find (active_session (H raw) now) (sessions db') = None"
    by (force simp: find_None_iff_all ended_def active_session_def)
  then show ?thesis by (simp add: validate_session_def authenticate_def)
qed

section \<open>Logging out\<close>

text \<open>
  Logging out ends the session it was asked from, or all sessions of the user; the sessions
  of other users are untouched, and so is everything else.
\<close>

theorem logout_effect:
  "logout auth every now db = db\<lparr>sessions := map (\<lambda>s.
      if se_user_id s = au_user_id auth \<and> (every \<or> se_id s = au_session_id auth) \<and> se_revoked_at s = None
      then s\<lparr>se_revoked_at := Some (current_timestamp now)\<rparr> else s) (sessions db)\<rparr>"
proof (cases every)
  let ?u = "au_user_id auth" and ?i = "au_session_id auth"
  let ?r = "\<lambda>s. s\<lparr>se_revoked_at := Some (current_timestamp now)\<rparr>"
  case True
  have "update_where (\<lambda>s. se_id s = ?i \<and> se_user_id s = ?u \<and> se_revoked_at s = None) ?r
      (update_where (\<lambda>s. se_user_id s = ?u \<and> se_id s \<noteq> ?i \<and> se_revoked_at s = None) ?r ss) =
      map (\<lambda>s. if se_user_id s = ?u \<and> se_revoked_at s = None then ?r s else s) ss" for ss :: "session_row list"
    by (induction ss) auto
  with True show ?thesis
    by (simp add: logout_def revoke_session_def revoke_all_sessions_def revoke_where_def split_beta)
next
  let ?u = "au_user_id auth" and ?i = "au_session_id auth"
  case False
  then show ?thesis
    by (simp add: logout_def revoke_session_def revoke_where_def split_beta update_where_def conj_left_commute)
qed

section \<open>Revoking a device\<close>

text \<open>
  Revoking a device removes it with its sessions, its unconsumed key packages and its push
  subscriptions, and queues the removal of the user from the MLS group of every room the user
  is in; the memberships, the user's other devices and their sessions stay.
\<close>

theorem revoke_device_effect:
  assumes "revoke_device u d fresh now db = Inr (s, e, db')"
  shows "\<exists>dev ps. dev \<in> set (devices db) \<and> d_id dev = d \<and> d_user_id dev = u \<and>
    devices db' = filter (\<lambda>x. d_id x \<noteq> d) (devices db) \<and>
    sessions db' = filter (\<lambda>x. se_device_id x \<noteq> Some d) (sessions db) \<and>
    push_subscriptions db' = filter (\<lambda>x. ps_device_id x \<noteq> Some d) (push_subscriptions db) \<and>
    key_packages db' = filter (\<lambda>k. \<not> (k_user_id k = Some u \<and> k_client_id k = d_client_id dev \<and> \<not> k_consumed k))
      (key_packages db) \<and>
    room_members db' = room_members db \<and>
    pending_mls_removes db' = pending_mls_removes db @ ps \<and>
    map pr_room_id ps = map m_room_id (filter (\<lambda>m. m_user_id m = u) (room_members db)) \<and>
    (\<forall>p \<in> set ps. pr_target_user_id p = Some u \<and> pr_consumed_at p = None) \<and>
    sm_mls_removes_queued s = int (length ps)"
proof -
  from assms obtain dev n db2 db3 where dev: "List.find (\<lambda>x. d_id x = d \<and> d_user_id x = u) (devices db) = Some dev"
    and q: "queue_device_removes (map m_room_id (filter (\<lambda>m. m_user_id m = u) (room_members db))) u fresh now
      (db\<lparr>key_packages := delete_where
         (\<lambda>k. k_user_id k = Some u \<and> k_client_id k = d_client_id dev \<and> \<not> k_consumed k) (key_packages db)\<rparr>) =
      Inr (n, db2)"
    and a: "allocation_updates (db2\<lparr>push_subscriptions :=
        delete_where (\<lambda>p. ps_device_id p = Some d) (push_subscriptions db2)\<rparr>) db3"
    and n: "sm_mls_removes_queued s = n" and db': "db' = delete_device_cascade d u db3"
    by (rule revoke_deviceE)
  from queue_device_removes_effect[OF q] obtain ps where
    db2: "db2 = db\<lparr>key_packages := delete_where
         (\<lambda>k. k_user_id k = Some u \<and> k_client_id k = d_client_id dev \<and> \<not> k_consumed k) (key_packages db),
         pending_mls_removes := pending_mls_removes db @ ps\<rparr>"
    and rooms: "map pr_room_id ps = map m_room_id (filter (\<lambda>m. m_user_id m = u) (room_members db))"
    and targets: "\<forall>p \<in> set ps. pr_target_user_id p = Some u \<and> pr_consumed_at p = None"
    and "n = int (length (map m_room_id (filter (\<lambda>m. m_user_id m = u) (room_members db))))" by auto
  then have ps: "n = int (length ps)" by (metis length_map)
  from a obtain t where t: "db3 = db2\<lparr>push_subscriptions :=
        delete_where (\<lambda>p. ps_device_id p = Some d) (push_subscriptions db2), user_seqs := t\<rparr>"
    by (auto simp: allocation_updates_def)
  have dev_in: "dev \<in> set (devices db) \<and> d_id dev = d \<and> d_user_id dev = u" using find_SomeD[OF dev] by simp
  then have "exists_where (\<lambda>x. d_id x = d \<and> d_user_id x = u) (devices db3)" by (auto simp: t db2)
  then have final: "db' = db3\<lparr>devices := delete_where (\<lambda>x. d_id x = d) (devices db3),
      sessions := delete_where (\<lambda>x. se_device_id x = Some d) (sessions db3),
      device_names := delete_where (\<lambda>x. dn_device_id x = d) (device_names db3),
      push_subscriptions := delete_where (\<lambda>x. ps_device_id x = Some d) (push_subscriptions db3)\<rparr>"
    unfolding db' delete_device_cascade_def by (rule if_P)
  show ?thesis
    by (rule exI[of _ dev], rule exI[of _ ps])
      (use dev_in rooms targets in \<open>simp add: final t ps db2 n delete_where_def\<close>)
qed

section \<open>The trap of the last-resort package\<close>

definition spare_of :: "id \<Rightarrow> id \<Rightarrow> key_package_row \<Rightarrow> bool" where
  "spare_of u c k \<longleftrightarrow> k_user_id k = Some u \<and> k_client_id k = c \<and> \<not> k_consumed k"

lemma select_packagesE:
  assumes "select_packages u (x # cs) now db = (sel, db')"
  obtains (none) "pick_package db u x False = None" "pick_package db u x True = None"
      "select_packages u cs now db = (sel, db')"
    | (normal) k sel1 where "pick_package db u x False = Some k" "sel = (x, k_id k) # sel1"
      "select_packages u cs now (consume_key_package (k_id k) now db) = (sel1, db')"
    | (fallback) k sel1 where "pick_package db u x False = None" "pick_package db u x True = Some k"
      "sel = (x, k_id k) # sel1" "select_packages u cs now db = (sel1, db')"
proof (cases "pick_package db u x False")
  case (Some k)
  then have "\<not> k_is_last_resort k" by (simp add: pick_packageD)
  with Some assms that(2) show ?thesis by (auto simp: Let_def split: prod.splits)
next
  case n: None
  show ?thesis
  proof (cases "pick_package db u x True")
    case None
    with n assms that(1) show ?thesis by (simp add: Let_def)
  next
    case (Some k)
    then have "k_is_last_resort k" using pick_packageD by fastforce
    with n Some assms that(3) show ?thesis by (auto simp: Let_def split: prod.splits)
  qed
qed

lemma consume_other:
  assumes "pick_package db u c False = Some k" and "distinct (map k_id (key_packages db))"
  shows "{x \<in> set (key_packages (consume_key_package (k_id k) now db)). k_is_last_resort x} =
      {x \<in> set (key_packages db). k_is_last_resort x} \<and>
    {x \<in> set (key_packages (consume_key_package (k_id k) now db)). \<not> k_consumed x} \<subseteq>
      {x \<in> set (key_packages db). \<not> k_consumed x}"
proof -
  from pick_packageD[OF assms(1)] have k: "k \<in> set (key_packages db)" "\<not> k_is_last_resort k" by auto
  then have only: "x = k" if "x \<in> set (key_packages db)" "k_id x = k_id k" for x
    using assms(2) that by (auto simp: distinct_map inj_on_def)
  with k(2) have "x \<in> set (key_packages db) \<Longrightarrow> k_is_last_resort x \<Longrightarrow> k_id x \<noteq> k_id k" for x by auto
  with only k(2) show ?thesis by (auto simp: consume_key_package_def set_update_where)
qed

lemma select_keeps_last_resort:
  "select_packages u cs now db = (sel, db') \<Longrightarrow> distinct (map k_id (key_packages db)) \<Longrightarrow>
     k \<in> set (key_packages db) \<Longrightarrow> k_is_last_resort k \<Longrightarrow> k \<in> set (key_packages db')"
proof (induction cs arbitrary: db sel)
  case (Cons c cs)
  from Cons.prems(1) obtain db1 sel1 where db1: "db1 = db \<or>
      (\<exists>x. pick_package db u c False = Some x \<and> db1 = consume_key_package (k_id x) now db)"
    and rest: "select_packages u cs now db1 = (sel1, db')"
    by (auto simp: Let_def split: option.splits prod.splits if_splits dest!: pick_packageD)
  have "k \<in> set (key_packages db1)" using db1 consume_other[OF _ Cons.prems(2)] Cons.prems(3,4) by blast
  moreover have "distinct (map k_id (key_packages db1))"
    using db1 Cons.prems(2) by (auto simp: consume_key_package_def map_update_where)
  ultimately show ?case using Cons.IH[OF rest] Cons.prems(4) by blast
qed simp

lemma select_packages_devices: "select_packages u cs now db = (sel, db') \<Longrightarrow> devices db' = devices db"
proof (induction cs arbitrary: db sel)
  case (Cons c cs)
  from Cons.prems obtain db1 sel1 where "db1 = db \<or> (\<exists>k. db1 = consume_key_package k now db)"
    and "select_packages u cs now db1 = (sel1, db')"
    by (auto simp: Let_def split: option.splits prod.splits if_splits)
  then show ?case using Cons.IH[of db1 sel1] by (auto simp: consume_key_package_def)
qed simp

lemma queue_adds_devices:
  "queue_pending_mls_add_batch r t sel fresh now db = Inr (q, db') \<Longrightarrow> devices db' = devices db"
  by (induction r t sel fresh now db arbitrary: q db' rule: queue_pending_mls_add_batch.induct)
    (fastforce split: if_splits option.splits sum.splits)+

lemma select_last_resort:
  assumes "select_packages u cs now db = (sel, db')" and "distinct (map k_id (key_packages db))"
    and "c \<in> set cs" and "\<exists>k \<in> set (key_packages db). spare_of u c k"
    and "\<forall>k \<in> set (key_packages db). spare_of u c k \<longrightarrow> k_is_last_resort k"
  shows "\<exists>k \<in> set (key_packages db'). spare_of u c k \<and> (c, k_id k) \<in> set sel"
  using assms
proof (induction cs arbitrary: db sel)
  case (Cons x cs)
  show ?case
  proof (cases "x = c")
    case True
    have none: "pick_package db u c False = None"
      using Cons.prems(5) by (auto simp: pick_package_def filter_empty_conv spare_of_def)
    have "pick_package db u c True \<noteq> None"
      using Cons.prems(4,5) by (auto simp: pick_package_def filter_empty_conv spare_of_def)
    then obtain k where k: "pick_package db u c True = Some k" by blast
    then have spare: "k \<in> set (key_packages db)" "spare_of u c k" "k_is_last_resort k"
      by (auto simp: pick_package_def spare_of_def dest!: min_row_SomeD)
    obtain sel1 where "select_packages u cs now db = (sel1, db')" and sel: "sel = (c, k_id k) # sel1"
      using Cons.prems(1) True none k spare(3) by (auto simp: Let_def split: prod.splits)
    from select_keeps_last_resort[OF this(1) Cons.prems(2) spare(1,3)] spare(2) sel show ?thesis by auto
  next
    case False
    obtain db1 sel1 where db1: "db1 = db \<or>
        (\<exists>k. pick_package db u x False = Some k \<and> db1 = consume_key_package (k_id k) now db)"
      and rest: "select_packages u cs now db1 = (sel1, db')" and sel: "set sel1 \<subseteq> set sel"
      using Cons.prems(1)
    proof (cases rule: select_packagesE)
      case none
      with that[of db sel] show thesis by simp
    next
      case (normal k sel1)
      with that[of "consume_key_package (k_id k) now db" sel1] show thesis by auto
    next
      case (fallback k sel1)
      with that[of db sel1] show thesis by auto
    qed
    have d: "distinct (map k_id (key_packages db1))"
      using db1 Cons.prems(2) by (auto simp: consume_key_package_def map_update_where)
    have same: "{k \<in> set (key_packages db1). k_is_last_resort k} = {k \<in> set (key_packages db). k_is_last_resort k}"
      and fewer: "{k \<in> set (key_packages db1). \<not> k_consumed k} \<subseteq> {k \<in> set (key_packages db). \<not> k_consumed k}"
      using db1 consume_other[OF _ Cons.prems(2)] by blast+
    have all: "\<forall>k \<in> set (key_packages db1). spare_of u c k \<longrightarrow> k_is_last_resort k"
      using fewer Cons.prems(5) by (auto simp: spare_of_def)
    have some: "\<exists>k \<in> set (key_packages db1). spare_of u c k"
      using same Cons.prems(4,5) by blast
    from Cons.IH[OF rest d _ some all] Cons.prems(3) False sel show ?thesis by auto
  qed
qed simp

text \<open>
  Adding a user one of whose devices has only last-resort packages left makes that device
  irrevocable: the queued addition keeps a reference to a package that is not used up, so the
  deletion of the packages fails and the whole revocation with it.
\<close>

theorem revoke_device_blocked:
  assumes "add_member r q u w lim hard fresh now db = Inr (out, db')"
    and "distinct (map k_id (key_packages db))" and "distinct (map d_id (devices db))"
    and "dev \<in> set (devices db)" and "d_user_id dev = u"
    and "\<exists>k \<in> set (key_packages db). spare_of u (d_client_id dev) k"
    and "\<forall>k \<in> set (key_packages db). spare_of u (d_client_id dev) k \<longrightarrow> k_is_last_resort k"
  shows "revoke_device u (d_id dev) fresh' now' db' = Inl DeviceDatabase"
proof -
  obtain db1 db2 sel db3 qd where w: "deliver_welcome r u w (fresh 0) now db = Inr db1"
    and i: "insert_member r u ''member'' ''add'' now db1 = Some db2"
    and s: "select_packages u (map d_client_id (sort_key d_created_at
        (filter (\<lambda>d. d_user_id d = u) (devices db2)))) now db2 = (sel, db3)"
    and qa: "queue_pending_mls_add_batch r (TargetUser u) sel (fresh \<circ> Suc) now db3 = Inr (qd, db')"
    using assms(1) unfolding add_member_def by (auto split: option.splits sum.splits prod.splits)
  have d1: "key_packages db1 = key_packages db \<and> devices db1 = devices db"
    using w by (auto simp: deliver_welcome_def create_welcome_def split: option.splits if_splits)
  have d2: "key_packages db2 = key_packages db1 \<and> devices db2 = devices db1"
    using i by (auto simp: insert_member_def split: if_splits)
  have "d_client_id dev \<in> set (map d_client_id (sort_key d_created_at (filter (\<lambda>d. d_user_id d = u) (devices db2))))"
    using assms(4,5) d1 d2 by simp
  from select_last_resort[OF s _ this] assms(2,6,7) d1 d2 obtain k where
    k: "k \<in> set (key_packages db3)" "spare_of u (d_client_id dev) k" "(d_client_id dev, k_id k) \<in> set sel" by auto
  from queue_adds_rows[OF qa] obtain new where kp: "key_packages db' = key_packages db3"
    and new: "pending_mls_adds db' = pending_mls_adds db3 @ new"
      "map (\<lambda>p. (pa_target_client_id p, pa_key_package_id p)) new = sel" by auto
  have "devices db' = devices db3" using queue_adds_devices[OF qa] .
  moreover have "devices db3 = devices db2" using select_packages_devices[OF s] .
  ultimately have find: "List.find (\<lambda>x. d_id x = d_id dev \<and> d_user_id x = u) (devices db') = Some dev"
    using assms(3,4,5) d1 d2 by (intro find_unique) (auto simp: distinct_map inj_on_def)
  have "k_id k \<in> pa_key_package_id ` set new"
    using k(3) new(2) by (auto simp: image_iff)
  then have "exists_where (\<lambda>x. (k_user_id x = Some u \<and> k_client_id x = d_client_id dev \<and> \<not> k_consumed x) \<and>
      exists_where (\<lambda>p. pa_key_package_id p = k_id x) (pending_mls_adds db')) (key_packages db')"
    using k(1,2) kp new(1) unfolding exists_where_iff spare_of_def by fastforce
  then show ?thesis by (simp only: revoke_device_def find option.case Let_def if_True)
qed

section \<open>Examples\<close>

definition session_example_db :: db where
  "session_example_db = room_example_db\<lparr>sessions :=
     [\<lparr>se_id = ''s1'', se_user_id = ''a'', se_device_id = None, se_token_hash = ''t1'', se_created_at = 0,
       se_expires_at = 9 * nanos_per_sec, se_revoked_at = Some 0, se_last_seen_at = None\<rparr>,
      \<lparr>se_id = ''s2'', se_user_id = ''a'', se_device_id = None, se_token_hash = ''t2'', se_created_at = 0,
       se_expires_at = 9 * nanos_per_sec, se_revoked_at = None, se_last_seen_at = None\<rparr>]\<rparr>"

text \<open>The first session is revoked; the second one is used; the first token is still refused.\<close>

theorem ended_session_refused_witness:
  "\<exists>db'. validate_session id (Some ''0'') None ''t2'' 5 session_example_db =
       (Some \<lparr>sx_session_id = ''s2'', sx_user_id = ''a'', sx_device_id = None,
              sx_expires_at = 9 * nanos_per_sec, sx_created_at = 0\<rparr>, db') \<and>
     validate_session id None None ''t1'' 6 db' = (None, db')"
proof -
  obtain db' where v: "validate_session id (Some ''0'') None ''t2'' 5 session_example_db =
       (Some \<lparr>sx_session_id = ''s2'', sx_user_id = ''a'', sx_device_id = None,
              sx_expires_at = 9 * nanos_per_sec, sx_created_at = 0\<rparr>, db')"
    by (simp add: validate_session_def session_example_db_def active_session_def current_timestamp_def)
  have ended: "ended (id ''t1'') 0 (sessions session_example_db)" by (simp add: ended_def session_example_db_def)
  have "(session_step id (id ''t1''))\<^sup>*\<^sup>* (0, session_example_db) (5, db')"
    using session_step.validate[OF _ v, of 0 "id ''t1''"] by auto
  from ended_session_refused[OF ended this, of 6 None None] v show ?thesis by simp
qed

definition device_example_db :: db where
  "device_example_db = room_example_db\<lparr>room_members := room_members room_example_db @
     [\<lparr>m_room_id = ''r'', m_user_id = ''c'', m_role = ''member'', m_joined_via = Some ''add'', m_joined_at = 6\<rparr>]\<rparr>"

lemma device_example_ok: "\<not> isl (revoke_device ''c'' ''d'' add_example_id 0 device_example_db)"
  by code_simp

theorem revoke_device_effect_witness:
  "\<exists>s e db'. revoke_device ''c'' ''d'' add_example_id 0 device_example_db = Inr (s, e, db') \<and>
     devices db' = filter (\<lambda>x. d_id x \<noteq> ''d'') (devices device_example_db) \<and>
     map pr_room_id (pending_mls_removes db') = [''r'']"
proof -
  obtain s e db' where r: "revoke_device ''c'' ''d'' add_example_id 0 device_example_db = Inr (s, e, db')"
    using device_example_ok by (cases "revoke_device ''c'' ''d'' add_example_id 0 device_example_db") auto
  from revoke_device_effect[OF r] r show ?thesis
    by (auto simp: device_example_db_def room_example_tables)
qed

definition trap_example_db :: db where
  "trap_example_db = room_example_db\<lparr>key_packages := filter k_is_last_resort (key_packages room_example_db)\<rparr>"

theorem revoke_device_blocked_witness:
  "\<exists>out db'. add_example_step ''r'' add_example_id trap_example_db = Inr (out, db') \<and>
     revoke_device ''c'' ''d'' add_example_id 1 db' = Inl DeviceDatabase"
proof -
  have "\<not> isl (add_example_step ''r'' add_example_id trap_example_db)" by code_simp
  from not_isl_pair[OF this] obtain out db' where a: "add_example_step ''r'' add_example_id trap_example_db = Inr (out, db')"
    by blast
  let ?dev = "\<lparr>d_id = ''d'', d_user_id = ''c'', d_client_id = ''cc'', d_platform = ''web'', d_last_seen = None,
      d_created_at = 0\<rparr>"
  have kp: "key_packages trap_example_db =
      [\<lparr>k_id = ''k2'', k_user_id = Some ''c'', k_bot_id = None, k_client_id = ''cc'', k_cipher_suite = 1, k_key_package = [],
         k_is_last_resort = True, k_consumed = False, k_consumed_at = None, k_created_at = 0\<rparr>]"
    and dev: "devices trap_example_db = [?dev]"
    by (simp_all add: trap_example_db_def room_example_db_def)
  have "revoke_device ''c'' (d_id ?dev) add_example_id 1 db' = Inl DeviceDatabase"
    by (rule revoke_device_blocked[OF a[unfolded add_example_step_def]]) (simp_all add: kp dev spare_of_def)
  with a show ?thesis by simp
qed

end
