(* ===== verification/SyncFeed.thy ===== *)
theory SyncFeed
  imports Sessions
begin

text \<open>
  The private state of a user that its devices share: read markers
  (\<open>server/src/sync/read_state.rs\<close>), preferences (\<open>sync/preferences.rs\<close>), the order of rooms
  (\<open>sync/room_order.rs\<close>), device names (\<open>sync/device_names.rs\<close>), starred items
  (\<open>starred/write.rs\<close>, \<open>starred/list.rs\<close>, \<open>sync/starred.rs\<close>), the query that reads them back from
  a cursor (\<open>sync/query.rs\<close>) and the job that prunes tombstones (\<open>cleanup/sync.rs\<close>).

  \<open>b64_decode\<close> is the unpadded base64url decoder.  Row types of answers that carry the columns of
  a table without the user are the table's own records.  A write returns the row, the event it
  publishes and the committed database.
\<close>

text \<open>\<open>INSERT ... ON CONFLICT (...) DO UPDATE\<close>.\<close>

definition upsert_row :: "('r \<Rightarrow> bool) \<Rightarrow> ('r \<Rightarrow> 'r) \<Rightarrow> 'r \<Rightarrow> 'r list \<Rightarrow> 'r list" where
  "upsert_row p f new t = (if exists_where p t then update_where p f t else t @ [new])"

section \<open>Read markers\<close>

datatype read_state_error = ReadStateDatabase | ReadStateNotAMember id | ReadStateMessageNotFound

definition upsert_read_state :: "id \<Rightarrow> id \<Rightarrow> id option \<Rightarrow> int \<Rightarrow> time \<Rightarrow> db \<Rightarrow> db" where
  "upsert_read_state user_id room_id last_read seq now db =
     db\<lparr>read_states := upsert_row (\<lambda>r. rd_user_id r = user_id \<and> rd_room_id r = room_id)
       (\<lambda>r. r\<lparr>rd_last_read_message_id := last_read, rd_user_seq := seq, rd_updated_at := current_timestamp now, rd_deleted_at := None\<rparr>)
       \<lparr>rd_user_id = user_id, rd_room_id = room_id, rd_last_read_message_id = last_read, rd_user_seq = seq, rd_updated_at = current_timestamp now, rd_deleted_at = None\<rparr>
       (read_states db)\<rparr>"

definition write_read_state ::
  "id \<Rightarrow> id \<Rightarrow> id option \<Rightarrow> time \<Rightarrow> db \<Rightarrow> read_state_error + (read_state_row \<times> event \<times> db)"
where
  "write_read_state user_id room_id last_read now db =
     (if \<not> is_member db room_id user_id then Inl (ReadStateNotAMember room_id)
      else if (case last_read of None \<Rightarrow> False | Some m \<Rightarrow> find_message db m room_id = None)
      then Inl ReadStateMessageNotFound
      else
        (case allocate_user_seq db user_id of
           None \<Rightarrow> Inl ReadStateDatabase
         | Some (seq, db1) \<Rightarrow>
             Inr (\<lparr>rd_user_id = user_id, rd_room_id = room_id, rd_last_read_message_id = last_read,
                   rd_user_seq = seq, rd_updated_at = current_timestamp now, rd_deleted_at = None\<rparr>,
               publish_user_event user_id (new_envelope ''read.sync'' seq
                 (JObject [(''room_id'', JString room_id), (''last_read_message_id'', json_opt last_read),
                           (''user_seq'', JInt seq)]) now),
               upsert_read_state user_id room_id last_read seq now db1)))"

definition list_read_state_since :: "db \<Rightarrow> id \<Rightarrow> int \<Rightarrow> read_state_row list" where
  "list_read_state_since db user_id since_seq =
     sort_key rd_user_seq (filter (\<lambda>r. rd_user_id r = user_id \<and> since_seq < rd_user_seq r) (read_states db))"

definition list_read_state_all :: "db \<Rightarrow> id \<Rightarrow> read_state_row list" where
  "list_read_state_all db user_id =
     sort_key rd_user_seq (filter (\<lambda>r. rd_user_id r = user_id \<and> rd_deleted_at r = None) (read_states db))"

section \<open>Preferences\<close>

datatype preferences_error =
    PreferencesDatabase
  | InvalidPreferenceKey string
  | ReservedKey string
  | InvalidPreferenceValue
  | ValueTooLarge nat nat

datatype delete_outcome = PreferenceDeleted int | PreferenceNotPresent

definition is_reserved_key :: "string \<Rightarrow> bool" where
  "is_reserved_key key \<longleftrightarrow> key = ''room_order'' \<or> take 1 key = ''_''"

text \<open>The pattern \<open>^[a-z][a-z0-9_-]*(:[a-z0-9_-]+)*$\<close>, read as the segments between colons.\<close>

fun segments :: "string \<Rightarrow> string list" where
  "segments [] = [[]]"
| "segments (c # cs) =
     (if c = CHR '':'' then [] # segments cs
      else (case segments cs of [] \<Rightarrow> [[c]] | s # ss \<Rightarrow> (c # s) # ss))"

definition lower_letter :: "char \<Rightarrow> bool" where
  "lower_letter c \<longleftrightarrow> c \<in> set ''abcdefghijklmnopqrstuvwxyz''"

definition key_char :: "char \<Rightarrow> bool" where
  "key_char c \<longleftrightarrow> lower_letter c \<or> c \<in> set ''0123456789_-''"

definition matches_key_pattern :: "string \<Rightarrow> bool" where
  "matches_key_pattern key \<longleftrightarrow>
     list_all (\<lambda>s. s \<noteq> [] \<and> list_all key_char s) (segments key) \<and> list_ex lower_letter (take 1 key)"

definition validate_key_syntax :: "string \<Rightarrow> preferences_error option" where
  "validate_key_syntax key =
     (if key = [] \<or> 128 < length key \<or> \<not> matches_key_pattern key then Some (InvalidPreferenceKey key) else None)"

definition validate_key :: "string \<Rightarrow> preferences_error option" where
  "validate_key key = (if is_reserved_key key then Some (ReservedKey key) else validate_key_syntax key)"

definition get_preference :: "db \<Rightarrow> id \<Rightarrow> string \<Rightarrow> preference_row option" where
  "get_preference db user_id key = List.find (\<lambda>p. pf_user_id p = user_id \<and> pf_key p = key) (user_preferences db)"

definition upsert_preference :: "id \<Rightarrow> string \<Rightarrow> string \<Rightarrow> int \<Rightarrow> time \<Rightarrow> db \<Rightarrow> db" where
  "upsert_preference user_id key value seq now db =
     db\<lparr>user_preferences := upsert_row (\<lambda>r. pf_user_id r = user_id \<and> pf_key r = key)
       (\<lambda>r. r\<lparr>pf_value_encrypted := value, pf_user_seq := seq, pf_updated_at := current_timestamp now\<rparr>)
       \<lparr>pf_user_id = user_id, pf_key = key, pf_value_encrypted = value, pf_user_seq = seq, pf_updated_at = current_timestamp now\<rparr>
       (user_preferences db)\<rparr>"

definition validate_value :: "(string \<Rightarrow> bytes option) \<Rightarrow> nat \<Rightarrow> string \<Rightarrow> preferences_error option" where
  "validate_value b64_decode max_bytes value =
     (if value = [] then Some InvalidPreferenceValue
      else
        (case b64_decode value of
           None \<Rightarrow> Some InvalidPreferenceValue
         | Some decoded \<Rightarrow>
             if max_bytes < length decoded then Some (ValueTooLarge max_bytes (length decoded)) else None))"

text \<open>Writing the value that is there changes nothing and publishes nothing.\<close>

definition write_preference ::
  "(string \<Rightarrow> bytes option) \<Rightarrow> id \<Rightarrow> string \<Rightarrow> string \<Rightarrow> nat \<Rightarrow> time \<Rightarrow> db \<Rightarrow>
   preferences_error + (int \<times> event list \<times> db)"
where
  "write_preference b64_decode user_id key value max_bytes now db =
     (case validate_key key of
        Some e \<Rightarrow> Inl e
      | None \<Rightarrow>
          (case validate_value b64_decode max_bytes value of
             Some e \<Rightarrow> Inl e
           | None \<Rightarrow>
               if map_option pf_value_encrypted (get_preference db user_id key) = Some value
               then Inr (pf_user_seq (the (get_preference db user_id key)), [], db)
               else
                 (case allocate_user_seq db user_id of
                    None \<Rightarrow> Inl PreferencesDatabase
                  | Some (seq, db1) \<Rightarrow>
                      Inr (seq,
                        [publish_user_event user_id (new_envelope ''preference.updated'' seq
                           (JObject [(''key'', JString key), (''user_seq'', JInt seq)]) now)],
                        upsert_preference user_id key value seq now db1))))"

definition delete_preference ::
  "id \<Rightarrow> string \<Rightarrow> time \<Rightarrow> db \<Rightarrow> preferences_error + (delete_outcome \<times> event list \<times> db)"
where
  "delete_preference user_id key now db =
     (case validate_key key of
        Some e \<Rightarrow> Inl e
      | None \<Rightarrow>
          let p = (\<lambda>r. pf_user_id r = user_id \<and> pf_key r = key)
          in if \<not> exists_where p (user_preferences db) then Inr (PreferenceNotPresent, [], db)
             else
               (case allocate_user_seq (db\<lparr>user_preferences := delete_where p (user_preferences db)\<rparr>) user_id of
                  None \<Rightarrow> Inl PreferencesDatabase
                | Some (seq, db1) \<Rightarrow>
                    Inr (PreferenceDeleted seq,
                      [publish_user_event user_id (new_envelope ''preference.updated'' seq
                         (JObject [(''key'', JString key), (''user_seq'', JInt seq), (''deleted'', JBool True)]) now)],
                      db1)))"

definition list_preferences_since :: "db \<Rightarrow> id \<Rightarrow> int \<Rightarrow> preference_row list" where
  "list_preferences_since db user_id since_seq =
     sort_key pf_user_seq (filter (\<lambda>r. pf_user_id r = user_id \<and> since_seq < pf_user_seq r) (user_preferences db))"

definition list_preferences_all :: "db \<Rightarrow> id \<Rightarrow> preference_row list" where
  "list_preferences_all db user_id =
     sort_key pf_user_seq (filter (\<lambda>r. pf_user_id r = user_id) (user_preferences db))"

section \<open>Device names\<close>

datatype device_name_error = DeviceNameDatabase | DeviceNotOwned | InvalidCiphertext

definition validate_encrypted_device_name :: "(string \<Rightarrow> bytes option) \<Rightarrow> string \<Rightarrow> bool" where
  "validate_encrypted_device_name b64_decode value \<longleftrightarrow>
     (case b64_decode value of None \<Rightarrow> False | Some bs \<Rightarrow> 28 \<le> length bs \<and> length bs \<le> 284)"

definition upsert_device_name :: "id \<Rightarrow> id \<Rightarrow> string \<Rightarrow> int \<Rightarrow> time \<Rightarrow> db \<Rightarrow> db" where
  "upsert_device_name user_id device_id name seq now db =
     db\<lparr>device_names := upsert_row (\<lambda>r. dn_user_id r = user_id \<and> dn_device_id r = device_id)
       (\<lambda>r. r\<lparr>dn_encrypted_device_name := name, dn_user_seq := seq, dn_updated_at := current_timestamp now, dn_deleted_at := None\<rparr>)
       \<lparr>dn_user_id = user_id, dn_device_id = device_id, dn_encrypted_device_name = name, dn_user_seq = seq, dn_updated_at = current_timestamp now, dn_deleted_at = None\<rparr>
       (device_names db)\<rparr>"

definition write_device_name ::
  "(string \<Rightarrow> bytes option) \<Rightarrow> id \<Rightarrow> id \<Rightarrow> string \<Rightarrow> time \<Rightarrow> db \<Rightarrow>
   device_name_error + (device_name_row \<times> event \<times> db)"
where
  "write_device_name b64_decode user_id device_id name now db =
     (if \<not> exists_where (\<lambda>d. d_id d = device_id \<and> d_user_id d = user_id) (devices db) then Inl DeviceNotOwned
      else if \<not> validate_encrypted_device_name b64_decode name then Inl InvalidCiphertext
      else
        (case allocate_user_seq db user_id of
           None \<Rightarrow> Inl DeviceNameDatabase
         | Some (seq, db1) \<Rightarrow>
             Inr (\<lparr>dn_user_id = user_id, dn_device_id = device_id, dn_encrypted_device_name = name,
                   dn_user_seq = seq, dn_updated_at = current_timestamp now, dn_deleted_at = None\<rparr>,
               publish_user_event user_id (new_envelope ''device.name_updated'' seq
                 (JObject [(''device_id'', JString device_id), (''encrypted_device_name'', JString name),
                           (''user_seq'', JInt seq)]) now),
               upsert_device_name user_id device_id name seq now db1)))"

definition list_device_names_since :: "db \<Rightarrow> id \<Rightarrow> int \<Rightarrow> device_name_row list" where
  "list_device_names_since db user_id since_seq =
     sort_key dn_user_seq (filter (\<lambda>r. dn_user_id r = user_id \<and> since_seq < dn_user_seq r) (device_names db))"

definition list_device_names_all :: "db \<Rightarrow> id \<Rightarrow> device_name_row list" where
  "list_device_names_all db user_id =
     sort_key dn_user_seq (filter (\<lambda>r. dn_user_id r = user_id \<and> dn_deleted_at r = None) (device_names db))"

section \<open>The order of rooms\<close>

record room_order_state =
  os_room_ids :: "id list"
  os_user_seq :: int

datatype room_order_error =
    RoomOrderDatabase
  | DuplicateRoomIds
  | RoomOrderNotAMember id
  | TooManyRooms nat nat

definition get_room_order :: "db \<Rightarrow> id \<Rightarrow> room_order_state option" where
  "get_room_order db user_id =
     (let rows = sort_key ro_position (filter (\<lambda>r. ro_user_id r = user_id) (user_room_order db))
      in if rows = [] then None
         else Some \<lparr>os_room_ids = map ro_room_id rows, os_user_seq = fold max (map ro_user_seq rows) 0\<rparr>)"

fun room_order_rows :: "id \<Rightarrow> id list \<Rightarrow> nat \<Rightarrow> int \<Rightarrow> time \<Rightarrow> room_order_row list" where
  "room_order_rows user_id [] pos seq now = []"
| "room_order_rows user_id (room_id # ids) pos seq now =
     \<lparr>ro_user_id = user_id, ro_room_id = room_id, ro_position = int pos, ro_user_seq = seq,
      ro_updated_at = current_timestamp now\<rparr> # room_order_rows user_id ids (Suc pos) seq now"

text \<open>
  The checks run before the transaction.  Its inserts cannot fail: the ids are distinct, the old rows
  are gone, and user and rooms exist because the user is a member.
\<close>

definition set_room_order ::
  "id \<Rightarrow> id list \<Rightarrow> nat \<Rightarrow> time \<Rightarrow> db \<Rightarrow> room_order_error + (room_order_state \<times> event list \<times> db)"
where
  "set_room_order user_id room_ids limit now db =
     (if limit < length room_ids then Inl (TooManyRooms limit (length room_ids))
      else if \<not> distinct room_ids then Inl DuplicateRoomIds
      else
        (case List.find (\<lambda>r. \<not> is_member db r user_id) room_ids of
           Some r \<Rightarrow> Inl (RoomOrderNotAMember r)
         | None \<Rightarrow>
             let current = get_room_order db user_id
             in if (case current of None \<Rightarrow> [] | Some c \<Rightarrow> os_room_ids c) = room_ids
                then Inr (\<lparr>os_room_ids = room_ids,
                           os_user_seq = (case current of None \<Rightarrow> 0 | Some c \<Rightarrow> os_user_seq c)\<rparr>, [], db)
                else
                  (case allocate_user_seq db user_id of
                     None \<Rightarrow> Inl RoomOrderDatabase
                   | Some (seq, db1) \<Rightarrow>
                       Inr (\<lparr>os_room_ids = room_ids, os_user_seq = seq\<rparr>,
                         [publish_user_event user_id (new_envelope ''room_order.sync'' seq
                            (JObject [(''room_ids'', JArray (map JString room_ids)), (''user_seq'', JInt seq)]) now)],
                         db1\<lparr>user_room_order :=
                           delete_where (\<lambda>r. ro_user_id r = user_id) (user_room_order db1) @
                           room_order_rows user_id room_ids 0 seq now\<rparr>))))"

section \<open>Starred items\<close>

datatype star_error =
    StarDatabase
  | InvalidItemType
  | StarRoomNotFound
  | StarredItemNotFound
  | StarLimitReached

definition validate_item_type :: "string \<Rightarrow> bool" where
  "validate_item_type item_type \<longleftrightarrow> item_type \<in> {''attachment'', ''message'', ''link''}"

definition same_item :: "id \<Rightarrow> id \<Rightarrow> string \<Rightarrow> starred_row \<Rightarrow> bool" where
  "same_item user_id item_id item_type r \<longleftrightarrow>
     st_user_id r = user_id \<and> st_item_id r = item_id \<and> st_item_type r = item_type"

definition star_event :: "id \<Rightarrow> starred_row \<Rightarrow> time \<Rightarrow> event" where
  "star_event user_id row now =
     publish_user_event user_id (new_envelope ''starred_item.added'' (st_user_seq row)
       (JObject [(''item_id'', JString (st_item_id row)), (''item_type'', JString (st_item_type row)),
                 (''room_id'', JString (st_room_id row)), (''user_seq'', JInt (st_user_seq row))]) now)"

definition restar_item :: "id \<Rightarrow> starred_row \<Rightarrow> time \<Rightarrow> db \<Rightarrow> star_error + (starred_row \<times> bool \<times> event list \<times> db)" where
  "restar_item user_id old now db =
     (case allocate_user_seq db user_id of
        None \<Rightarrow> Inl StarDatabase
      | Some (seq, db1) \<Rightarrow>
          let revive = (\<lambda>r. r\<lparr>st_deleted_at := None, st_user_seq := seq, st_starred_at := now\<rparr>)
          in Inr (revive old, True, [star_event user_id (revive old) now],
               db1\<lparr>starred_items :=
                 update_where (same_item user_id (st_item_id old) (st_item_type old)) revive (starred_items db1)\<rparr>))"

definition star_fresh ::
  "id \<Rightarrow> id \<Rightarrow> string \<Rightarrow> id \<Rightarrow> 32 word \<Rightarrow> time \<Rightarrow> db \<Rightarrow> star_error + (starred_row \<times> bool \<times> event list \<times> db)"
where
  "star_fresh user_id item_id item_type room_id max_starred now db =
     (if uint max_starred \<le> count_where (\<lambda>r. st_user_id r = user_id \<and> st_deleted_at r = None) (starred_items db)
      then Inl StarLimitReached
      else
        (case allocate_user_seq db user_id of
           None \<Rightarrow> Inl StarDatabase
         | Some (seq, db1) \<Rightarrow>
             let row = \<lparr>st_user_id = user_id, st_item_id = item_id, st_item_type = item_type, st_room_id = room_id,
                        st_user_seq = seq, st_starred_at = now, st_deleted_at = None\<rparr>
             in Inr (row, True, [star_event user_id row now], db1\<lparr>starred_items := starred_items db1 @ [row]\<rparr>)))"

definition star_item ::
  "id \<Rightarrow> id \<Rightarrow> string \<Rightarrow> id \<Rightarrow> 32 word \<Rightarrow> time \<Rightarrow> db \<Rightarrow> star_error + (starred_row \<times> bool \<times> event list \<times> db)"
where
  "star_item user_id item_id item_type room_id max_starred now db =
     (if \<not> validate_item_type item_type then Inl InvalidItemType
      else if \<not> is_member db room_id user_id then Inl StarRoomNotFound
      else
        (case List.find (same_item user_id item_id item_type) (starred_items db) of
           Some row \<Rightarrow> if st_deleted_at row = None then Inr (row, False, [], db) else restar_item user_id row now db
         | None \<Rightarrow> star_fresh user_id item_id item_type room_id max_starred now db))"

definition unstar_item ::
  "id \<Rightarrow> id \<Rightarrow> string \<Rightarrow> time \<Rightarrow> db \<Rightarrow> star_error + (event list \<times> db)"
where
  "unstar_item user_id item_id item_type now db =
     (if \<not> validate_item_type item_type then Inl InvalidItemType
      else
        (case List.find (same_item user_id item_id item_type) (starred_items db) of
           None \<Rightarrow> Inl StarredItemNotFound
         | Some row \<Rightarrow>
             if st_deleted_at row \<noteq> None then Inl StarredItemNotFound
             else
               (case allocate_user_seq db user_id of
                  None \<Rightarrow> Inl StarDatabase
                | Some (seq, db1) \<Rightarrow>
                    Inr ([publish_user_event user_id (new_envelope ''starred_item.removed'' seq
                            (JObject [(''item_id'', JString (st_item_id row)),
                                      (''item_type'', JString (st_item_type row)), (''user_seq'', JInt seq)]) now)],
                      db1\<lparr>starred_items := update_where (same_item user_id item_id item_type)
                        (\<lambda>r. r\<lparr>st_deleted_at := Some now, st_user_seq := seq\<rparr>) (starred_items db1)\<rparr>))))"

definition list_starred_items_since :: "db \<Rightarrow> id \<Rightarrow> int \<Rightarrow> starred_row list" where
  "list_starred_items_since db user_id since_seq =
     sort_key st_user_seq (filter (\<lambda>r. st_user_id r = user_id \<and> since_seq < st_user_seq r) (starred_items db))"

definition list_starred_items_all :: "db \<Rightarrow> id \<Rightarrow> starred_row list" where
  "list_starred_items_all db user_id =
     sort_key st_user_seq (filter (\<lambda>r. st_user_id r = user_id) (starred_items db))"

text \<open>
  The pages of \<open>list_starred_items\<close>.  A cursor is the base64url text of a JSON object; \<open>decode\<close> and
  \<open>encode\<close> stand for both layers.
\<close>

record starred_cursor =
  sc_cursor_user_id :: id
  sc_last_item_id :: id
  sc_last_item_type :: string
  sc_last_starred_at :: "time option"

record list_star_query =
  lsq_type :: "string option"
  lsq_room_id :: "id option"
  lsq_limit :: "32 word option"
  lsq_cursor :: "string option"
  lsq_include_deleted :: "bool option"

datatype list_star_error = ListInvalidItemType | ListInvalidCursor

definition decode_cursor ::
  "(string \<Rightarrow> starred_cursor option) \<Rightarrow> string \<Rightarrow> id \<Rightarrow> list_star_error + starred_cursor"
where
  "decode_cursor decode cursor_text user_id =
     (case decode cursor_text of
        None \<Rightarrow> Inl ListInvalidCursor
      | Some c \<Rightarrow> if sc_cursor_user_id c \<noteq> user_id then Inl ListInvalidCursor else Inr c)"

text \<open>The position of a cursor; an old one without a time is looked up.\<close>

definition cursor_position ::
  "(string \<Rightarrow> starred_cursor option) \<Rightarrow> db \<Rightarrow> id \<Rightarrow> string option \<Rightarrow>
   list_star_error + (time \<times> id \<times> string) option"
where
  "cursor_position decode db user_id cursor =
     (case cursor of
        None \<Rightarrow> Inr None
      | Some cursor_text \<Rightarrow>
          (case decode_cursor decode cursor_text user_id of
             Inl e \<Rightarrow> Inl e
           | Inr c \<Rightarrow>
               (case sc_last_starred_at c of
                  Some t \<Rightarrow> Inr (Some (t, sc_last_item_id c, sc_last_item_type c))
                | None \<Rightarrow>
                    (case List.find (same_item user_id (sc_last_item_id c) (sc_last_item_type c)) (starred_items db) of
                       None \<Rightarrow> Inl ListInvalidCursor
                     | Some r \<Rightarrow> Inr (Some (st_starred_at r, sc_last_item_id c, sc_last_item_type c))))))"

text \<open>\<open>ORDER BY starred_at DESC, item_id ASC, item_type ASC\<close>, and the condition that continues it.\<close>

definition starred_order :: "starred_row \<Rightarrow> int \<times> id \<times> string" where
  "starred_order r = (- st_starred_at r, st_item_id r, st_item_type r)"

definition beyond_cursor :: "(time \<times> id \<times> string) option \<Rightarrow> starred_row \<Rightarrow> bool" where
  "beyond_cursor pos r \<longleftrightarrow>
     (case pos of
        None \<Rightarrow> True
      | Some (t, i, ty) \<Rightarrow>
          st_starred_at r < t \<or>
          (st_starred_at r = t \<and> (i < st_item_id r \<or> (st_item_id r = i \<and> ty < st_item_type r))))"

definition starred_match :: "id \<Rightarrow> list_star_query \<Rightarrow> starred_row \<Rightarrow> bool" where
  "starred_match user_id q r \<longleftrightarrow>
     st_user_id r = user_id \<and> (lsq_include_deleted q \<noteq> Some True \<longrightarrow> st_deleted_at r = None) \<and>
     (\<forall>ty \<in> set_option (lsq_type q). st_item_type r = ty) \<and> (\<forall>room \<in> set_option (lsq_room_id q). st_room_id r = room)"

definition star_limit :: "32 word option \<Rightarrow> nat" where
  "star_limit limit = min (case limit of None \<Rightarrow> 100 | Some l \<Rightarrow> unat l) 500"

record list_starred_response =
  lsr_items :: "starred_row list"
  lsr_next_cursor :: "string option"
  lsr_has_more :: bool

definition starred_rows :: "db \<Rightarrow> id \<Rightarrow> list_star_query \<Rightarrow> (time \<times> id \<times> string) option \<Rightarrow> starred_row list" where
  "starred_rows db user_id q pos =
     sort_key starred_order (filter (\<lambda>r. starred_match user_id q r \<and> beyond_cursor pos r) (starred_items db))"

definition star_page ::
  "(starred_cursor \<Rightarrow> string) \<Rightarrow> db \<Rightarrow> id \<Rightarrow> list_star_query \<Rightarrow> (time \<times> id \<times> string) option \<Rightarrow> nat \<Rightarrow>
   list_starred_response"
where
  "star_page encode db user_id q pos limit =
     (let rows = take (limit + 1) (starred_rows db user_id q pos);
          has_more = (limit < length rows);
          items = take limit rows
      in \<lparr>lsr_items = items,
          lsr_next_cursor =
            (if has_more \<and> items \<noteq> []
             then Some (encode \<lparr>sc_cursor_user_id = user_id, sc_last_item_id = st_item_id (last items),
               sc_last_item_type = st_item_type (last items),
               sc_last_starred_at = Some (st_starred_at (last items))\<rparr>)
             else None),
          lsr_has_more = has_more\<rparr>)"

definition list_starred_items ::
  "(string \<Rightarrow> starred_cursor option) \<Rightarrow> (starred_cursor \<Rightarrow> string) \<Rightarrow> db \<Rightarrow> id \<Rightarrow> list_star_query \<Rightarrow>
   list_star_error + list_starred_response"
where
  "list_starred_items decode encode db user_id q =
     (if (case lsq_type q of None \<Rightarrow> False | Some ty \<Rightarrow> \<not> validate_item_type ty) then Inl ListInvalidItemType
      else
        (case cursor_position decode db user_id (lsq_cursor q) of
           Inl e \<Rightarrow> Inl e
         | Inr pos \<Rightarrow> Inr (star_page encode db user_id q pos (star_limit (lsq_limit q)))))"

section \<open>The sync query\<close>

record bot_setting_sync_row =
  bw_bot_id :: id
  bw_key :: string
  bw_is_secret :: bool
  bw_value_encrypted_client :: "string option"
  bw_user_seq :: int

record sync_response =
  sy_read_state :: "read_state_row list"
  sy_user_preferences :: "preference_row list"
  sy_device_state :: "device_name_row list"
  sy_starred_items :: "starred_row list"
  sy_bot_settings :: "bot_setting_sync_row list"
  sy_room_order :: "room_order_state option"
  sy_max_seq :: int
  sy_full_resync_required :: bool

text \<open>\<open>(? = 0 OR bs.user_seq > ?)\<close> on the settings of the bots the user owns.\<close>

definition owned_bot_setting :: "db \<Rightarrow> id \<Rightarrow> bot_setting_row \<Rightarrow> bool" where
  "owned_bot_setting db user_id s \<longleftrightarrow>
     exists_where (\<lambda>b. b_id b = bs_bot_id s \<and> b_owner_user_id b = user_id) (bot_accounts db)"

definition list_bot_settings_since :: "db \<Rightarrow> id \<Rightarrow> int \<Rightarrow> bot_setting_sync_row list" where
  "list_bot_settings_since db user_id since_seq =
     map (\<lambda>s. \<lparr>bw_bot_id = bs_bot_id s, bw_key = bs_key s, bw_is_secret = bs_is_secret s,
               bw_value_encrypted_client = bs_value_encrypted_client s, bw_user_seq = bs_user_seq s\<rparr>)
       (sort_key bs_user_seq
         (filter (\<lambda>s. owned_bot_setting db user_id s \<and> (since_seq = 0 \<or> since_seq < bs_user_seq s))
           (bot_settings db)))"

text \<open>
  The numbers and times of the rows that \<open>is_full_resync_required\<close> looks at.  Both of its queries
  name six tables, but bind too few arguments: five of six for the smallest number, eleven of thirteen
  for the age.  SQLite takes an unbound parameter as NULL, so the owner of the bot settings matches
  nothing in either, and the cutoff \<open>datetime('now', NULL)\<close> is NULL.
\<close>

definition sync_rows :: "db \<Rightarrow> id \<Rightarrow> (int \<times> time) list" where
  "sync_rows db user_id =
     map (\<lambda>r. (rd_user_seq r, rd_updated_at r)) (filter (\<lambda>r. rd_user_id r = user_id) (read_states db)) @
     map (\<lambda>r. (pf_user_seq r, pf_updated_at r)) (filter (\<lambda>r. pf_user_id r = user_id) (user_preferences db)) @
     map (\<lambda>r. (ro_user_seq r, ro_updated_at r)) (filter (\<lambda>r. ro_user_id r = user_id) (user_room_order db)) @
     map (\<lambda>r. (dn_user_seq r, dn_updated_at r)) (filter (\<lambda>r. dn_user_id r = user_id) (device_names db)) @
     map (\<lambda>r. (st_user_seq r, st_starred_at r)) (filter (\<lambda>r. st_user_id r = user_id) (starred_items db))"

definition min_retained_seq :: "db \<Rightarrow> id \<Rightarrow> int" where
  "min_retained_seq db user_id =
     (let seqs = map fst (sync_rows db user_id)
      in if seqs \<noteq> [] then fold min seqs (hd seqs)
         else if 0 < highest_user_seq db user_id then highest_user_seq db user_id + 1
         else 2 ^ 63 - 1)"

definition any_expired :: "db \<Rightarrow> id \<Rightarrow> int \<Rightarrow> time option \<Rightarrow> bool" where
  "any_expired db user_id since_seq cutoff \<longleftrightarrow>
     list_ex (\<lambda>(seq, ts). seq \<le> since_seq \<and> sql_less ts cutoff) (sync_rows db user_id)"

definition is_full_resync_required :: "db \<Rightarrow> id \<Rightarrow> int \<Rightarrow> bool" where
  "is_full_resync_required db user_id since_seq \<longleftrightarrow>
     since_seq \<noteq> 0 \<and> (since_seq < min_retained_seq db user_id \<or> any_expired db user_id since_seq None)"

text \<open>
  The queries of one request are not in a transaction.  The rows are read first and the counter
  after them, so \<open>counter\<close> is the same database or a later one.
\<close>

definition execute_sync :: "db \<Rightarrow> db \<Rightarrow> id \<Rightarrow> int \<Rightarrow> sync_response" where
  "execute_sync tables counter user_id since_seq =
     \<lparr>sy_read_state =
        (if since_seq = 0 then list_read_state_all tables user_id else list_read_state_since tables user_id since_seq),
      sy_user_preferences =
        (if since_seq = 0 then list_preferences_all tables user_id else list_preferences_since tables user_id since_seq),
      sy_device_state =
        (if since_seq = 0 then list_device_names_all tables user_id else list_device_names_since tables user_id since_seq),
      sy_starred_items =
        (if since_seq = 0 then list_starred_items_all tables user_id else list_starred_items_since tables user_id since_seq),
      sy_bot_settings = list_bot_settings_since tables user_id since_seq,
      sy_room_order =
        (case get_room_order tables user_id of
           None \<Rightarrow> None
         | Some ro \<Rightarrow> if since_seq = 0 \<or> since_seq < os_user_seq ro then Some ro else None),
      sy_max_seq = max since_seq (highest_user_seq counter user_id),
      sy_full_resync_required = is_full_resync_required counter user_id since_seq\<rparr>"

section \<open>Pruning tombstones\<close>

text \<open>
  Of the tables of the job, three have a \<open>deleted_at\<close> column.  Nothing writes it in two of them.
  A star's was bound by \<open>sqlx\<close>, with a \<open>T\<close> between date and time, and compares as text with
  \<open>datetime('now', ...)\<close>: of the same date, it is not less.
\<close>

definition counter_covers :: "db \<Rightarrow> id \<Rightarrow> int \<Rightarrow> bool" where
  "counter_covers db user_id seq \<longleftrightarrow>
     (case List.find (\<lambda>r. us_user_id r = user_id) (user_seqs db) of
        None \<Rightarrow> False | Some r \<Rightarrow> seq \<le> us_next_seq r - 1)"

definition retention_or_default :: "64 word \<Rightarrow> int" where
  "retention_or_default days = (if days = 0 then 90 else uint days)"

definition text_date_before :: "time \<Rightarrow> time option \<Rightarrow> bool" where
  "text_date_before t cutoff \<longleftrightarrow>
     (case cutoff of None \<Rightarrow> False | Some c \<Rightarrow> t div (86400 * nanos_per_sec) < c div (86400 * nanos_per_sec))"

definition prune_sync :: "64 word \<Rightarrow> time \<Rightarrow> db \<Rightarrow> db" where
  "prune_sync days now db =
     (let cutoff = datetime_days_ago now (retention_or_default days)
      in db\<lparr>read_states := delete_where
              (\<lambda>r. (case rd_deleted_at r of None \<Rightarrow> False | Some t \<Rightarrow> sql_less t cutoff) \<and>
                   counter_covers db (rd_user_id r) (rd_user_seq r)) (read_states db),
            device_names := delete_where
              (\<lambda>r. (case dn_deleted_at r of None \<Rightarrow> False | Some t \<Rightarrow> sql_less t cutoff) \<and>
                   counter_covers db (dn_user_id r) (dn_user_seq r)) (device_names db),
            starred_items := delete_where
              (\<lambda>r. (case st_deleted_at r of None \<Rightarrow> False | Some t \<Rightarrow> text_date_before t cutoff) \<and>
                   counter_covers db (st_user_id r) (st_user_seq r)) (starred_items db)\<rparr>)"

end
