(* ===== verification/SyncProps.thy ===== *)
theory SyncProps
  imports SyncFeed Paging
begin

text \<open>
  What the synchronisation of private state promises, and where it breaks its promise.  The
  contract \<open>change_feed\<close> says what one write may do to a synchronised table; its lemma is that a
  replica which applies the rows after its cursor becomes the table.  The four tables with rows of
  their own are interpretations.
\<close>

section \<open>Replicas\<close>

text \<open>A client keeps the rows by key and lets a newer row replace an older one.\<close>

definition replica :: "('r \<Rightarrow> 'k) \<Rightarrow> 'r list \<Rightarrow> ('k \<rightharpoonup> 'r)" where
  "replica key rows = map_of (map (\<lambda>r. (key r, r)) rows)"

definition apply_rows :: "('r \<Rightarrow> 'k) \<Rightarrow> 'r list \<Rightarrow> ('k \<rightharpoonup> 'r) \<Rightarrow> ('k \<rightharpoonup> 'r)" where
  "apply_rows key rows m = fold (\<lambda>r m. m(key r \<mapsto> r)) rows m"

lemma replica_SomeI: "distinct (map key t) \<Longrightarrow> r \<in> set t \<Longrightarrow> replica key t (key r) = Some r"
proof (induction t)
  case (Cons x t)
  then show ?case by (cases "r = x") (auto simp: replica_def rev_image_eqI)
qed simp

lemma replica_None_iff: "replica key t k = None \<longleftrightarrow> k \<notin> key ` set t"
  by (induction t) (auto simp: replica_def)

lemma apply_rows_miss: "k \<notin> key ` set t \<Longrightarrow> apply_rows key t m k = m k"
  by (induction t arbitrary: m) (auto simp: apply_rows_def)

lemma apply_rows_hit:
  "r \<in> set t \<Longrightarrow> (\<And>x. x \<in> set t \<Longrightarrow> key x = key r \<Longrightarrow> x = r) \<Longrightarrow> apply_rows key t m (key r) = Some r"
proof (induction t arbitrary: m)
  case (Cons x t)
  show ?case
  proof (cases "key r \<in> key ` set t")
    case True
    then have "r \<in> set t" using Cons.prems(2) by (metis image_iff list.set_intros(2))
    then show ?thesis using Cons.IH Cons.prems(2) by (simp add: apply_rows_def)
  next
    case False
    then have "x = r" using Cons.prems by auto
    with False show ?thesis using apply_rows_miss[of "key r" key t "m(key r \<mapsto> r)"] by (simp add: apply_rows_def)
  qed
qed simp

section \<open>One write to a table\<close>

text \<open>
  A transition keeps the keys of a table and gives every row it writes a number that the owner's
  counter passed in it.
\<close>

definition table_step ::
  "('r \<Rightarrow> id) \<Rightarrow> ('r \<Rightarrow> 'k) \<Rightarrow> ('r \<Rightarrow> int) \<Rightarrow> (id \<Rightarrow> int) \<Rightarrow> (id \<Rightarrow> int) \<Rightarrow> 'r list \<Rightarrow> 'r list \<Rightarrow> bool"
where
  "table_step uid key seq hi hi' t t' \<longleftrightarrow>
     (\<forall>u. hi u \<le> hi' u) \<and>
     (\<forall>r \<in> set t'. r \<in> set t \<or> hi (uid r) < seq r \<and> seq r \<le> hi' (uid r)) \<and>
     (\<lambda>r. (uid r, key r)) ` set t \<subseteq> (\<lambda>r. (uid r, key r)) ` set t' \<and>
     (distinct (map (\<lambda>r. (uid r, key r)) t) \<longrightarrow> distinct (map (\<lambda>r. (uid r, key r)) t'))"

lemma table_step_same: "(\<And>u. hi u \<le> hi' u) \<Longrightarrow> table_step uid key seq hi hi' t t"
  by (simp add: table_step_def)

lemma table_step_update:
  assumes "\<And>u. hi u \<le> hi' u" and "\<And>r. p r \<Longrightarrow> uid r = u" and "hi u < n" and "n \<le> hi' u"
    and "\<And>r. uid (f r) = uid r" and "\<And>r. key (f r) = key r" and "\<And>r. seq (f r) = n"
  shows "table_step uid key seq hi hi' t (update_where p f t)"
proof -
  have "map (\<lambda>r. (uid r, key r)) (update_where p f t) = map (\<lambda>r. (uid r, key r)) t"
    using assms(5,6) by (intro map_update_where) simp
  moreover from this have "(\<lambda>r. (uid r, key r)) ` set (update_where p f t) = (\<lambda>r. (uid r, key r)) ` set t"
    by (metis list.set_map)
  ultimately show ?thesis using assms by (auto simp: table_step_def ball_update_where)
qed

lemma table_step_insert:
  assumes "\<And>u. hi u \<le> hi' u" and "(uid r, key r) \<notin> (\<lambda>r. (uid r, key r)) ` set t"
    and "hi (uid r) < seq r" and "seq r \<le> hi' (uid r)"
  shows "table_step uid key seq hi hi' t (t @ [r])"
  using assms by (auto simp: table_step_def)

section \<open>The contract\<close>

locale change_feed =
  fixes step :: "'s \<Rightarrow> 's \<Rightarrow> bool"
    and hi :: "'s \<Rightarrow> id \<Rightarrow> int"
    and rows :: "'s \<Rightarrow> 'r list"
    and uid :: "'r \<Rightarrow> id"
    and key :: "'r \<Rightarrow> 'k"
    and seq :: "'r \<Rightarrow> int"
  assumes one_step: "step s s' \<Longrightarrow> table_step uid key seq (hi s) (hi s') (rows s) (rows s')"
begin

definition feed_ok :: "'s \<Rightarrow> bool" where
  "feed_ok s \<longleftrightarrow> distinct (map (\<lambda>r. (uid r, key r)) (rows s)) \<and> (\<forall>r \<in> set (rows s). seq r \<le> hi s (uid r))"

lemma step_feed_ok: "step s s' \<Longrightarrow> feed_ok s \<Longrightarrow> feed_ok s'"
  using one_step[of s s'] unfolding feed_ok_def table_step_def by (meson order_trans)

lemma steps_from:
  assumes "step\<^sup>*\<^sup>* s s'" and "feed_ok s"
  shows "feed_ok s' \<and> hi s u \<le> hi s' u \<and>
    (\<forall>r \<in> set (rows s'). uid r = u \<longrightarrow> r \<in> set (rows s) \<or> hi s u < seq r) \<and>
    (\<lambda>r. (uid r, key r)) ` set (rows s) \<subseteq> (\<lambda>r. (uid r, key r)) ` set (rows s')"
  using assms
proof (induction rule: rtranclp_induct)
  case (step t s')
  then have IH: "feed_ok t" "hi s u \<le> hi t u" "\<And>r. r \<in> set (rows t) \<Longrightarrow> uid r = u \<Longrightarrow> r \<in> set (rows s) \<or> hi s u < seq r"
    "(\<lambda>r. (uid r, key r)) ` set (rows s) \<subseteq> (\<lambda>r. (uid r, key r)) ` set (rows t)" by auto
  note one = one_step[OF step.hyps(2), unfolded table_step_def]
  have "r \<in> set (rows s) \<or> hi s u < seq r" if "r \<in> set (rows s')" "uid r = u" for r
  proof -
    have "r \<in> set (rows t) \<or> hi t u < seq r" using one that by blast
    then show ?thesis using IH(3)[of r] IH(2) that(2) by auto
  qed
  moreover have "hi s u \<le> hi s' u" using one IH(2) by (meson order_trans)
  moreover have "(\<lambda>r. (uid r, key r)) ` set (rows s) \<subseteq> (\<lambda>r. (uid r, key r)) ` set (rows s')"
    using one IH(4) by (meson order_trans)
  ultimately show ?case using step_feed_ok[OF step.hyps(2) IH(1)] by simp
qed simp

text \<open>The rows of a user, and what a listing after a cursor gives.\<close>

definition mine :: "id \<Rightarrow> 's \<Rightarrow> 'r list" where
  "mine u s = filter (\<lambda>r. uid r = u) (rows s)"

lemma mine_distinct: "feed_ok s \<Longrightarrow> distinct (map key (mine u s))"
  by (auto simp: feed_ok_def mine_def distinct_map inj_on_def)

theorem replica_converges:
  assumes "step\<^sup>*\<^sup>* s s'" and "feed_ok s"
  shows "apply_rows key (sort_key seq (filter (\<lambda>r. uid r = u \<and> hi s u < seq r) (rows s'))) (replica key (mine u s)) =
    replica key (mine u s')"
proof
  fix k
  let ?delta = "sort_key seq (filter (\<lambda>r. uid r = u \<and> hi s u < seq r) (rows s'))"
  note inv = steps_from[OF assms, of u]
  note dist = mine_distinct[of s' u] mine_distinct[OF assms(2), of u]
  show "apply_rows key ?delta (replica key (mine u s)) k = replica key (mine u s') k"
  proof (cases "k \<in> key ` set (mine u s')")
    case False
    then have "k \<notin> key ` set ?delta" by (auto simp: mine_def)
    moreover have "k \<notin> key ` set (mine u s)"
    proof
      assume "k \<in> key ` set (mine u s)"
      then have "(u, k) \<in> (\<lambda>r. (uid r, key r)) ` set (rows s')" using inv by (force simp: mine_def)
      with False show False by (auto simp: mine_def)
    qed
    ultimately show ?thesis using False by (simp add: apply_rows_miss replica_None_iff[THEN iffD2])
  next
    case True
    then obtain r where r: "r \<in> set (mine u s')" "k = key r" by auto
    have only: "x = r" if "x \<in> set (mine u s')" "key x = key r" for x
      using dist(1) inv r(1) that by (auto simp: distinct_map dest: inj_onD)
    have s': "replica key (mine u s') k = Some r" using replica_SomeI[OF dist(1) r(1)] inv r(2) by simp
    show ?thesis
    proof (cases "hi s u < seq r")
      case True
      then have "apply_rows key ?delta (replica key (mine u s)) (key r) = Some r"
        using r(1) only by (intro apply_rows_hit) (auto simp: mine_def)
      with s' r(2) show ?thesis by simp
    next
      case False
      then have "r \<in> set (mine u s)" using inv r(1) by (auto simp: mine_def)
      moreover have "key r \<notin> key ` set ?delta"
        using False only by (auto simp: mine_def)
      ultimately show ?thesis
        using s' replica_SomeI[OF dist(2)] r(2) by (simp add: apply_rows_miss)
    qed
  qed
qed

end

section \<open>The transitions\<close>

text \<open>
  Every write of a synchronised table by any user, and every other transition, which leaves those
  tables alone and moves no counter back.  Deleting a preference or a room is not among them.
\<close>

inductive sync_step :: "db \<Rightarrow> db \<Rightarrow> bool" where
  read_marker: "write_read_state u room m now db = Inr (row, ev, db') \<Longrightarrow> sync_step db db'"
| preference: "write_preference dec u k v max_bytes now db = Inr (n, evs, db') \<Longrightarrow> sync_step db db'"
| device_name: "write_device_name dec u d name now db = Inr (dn, ev, db') \<Longrightarrow> sync_step db db'"
| room_order: "set_room_order u ids limit now db = Inr (ord, evs, db') \<Longrightarrow> sync_step db db'"
| star: "star_item u i ty room max_starred now db = Inr (st, created, evs, db') \<Longrightarrow> sync_step db db'"
| unstar: "unstar_item u i ty now db = Inr (evs, db') \<Longrightarrow> sync_step db db'"
| other: "read_states db' = read_states db \<Longrightarrow> user_preferences db' = user_preferences db \<Longrightarrow>
    device_names db' = device_names db \<Longrightarrow> starred_items db' = starred_items db \<Longrightarrow>
    (\<And>u. highest_user_seq db u \<le> highest_user_seq db' u) \<Longrightarrow> sync_step db db'"

lemma highest_user_seq_cong: "user_seqs db' = user_seqs db \<Longrightarrow> highest_user_seq db' = highest_user_seq db"
  by (simp add: highest_user_seq_def fun_eq_iff)

text \<open>A write allocates a number and then changes one table.\<close>

definition allocating :: "db \<Rightarrow> id \<Rightarrow> int \<Rightarrow> db \<Rightarrow> bool" where
  "allocating db u n db' \<longleftrightarrow> (\<forall>v. highest_user_seq db v \<le> highest_user_seq db' v) \<and>
     highest_user_seq db u < n \<and> n = highest_user_seq db' u"

lemma allocate_allocating:
  "allocate_user_seq db u = Some (n, db1) \<Longrightarrow> user_seqs db' = user_seqs db1 \<Longrightarrow> allocating db u n db'"
  using user_seq_alloc.alloc_fresh[of db u n db1] user_seq_alloc.alloc_mono[of db u n db1]
    highest_user_seq_cong[of db' db1] by (simp add: allocating_def)

text \<open>The upsert that three of the tables share.\<close>

lemma table_step_upsert:
  assumes "allocating db u n db'"
    and "\<And>r. p r \<longleftrightarrow> uid r = u \<and> key r = k"
    and "\<And>r. uid (f r) = uid r" and "\<And>r. key (f r) = key r" and "\<And>r. seq (f r) = n"
    and "uid new = u" and "key new = k" and "seq new = n"
  shows "table_step uid key seq (highest_user_seq db) (highest_user_seq db') t
    (upsert_row p f new t)"
proof (cases "exists_where p t")
  case True
  have "table_step uid key seq (highest_user_seq db) (highest_user_seq db') t (update_where p f t)"
    by (rule table_step_update[where u = u and n = n]) (use assms(1) in \<open>simp_all add: assms(2-5) allocating_def\<close>)
  with True show ?thesis by (simp add: upsert_row_def)
next
  case False
  then have "table_step uid key seq (highest_user_seq db) (highest_user_seq db') t (t @ [new])"
    using assms by (intro table_step_insert) (auto simp: allocating_def)
  with False show ?thesis by (simp add: upsert_row_def)
qed

text \<open>What each operation does to the counters and the tables.\<close>

lemma allocated_write:
  assumes "allocate_user_seq db u = Some (n, db1)" and "db' = g db1" and "user_seqs (g db1) = user_seqs db1"
  shows "allocating db u n db' \<and> (\<exists>t. db' = g (db\<lparr>user_seqs := t\<rparr>))"
  using allocate_allocating[OF assms(1), of db'] allocate_user_seq_frame[OF assms(1)] assms(2,3)
  by (auto simp: allocation_updates_def)

lemma write_read_state_feed:
  assumes "write_read_state u room m now db = Inr (row, ev, db')"
  shows "allocating db u (rd_user_seq row) db' \<and>
    (\<exists>t. db' = upsert_read_state u room m (rd_user_seq row) now (db\<lparr>user_seqs := t\<rparr>))"
proof -
  obtain n db1 where a: "allocate_user_seq db u = Some (n, db1)"
    and r: "db' = upsert_read_state u room m n now db1" "rd_user_seq row = n"
    using assms by (auto simp: write_read_state_def split: if_splits option.splits)
  from allocated_write[where g = "upsert_read_state u room m n now", OF a r(1)] r(2) show ?thesis by (simp add: upsert_read_state_def)
qed

lemma write_preference_feed:
  assumes "write_preference dec u k v max_bytes now db = Inr (n, evs, db')" and "db' \<noteq> db"
  shows "allocating db u n db' \<and> (\<exists>t. db' = upsert_preference u k v n now (db\<lparr>user_seqs := t\<rparr>))"
proof -
  obtain db1 where a: "allocate_user_seq db u = Some (n, db1)" and r: "db' = upsert_preference u k v n now db1"
    using assms by (auto simp: write_preference_def split: if_splits option.splits)
  from allocated_write[where g = "upsert_preference u k v n now", OF a r(1)] show ?thesis by (simp add: upsert_preference_def)
qed

lemma write_device_name_feed:
  assumes "write_device_name dec u d name now db = Inr (row, ev, db')"
  shows "allocating db u (dn_user_seq row) db' \<and>
    (\<exists>t. db' = upsert_device_name u d name (dn_user_seq row) now (db\<lparr>user_seqs := t\<rparr>))"
proof -
  obtain n db1 where a: "allocate_user_seq db u = Some (n, db1)"
    and r: "db' = upsert_device_name u d name n now db1" "dn_user_seq row = n"
    using assms by (auto simp: write_device_name_def split: if_splits option.splits)
  from allocated_write[where g = "upsert_device_name u d name n now", OF a r(1)] r(2) show ?thesis by (simp add: upsert_device_name_def)
qed

definition put_room_order :: "id \<Rightarrow> id list \<Rightarrow> int \<Rightarrow> time \<Rightarrow> db \<Rightarrow> db" where
  "put_room_order u ids n now db = db\<lparr>user_room_order :=
     delete_where (\<lambda>r. ro_user_id r = u) (user_room_order db) @ room_order_rows u ids 0 n now\<rparr>"

lemma set_room_order_feed:
  assumes "set_room_order u ids limit now db = Inr (ord, evs, db')" and "db' \<noteq> db"
  shows "allocating db u (os_user_seq ord) db' \<and> os_room_ids ord = ids \<and>
    (\<exists>t. db' = put_room_order u ids (os_user_seq ord) now (db\<lparr>user_seqs := t\<rparr>))"
proof -
  obtain n db1 where a: "allocate_user_seq db u = Some (n, db1)"
    and r: "db' = put_room_order u ids n now db1" "ord = \<lparr>os_room_ids = ids, os_user_seq = n\<rparr>"
    using assms by (auto simp: set_room_order_def put_room_order_def Let_def split: if_splits option.splits)
  from allocated_write[where g = "put_room_order u ids n now", OF a r(1)] r(2) show ?thesis by (simp add: put_room_order_def)
qed

definition set_star :: "id \<Rightarrow> id \<Rightarrow> string \<Rightarrow> (starred_row \<Rightarrow> starred_row) \<Rightarrow> db \<Rightarrow> db" where
  "set_star u i ty f db = db\<lparr>starred_items := update_where (same_item u i ty) f (starred_items db)\<rparr>"

lemma star_item_feed:
  assumes "star_item u i ty room max_starred now db = Inr (row, created, evs, db')" and "db' \<noteq> db"
  shows "allocating db u (st_user_seq row) db' \<and>
    (List.find (same_item u i ty) (starred_items db) \<noteq> None \<and>
       (\<exists>t. db' = set_star u i ty (\<lambda>r. r\<lparr>st_deleted_at := None, st_user_seq := st_user_seq row, st_starred_at := now\<rparr>)
          (db\<lparr>user_seqs := t\<rparr>)) \<or>
     List.find (same_item u i ty) (starred_items db) = None \<and> same_item u i ty row \<and>
       (\<exists>t. db' = db\<lparr>user_seqs := t, starred_items := starred_items db @ [row]\<rparr>))"
proof (cases "List.find (same_item u i ty) (starred_items db)")
  case None
  obtain n db1 where a: "allocate_user_seq db u = Some (n, db1)"
    and r: "db' = db1\<lparr>starred_items := starred_items db1 @ [row]\<rparr>" "st_user_seq row = n" "same_item u i ty row"
    using assms None by (auto simp: star_item_def star_fresh_def same_item_def Let_def split: if_splits option.splits)
  from allocated_write[where g = "\<lambda>d. d\<lparr>starred_items := starred_items d @ [row]\<rparr>", OF a r(1)] r(2,3) None
  show ?thesis by simp
next
  case (Some old)
  then have old: "st_item_id old = i" "st_item_type old = ty" by (auto simp: same_item_def dest: find_SomeD)
  obtain n db1 where a: "allocate_user_seq db u = Some (n, db1)"
    and r: "db' = set_star u i ty (\<lambda>r. r\<lparr>st_deleted_at := None, st_user_seq := n, st_starred_at := now\<rparr>) db1"
      "st_user_seq row = n"
    using assms Some old by (auto simp: star_item_def restar_item_def set_star_def Let_def split: if_splits option.splits)
  from allocated_write[where g = "set_star u i ty (\<lambda>r. r\<lparr>st_deleted_at := None, st_user_seq := n, st_starred_at := now\<rparr>)", OF a r(1)] r(2) Some show ?thesis by (simp add: set_star_def)
qed

lemma unstar_item_feed:
  assumes "unstar_item u i ty now db = Inr (evs, db')"
  shows "\<exists>n t. allocating db u n db' \<and>
    db' = set_star u i ty (\<lambda>r. r\<lparr>st_deleted_at := Some now, st_user_seq := n\<rparr>) (db\<lparr>user_seqs := t\<rparr>)"
proof -
  obtain n db1 where a: "allocate_user_seq db u = Some (n, db1)"
    and r: "db' = set_star u i ty (\<lambda>r. r\<lparr>st_deleted_at := Some now, st_user_seq := n\<rparr>) db1"
    using assms by (auto simp: unstar_item_def set_star_def Let_def split: if_splits option.splits)
  from allocated_write[where g = "set_star u i ty (\<lambda>r. r\<lparr>st_deleted_at := Some now, st_user_seq := n\<rparr>)", OF a r(1)] show ?thesis by (auto simp: set_star_def)
qed

text \<open>Which tables an operation leaves alone.\<close>

lemma write_read_state_frame:
  "write_read_state u room m now db = Inr (row, ev, db') \<Longrightarrow>
   user_preferences db' = user_preferences db \<and> device_names db' = device_names db \<and> starred_items db' = starred_items db"
  by (drule write_read_state_feed) (elim conjE exE, simp add: upsert_read_state_def)

lemma write_preference_frame:
  "write_preference dec u k v max_bytes now db = Inr (n, evs, db') \<Longrightarrow>
   read_states db' = read_states db \<and> device_names db' = device_names db \<and> starred_items db' = starred_items db"
  by (cases "db' = db", simp, drule (1) write_preference_feed) (elim conjE exE, simp add: upsert_preference_def)

lemma write_device_name_frame:
  "write_device_name dec u d name now db = Inr (row, ev, db') \<Longrightarrow>
   read_states db' = read_states db \<and> user_preferences db' = user_preferences db \<and> starred_items db' = starred_items db"
  by (drule write_device_name_feed) (elim conjE exE, simp add: upsert_device_name_def)

lemma set_room_order_frame:
  "set_room_order u ids limit now db = Inr (ord, evs, db') \<Longrightarrow>
   read_states db' = read_states db \<and> user_preferences db' = user_preferences db \<and>
   device_names db' = device_names db \<and> starred_items db' = starred_items db"
  by (cases "db' = db", simp, drule (1) set_room_order_feed) (elim conjE exE, simp add: put_room_order_def)

lemma star_item_frame:
  "star_item u i ty room max_starred now db = Inr (row, created, evs, db') \<Longrightarrow>
   read_states db' = read_states db \<and> user_preferences db' = user_preferences db \<and> device_names db' = device_names db"
  by (cases "db' = db", simp, drule (1) star_item_feed) (elim conjE exE disjE, simp_all add: set_star_def)

lemma unstar_item_frame:
  "unstar_item u i ty now db = Inr (evs, db') \<Longrightarrow>
   read_states db' = read_states db \<and> user_preferences db' = user_preferences db \<and> device_names db' = device_names db"
  by (drule unstar_item_feed) (elim conjE exE, simp add: set_star_def)

lemmas feed_frames = write_read_state_frame write_preference_frame write_device_name_frame set_room_order_frame
  star_item_frame unstar_item_frame

lemma allocating_mono: "allocating db u n db' \<Longrightarrow> highest_user_seq db v \<le> highest_user_seq db' v"
  by (simp add: allocating_def)

lemma sync_step_mono:
  assumes "sync_step db db'"
  shows "highest_user_seq db v \<le> highest_user_seq db' v"
proof (cases "db' = db")
  case False
  with assms show ?thesis
    by (cases rule: sync_step.cases)
      (auto dest: write_read_state_feed write_preference_feed write_device_name_feed set_room_order_feed
        star_item_feed unstar_item_feed allocating_mono)
qed simp

lemma read_states_step:
  assumes "sync_step db db'"
  shows "table_step rd_user_id rd_room_id rd_user_seq (highest_user_seq db) (highest_user_seq db')
    (read_states db) (read_states db')"
proof (cases "read_states db' = read_states db")
  case True
  then show ?thesis by (simp add: table_step_same sync_step_mono[OF assms])
next
  case False
  with assms obtain u room m now row ev where "write_read_state u room m now db = Inr (row, ev, db')"
    by (cases rule: sync_step.cases) (auto dest: feed_frames)
  from write_read_state_feed[OF this]
  have "allocating db u (rd_user_seq row) db'"
    and "read_states db' = read_states (upsert_read_state u room m (rd_user_seq row) now db)"
    by (auto simp: upsert_read_state_def)
  then show ?thesis
    by (simp add: upsert_read_state_def) (rule table_step_upsert; simp)
qed

lemma user_preferences_step:
  assumes "sync_step db db'"
  shows "table_step pf_user_id pf_key pf_user_seq (highest_user_seq db) (highest_user_seq db')
    (user_preferences db) (user_preferences db')"
proof (cases "user_preferences db' = user_preferences db")
  case True
  then show ?thesis by (simp add: table_step_same sync_step_mono[OF assms])
next
  case False
  with assms obtain dec u k v b now n evs where w: "write_preference dec u k v b now db = Inr (n, evs, db')"
    by (cases rule: sync_step.cases) (auto dest: feed_frames)
  have "db' \<noteq> db" using False by auto
  from write_preference_feed[OF w this]
  have "allocating db u n db'" and "user_preferences db' = user_preferences (upsert_preference u k v n now db)"
    by (auto simp: upsert_preference_def)
  then show ?thesis
    by (simp add: upsert_preference_def) (rule table_step_upsert; simp)
qed

lemma device_names_step:
  assumes "sync_step db db'"
  shows "table_step dn_user_id dn_device_id dn_user_seq (highest_user_seq db) (highest_user_seq db')
    (device_names db) (device_names db')"
proof (cases "device_names db' = device_names db")
  case True
  then show ?thesis by (simp add: table_step_same sync_step_mono[OF assms])
next
  case False
  with assms obtain dec u d name now row ev where "write_device_name dec u d name now db = Inr (row, ev, db')"
    by (cases rule: sync_step.cases) (auto dest: feed_frames)
  from write_device_name_feed[OF this]
  have "allocating db u (dn_user_seq row) db'"
    and "device_names db' = device_names (upsert_device_name u d name (dn_user_seq row) now db)"
    by (auto simp: upsert_device_name_def)
  then show ?thesis
    by (simp add: upsert_device_name_def) (rule table_step_upsert; simp)
qed

abbreviation star_key :: "starred_row \<Rightarrow> id \<times> string" where
  "star_key r \<equiv> (st_item_id r, st_item_type r)"

lemma set_star_step:
  assumes "allocating db u n db'" and "starred_items db' = starred_items (set_star u i ty f db)"
    and "\<And>r. st_user_id (f r) = st_user_id r" and "\<And>r. star_key (f r) = star_key r" and "\<And>r. st_user_seq (f r) = n"
  shows "table_step st_user_id star_key st_user_seq (highest_user_seq db) (highest_user_seq db')
    (starred_items db) (starred_items db')"
proof -
  have "table_step st_user_id star_key st_user_seq (highest_user_seq db) (highest_user_seq db')
    (starred_items db) (update_where (same_item u i ty) f (starred_items db))"
    by (rule table_step_update[where u = u and n = n])
      (use assms(1) in \<open>simp_all add: assms(3,5) assms(4)[simplified] allocating_def same_item_def\<close>)
  then show ?thesis by (simp add: assms(2) set_star_def)
qed

lemma starred_items_step:
  assumes "sync_step db db'"
  shows "table_step st_user_id star_key st_user_seq (highest_user_seq db) (highest_user_seq db')
    (starred_items db) (starred_items db')"
proof (cases "starred_items db' = starred_items db")
  case True
  then show ?thesis by (simp add: table_step_same sync_step_mono[OF assms])
next
  case False
  then have "db' \<noteq> db" by auto
  consider (star) u i ty room l now row c evs where "star_item u i ty room l now db = Inr (row, c, evs, db')"
    | (unstar) u i ty now evs where "unstar_item u i ty now db = Inr (evs, db')"
    using assms False by (cases rule: sync_step.cases) (auto dest: feed_frames)
  then show ?thesis
  proof cases
    case unstar
    from unstar_item_feed[OF this] show ?thesis by (auto intro!: set_star_step simp: set_star_def)
  next
    case (star u i ty room l now row c evs)
    note feed = star_item_feed[OF this \<open>db' \<noteq> db\<close>]
    show ?thesis
    proof (cases "List.find (same_item u i ty) (starred_items db)")
      case None
      with feed have "starred_items db' = starred_items db @ [row]" "same_item u i ty row" "allocating db u (st_user_seq row) db'"
        by auto
      then show ?thesis using None
        by (simp, intro table_step_insert) (auto simp: allocating_def same_item_def find_None_iff_all)
    next
      case Some
      with feed show ?thesis by (auto intro!: set_star_step simp: set_star_def)
    qed
  qed
qed

interpretation read_feed: change_feed sync_step highest_user_seq read_states rd_user_id rd_room_id rd_user_seq
  by unfold_locales (rule read_states_step)

interpretation preference_feed: change_feed sync_step highest_user_seq user_preferences pf_user_id pf_key pf_user_seq
  by unfold_locales (rule user_preferences_step)

interpretation name_feed: change_feed sync_step highest_user_seq device_names dn_user_id dn_device_id dn_user_seq
  by unfold_locales (rule device_names_step)

interpretation star_feed: change_feed sync_step highest_user_seq starred_items st_user_id star_key st_user_seq
  by unfold_locales (rule starred_items_step)

section \<open>Convergence\<close>

text \<open>Rows are unique per user and key, and no number is ahead of its owner's counter.\<close>

definition order_ok :: "db \<Rightarrow> bool" where
  "order_ok db \<longleftrightarrow> (\<forall>r \<in> set (user_room_order db). ro_user_seq r \<le> highest_user_seq db (ro_user_id r))"

definition sync_ok :: "db \<Rightarrow> bool" where
  "sync_ok db \<longleftrightarrow> read_feed.feed_ok db \<and> preference_feed.feed_ok db \<and> name_feed.feed_ok db \<and> star_feed.feed_ok db"

lemma sync_ok_steps: "sync_step\<^sup>*\<^sup>* db db' \<Longrightarrow> sync_ok db \<Longrightarrow> sync_ok db'"
  using read_feed.steps_from preference_feed.steps_from name_feed.steps_from star_feed.steps_from
  by (simp add: sync_ok_def)


text \<open>A user with a preference, an old star and two rooms.\<close>

definition sync_example :: db where
  "sync_example = empty_db\<lparr>
     users := [\<lparr>u_id = ''u'', u_username_token = ''t'', u_encrypted_display = None, u_disabled_at = None, u_deleted_at = None\<rparr>],
     room_members := [\<lparr>m_room_id = ''r'', m_user_id = ''u'', m_role = ''member'', m_joined_via = None, m_joined_at = 0\<rparr>,
                      \<lparr>m_room_id = ''q'', m_user_id = ''u'', m_role = ''member'', m_joined_via = None, m_joined_at = 0\<rparr>],
     user_seqs := [\<lparr>us_user_id = ''u'', us_next_seq = 3\<rparr>],
     user_preferences := [\<lparr>pf_user_id = ''u'', pf_key = ''theme'', pf_value_encrypted = ''AA'', pf_user_seq = 1, pf_updated_at = 0\<rparr>],
     starred_items := [\<lparr>st_user_id = ''u'', st_item_id = ''i'', st_item_type = ''link'', st_room_id = ''r'',
       st_user_seq = 2, st_starred_at = 0, st_deleted_at = Some 5\<rparr>]\<rparr>"

definition sync_example_read :: db where
  "sync_example_read = sync_example\<lparr>user_seqs := [\<lparr>us_user_id = ''u'', us_next_seq = 4\<rparr>],
     read_states := [\<lparr>rd_user_id = ''u'', rd_room_id = ''r'', rd_last_read_message_id = None, rd_user_seq = 3,
       rd_updated_at = 0, rd_deleted_at = None\<rparr>]\<rparr>"

lemmas sync_example_tables = sync_example_def sync_example_read_def empty_db_def

lemma sync_example_ok: "sync_ok sync_example"
  by (simp add: sync_ok_def sync_example_tables read_feed.feed_ok_def preference_feed.feed_ok_def
      name_feed.feed_ok_def star_feed.feed_ok_def highest_user_seq_def)

lemma sync_example_high: "highest_user_seq sync_example ''u'' = 2" "highest_user_seq sync_example_read ''u'' = 3"
  by (simp_all add: sync_example_tables highest_user_seq_def)

lemma sync_example_write:
  "write_read_state ''u'' ''r'' None 0 sync_example =
     Inr (\<lparr>rd_user_id = ''u'', rd_room_id = ''r'', rd_last_read_message_id = None, rd_user_seq = 3,
           rd_updated_at = 0, rd_deleted_at = None\<rparr>,
       publish_user_event ''u'' (new_envelope ''read.sync'' 3
         (JObject [(''room_id'', JString ''r''), (''last_read_message_id'', JNull), (''user_seq'', JInt 3)]) 0),
       sync_example_read)"
  by (simp add: write_read_state_def sync_example_tables is_member_def member_role_def allocate_user_seq_def
      upsert_read_state_def upsert_row_def current_timestamp_def json_opt_def)


section \<open>Where the contract breaks\<close>

text \<open>
  A read marker that is written after a request has read its rows and before it reads the
  counter: the answer does not hold the row, but its \<open>max_seq\<close> covers it, so the next delta from
  that cursor does not hold it either.
\<close>

theorem sync_read_race:
  assumes "write_read_state u room m now db = Inr (row, ev, db')" and "sync_ok db" and "0 \<le> highest_user_seq db u"
  shows "let answer = execute_sync db db' u since in
    row \<in> set (read_states db') \<and> row \<notin> set (sy_read_state answer) \<and> rd_user_seq row \<le> sy_max_seq answer \<and>
    row \<notin> set (sy_read_state (execute_sync db' db' u (sy_max_seq answer)))"
proof -
  have u: "rd_user_id row = u" "row = \<lparr>rd_user_id = u, rd_room_id = room, rd_last_read_message_id = m,
      rd_user_seq = rd_user_seq row, rd_updated_at = current_timestamp now, rd_deleted_at = None\<rparr>"
    using assms(1) by (auto simp: write_read_state_def split: if_splits option.splits)
  have a: "highest_user_seq db u < rd_user_seq row" "rd_user_seq row = highest_user_seq db' u"
    using write_read_state_feed[OF assms(1)] by (simp_all add: allocating_def)
  have "row \<in> set (read_states db')"
  proof -
    obtain t where t: "db' = upsert_read_state u room m (rd_user_seq row) now (db\<lparr>user_seqs := t\<rparr>)"
      using write_read_state_feed[OF assms(1)] by blast
    show ?thesis
      by (subst t, subst u(2)) (force simp: upsert_read_state_def upsert_row_def set_update_where image_iff)
  qed
  moreover have "row \<notin> set (read_states db)"
    using assms(2) a u(1) by (force simp: sync_ok_def read_feed.feed_ok_def)
  moreover have "0 < highest_user_seq db' u" using a assms(3) by simp
  ultimately show ?thesis
    using a(2) by (auto simp: Let_def execute_sync_def list_read_state_since_def list_read_state_all_def)
qed

theorem sync_read_race_witness:
  "rd_user_seq (hd (read_states sync_example_read)) \<le> sy_max_seq (execute_sync sync_example sync_example_read ''u'' 2) \<and>
   hd (read_states sync_example_read) \<notin> set (sy_read_state (execute_sync sync_example_read sync_example_read ''u''
     (sy_max_seq (execute_sync sync_example sync_example_read ''u'' 2))))"
  using sync_read_race[OF sync_example_write sync_example_ok, of 2]
  by (simp add: sync_example_high Let_def) (simp add: sync_example_tables)

lemma fold_min_le: "x \<in> set xs \<Longrightarrow> fold min xs a \<le> (x :: int)"
proof (induction xs arbitrary: a)
  case (Cons y ys)
  have le: "fold min ys b \<le> b" for b :: int
    by (induction ys arbitrary: b) (simp, metis fold_simps(2) min.cobounded2 order_trans)
  show ?case using Cons le[of "min y a"] by (auto intro: order_trans)
qed simp


definition sync_example_deleted :: db where
  "sync_example_deleted = sync_example\<lparr>user_seqs := [\<lparr>us_user_id = ''u'', us_next_seq = 4\<rparr>], user_preferences := []\<rparr>"

lemma sync_example_delete:
  "delete_preference ''u'' ''theme'' 0 sync_example =
     Inr (PreferenceDeleted 3,
       [publish_user_event ''u'' (new_envelope ''preference.updated'' 3
          (JObject [(''key'', JString ''theme''), (''user_seq'', JInt 3), (''deleted'', JBool True)]) 0)],
       sync_example_deleted)"
  by (simp add: delete_preference_def validate_key_def is_reserved_key_def validate_key_syntax_def
      matches_key_pattern_def key_char_def lower_letter_def sync_example_tables sync_example_deleted_def
      allocate_user_seq_def)


text \<open>
  The limit on stars holds for new stars only: a success that adds a row leaves the user with at
  most the limit of active stars, but starring a removed item again succeeds whatever the limit is.
\<close>

theorem star_limit:
  assumes "validate_item_type ty" and "is_member db room u" and "user_exists db u"
  shows "case List.find (same_item u i ty) (starred_items db) of
      None \<Rightarrow> isl (star_item u i ty room l now db) \<longleftrightarrow>
        uint l \<le> count_where (\<lambda>r. st_user_id r = u \<and> st_deleted_at r = None) (starred_items db)
    | Some old \<Rightarrow> \<exists>row evs db'. star_item u i ty room l now db = Inr (row, st_deleted_at old \<noteq> None, evs, db') \<and>
        st_deleted_at row = None"
proof -
  obtain n db1 where "allocate_user_seq db u = Some (n, db1)" using allocate_user_seq_total[OF assms(3)] by blast
  with assms(1,2) show ?thesis
    by (auto simp: star_item_def restar_item_def star_fresh_def Let_def split: option.split)
qed

theorem star_limit_witness:
  "\<exists>row evs db'. star_item ''u'' ''i'' ''link'' ''r'' 0 7 sync_example = Inr (row, True, evs, db') \<and> st_deleted_at row = None"
  using star_limit[of "''link''" sync_example "''r''" "''u''" "''i''" 0 7]
  by (simp add: sync_example_tables validate_item_type_def is_member_def member_role_def user_exists_def same_item_def)

section \<open>The order of rooms\<close>

lemma room_order_rows_facts:
  "map ro_room_id (room_order_rows u ids p n now) = ids"
  "map ro_position (room_order_rows u ids p n now) = map int [p..<p + length ids]"
  "r \<in> set (room_order_rows u ids p n now) \<Longrightarrow> ro_user_id r = u \<and> ro_user_seq r = n"
  by (induction u ids p n now rule: room_order_rows.induct) (auto simp: upt_conv_Cons simp del: upt_Suc)

lemma fold_max_const: "(\<And>r. r \<in> set xs \<Longrightarrow> f r = n) \<Longrightarrow> xs \<noteq> [] \<Longrightarrow> 0 \<le> n \<Longrightarrow> fold max (map f xs) 0 = (n :: int)"
proof -
  have c: "fold max (replicate k n) n = n" for k by (induction k) simp_all
  assume "\<And>r. r \<in> set xs \<Longrightarrow> f r = n" "xs \<noteq> []" "0 \<le> n"
  then have "map f xs = n # replicate (length xs - 1) n"
    by (cases xs) (auto simp: map_replicate_const[symmetric])
  with \<open>0 \<le> n\<close> c show ?thesis by (simp add: max_absorb1)
qed

text \<open>
  Setting the order of rooms and reading it back gives the order that was set, under the number
  of the event; an empty order is read back as none, so a delta answer never carries it.
\<close>

theorem room_order_roundtrip:
  assumes "set_room_order u ids limit now db = Inr (ord, evs, db')" and "0 \<le> highest_user_seq db u"
  shows "get_room_order db' u = (if ids = [] then None else Some ord) \<and> os_room_ids ord = ids \<and>
    sy_room_order (execute_sync db' counter u since) =
      (if ids \<noteq> [] \<and> (since = 0 \<or> since < os_user_seq ord) then Some ord else None)"
proof -
  have "get_room_order db' u = (if ids = [] then None else Some ord) \<and> os_room_ids ord = ids"
  proof (cases "db' = db")
    case True
    consider (same) "(case get_room_order db u of None \<Rightarrow> [] | Some c \<Rightarrow> os_room_ids c) = ids"
        "ord = \<lparr>os_room_ids = ids, os_user_seq = (case get_room_order db u of None \<Rightarrow> 0 | Some c \<Rightarrow> os_user_seq c)\<rparr>"
      | (new) n db1 where "allocate_user_seq db u = Some (n, db1)" "user_seqs db' = user_seqs db1"
      using assms(1)
      by (cases "List.find (\<lambda>r. \<not> is_member db r u) ids"; cases "allocate_user_seq db u")
        (auto simp: set_room_order_def Let_def split: if_splits)
    then show ?thesis
    proof cases
      case same
      have "os_room_ids c \<noteq> []" if "get_room_order db u = Some c" for c
        using that by (auto simp: get_room_order_def Let_def split: if_splits)
      with same True show ?thesis by (cases "get_room_order db u") auto
    next
      case new
      from allocate_allocating[OF new] True show ?thesis by (auto simp: allocating_def)
    qed
  next
    case False
    note feed = set_room_order_feed[OF assms(1) False]
    then obtain t where t: "db' = put_room_order u ids (os_user_seq ord) now (db\<lparr>user_seqs := t\<rparr>)" by blast
    let ?rows = "room_order_rows u ids 0 (os_user_seq ord) now"
    have mine: "filter (\<lambda>r. ro_user_id r = u) (user_room_order db') = ?rows"
      unfolding t put_room_order_def
      by (simp add: delete_where_def filter_empty_conv) (simp add: room_order_rows_facts(3) cong: filter_cong)
    have sorted: "sort_key ro_position ?rows = ?rows"
      by (rule sort_key_id_if_sorted) (simp add: room_order_rows_facts(2) sorted_iff_nth_mono)
    have "ids = [] \<longleftrightarrow> ?rows = []" using room_order_rows_facts(1)[of u ids 0 "os_user_seq ord" now] by auto
    moreover have "0 \<le> os_user_seq ord" using feed assms(2) by (simp add: allocating_def)
    ultimately show ?thesis
      using feed fold_max_const[of ?rows ro_user_seq "os_user_seq ord"] room_order_rows_facts(3)
      unfolding get_room_order_def mine sorted Let_def
      by (auto simp: room_order_rows_facts(1))
  qed
  then show ?thesis by (auto simp: execute_sync_def)
qed

theorem room_order_roundtrip_witness:
  "case set_room_order ''u'' [''q'', ''r''] 10 0 sync_example of
     Inl e \<Rightarrow> False
   | Inr (ord, evs, db') \<Rightarrow> get_room_order db' ''u'' = Some ord \<and> os_room_ids ord = [''q'', ''r''] \<and> os_user_seq ord = 3"
proof -
  have run: "set_room_order ''u'' [''q'', ''r''] 10 0 sync_example =
      Inr (\<lparr>os_room_ids = [''q'', ''r''], os_user_seq = 3\<rparr>,
        [publish_user_event ''u'' (new_envelope ''room_order.sync'' 3
           (JObject [(''room_ids'', JArray [JString ''q'', JString ''r'']), (''user_seq'', JInt 3)]) 0)],
        sync_example\<lparr>user_seqs := [\<lparr>us_user_id = ''u'', us_next_seq = 4\<rparr>],
          user_room_order := room_order_rows ''u'' [''q'', ''r''] 0 3 0\<rparr>)"
    by (simp add: set_room_order_def get_room_order_def sync_example_tables is_member_def member_role_def
        allocate_user_seq_def)
  from room_order_roundtrip[OF run] show ?thesis unfolding run by (simp add: sync_example_high)
qed

section \<open>Pages of stars\<close>

text \<open>One page as the client sees it, and the items a cursor has before it.\<close>

definition star_cursor_of :: "(starred_cursor \<Rightarrow> string) \<Rightarrow> id \<Rightarrow> starred_row \<Rightarrow> string" where
  "star_cursor_of encode u r = encode \<lparr>sc_cursor_user_id = u, sc_last_item_id = st_item_id r,
     sc_last_item_type = st_item_type r, sc_last_starred_at = Some (st_starred_at r)\<rparr>"

definition stars_left :: "(string \<Rightarrow> starred_cursor option) \<Rightarrow> db \<Rightarrow> id \<Rightarrow> list_star_query \<Rightarrow> string option \<Rightarrow> starred_row list"
where
  "stars_left decode db u q c =
     (case cursor_position decode db u c of Inl e \<Rightarrow> [] | Inr pos \<Rightarrow> starred_rows db u q pos)"

definition star_page_fetch ::
  "(string \<Rightarrow> starred_cursor option) \<Rightarrow> (starred_cursor \<Rightarrow> string) \<Rightarrow> db \<Rightarrow> id \<Rightarrow> list_star_query \<Rightarrow> string option \<Rightarrow> nat \<Rightarrow>
   starred_row list \<times> string option"
where
  "star_page_fetch decode encode db u q c n =
     (case cursor_position decode db u c of
        Inl e \<Rightarrow> ([], None)
      | Inr pos \<Rightarrow> (lsr_items (star_page encode db u q pos n), lsr_next_cursor (star_page encode db u q pos n)))"

definition star_fetch ::
  "(string \<Rightarrow> starred_cursor option) \<Rightarrow> (starred_cursor \<Rightarrow> string) \<Rightarrow> db \<Rightarrow> id \<Rightarrow> list_star_query \<Rightarrow> string option \<Rightarrow> nat \<Rightarrow>
   starred_row list \<times> string option"
where
  "star_fetch decode encode db u q c n =
     (case list_starred_items decode encode db u (q\<lparr>lsq_cursor := c, lsq_limit := Some (of_nat n)\<rparr>) of
        Inl e \<Rightarrow> ([], None)
      | Inr r \<Rightarrow> (lsr_items r, lsr_next_cursor r))"

lemma beyond_cursor_after:
  "beyond_cursor pos r \<longleftrightarrow> after (map_option (\<lambda>(t, i, ty). (- t, i, ty)) pos) (starred_order r)"
  by (auto simp: beyond_cursor_def starred_order_def split: option.split)

lemma starred_rows_after:
  "starred_rows db u q pos =
     filter (\<lambda>r. after (map_option (\<lambda>(t, i, ty). (- t, i, ty)) pos) (starred_order r)) (starred_rows db u q None)"
  by (simp add: starred_rows_def filter_sort filter_filter beyond_cursor_after conj_commute)

definition stars_ok :: "(string \<Rightarrow> starred_cursor option) \<Rightarrow> (starred_cursor \<Rightarrow> string) \<Rightarrow> db \<Rightarrow> id \<Rightarrow> bool" where
  "stars_ok decode encode db u \<longleftrightarrow> (\<forall>c. decode (encode c) = Some c) \<and>
     distinct (map star_key (filter (\<lambda>r. st_user_id r = u) (starred_items db)))"

lemma starred_rows_sorted:
  assumes "stars_ok decode encode db u"
  shows "sorted (map starred_order (starred_rows db u q None)) \<and> distinct (map starred_order (starred_rows db u q None))"
proof -
  let ?mine = "filter (\<lambda>r. st_user_id r = u) (starred_items db)"
  have rows: "starred_rows db u q None = sort_key starred_order (filter (starred_match u q) ?mine)"
    unfolding starred_rows_def filter_filter
    by (intro arg_cong[where f = "sort_key starred_order"] filter_cong) (auto simp: starred_match_def beyond_cursor_def)
  have "distinct ?mine" "inj_on star_key (set ?mine)"
    using assms unfolding stars_ok_def distinct_map by blast+
  moreover have "inj_on starred_order A" if "inj_on star_key A" for A
    using that by (auto simp: inj_on_def starred_order_def)
  ultimately have "distinct (filter (starred_match u q) ?mine)"
    "inj_on starred_order (set (filter (starred_match u q) ?mine))"
    by (blast intro: distinct_filter, meson filter_is_subset inj_on_subset)
  then show ?thesis unfolding rows by (simp only: distinct_map set_sort distinct_sort sorted_sort_key simp_thms)
qed

interpretation star_pages: paged_listing
  "star_page_fetch decode encode db u q" "stars_left decode db u q" "star_cursor_of encode u"
  "stars_ok decode encode db u"
  for decode encode db u q
proof unfold_locales
  fix c n
  assume ok: "stars_ok decode encode db u"
  show "fst (star_page_fetch decode encode db u q c n) = take n (stars_left decode db u q c)"
    by (simp add: star_page_fetch_def stars_left_def star_page_def Let_def min_def split: sum.split)
  assume n: "0 < n"
  then show "snd (star_page_fetch decode encode db u q c n) =
      (if n < length (stars_left decode db u q c)
       then Some (star_cursor_of encode u (last (take n (stars_left decode db u q c)))) else None)"
    by (auto simp: star_page_fetch_def stars_left_def star_page_def star_cursor_of_def Let_def min_def split: sum.split)
  assume l: "n < length (stars_left decode db u q c)"
  then obtain pos where pos: "cursor_position decode db u c = Inr pos"
    by (auto simp: stars_left_def split: sum.splits)
  let ?s = "starred_rows db u q None" and ?t = "starred_rows db u q pos"
  have "cursor_position decode db u (Some (star_cursor_of encode u r)) =
      Inr (Some (st_starred_at r, st_item_id r, st_item_type r))" for r
    using ok by (simp add: cursor_position_def decode_cursor_def star_cursor_of_def stars_ok_def)
  moreover have "filter (\<lambda>x. after (Some (starred_order (last (take n ?t)))) (starred_order x)) ?s = drop n ?t"
    by (rule resume_keyset[OF _ _ starred_rows_after])
      (use starred_rows_sorted[OF ok] n l pos in \<open>simp_all add: stars_left_def\<close>)
  ultimately show "stars_left decode db u q (Some (star_cursor_of encode u (last (take n (stars_left decode db u q c))))) =
      drop n (stars_left decode db u q c)"
    by (simp add: stars_left_def pos starred_rows_after[of db u q "Some _"] starred_order_def)
qed

text \<open>
  C17. A client who follows the cursors of the starred list with any page size up to 500 sees every
  star of the user that matches the query exactly once, newest first, and stops.
\<close>

theorem star_pages_complete:
  assumes "\<And>c. decode (encode c) = Some c" and "sync_ok db" and "0 < n" and "n \<le> 500"
    and "case lsq_type q of None \<Rightarrow> True | Some ty \<Rightarrow> validate_item_type ty" and "length (starred_rows db u q None) \<le> fuel"
  shows "walk (star_fetch decode encode db u q) n (Suc fuel) None = Some (starred_rows db u q None)"
proof -
  have "star_limit (Some (of_nat n)) = n"
    using assms(4) by (simp add: star_limit_def unat_of_nat)
  then have "star_fetch decode encode db u q c n = star_page_fetch decode encode db u q c n" for c
    using assms(5)
    by (cases "lsq_type q") (auto simp: star_fetch_def list_starred_items_def star_page_fetch_def star_page_def starred_rows_def
        starred_match_def validate_item_type_def Let_def split: sum.split)
  moreover have "stars_ok decode encode db u"
    using assms(1,2) star_feed.mine_distinct[of db u] by (simp add: stars_ok_def sync_ok_def star_feed.mine_def)
  note star_pages.walk_sees_everything[OF this assms(3), of q None fuel]
  ultimately show ?thesis
    using assms(6) by (simp add: stars_left_def cursor_position_def cong: walk_cong)
qed

text \<open>A codec of cursors, and two pages of one star each.\<close>

fun quote_text :: "string \<Rightarrow> string" where
  "quote_text [] = ''.''"
| "quote_text (c # cs) = CHR ''x'' # c # quote_text cs"

fun unquote :: "string \<Rightarrow> (string \<times> string) option" where
  "unquote [] = None"
| "unquote [x] = Some ([], [])"
| "unquote (x # c # cs) =
     (if x = CHR ''.'' then Some ([], c # cs) else map_option (\<lambda>(s, rest). (c # s, rest)) (unquote cs))"

lemma unquote_quoted: "unquote (quote_text s @ rest) = Some (s, rest)"
proof (induction s)
  case Nil
  then show ?case by (cases rest) simp_all
qed simp

definition example_encode :: "starred_cursor \<Rightarrow> string" where
  "example_encode c = quote_text (sc_cursor_user_id c) @ quote_text (sc_last_item_id c) @ quote_text (sc_last_item_type c) @
     (case sc_last_starred_at c of
        None \<Rightarrow> []
      | Some t \<Rightarrow> (if t < 0 then CHR ''-'' else CHR ''+'') # replicate (nat \<bar>t\<bar>) (CHR ''1''))"

definition example_decode :: "string \<Rightarrow> starred_cursor option" where
  "example_decode s =
     (case unquote s of None \<Rightarrow> None | Some (user_id, s1) \<Rightarrow>
      (case unquote s1 of None \<Rightarrow> None | Some (item_id, s2) \<Rightarrow>
       (case unquote s2 of None \<Rightarrow> None | Some (item_type, s3) \<Rightarrow>
          Some \<lparr>sc_cursor_user_id = user_id, sc_last_item_id = item_id, sc_last_item_type = item_type,
            sc_last_starred_at = (case s3 of [] \<Rightarrow> None | sign # digits \<Rightarrow>
              Some (if sign = CHR ''-'' then - int (length digits) else int (length digits)))\<rparr>)))"

lemma example_codec: "example_decode (example_encode c) = Some c"
  by (cases c) (auto simp: example_decode_def example_encode_def unquote_quoted split: option.split)

definition star_example :: db where
  "star_example = empty_db\<lparr>user_seqs := [\<lparr>us_user_id = ''u'', us_next_seq = 3\<rparr>],
     starred_items :=
       [\<lparr>st_user_id = ''u'', st_item_id = ''i'', st_item_type = ''link'', st_room_id = ''r'', st_user_seq = 1,
         st_starred_at = 5, st_deleted_at = None\<rparr>,
        \<lparr>st_user_id = ''u'', st_item_id = ''j'', st_item_type = ''link'', st_room_id = ''r'', st_user_seq = 2,
         st_starred_at = 6, st_deleted_at = None\<rparr>]\<rparr>"

definition star_query_example :: list_star_query where
  "star_query_example = \<lparr>lsq_type = Some ''link'', lsq_room_id = None, lsq_limit = None, lsq_cursor = None,
     lsq_include_deleted = None\<rparr>"

theorem star_pages_complete_witness:
  "map_option (map st_item_id) (walk (star_fetch example_decode example_encode star_example ''u'' star_query_example) 1 3 None) =
     Some [''j'', ''i'']"
proof -
  have ok: "sync_ok star_example"
    by (simp add: sync_ok_def star_example_def empty_db_def read_feed.feed_ok_def preference_feed.feed_ok_def
        name_feed.feed_ok_def star_feed.feed_ok_def highest_user_seq_def)
  have rows: "map st_item_id (starred_rows star_example ''u'' star_query_example None) = [''j'', ''i'']"
    by (simp add: starred_rows_def star_example_def empty_db_def starred_match_def star_query_example_def
        beyond_cursor_def starred_order_def less_eq_prod_def)
  from arg_cong[OF this, of length] have "length (starred_rows star_example ''u'' star_query_example None) \<le> 2"
    by simp
  from star_pages_complete[where n = 1 and q = star_query_example and u = "''u''", OF example_codec ok _ _ _ this] rows
  show ?thesis by (simp add: star_query_example_def validate_item_type_def numeral_3_eq_3)
qed

end
