(* ===== verification/ApiErrors.thy ===== *)
theory ApiErrors
  imports RateLimit
begin

text \<open>
  Answers of the HTTP layer: \<open>ApiError\<close> of \<open>server/src/error.rs\<close> with its response, and the
  check of a rate limit with which many handlers of \<open>server/src/routes/\<close> begin.

  An \<open>anyhow::Error\<close> is only logged, so \<open>ApiInternal\<close> does not carry it.
\<close>

section \<open>Errors\<close>

datatype api_error =
    ApiNotFound string
  | ApiBadRequest string
  | ApiUnauthorized string
  | ApiForbidden string
  | ApiConflict string
  | ApiConflictWithDetails string json
  | ApiGone string
  | ApiNotImplemented string
  | ApiInternalWithDetails nat string json
  | ApiCustomShape nat json
  | ApiTooManyRequests string time
  | ApiInternalCustom nat string
  | ApiInternal

record api_response =
  ar_status :: nat
  ar_retry_after :: "int option"
  ar_body :: json

definition error_body :: "string \<Rightarrow> json" where
  "error_body msg = JObject [(''error'', JString msg)]"

definition details_body :: "string \<Rightarrow> json \<Rightarrow> json" where
  "details_body msg details = JObject [(''error'', JString msg), (''details'', details)]"

fun into_response :: "time \<Rightarrow> api_error \<Rightarrow> api_response" where
  "into_response now (ApiTooManyRequests msg reset_at) =
     \<lparr>ar_status = 429, ar_retry_after = Some (max (num_seconds (reset_at - now)) 1),
      ar_body = JObject [(''error'', JString ''rate_limited''), (''message'', JString msg),
                         (''details'', JObject [(''reset_at'', JTime reset_at)])]\<rparr>"
| "into_response now (ApiNotFound msg) = \<lparr>ar_status = 404, ar_retry_after = None, ar_body = error_body msg\<rparr>"
| "into_response now (ApiBadRequest msg) = \<lparr>ar_status = 400, ar_retry_after = None, ar_body = error_body msg\<rparr>"
| "into_response now (ApiUnauthorized msg) = \<lparr>ar_status = 401, ar_retry_after = None, ar_body = error_body msg\<rparr>"
| "into_response now (ApiForbidden msg) = \<lparr>ar_status = 403, ar_retry_after = None, ar_body = error_body msg\<rparr>"
| "into_response now (ApiConflict msg) = \<lparr>ar_status = 409, ar_retry_after = None, ar_body = error_body msg\<rparr>"
| "into_response now (ApiConflictWithDetails msg details) =
     \<lparr>ar_status = 409, ar_retry_after = None, ar_body = details_body msg details\<rparr>"
| "into_response now (ApiGone msg) = \<lparr>ar_status = 410, ar_retry_after = None, ar_body = error_body msg\<rparr>"
| "into_response now (ApiNotImplemented msg) =
     \<lparr>ar_status = 501, ar_retry_after = None, ar_body = error_body msg\<rparr>"
| "into_response now (ApiInternalWithDetails status msg details) =
     \<lparr>ar_status = status, ar_retry_after = None, ar_body = details_body msg details\<rparr>"
| "into_response now (ApiCustomShape status body) =
     \<lparr>ar_status = status, ar_retry_after = None, ar_body = body\<rparr>"
| "into_response now (ApiInternalCustom status msg) =
     \<lparr>ar_status = status, ar_retry_after = None, ar_body = error_body msg\<rparr>"
| "into_response now ApiInternal =
     \<lparr>ar_status = 500, ar_retry_after = None, ar_body = error_body ''internal server error''\<rparr>"

fun api_of_rate_limit_error :: "rate_limit_error \<Rightarrow> api_error" where
  "api_of_rate_limit_error RateDatabase = ApiInternal"
| "api_of_rate_limit_error (InvalidKey msg) = ApiBadRequest msg"

section \<open>Rate limits of handlers\<close>

text \<open>
  \<open>rate_limit::check\<close>, then \<open>if !decision.allowed { return Err(TooManyRequests ...) }\<close>.  The count is
  written outside any transaction of the handler, so it stays whatever the handler answers.
\<close>

definition rate_guard ::
  "(string \<Rightarrow> time \<Rightarrow> string) \<Rightarrow> RateLimitConfig \<Rightarrow> rate_limit_key \<Rightarrow> time \<Rightarrow> db \<Rightarrow> (api_error + unit) \<times> db"
where
  "rate_guard fmt config key now db =
     (case rate_check fmt config key now db of
        Inl e \<Rightarrow> (Inl (api_of_rate_limit_error e), db)
      | Inr (decision, db') \<Rightarrow>
          if rd_allowed decision then (Inr (), db')
          else (Inl (ApiTooManyRequests ''rate_limited'' (rd_reset_at decision)), db'))"

text \<open>Counting a request touches nothing but the table of the counts.\<close>

lemma bump_only_rate_limits: "\<exists>t. snd (bump k start db) = db\<lparr>rate_limits := t\<rparr>"
  by (auto simp: bump_def split: option.splits)

lemma rate_guard_frame: "\<exists>t. snd (rate_guard fmt config key now db) = db\<lparr>rate_limits := t\<rparr>"
proof (cases "rate_check fmt config key now db")
  case (Inl e)
  then show ?thesis by (intro exI[of _ "rate_limits db"]) (simp add: rate_guard_def)
next
  case (Inr r)
  then obtain dec db' where r: "rate_check fmt config key now db = Inr (dec, db')" by (cases r) auto
  then obtain k start c where "bump k start db = (c, db')"
    by (auto simp: rate_check_def Let_def split: sum.splits prod.splits)
  with bump_only_rate_limits[of k start db] r show ?thesis by (auto simp: rate_guard_def)
qed

lemma rate_guard_cases:
  obtains (refused) e t where "rate_guard fmt config key now db = (Inl e, db\<lparr>rate_limits := t\<rparr>)"
  | (allowed) t where "rate_guard fmt config key now db = (Inr (), db\<lparr>rate_limits := t\<rparr>)"
proof -
  obtain t where t: "snd (rate_guard fmt config key now db) = db\<lparr>rate_limits := t\<rparr>"
    using rate_guard_frame by blast
  show ?thesis
  proof (cases "fst (rate_guard fmt config key now db)")
    case (Inl e)
    with t have "rate_guard fmt config key now db = (Inl e, db\<lparr>rate_limits := t\<rparr>)" by (simp add: prod_eq_iff)
    then show ?thesis by (rule refused)
  next
    case (Inr u)
    with t have "rate_guard fmt config key now db = (Inr (), db\<lparr>rate_limits := t\<rparr>)" by (simp add: prod_eq_iff)
    then show ?thesis by (rule allowed)
  qed
qed

end
