(* ===== verification/BotQueue.thy ===== *)
theory BotQueue
  imports ApiErrors BotMessages
begin

text \<open>
  The operator queue of a bot: the handlers under \<open>/bots/{id}/operator-queue\<close> of
  \<open>server/src/routes/bots.rs\<close>, \<open>server/src/bots/operator_queue.rs\<close> and the jobs
  \<open>operator_queue_timeout\<close>, \<open>operator_queue_retention\<close>, \<open>bot_event_log\<close> and
  \<open>bot_request_log\<close> of \<open>server/src/cleanup/\<close>.

  Arguments: \<open>day\<close> writes the calendar date of a day (counted from the epoch) as
  \<open>YYYY-MM-DD\<close>, which \<open>chrono\<close> and SQLite do in the same way; \<open>to_json\<close> and \<open>from_json\<close> are
  \<open>serde_json\<close>; \<open>decode\<close> and \<open>encode\<close> are base64url around it.  A handler gets the caller that
  \<open>resolve_caller\<close> has found.  Time stamps of the queue are compared as the texts they are
  stored as.
\<close>

section \<open>Time stamps as text\<close>

definition digit :: "int \<Rightarrow> char" where
  "digit d = char_of (48 + nat d)"

definition two_digits :: "int \<Rightarrow> string" where
  "two_digits n = [digit (n div 10), digit (n mod 10)]"

definition three_digits :: "int \<Rightarrow> string" where
  "three_digits n = digit (n div 100) # two_digits (n mod 100)"

definition day_of :: "time \<Rightarrow> int" where
  "day_of t = t div (86400 * nanos_per_sec)"

definition clock :: "time \<Rightarrow> string" where
  "clock t =
     (let s = t div nanos_per_sec mod 86400
      in two_digits (s div 3600) @ '':'' @ two_digits (s div 60 mod 60) @ '':'' @ two_digits (s mod 60))"

text \<open>\<open>to_rfc3339_opts(SecondsFormat::Millis, true)\<close> and \<open>CURRENT_TIMESTAMP\<close>.\<close>

definition rfc3339_millis :: "(int \<Rightarrow> string) \<Rightarrow> time \<Rightarrow> string" where
  "rfc3339_millis day t = day (day_of t) @ ''T'' @ clock t @ ''.'' @ three_digits (t div 1000000 mod 1000) @ ''Z''"

definition sql_timestamp :: "(int \<Rightarrow> string) \<Rightarrow> time \<Rightarrow> string" where
  "sql_timestamp day t = day (day_of t) @ '' '' @ clock t"

definition millis :: "time \<Rightarrow> time" where
  "millis t = t - t mod 1000000"

section \<open>Previews\<close>

definition is_continuation :: "char \<Rightarrow> bool" where
  "is_continuation c \<longleftrightarrow> of_char c div (64 :: nat) = 2"

definition count_chars :: "string \<Rightarrow> nat" where
  "count_chars s = length (filter (\<lambda>c. \<not> is_continuation c) s)"

fun take_chars :: "nat \<Rightarrow> string \<Rightarrow> string" where
  "take_chars n [] = []"
| "take_chars n (c # s) =
     (if is_continuation c then c # take_chars n s
      else (case n of 0 \<Rightarrow> [] | Suc m \<Rightarrow> c # take_chars m s))"

fun as_str :: "json \<Rightarrow> string option" where
  "as_str (JString s) = Some s"
| "as_str j = None"

fun json_get :: "string \<Rightarrow> json \<Rightarrow> json option" where
  "json_get k (JObject fs) = map_of fs k"
| "json_get k j = None"

definition or_else :: "'a option \<Rightarrow> 'a option \<Rightarrow> 'a option" where
  "or_else x y = (case x of None \<Rightarrow> y | Some v \<Rightarrow> Some v)"

definition preview_text :: "json \<Rightarrow> string" where
  "preview_text payload =
     (case payload of
        JString s \<Rightarrow> s
      | JObject fs \<Rightarrow>
          (case or_else (Option.bind (json_get ''preview'' payload) as_str)
                  (or_else (Option.bind (json_get ''message'' payload) as_str)
                     (Option.bind (json_get ''question'' payload) as_str)) of
             None \<Rightarrow> ''[request]'' | Some s \<Rightarrow> s)
      | _ \<Rightarrow> ''[request]'')"

definition derive_payload_preview :: "json \<Rightarrow> string" where
  "derive_payload_preview payload =
     (let raw = preview_text payload
      in if 120 < count_chars raw then take_chars 120 raw @ ''...'' else raw)"

section \<open>Operators\<close>

definition enumerate_operators :: "db \<Rightarrow> id \<Rightarrow> id list" where
  "enumerate_operators db bot_id =
     map bo_user_id (sort_key bo_bound_at (filter (\<lambda>o'. bo_bot_id o' = bot_id) (bot_operators db)))"

definition operator_queue_event :: "string \<Rightarrow> json \<Rightarrow> id \<Rightarrow> event" where
  "operator_queue_event event_name payload user_id = Event (''private-user-'' @ user_id) event_name payload"

definition is_bot_operator :: "db \<Rightarrow> id \<Rightarrow> id \<Rightarrow> bool" where
  "is_bot_operator db bot_id user_id \<longleftrightarrow>
     exists_where (\<lambda>o'. bo_bot_id o' = bot_id \<and> bo_user_id o' = user_id) (bot_operators db)"

definition find_bot :: "db \<Rightarrow> id \<Rightarrow> bot_account_row option" where
  "find_bot db bot_id = List.find (\<lambda>b. b_id b = bot_id \<and> b_deleted_at b = None) (bot_accounts db)"

definition verify_operator_or_bot :: "db \<Rightarrow> caller_identity \<Rightarrow> id \<Rightarrow> api_error + unit" where
  "verify_operator_or_bot db caller bot_id =
     (case find_bot db bot_id of
        None \<Rightarrow> Inl (ApiNotFound ''not_found'')
      | Some b \<Rightarrow>
          if (case caller of
                UserCaller u \<Rightarrow> au_user_id u = b_owner_user_id b \<or> is_bot_operator db bot_id (au_user_id u)
              | BotCaller c \<Rightarrow> bx_bot_id c = bot_id)
          then Inr () else Inl (ApiNotFound ''not_found''))"

fun caller_id :: "caller_identity \<Rightarrow> id" where
  "caller_id (UserCaller u) = au_user_id u"
| "caller_id (BotCaller b) = bx_bot_id b"

section \<open>Listing\<close>

record parsed_cursor =
  pc_timestamp :: string
  pc_id :: id

definition parse_cursor :: "(string \<Rightarrow> json option) \<Rightarrow> string \<Rightarrow> api_error + parsed_cursor" where
  "parse_cursor decode cursor_str =
     (case decode cursor_str of
        Some (JObject fs) \<Rightarrow>
          (case Option.bind (map_of fs ''id'') as_str of
             None \<Rightarrow> Inl (ApiBadRequest ''invalid_cursor'')
           | Some i \<Rightarrow>
               (case Option.bind (or_else (map_of fs ''queued_at'')
                       (or_else (map_of fs ''answered_at'') (map_of fs ''timestamp''))) as_str of
                  None \<Rightarrow> Inl (ApiBadRequest ''invalid_cursor'')
                | Some t \<Rightarrow> Inr \<lparr>pc_timestamp = t, pc_id = i\<rparr>))
      | _ \<Rightarrow> Inl (ApiBadRequest ''invalid_cursor''))"

record list_queue_query =
  lq_status :: "string option"
  lq_room_id :: "id option"
  lq_limit :: "int option"
  lq_before :: "string option"

record queue_list_entry_view =
  qv_request_id :: id
  qv_room_id :: id
  qv_audience :: string
  qv_queued_at :: string
  qv_timeout_at :: "string option"
  qv_requester_user_id :: id
  qv_requester_display_name :: "string option"
  qv_payload_preview :: string

record list_queue_resp =
  ql_entries :: "queue_list_entry_view list"
  ql_next_cursor :: "string option"

definition queue_view :: "(int \<Rightarrow> string) \<Rightarrow> operator_queue_row \<Rightarrow> queue_list_entry_view" where
  "queue_view day r =
     \<lparr>qv_request_id = oq_id r, qv_room_id = null_text (oq_room_id r), qv_audience = oq_audience r,
      qv_queued_at = rfc3339_millis day (oq_queued_at r),
      qv_timeout_at = map_option (rfc3339_millis day) (oq_timeout_at r),
      qv_requester_user_id = null_text (oq_requester_user_id r), qv_requester_display_name = None,
      qv_payload_preview = oq_payload_preview r\<rparr>"

text \<open>The column the list is ordered by; \<open>answered_at\<close> is only set by \<open>CURRENT_TIMESTAMP\<close>.\<close>

definition queue_stamp :: "(int \<Rightarrow> string) \<Rightarrow> string \<Rightarrow> operator_queue_row \<Rightarrow> string" where
  "queue_stamp day status r =
     (if status = ''pending'' then rfc3339_millis day (oq_queued_at r)
      else (case oq_answered_at r of None \<Rightarrow> '''' | Some t \<Rightarrow> sql_timestamp day t))"

definition below_cursor ::
  "(int \<Rightarrow> string) \<Rightarrow> string \<Rightarrow> parsed_cursor option \<Rightarrow> operator_queue_row \<Rightarrow> bool"
where
  "below_cursor day status cursor r \<longleftrightarrow>
     (case cursor of
        None \<Rightarrow> True
      | Some c \<Rightarrow>
          queue_stamp day status r < pc_timestamp c \<or>
          (queue_stamp day status r = pc_timestamp c \<and> pc_id c < oq_id r))"

text \<open>\<open>ORDER BY key DESC\<close> of rows in the order of a less significant key.\<close>

definition sort_desc :: "('r \<Rightarrow> 'k::linorder) \<Rightarrow> 'r list \<Rightarrow> 'r list" where
  "sort_desc key rows = rev (sort_key key (rev rows))"

definition queue_rows ::
  "(int \<Rightarrow> string) \<Rightarrow> id \<Rightarrow> string \<Rightarrow> id option \<Rightarrow> parsed_cursor option \<Rightarrow> db \<Rightarrow> operator_queue_row list"
where
  "queue_rows day bot_id status room_id cursor db =
     sort_desc (queue_stamp day status)
       (sort_key oq_id
         (filter (\<lambda>r. oq_bot_id r = bot_id \<and> oq_status r = status \<and>
                      (room_id = None \<or> oq_room_id r = room_id) \<and> below_cursor day status cursor r)
           (bot_operator_queue db)))"

definition queue_cursor :: "(int \<Rightarrow> string) \<Rightarrow> string \<Rightarrow> operator_queue_row \<Rightarrow> json" where
  "queue_cursor day status r =
     JObject [(if status = ''pending'' then ''queued_at'' else ''answered_at'', JString (queue_stamp day status r)),
              (''id'', JString (oq_id r))]"

definition list_operator_queue ::
  "(string \<Rightarrow> time \<Rightarrow> string) \<Rightarrow> RateLimitConfig \<Rightarrow> (int \<Rightarrow> string) \<Rightarrow> (string \<Rightarrow> json option) \<Rightarrow> (json \<Rightarrow> string) \<Rightarrow>
   caller_identity \<Rightarrow> id \<Rightarrow> list_queue_query \<Rightarrow> time \<Rightarrow> db \<Rightarrow> (api_error + list_queue_resp) \<times> db"
where
  "list_operator_queue fmt config day decode encode caller bot_id query now db =
     (case verify_operator_or_bot db caller bot_id of
        Inl e \<Rightarrow> (Inl e, db)
      | Inr _ \<Rightarrow>
          (case rate_guard fmt config (OperatorQueueList bot_id (caller_id caller)) now db of
             (Inl e, db1) \<Rightarrow> (Inl e, db1)
           | (Inr _, db1) \<Rightarrow>
               let status = (case lq_status query of None \<Rightarrow> ''pending'' | Some s \<Rightarrow> s)
               in if status \<noteq> ''pending'' \<and> status \<noteq> ''answered'' then (Inl (ApiBadRequest ''invalid_status''), db1)
                  else if (case lq_limit query of None \<Rightarrow> False | Some l \<Rightarrow> l \<le> 0)
                  then (Inl (ApiBadRequest ''invalid_limit''), db1)
                  else
                    let limit = (case lq_limit query of None \<Rightarrow> 50 | Some l \<Rightarrow> min (nat l) 200)
                    in (case (case lq_before query of
                                None \<Rightarrow> Inr None
                              | Some c \<Rightarrow> map_sum id Some (parse_cursor decode c)) of
                          Inl e \<Rightarrow> (Inl e, db1)
                        | Inr cursor \<Rightarrow>
                            let rows = take (limit + 1) (queue_rows day bot_id status (lq_room_id query) cursor db1);
                                has_more = (limit < length rows);
                                items = (if has_more then butlast rows else rows)
                            in (Inr \<lparr>ql_entries = map (queue_view day) items,
                                     ql_next_cursor =
                                       (if has_more \<and> items \<noteq> []
                                        then Some (encode (queue_cursor day status (last items))) else None)\<rparr>, db1))))"

record queue_detail_entry_view =
  qd_entry :: queue_list_entry_view
  qd_payload :: json
  qd_status :: string

definition find_queue_entry :: "db \<Rightarrow> id \<Rightarrow> id \<Rightarrow> operator_queue_row option" where
  "find_queue_entry db bot_id request_id =
     List.find (\<lambda>r. oq_bot_id r = bot_id \<and> oq_id r = request_id) (bot_operator_queue db)"

definition get_operator_queue_entry ::
  "(int \<Rightarrow> string) \<Rightarrow> (string \<Rightarrow> json option) \<Rightarrow> caller_identity \<Rightarrow> id \<Rightarrow> id \<Rightarrow> db \<Rightarrow> api_error + queue_detail_entry_view"
where
  "get_operator_queue_entry day from_json caller bot_id request_id db =
     (case verify_operator_or_bot db caller bot_id of
        Inl e \<Rightarrow> Inl e
      | Inr _ \<Rightarrow>
          (case find_queue_entry db bot_id request_id of
             None \<Rightarrow> Inl (ApiNotFound ''not_found'')
           | Some r \<Rightarrow>
               Inr \<lparr>qd_entry = queue_view day r,
                    qd_payload = (case from_json (oq_payload r) of None \<Rightarrow> JString (oq_payload r) | Some j \<Rightarrow> j),
                    qd_status = oq_status r\<rparr>))"

section \<open>Answering\<close>

record respond_queue_req =
  rq_response :: string
  rq_routing :: "string option"

definition operator_response_body ::
  "operator_queue_row \<Rightarrow> string \<Rightarrow> json \<Rightarrow> json \<Rightarrow> string \<Rightarrow> json"
where
  "operator_response_body r response room responded_by responded_at =
     JObject [(''request_id'', JString (oq_id r)), (''response'', JString response),
              (''routing'', JString (oq_audience r)), (''room_id'', room), (''responded_by'', responded_by),
              (''responded_at'', JString responded_at)]"

definition mark_answered :: "id \<Rightarrow> string \<Rightarrow> string \<Rightarrow> time \<Rightarrow> operator_queue_row \<Rightarrow> operator_queue_row" where
  "mark_answered responded_by response audience now q =
     q\<lparr>oq_status := ''answered'', oq_answered_at := Some (current_timestamp now),
       oq_responded_by := Some responded_by, oq_response := Some response, oq_routing := Some audience\<rparr>"

text \<open>
  The transaction.  \<open>responded_by\<close> refers to a user, so the update fails for any other id.
\<close>

definition answer_entry ::
  "(int \<Rightarrow> string) \<Rightarrow> id \<Rightarrow> id \<Rightarrow> id \<Rightarrow> string \<Rightarrow> time \<Rightarrow> db \<Rightarrow> api_error + (json \<times> db)"
where
  "answer_entry day bot_id request_id responded_by response now db =
     (case find_queue_entry db bot_id request_id of
        None \<Rightarrow> Inl (ApiNotFound ''not_found'')
      | Some r \<Rightarrow>
          if oq_status r = ''answered'' then Inl (ApiConflict ''already_answered'')
          else if oq_status r = ''expired'' then Inl (ApiGone ''expired'')
          else
            let p = (\<lambda>q. oq_id q = request_id \<and> oq_bot_id q = bot_id \<and> oq_status q = ''pending'')
            in if count_where p (bot_operator_queue db) = 0 then Inl (ApiConflict ''already_answered'')
               else if \<not> exists_where (\<lambda>u. u_id u = responded_by) (users db) then Inl ApiInternal
               else
                 (case prepare_durable_bot_event bot_id ''bot.operator_response''
                         (operator_response_body r response (JString (null_text (oq_room_id r)))
                            (JString responded_by) (rfc3339_millis day now)) now
                         (db\<lparr>bot_operator_queue := update_where p (mark_answered responded_by response (oq_audience r) now)
                            (bot_operator_queue db)\<rparr>) of
                    None \<Rightarrow> Inl ApiInternal
                  | Some ((_, payload), db1) \<Rightarrow> Inr (payload, db1)))"

definition bot_channel :: "id \<Rightarrow> string" where
  "bot_channel bot_id = ''private-bot-'' @ bot_id"

definition respond_operator_queue_entry ::
  "(string \<Rightarrow> time \<Rightarrow> string) \<Rightarrow> RateLimitConfig \<Rightarrow> (int \<Rightarrow> string) \<Rightarrow> caller_identity \<Rightarrow> id \<Rightarrow> id \<Rightarrow>
   respond_queue_req \<Rightarrow> time \<Rightarrow> db \<Rightarrow> (api_error + event list) \<times> db"
where
  "respond_operator_queue_entry fmt config day caller bot_id request_id req now db =
     (case verify_operator_or_bot db caller bot_id of
        Inl e \<Rightarrow> (Inl e, db)
      | Inr _ \<Rightarrow>
          (case rate_guard fmt config (OperatorQueueRespond bot_id (caller_id caller)) now db of
             (Inl e, db1) \<Rightarrow> (Inl e, db1)
           | (Inr _, db1) \<Rightarrow>
               if rq_routing req \<noteq> None then (Inl (ApiBadRequest ''invalid_routing''), db1)
               else if trim (rq_response req) = [] \<or> 65536 < length (rq_response req)
               then (Inl (ApiBadRequest ''invalid_response''), db1)
               else
                 (case answer_entry day bot_id request_id (caller_id caller) (rq_response req) now db1 of
                    Inl e \<Rightarrow> (Inl e, db1)
                  | Inr (payload, db2) \<Rightarrow>
                      (Inr (Event (bot_channel bot_id) ''bot.operator_response'' payload #
                            map (operator_queue_event ''operator.response.acked''
                                   (JObject [(''bot_id'', JString bot_id), (''request_id'', JString request_id),
                                             (''answered_at'', JString (rfc3339_millis day now))]))
                              (enumerate_operators db2 bot_id)), db2))))"

section \<open>Enqueueing\<close>

record enqueue_queue_req =
  nq_request_id :: string
  nq_room_id :: string
  nq_audience :: string
  nq_payload :: json
  nq_timeout :: string
  nq_on_timeout :: string
  nq_canned_response :: "string option"

datatype enqueue_outcome = Created (en_queued_at: string) | Resubmitted (en_queued_at: string)

text \<open>
  \<open>Utc::now() + chrono::Duration::seconds(seconds)\<close> panics when the duration has more than
  \<open>i64::MAX\<close> milliseconds or the sum lies after the year 262142.
\<close>

definition checked_timeout :: "time \<Rightarrow> int \<Rightarrow> time option" where
  "checked_timeout now seconds =
     (if seconds \<le> (2 ^ 63 - 1) div 1000 \<and> (now + seconds * nanos_per_sec) div nanos_per_sec \<le> 8210266876799
      then Some (millis (now + seconds * nanos_per_sec)) else None)"

datatype timeout_spec = NoTimeout | TimeoutAt time | InvalidTimeout | TimeoutPanics

definition parse_timeout :: "time \<Rightarrow> string \<Rightarrow> timeout_spec" where
  "parse_timeout now timeout_str =
     (if timeout_str = ''never'' then NoTimeout
      else
        (case parse_i64 timeout_str of
           None \<Rightarrow> InvalidTimeout
         | Some seconds \<Rightarrow>
             if seconds \<le> 0 then InvalidTimeout
             else (case checked_timeout now seconds of None \<Rightarrow> TimeoutPanics | Some t \<Rightarrow> TimeoutAt t)))"

definition check_canned_response :: "string \<Rightarrow> string option \<Rightarrow> api_error + string option" where
  "check_canned_response on_timeout canned =
     (if on_timeout = ''canned'' then
        let cr = trim (null_text canned)
        in if cr = [] \<or> 65536 < length (null_text canned) then Inl (ApiBadRequest ''invalid_canned_response'')
           else Inr (Some cr)
      else if on_timeout = ''ignore'' then
        (if canned \<noteq> None then Inl (ApiBadRequest ''unexpected_canned_response'') else Inr None)
      else Inl (ApiBadRequest ''invalid_on_timeout''))"

definition has_grant :: "db \<Rightarrow> id \<Rightarrow> id \<Rightarrow> bool" where
  "has_grant db room_id bot_id \<longleftrightarrow>
     exists_where (\<lambda>rb. rb_room_id rb = room_id \<and> rb_bot_id rb = bot_id \<and> rb_revoked_at rb = None) (room_bots db)"

definition has_scope :: "db \<Rightarrow> id \<Rightarrow> id \<Rightarrow> string \<Rightarrow> bool" where
  "has_scope db room_id bot_id scope \<longleftrightarrow>
     exists_where (\<lambda>s. sc_room_id s = room_id \<and> sc_bot_id s = bot_id \<and> sc_scope s = scope) (room_bot_scopes db)"

text \<open>The checks before the time-out is read, in their order; the result is the text of the payload.\<close>

definition check_enqueue :: "(json \<Rightarrow> string) \<Rightarrow> id \<Rightarrow> enqueue_queue_req \<Rightarrow> db \<Rightarrow> api_error + string" where
  "check_enqueue to_json bot_id req db =
     (if \<not> validate_request_id (trim (nq_request_id req)) then Inl (ApiBadRequest ''invalid_request_id'')
      else if trim (nq_room_id req) = [] then Inl (ApiBadRequest ''invalid_room_id'')
      else if trim (nq_audience req) \<noteq> ''private'' \<and> trim (nq_audience req) \<noteq> ''public''
      then Inl (ApiBadRequest ''invalid_audience'')
      else if \<not> has_grant db (trim (nq_room_id req)) bot_id then Inl (ApiForbidden ''bot_not_granted'')
      else if trim (nq_audience req) = ''public'' \<and> \<not> has_scope db (trim (nq_room_id req)) bot_id ''post_message''
      then Inl (ApiForbidden ''scope_missing'')
      else if 65536 < length (to_json (nq_payload req)) then Inl (ApiBadRequest ''invalid_payload'')
      else Inr (to_json (nq_payload req)))"

text \<open>The transaction; the primary key of the table is the request id alone.\<close>

definition insert_queue_entry ::
  "(int \<Rightarrow> string) \<Rightarrow> id \<Rightarrow> enqueue_queue_req \<Rightarrow> string \<Rightarrow> time option \<Rightarrow> string option \<Rightarrow> time \<Rightarrow> db \<Rightarrow>
   api_error + (enqueue_outcome \<times> db)"
where
  "insert_queue_entry day bot_id req payload_str timeout_at canned now db =
     (case find_queue_entry db bot_id (trim (nq_request_id req)) of
        Some r \<Rightarrow>
          if oq_status r = ''pending'' then Inr (Resubmitted (rfc3339_millis day (oq_queued_at r)), db)
          else Inl (ApiConflict ''duplicate_request_id'')
      | None \<Rightarrow>
          if exists_where (\<lambda>b. b_id b = bot_id) (bot_accounts db) \<and>
             exists_where (\<lambda>r. r_id r = trim (nq_room_id req)) (rooms db)
          then
            (case insert_row oq_id
                    \<lparr>oq_id = trim (nq_request_id req), oq_bot_id = bot_id, oq_room_id = Some (trim (nq_room_id req)),
                     oq_audience = trim (nq_audience req), oq_requester_user_id = None, oq_payload = payload_str,
                     oq_payload_preview = derive_payload_preview (nq_payload req), oq_status = ''pending'',
                     oq_queued_at = millis now, oq_timeout_at = timeout_at,
                     oq_on_timeout = trim (nq_on_timeout req), oq_canned_response = canned,
                     oq_answered_at = None, oq_responded_by = None, oq_response = None, oq_routing = None\<rparr>
                    (bot_operator_queue db) of
               None \<Rightarrow> Inl ApiInternal
             | Some t \<Rightarrow> Inr (Created (rfc3339_millis day (millis now)), db\<lparr>bot_operator_queue := t\<rparr>))
          else Inl ApiInternal)"

definition enqueued_events :: "(int \<Rightarrow> string) \<Rightarrow> id \<Rightarrow> enqueue_queue_req \<Rightarrow> enqueue_outcome \<Rightarrow> db \<Rightarrow> event list" where
  "enqueued_events day bot_id req outcome db =
     (case outcome of
        Resubmitted _ \<Rightarrow> []
      | Created queued_at \<Rightarrow>
          map (operator_queue_event ''operator.queue.updated''
                 (JObject [(''bot_id'', JString bot_id), (''request_id'', JString (trim (nq_request_id req))),
                           (''room_id'', JString (trim (nq_room_id req))), (''queued_at'', JString queued_at)]))
            (enumerate_operators db bot_id))"

text \<open>\<open>None\<close> is a panic of the handler.\<close>

definition enqueue_operator_queue_entry ::
  "(string \<Rightarrow> time \<Rightarrow> string) \<Rightarrow> RateLimitConfig \<Rightarrow> (int \<Rightarrow> string) \<Rightarrow> (json \<Rightarrow> string) \<Rightarrow> caller_identity \<Rightarrow>
   enqueue_queue_req \<Rightarrow> time \<Rightarrow> db \<Rightarrow> (api_error + (enqueue_outcome \<times> event list)) option \<times> db"
where
  "enqueue_operator_queue_entry fmt config day to_json caller req now db =
     (case caller of
        UserCaller _ \<Rightarrow> (Some (Inl (ApiUnauthorized ''unauthorized'')), db)
      | BotCaller ctx \<Rightarrow>
          (case rate_guard fmt config (OperatorQueueEnqueue (bx_bot_id ctx)) now db of
             (Inl e, db1) \<Rightarrow> (Some (Inl e), db1)
           | (Inr _, db1) \<Rightarrow>
               (case check_enqueue to_json (bx_bot_id ctx) req db1 of
                  Inl e \<Rightarrow> (Some (Inl e), db1)
                | Inr payload_str \<Rightarrow>
                    (case parse_timeout now (trim (nq_timeout req)) of
                       TimeoutPanics \<Rightarrow> (None, db1)
                     | InvalidTimeout \<Rightarrow> (Some (Inl (ApiBadRequest ''invalid_timeout'')), db1)
                     | spec \<Rightarrow>
                         (case check_canned_response (trim (nq_on_timeout req)) (nq_canned_response req) of
                            Inl e \<Rightarrow> (Some (Inl e), db1)
                          | Inr canned \<Rightarrow>
                              (case insert_queue_entry day (bx_bot_id ctx) req payload_str
                                      (case spec of TimeoutAt t \<Rightarrow> Some t | _ \<Rightarrow> None) canned now db1 of
                                 Inl e \<Rightarrow> (Some (Inl e), db1)
                               | Inr (outcome, db2) \<Rightarrow>
                                   (Some (Inr (outcome, enqueued_events day (bx_bot_id ctx) req outcome db2)), db2)))))))"

section \<open>Cleanup jobs\<close>

record cleanup_report =
  cr_rows_deleted :: nat
  cr_notes :: "string list"

text \<open>\<open>timeout_at < CURRENT_TIMESTAMP\<close> compares the two texts.\<close>

definition timed_out :: "(int \<Rightarrow> string) \<Rightarrow> time \<Rightarrow> operator_queue_row \<Rightarrow> bool" where
  "timed_out day now r \<longleftrightarrow>
     oq_status r = ''pending'' \<and>
     (case oq_timeout_at r of None \<Rightarrow> False | Some t \<Rightarrow> rfc3339_millis day t < sql_timestamp day now)"

definition expired_body :: "(int \<Rightarrow> string) \<Rightarrow> operator_queue_row \<Rightarrow> string \<Rightarrow> time \<Rightarrow> json" where
  "expired_body day r canned now =
     operator_response_body r canned (json_opt (oq_room_id r)) JNull (rfc3339_millis day now)"

definition mark_expired :: "time \<Rightarrow> operator_queue_row \<Rightarrow> operator_queue_row" where
  "mark_expired now q = q\<lparr>oq_status := ''expired'', oq_answered_at := Some (current_timestamp now)\<rparr>"

text \<open>
  One round of the loop, with the row as it was read: whether it expired, what is published, and the
  database it commits.  \<open>None\<close> is a database error, which ends the job.
\<close>

definition expire_entry ::
  "(int \<Rightarrow> string) \<Rightarrow> operator_queue_row \<Rightarrow> time \<Rightarrow> db \<Rightarrow> (bool \<times> event list \<times> db) option"
where
  "expire_entry day r now db =
     (let p = (\<lambda>q. oq_id q = oq_id r \<and> oq_status q = ''pending'');
          db1 = db\<lparr>bot_operator_queue := update_where p (mark_expired now) (bot_operator_queue db)\<rparr>
      in if count_where p (bot_operator_queue db) = 0 then Some (False, [], db)
         else
           (case (if oq_on_timeout r = ''canned'' then oq_canned_response r else None) of
              None \<Rightarrow> Some (True, [], db1)
            | Some canned \<Rightarrow>
                map_option (\<lambda>((_, payload), db2).
                    (True, [Event (bot_channel (oq_bot_id r)) ''bot.operator_response'' payload], db2))
                  (prepare_durable_bot_event (oq_bot_id r) ''bot.operator_response''
                     (expired_body day r canned now) now db1)))"

fun expire_entries ::
  "(int \<Rightarrow> string) \<Rightarrow> operator_queue_row list \<Rightarrow> time \<Rightarrow> nat \<Rightarrow> nat \<Rightarrow> db \<Rightarrow>
   cleanup_report option \<times> event list \<times> db"
where
  "expire_entries day [] now expired published db =
     (Some \<lparr>cr_rows_deleted = expired, cr_notes = [''rows_published='' @ show_nat published]\<rparr>, [], db)"
| "expire_entries day (r # rs) now expired published db =
     (case expire_entry day r now db of
        None \<Rightarrow> (None, [], db)
      | Some (hit, evs, db1) \<Rightarrow>
          (case expire_entries day rs now (if hit then expired + 1 else expired) (published + length evs) db1 of
             (report, evs', db2) \<Rightarrow> (report, evs @ evs', db2)))"

definition operator_queue_timeout_job ::
  "(int \<Rightarrow> string) \<Rightarrow> time \<Rightarrow> db \<Rightarrow> cleanup_report option \<times> event list \<times> db"
where
  "operator_queue_timeout_job day now db =
     expire_entries day (filter (timed_out day now) (bot_operator_queue db)) now 0 0 db"

definition operator_queue_retention_job :: "time \<Rightarrow> db \<Rightarrow> cleanup_report \<times> db" where
  "operator_queue_retention_job now db =
     (let p = (\<lambda>q. oq_status q \<in> {''answered'', ''expired''} \<and>
                   (case oq_answered_at q of None \<Rightarrow> False | Some t \<Rightarrow> sql_less t (datetime_days_ago now 7)))
      in (\<lparr>cr_rows_deleted = length (filter p (bot_operator_queue db)), cr_notes = []\<rparr>,
          db\<lparr>bot_operator_queue := delete_where p (bot_operator_queue db)\<rparr>))"

definition hours_ago :: "time \<Rightarrow> int \<Rightarrow> time" where
  "hours_ago now h = current_timestamp now - h * 3600 * nanos_per_sec"

definition bot_event_log_ttl_job :: "time \<Rightarrow> db \<Rightarrow> cleanup_report \<times> db" where
  "bot_event_log_ttl_job now db =
     (let p = (\<lambda>e. be_created_at e < hours_ago now 24)
      in (\<lparr>cr_rows_deleted = length (filter p (bot_event_log db)), cr_notes = []\<rparr>,
          db\<lparr>bot_event_log := delete_where p (bot_event_log db)\<rparr>))"

definition bot_request_log_ttl_job :: "time \<Rightarrow> db \<Rightarrow> cleanup_report \<times> db" where
  "bot_request_log_ttl_job now db =
     (let p = (\<lambda>l. bl_created_at l < hours_ago now 24)
      in (\<lparr>cr_rows_deleted = length (filter p (bot_request_log db)), cr_notes = []\<rparr>,
          db\<lparr>bot_request_log := delete_where p (bot_request_log db)\<rparr>))"

end
