(* ===== verification/QueueProps.thy ===== *)
theory QueueProps
  imports BotQueue BotProps
begin

text \<open>
  What the operator queue promises: how often a request is answered whatever the order of the
  handlers and jobs, what an answer does, who can give one, and when a request times out.
\<close>

section \<open>Durable events\<close>

text \<open>A durable event touches the counter and the log of the bots only.\<close>

definition event_row :: "id \<Rightarrow> int \<Rightarrow> string \<Rightarrow> json \<Rightarrow> time \<Rightarrow> bot_event_row" where
  "event_row b n t p now = \<lparr>be_bot_id = b, be_bot_seq = n, be_event_type = t, be_payload = p,
     be_created_at = current_timestamp now\<rparr>"

lemma prepare_frame:
  assumes "prepare_durable_bot_event b t p now db = Some ((n, pl), db')"
  shows "\<exists>sq. db' = db\<lparr>bot_seq := sq, bot_event_log := bot_event_log db @ [event_row b n t pl now]\<rparr>"
    and "pl = json_insert ''bot_seq'' (JInt n) p"
proof -
  obtain db1 where a: "allocate_bot_seq db b = Some (n, db1)"
    and l: "append_bot_event_log b n t (json_insert ''bot_seq'' (JInt n) p) now db1 = Some db'"
    and pl: "pl = json_insert ''bot_seq'' (JInt n) p"
    using assms unfolding prepare_durable_bot_event_def Let_def by (auto split: option.splits)
  obtain sq where "db1 = db\<lparr>bot_seq := sq\<rparr>"
    using a by (auto simp: allocate_bot_seq_def split: option.splits if_splits)
  moreover have "db' = db1\<lparr>bot_event_log := bot_event_log db1 @ [event_row b n t pl now]\<rparr>"
    using l by (auto simp: append_bot_event_log_def insert_row_Some_iff event_row_def pl split: if_splits)
  ultimately show "\<exists>sq. db' = db\<lparr>bot_seq := sq, bot_event_log := bot_event_log db @ [event_row b n t pl now]\<rparr>"
    by auto
  show "pl = json_insert ''bot_seq'' (JInt n) p" by (rule pl)
qed

text \<open>The answers to a request that a list of published events carries.\<close>

definition is_answer :: "id \<Rightarrow> event \<Rightarrow> bool" where
  "is_answer request_id ev \<longleftrightarrow>
     ev_name ev = ''bot.operator_response'' \<and> json_get ''request_id'' (ev_payload ev) = Some (JString request_id)"

lemma answer_of_body:
  "is_answer i (Event ch ''bot.operator_response''
     (json_insert ''bot_seq'' (JInt n) (operator_response_body r resp room sender at))) \<longleftrightarrow> oq_id r = i"
  by (simp add: is_answer_def operator_response_body_def)

lemma operator_event_no_answer:
  "name \<noteq> ''bot.operator_response'' \<Longrightarrow> filter (is_answer i) (map (operator_queue_event name p) us) = []"
  by (auto simp: filter_empty_conv is_answer_def operator_queue_event_def)

section \<open>Accounts\<close>

definition pending_entries :: "id \<Rightarrow> operator_queue_row list \<Rightarrow> nat" where
  "pending_entries i t = length (filter (\<lambda>r. oq_id r = i \<and> oq_status r = ''pending'') t)"

lemma pending_entries_simps [simp]:
  "pending_entries i [] = 0"
  "pending_entries i (t @ u) = pending_entries i t + pending_entries i u"
  "pending_entries i (r # t) = (if oq_id r = i \<and> oq_status r = ''pending'' then 1 else 0) + pending_entries i t"
  by (simp_all add: pending_entries_def)

lemma pending_entries_delete:
  "(\<And>r. p r \<Longrightarrow> oq_status r \<noteq> ''pending'') \<Longrightarrow> pending_entries i (delete_where p t) = pending_entries i t"
  by (induction t) auto

lemma pending_entries_update_frame:
  "(\<And>r. oq_id (f r) = oq_id r) \<Longrightarrow> (\<And>r. oq_status (f r) = oq_status r) \<Longrightarrow>
   pending_entries i (update_where p f t) = pending_entries i t"
  by (induction t) auto

lemma pending_entries_le_1: "distinct (map oq_id t) \<Longrightarrow> pending_entries i t \<le> 1"
proof (induction t)
  case (Cons r t)
  have "oq_id x \<noteq> oq_id r" if "x \<in> set t" for x
    using Cons.prems that by (metis distinct.simps(2) image_eqI list.map(2) set_map)
  then have "oq_id r = i \<Longrightarrow> pending_entries i t = 0"
    by (auto simp: pending_entries_def filter_empty_conv)
  with Cons show ?case by auto
qed simp

text \<open>An update that ends the pending entry with an id.\<close>

lemma pending_entries_end:
  assumes "distinct (map oq_id t)" and "\<And>r. oq_id (f r) = oq_id r" and "\<And>r. oq_status (f r) \<noteq> ''pending''"
    and "\<And>r. p r \<Longrightarrow> oq_id r = k \<and> oq_status r = ''pending''" and "\<exists>r \<in> set t. p r"
  shows "pending_entries i t = pending_entries i (update_where p f t) + (if i = k then 1 else 0)"
  using assms(1,5)
proof (induction t)
  case (Cons r t)
  show ?case
  proof (cases "p r")
    case True
    with assms(4) have r: "oq_id r = k" "oq_status r = ''pending''" by auto
    have "\<not> p x" if "x \<in> set t" for x
    proof
      assume "p x"
      with r assms(4) have "oq_id x = oq_id r" by simp
      with that have "oq_id r \<in> oq_id ` set t" by (metis image_eqI)
      with Cons.prems(1) show False by simp
    qed
    then have "update_where p f t = t" by simp
    with True r show ?thesis by (simp add: assms(2,3))
  next
    case False
    with Cons.prems have "\<exists>r \<in> set t. p r" by auto
    with Cons False show ?thesis by simp
  qed
qed simp

section \<open>Runs\<close>

text \<open>
  The steps that touch the queue.  A time-out job reads the rows that are due and then ends them one
  by one, each in a transaction of its own, while other calls go on: the rows it has read and not yet
  treated are part of the state.  A label says which request was queued or settled, and what was
  published.
\<close>

datatype queue_change = Queued id | Settled id | Quiet

type_synonym queue_state = "db \<times> operator_queue_row list"
type_synonym queue_label = "queue_change \<times> event list"

inductive queue_step ::
  "(string \<Rightarrow> time \<Rightarrow> string) \<Rightarrow> RateLimitConfig \<Rightarrow> (int \<Rightarrow> string) \<Rightarrow> (json \<Rightarrow> string) \<Rightarrow>
   queue_state \<Rightarrow> queue_label \<Rightarrow> queue_state \<Rightarrow> bool"
for fmt config day to_json where
  q_created:
    "enqueue_operator_queue_entry fmt config day to_json caller req now db = (Some (Inr (Created at, evs)), db') \<Longrightarrow>
     queue_step fmt config day to_json (db, due) (Queued (trim (nq_request_id req)), evs) (db', due)"
| q_not_created:
    "enqueue_operator_queue_entry fmt config day to_json caller req now db = (out, db') \<Longrightarrow>
     (\<nexists>at evs. out = Some (Inr (Created at, evs))) \<Longrightarrow>
     queue_step fmt config day to_json (db, due) (Quiet, []) (db', due)"
| q_answered:
    "respond_operator_queue_entry fmt config day caller bot_id i rq now db = (Inr evs, db') \<Longrightarrow>
     queue_step fmt config day to_json (db, due) (Settled i, evs) (db', due)"
| q_refused:
    "respond_operator_queue_entry fmt config day caller bot_id i rq now db = (Inl e, db') \<Longrightarrow>
     queue_step fmt config day to_json (db, due) (Quiet, []) (db', due)"
| q_job:
    "queue_step fmt config day to_json (db, due)
       (Quiet, []) (db, due @ filter (timed_out day now) (bot_operator_queue db))"
| q_expired:
    "expire_entry day r now db = Some (True, evs, db') \<Longrightarrow>
     queue_step fmt config day to_json (db, xs @ r # ys) (Settled (oq_id r), evs) (db', xs @ ys)"
| q_lost_race:
    "expire_entry day r now db = Some (False, evs, db') \<Longrightarrow>
     queue_step fmt config day to_json (db, xs @ r # ys) (Quiet, evs) (db', xs @ ys)"
| q_retention:
    "operator_queue_retention_job now db = (report, db') \<Longrightarrow>
     queue_step fmt config day to_json (db, due) (Quiet, []) (db', due)"
| q_logs:
    "bot_event_log_ttl_job now db = (report, db') \<Longrightarrow>
     queue_step fmt config day to_json (db, due) (Quiet, []) (db', due)"
| q_room_deleted:
    "queue_step fmt config day to_json (db, due) (Quiet, []) (delete_room_cascade room_id db, due)"

definition queue_ids_distinct :: "queue_state \<Rightarrow> bool" where
  "queue_ids_distinct s \<longleftrightarrow> distinct (map oq_id (bot_operator_queue (fst s)))"

definition queued :: "id \<Rightarrow> queue_label list \<Rightarrow> nat" where
  "queued i ls = length (filter (\<lambda>l. fst l = Queued i) ls)"

definition settled :: "id \<Rightarrow> queue_label list \<Rightarrow> nat" where
  "settled i ls = length (filter (\<lambda>l. fst l = Settled i) ls)"

definition answers :: "id \<Rightarrow> queue_label list \<Rightarrow> nat" where
  "answers i ls = length (filter (is_answer i) (concat (map snd ls)))"

text \<open>The contract of one step, which counts over whole runs.\<close>

locale settling =
  fixes step :: "'s \<Rightarrow> queue_label \<Rightarrow> 's \<Rightarrow> bool"
    and ok :: "'s \<Rightarrow> bool"
    and pending_of :: "id \<Rightarrow> 's \<Rightarrow> nat"
  assumes step_ok: "step s l s' \<Longrightarrow> ok s \<Longrightarrow> ok s'"
    and step_open: "step s l s' \<Longrightarrow> ok s \<Longrightarrow>
          pending_of i s' + settled i [l] = pending_of i s + queued i [l]"
    and step_answers: "step s l s' \<Longrightarrow> ok s \<Longrightarrow> answers i [l] \<le> settled i [l]"
begin

lemma run_settles:
  "run step s ls s' \<Longrightarrow> ok s \<Longrightarrow>
   ok s' \<and> pending_of i s' + settled i ls = pending_of i s + queued i ls \<and> answers i ls \<le> settled i ls"
proof (induction rule: run.induct)
  case (run_step s l t ls s')
  have split: "settled i (l # ls) = settled i [l] + settled i ls" "queued i (l # ls) = queued i [l] + queued i ls"
    "answers i (l # ls) = answers i [l] + answers i ls"
    by (simp_all add: settled_def queued_def answers_def)
  from run_step step_ok have "ok t" by blast
  with run_step step_open[of s l t i] step_answers[of s l t i] split show ?case by auto
qed (simp_all add: settled_def queued_def answers_def)

end

section \<open>What the operations do to the queue\<close>

lemma mark_simps [simp]:
  "oq_id (mark_answered w s a now q) = oq_id q" "oq_status (mark_answered w s a now q) = ''answered''"
  "oq_bot_id (mark_answered w s a now q) = oq_bot_id q"
  "oq_id (mark_expired now q) = oq_id q" "oq_status (mark_expired now q) = ''expired''"
  "oq_bot_id (mark_expired now q) = oq_bot_id q"
  by (simp_all add: mark_answered_def mark_expired_def)

definition answerable :: "id \<Rightarrow> id \<Rightarrow> operator_queue_row \<Rightarrow> bool" where
  "answerable bot_id i q \<longleftrightarrow> oq_id q = i \<and> oq_bot_id q = bot_id \<and> oq_status q = ''pending''"

lemma answer_entryE:
  assumes "answer_entry day b i who resp now db = Inr (pl, db')"
  obtains r n sq where "find_queue_entry db b i = Some r" "oq_status r \<noteq> ''answered''" "oq_status r \<noteq> ''expired''"
    "exists_where (answerable b i) (bot_operator_queue db)" "exists_where (\<lambda>u. u_id u = who) (users db)"
    "pl = json_insert ''bot_seq'' (JInt n) (operator_response_body r resp (JString (null_text (oq_room_id r)))
            (JString who) (rfc3339_millis day now))"
    "db' = db\<lparr>bot_operator_queue := update_where (answerable b i) (mark_answered who resp (oq_audience r) now)
                (bot_operator_queue db), bot_seq := sq,
                bot_event_log := bot_event_log db @ [event_row b n ''bot.operator_response'' pl now]\<rparr>"
proof -
  have p: "(\<lambda>q. oq_id q = i \<and> oq_bot_id q = b \<and> oq_status q = ''pending'') = answerable b i"
    by (simp add: answerable_def fun_eq_iff)
  note a = assms[unfolded answer_entry_def p Let_def]
  obtain r where r: "find_queue_entry db b i = Some r" using a by (auto split: option.splits)
  let ?db1 = "db\<lparr>bot_operator_queue := update_where (answerable b i) (mark_answered who resp (oq_audience r) now)
                (bot_operator_queue db)\<rparr>"
  let ?body = "operator_response_body r resp (JString (null_text (oq_room_id r))) (JString who) (rfc3339_millis day now)"
  have g: "oq_status r \<noteq> ''answered''" "oq_status r \<noteq> ''expired''"
    "exists_where (answerable b i) (bot_operator_queue db)" "exists_where (\<lambda>u. u_id u = who) (users db)"
    using a r by (auto simp: count_where_zero_iff split: if_splits)
  then have c: "count_where (answerable b i) (bot_operator_queue db) \<noteq> 0" by (auto simp: count_where_zero_iff)
  have "prepare_durable_bot_event b ''bot.operator_response'' ?body now ?db1 \<noteq> None"
  proof
    assume "prepare_durable_bot_event b ''bot.operator_response'' ?body now ?db1 = None"
    with a r g c show False by (simp del: exists_where_iff)
  qed
  then obtain n pl' db2 where q: "prepare_durable_bot_event b ''bot.operator_response'' ?body now ?db1 = Some ((n, pl'), db2)"
    by auto
  have out: "pl = pl'" "db' = db2" using a r g c q by (simp_all del: exists_where_iff)
  show ?thesis
    using prepare_frame[OF q] that[OF r g] out by auto
qed

lemma respondE:
  assumes "respond_operator_queue_entry fmt config day caller b i rq now db = (Inr evs, db')"
  obtains t pl ops where "verify_operator_or_bot db caller b = Inr ()"
    "answer_entry day b i (caller_id caller) (rq_response rq) now (db\<lparr>rate_limits := t\<rparr>) = Inr (pl, db')"
    "evs = Event (bot_channel b) ''bot.operator_response'' pl #
       map (operator_queue_event ''operator.response.acked''
              (JObject [(''bot_id'', JString b), (''request_id'', JString i),
                        (''answered_at'', JString (rfc3339_millis day now))])) ops"
    "ops = enumerate_operators db' b"
    "trim (rq_response rq) \<noteq> []" "length (rq_response rq) \<le> 65536" "rq_routing rq = None"
proof -
  note a = assms[unfolded respond_operator_queue_entry_def]
  have v: "verify_operator_or_bot db caller b = Inr ()"
    using a by (cases "verify_operator_or_bot db caller b") auto
  show ?thesis
  proof (cases rule: rate_guard_cases[of fmt config "OperatorQueueRespond b (caller_id caller)" now db])
    case (refused e t)
    with a v show ?thesis by simp
  next
    case (allowed t)
    let ?db1 = "db\<lparr>rate_limits := t\<rparr>"
    have g: "trim (rq_response rq) \<noteq> []" "length (rq_response rq) \<le> 65536" "rq_routing rq = None"
      using a v allowed by (auto split: if_splits)
    then obtain pl db2 where s: "answer_entry day b i (caller_id caller) (rq_response rq) now ?db1 = Inr (pl, db2)"
      using a v allowed
      by (cases "answer_entry day b i (caller_id caller) (rq_response rq) now ?db1") auto
    with a v allowed g have "db' = db2" by simp
    with s v g a allowed that[OF v] show ?thesis by simp
  qed
qed

lemma respond_refused_frame:
  assumes "respond_operator_queue_entry fmt config day caller b i rq now db = (Inl e, db')"
  shows "\<exists>t. db' = db\<lparr>rate_limits := t\<rparr>"
proof (cases "verify_operator_or_bot db caller b")
  case (Inl e')
  with assms show ?thesis
    by (intro exI[of _ "rate_limits db"]) (simp add: respond_operator_queue_entry_def)
next
  case (Inr u)
  note a = assms[unfolded respond_operator_queue_entry_def]
  show ?thesis
  proof (cases rule: rate_guard_cases[of fmt config "OperatorQueueRespond b (caller_id caller)" now db])
    case (refused e t)
    with a Inr show ?thesis by auto
  next
    case (allowed t)
    with a Inr have "db' = db\<lparr>rate_limits := t\<rparr>" by (auto split: if_splits sum.splits)
    then show ?thesis by (rule exI)
  qed
qed

lemma insert_queue_entryE:
  assumes "insert_queue_entry day b req ps tmo canned now db = Inr (out, db')"
  obtains (resubmitted) at where "out = Resubmitted at" "db' = db"
    | (created) row at where "out = Created at" "oq_id row = trim (nq_request_id req)" "oq_status row = ''pending''"
      "oq_bot_id row = b" "trim (nq_request_id req) \<notin> oq_id ` set (bot_operator_queue db)"
      "db' = db\<lparr>bot_operator_queue := bot_operator_queue db @ [row]\<rparr>"
proof (cases "find_queue_entry db b (trim (nq_request_id req))")
  case (Some r)
  with assms show ?thesis
    by (auto simp: insert_queue_entry_def split: if_splits intro: resubmitted)
next
  case None
  with assms show ?thesis
    by (auto simp: insert_queue_entry_def insert_row_Some_iff split: if_splits option.splits intro!: created)
qed

lemma enqueueE:
  assumes "enqueue_operator_queue_entry fmt config day to_json caller req now db = (out, db')"
  obtains (unchanged) t where "db' = db\<lparr>rate_limits := t\<rparr>" "\<nexists>at evs. out = Some (Inr (Created at, evs))"
    | (created) t ctx ps tmo canned at where "caller = BotCaller ctx"
      "insert_queue_entry day (bx_bot_id ctx) req ps tmo canned now (db\<lparr>rate_limits := t\<rparr>) = Inr (Created at, db')"
      "out = Some (Inr (Created at, enqueued_events day (bx_bot_id ctx) req (Created at) db'))"
proof (cases caller)
  case (UserCaller u)
  with assms unchanged[of "rate_limits db"] show ?thesis by (auto simp: enqueue_operator_queue_entry_def)
next
  case (BotCaller ctx)
  note a = assms[unfolded enqueue_operator_queue_entry_def BotCaller caller_identity.case]
  show ?thesis
  proof (cases rule: rate_guard_cases[of fmt config "OperatorQueueEnqueue (bx_bot_id ctx)" now db])
    case (refused e t)
    with a unchanged show ?thesis by auto
  next
    case (allowed t)
    let ?db1 = "db\<lparr>rate_limits := t\<rparr>"
    have stop: ?thesis if "db' = ?db1" "\<nexists>at evs. out = Some (Inr (Created at, evs))"
      using that unchanged by blast
    show ?thesis
    proof (cases "\<exists>at evs. out = Some (Inr (Created at, evs))")
      case False
      from a allowed have "db' = ?db1"
        using False
        by (auto split: sum.splits timeout_spec.splits enqueue_outcome.splits elim!: insert_queue_entryE)
      with False show ?thesis by (intro stop)
    next
      case True
      with a allowed show ?thesis
        by (auto split: sum.splits timeout_spec.splits intro!: created[OF BotCaller])
    qed
  qed
qed

lemma expire_entryE:
  assumes "expire_entry day r now db = Some (hit, evs, db')"
  obtains (lost) "\<not> hit" "evs = []" "db' = db"
    | (expired) sq lg where "hit" "exists_where (\<lambda>q. oq_id q = oq_id r \<and> oq_status q = ''pending'') (bot_operator_queue db)"
      "db' = db\<lparr>bot_operator_queue := update_where (\<lambda>q. oq_id q = oq_id r \<and> oq_status q = ''pending'') (mark_expired now)
         (bot_operator_queue db), bot_seq := sq, bot_event_log := lg\<rparr>"
      "evs = [] \<or> (\<exists>n canned. evs = [Event (bot_channel (oq_bot_id r)) ''bot.operator_response''
         (json_insert ''bot_seq'' (JInt n) (expired_body day r canned now))])"
proof -
  let ?p = "\<lambda>q. oq_id q = oq_id r \<and> oq_status q = ''pending''"
  let ?db1 = "db\<lparr>bot_operator_queue := update_where ?p (mark_expired now) (bot_operator_queue db)\<rparr>"
  note a = assms[unfolded expire_entry_def Let_def]
  show ?thesis
  proof (cases "count_where ?p (bot_operator_queue db) = 0")
    case True
    with a lost show ?thesis by simp
  next
    case False
    then have ex: "exists_where ?p (bot_operator_queue db)" by (auto simp: count_where_zero_iff)
    show ?thesis
    proof (cases "if oq_on_timeout r = ''canned'' then oq_canned_response r else None")
      case None
      with a False have "hit" "evs = []" "db' = ?db1" by auto
      with ex show ?thesis by (intro expired[where sq = "bot_seq db" and lg = "bot_event_log db"]) auto
    next
      case (Some c)
      with a False obtain n pl where q: "prepare_durable_bot_event (oq_bot_id r) ''bot.operator_response''
          (expired_body day r c now) now ?db1 = Some ((n, pl), db')"
        and e: "hit" "evs = [Event (bot_channel (oq_bot_id r)) ''bot.operator_response'' pl]"
        by (auto split: prod.splits)
      obtain sq where "db' = ?db1\<lparr>bot_seq := sq, bot_event_log := bot_event_log ?db1 @
          [event_row (oq_bot_id r) n ''bot.operator_response'' pl now]\<rparr>" using prepare_frame(1)[OF q] by blast
      with e prepare_frame(2)[OF q] ex show ?thesis by (intro expired) auto
    qed
  qed
qed

section \<open>The account of a request\<close>

lemma label_counts [simp]:
  "settled i [(Quiet, evs)] = 0" "queued i [(Quiet, evs)] = 0"
  "settled i [(Settled j, evs)] = (if i = j then 1 else 0)" "queued i [(Settled j, evs)] = 0"
  "settled i [(Queued j, evs)] = 0" "queued i [(Queued j, evs)] = (if i = j then 1 else 0)"
  "answers i [(c, evs)] = length (filter (is_answer i) evs)"
  by (simp_all add: settled_def queued_def answers_def)

lemma operator_event_plain [simp]:
  "filter (is_answer i) (map (operator_queue_event ''operator.response.acked'' p) us) = []"
  "filter (is_answer i) (map (operator_queue_event ''operator.queue.updated'' p) us) = []"
  by (simp_all add: operator_event_no_answer)

definition queue_of :: "queue_state \<Rightarrow> operator_queue_row list" where
  "queue_of s = bot_operator_queue (fst s)"

definition step_account :: "queue_state \<Rightarrow> queue_label \<Rightarrow> queue_state \<Rightarrow> bool" where
  "step_account s l s' \<longleftrightarrow> queue_ids_distinct s' \<and>
     (\<forall>i. pending_entries i (queue_of s') + settled i [l] = pending_entries i (queue_of s) + queued i [l] \<and>
          answers i [l] \<le> settled i [l])"

lemma step_account_quiet:
  assumes "queue_ids_distinct (db, due)" and "distinct (map oq_id (bot_operator_queue db'))"
    and "\<And>i. pending_entries i (bot_operator_queue db') = pending_entries i (bot_operator_queue db)"
  shows "step_account (db, due) (Quiet, []) (db', due')"
  using assms by (simp add: step_account_def queue_ids_distinct_def queue_of_def)

lemma step_account_same:
  "queue_ids_distinct (db, due) \<Longrightarrow> bot_operator_queue db' = bot_operator_queue db \<Longrightarrow>
   step_account (db, due) (Quiet, []) (db', due')"
  by (rule step_account_quiet) (simp_all add: queue_ids_distinct_def)

lemma step_account_answered:
  assumes "respond_operator_queue_entry fmt config day caller b i rq now db = (Inr evs, db')"
    and "queue_ids_distinct (db, due)"
  shows "step_account (db, due) (Settled i, evs) (db', due)"
  using assms(1)
proof (cases rule: respondE)
  case (1 t pl ops)
  from 1(2) show ?thesis
  proof (cases rule: answer_entryE)
    case inner: (1 r n sq)
    have d: "distinct (map oq_id (bot_operator_queue db))" using assms(2) by (simp add: queue_ids_distinct_def)
    have q: "bot_operator_queue db' = update_where (answerable b i)
        (mark_answered (caller_id caller) (rq_response rq) (oq_audience r) now) (bot_operator_queue db)"
      using inner by simp
    have "\<exists>x \<in> set (bot_operator_queue db). answerable b i x" using inner by simp
    then have p: "pending_entries j (bot_operator_queue db) = pending_entries j (bot_operator_queue db') + (if j = i then 1 else 0)" for j
      unfolding q by (intro pending_entries_end[OF d]) (auto simp: answerable_def)
    have "oq_id r = i" using inner(1) by (auto simp: find_queue_entry_def dest: find_SomeD)
    then have "length (filter (is_answer j) evs) = (if j = i then 1 else 0)" for j
      using 1(3) inner(6) by (auto simp: answer_of_body)
    moreover have "queue_ids_distinct (db', due)" using d by (simp add: queue_ids_distinct_def q map_update_where)
    ultimately show ?thesis by (auto simp: step_account_def queue_of_def p)
  qed
qed

lemma step_account_expired:
  assumes "expire_entry day r now db = Some (True, evs, db')" and "queue_ids_distinct (db, due)"
  shows "step_account (db, due) (Settled (oq_id r), evs) (db', due')"
  using assms(1)
proof (cases rule: expire_entryE)
  case (expired sq lg)
  let ?p = "\<lambda>q. oq_id q = oq_id r \<and> oq_status q = ''pending''"
  have d: "distinct (map oq_id (bot_operator_queue db))" using assms(2) by (simp add: queue_ids_distinct_def)
  have q: "bot_operator_queue db' = update_where ?p (mark_expired now) (bot_operator_queue db)"
    using expired by simp
  have "\<exists>x \<in> set (bot_operator_queue db). ?p x" using expired by simp
  then have p: "pending_entries j (bot_operator_queue db) =
      pending_entries j (bot_operator_queue db') + (if j = oq_id r then 1 else 0)" for j
    unfolding q by (intro pending_entries_end[OF d]) auto
  have "length (filter (is_answer j) evs) \<le> (if j = oq_id r then 1 else 0)" for j
    using expired(4) by (auto simp: expired_body_def answer_of_body)
  moreover have "queue_ids_distinct (db', due')" using d by (simp add: queue_ids_distinct_def q map_update_where)
  ultimately show ?thesis by (auto simp: step_account_def queue_of_def p)
qed simp

lemma step_account_created:
  assumes "enqueue_operator_queue_entry fmt config day to_json caller req now db = (Some (Inr (Created at, evs)), db')"
    and "queue_ids_distinct (db, due)"
  shows "step_account (db, due) (Queued (trim (nq_request_id req)), evs) (db', due)"
  using assms(1)
proof (cases rule: enqueueE)
  case (created t ctx ps tmo canned at')
  from created(2) show ?thesis
  proof (cases rule: insert_queue_entryE)
    case inner: (created row at')
    have "is_answer j ev = False" if "ev \<in> set evs" for j ev
      using created(3) that
      by (auto simp: enqueued_events_def is_answer_def operator_queue_event_def split: enqueue_outcome.splits)
    then have "filter (is_answer j) evs = []" for j by (simp add: filter_empty_conv)
    with inner assms(2) show ?thesis
      by (auto simp: step_account_def queue_of_def queue_ids_distinct_def)
  qed simp
qed auto

lemma queue_step_account:
  assumes "queue_step fmt config day to_json s l s'" and "queue_ids_distinct s"
  shows "step_account s l s'"
  using assms
proof (induction rule: queue_step.induct)
  case (q_not_created caller req now db out db' due)
  from q_not_created(1) show ?case
  proof (cases rule: enqueueE)
    case (unchanged t)
    with q_not_created show ?thesis by (intro step_account_same) simp_all
  qed (use q_not_created(2) in auto)
next
  case (q_refused caller b i rq now db e db' due)
  from respond_refused_frame[OF q_refused(1)] obtain t where "db' = db\<lparr>rate_limits := t\<rparr>" by blast
  with q_refused show ?case by (intro step_account_same) simp_all
next
  case (q_lost_race r now db evs db' xs ys)
  from q_lost_race(1) have "evs = []" "db' = db" by (auto elim: expire_entryE)
  with q_lost_race show ?case by (auto simp: queue_ids_distinct_def intro: step_account_same)
next
  case (q_retention now db report db' due)
  define p :: "operator_queue_row \<Rightarrow> bool" where "p = (\<lambda>q. oq_status q \<in> {''answered'', ''expired''} \<and>
      (case oq_answered_at q of None \<Rightarrow> False | Some t \<Rightarrow> sql_less t (datetime_days_ago now 7)))"
  have q: "bot_operator_queue db' = delete_where p (bot_operator_queue db)"
    using q_retention(1) by (auto simp: operator_queue_retention_job_def Let_def p_def)
  have "p x \<Longrightarrow> oq_status x \<noteq> ''pending''" for x by (auto simp: p_def)
  with q q_retention(2) show ?case
    by (intro step_account_quiet)
      (auto simp: queue_ids_distinct_def pending_entries_delete intro: distinct_map_delete_where)
next
  case (q_logs now db report db' due)
  then show ?case by (intro step_account_same) (auto simp: bot_event_log_ttl_job_def Let_def)
next
  case (q_room_deleted db due room_id)
  then show ?case
    by (intro step_account_quiet)
      (simp_all add: queue_ids_distinct_def delete_room_cascade_def pending_entries_update_frame map_update_where)
next
  case (q_expired r now db evs db' xs ys)
  from q_expired(2) have "queue_ids_distinct (db, xs @ r # ys)" .
  with q_expired(1) show ?case by (rule step_account_expired)
qed (auto intro: step_account_answered step_account_created step_account_same)

interpretation operator_queue: settling
  "queue_step fmt config day to_json" queue_ids_distinct "\<lambda>i s. pending_entries i (queue_of s)"
  for fmt config day to_json
  by unfold_locales (use queue_step_account in \<open>auto simp: step_account_def\<close>)

text \<open>
  C12. In every run of the queue (enqueueing, answering, time-out jobs that end their rows one by one
  while other calls go on, retention, deleted rooms) a request that was queued is pending or was
  settled, by an operator or by its time-out, exactly once, and the bot is sent at most one answer
  for each time it was queued.
\<close>

theorem queue_settles_once:
  assumes "run (queue_step fmt config day to_json) (db, due) ls (db', due')"
    and "distinct (map oq_id (bot_operator_queue db))"
  shows "pending_entries i (bot_operator_queue db') + settled i ls =
      pending_entries i (bot_operator_queue db) + queued i ls \<and>
    pending_entries i (bot_operator_queue db') \<le> 1 \<and> answers i ls \<le> settled i ls"
proof -
  have "queue_ids_distinct (db, due)" using assms(2) by (simp add: queue_ids_distinct_def)
  from operator_queue.run_settles[OF assms(1) this, of i] show ?thesis
    using pending_entries_le_1[of "bot_operator_queue db'" i] by (simp add: queue_of_def queue_ids_distinct_def)
qed

section \<open>What an answer does\<close>

lemma find_queue_entry_iff:
  assumes "distinct (map oq_id (bot_operator_queue db))"
  shows "find_queue_entry db b i = Some r \<longleftrightarrow> r \<in> set (bot_operator_queue db) \<and> oq_bot_id r = b \<and> oq_id r = i"
proof
  assume "r \<in> set (bot_operator_queue db) \<and> oq_bot_id r = b \<and> oq_id r = i"
  then show "find_queue_entry db b i = Some r"
    unfolding find_queue_entry_def
    by (intro find_unique) (use assms in \<open>auto simp: distinct_map inj_on_def\<close>)
qed (auto simp: find_queue_entry_def dest: find_SomeD)


text \<open>
  A bot cannot answer its own queue, although the handler admits it and its description names the
  bot's token: the answer would be recorded under the bot's id in a column that refers to users, so a
  correct answer to a pending request ends in an internal error and changes nothing but the rate
  limit's count.
\<close>

theorem bot_cannot_answer:
  assumes "find_bot db (bx_bot_id ctx) \<noteq> None" and "find_queue_entry db (bx_bot_id ctx) i = Some r"
    and "oq_status r = ''pending''" and "trim (rq_response rq) \<noteq> []" and "length (rq_response rq) \<le> 65536"
    and "rq_routing rq = None" and "\<not> user_exists db (bx_bot_id ctx)"
    and "rate_guard fmt config (OperatorQueueRespond (bx_bot_id ctx) (bx_bot_id ctx)) now db = (Inr (), db1)"
  shows "respond_operator_queue_entry fmt config day (BotCaller ctx) (bx_bot_id ctx) i rq now db = (Inl ApiInternal, db1)"
proof -
  obtain t where db1: "db1 = db\<lparr>rate_limits := t\<rparr>"
    using rate_guard_frame[of fmt config "OperatorQueueRespond (bx_bot_id ctx) (bx_bot_id ctx)" now db] assms(8) by auto
  have r: "find_queue_entry db1 (bx_bot_id ctx) i = Some r" using assms(2) by (simp add: find_queue_entry_def db1)
  have m: "oq_id r = i" "oq_bot_id r = bx_bot_id ctx" "r \<in> set (bot_operator_queue db1)"
    using find_SomeD[OF r[unfolded find_queue_entry_def]] by auto
  then have c: "count_where (\<lambda>q. oq_id q = i \<and> oq_bot_id q = bx_bot_id ctx \<and> oq_status q = ''pending'')
      (bot_operator_queue db1) \<noteq> 0"
    using assms(3) by (auto simp: count_where_zero_iff)
  have u: "\<not> exists_where (\<lambda>u. u_id u = bx_bot_id ctx) (users db1)"
    using assms(7) by (simp add: user_exists_def db1)
  have "answer_entry day (bx_bot_id ctx) i (bx_bot_id ctx) (rq_response rq) now db1 = Inl ApiInternal"
    using r c u assms(3) by (simp add: answer_entry_def del: exists_where_iff)
  moreover have "verify_operator_or_bot db (BotCaller ctx) (bx_bot_id ctx) = Inr ()"
    using assms(1) by (auto simp: verify_operator_or_bot_def split: option.splits)
  ultimately show ?thesis
    using assms(4-6,8) by (simp add: respond_operator_queue_entry_def)
qed

section \<open>When a request times out\<close>

lemma append_less_append:
  fixes xs ys :: "'a::linorder list"
  assumes "length xs = length ys"
  shows "xs @ us < ys @ vs \<longleftrightarrow> xs < ys \<or> xs = ys \<and> us < vs"
  using assms by (induction xs ys rule: list_induct2) auto

text \<open>The days whose years have four digits: 0000-01-01 to 9999-12-31.\<close>

definition plain_days :: "int set" where
  "plain_days = {-719528 .. 2932896}"

definition calendar :: "(int \<Rightarrow> string) \<Rightarrow> bool" where
  "calendar day \<longleftrightarrow>
     (\<forall>a \<in> plain_days. length (day a) = 10) \<and>
     (\<forall>a \<in> plain_days. \<forall>b \<in> plain_days. a < b \<longrightarrow> day a < day b)"

lemma time_texts_compare_days:
  assumes "calendar day" and "day_of t \<in> plain_days" and "day_of now \<in> plain_days"
  shows "rfc3339_millis day t < sql_timestamp day now \<longleftrightarrow> day_of t < day_of now"
proof -
  have len: "length (day (day_of t)) = length (day (day_of now))" using assms by (auto simp: calendar_def)
  have "\<not> CHR ''T'' # u < CHR '' '' # v" for u v by (simp add: less_char_def)
  then have "rfc3339_millis day t < sql_timestamp day now \<longleftrightarrow> day (day_of t) < day (day_of now)"
    unfolding rfc3339_millis_def sql_timestamp_def using append_less_append[OF len] by simp
  also have "\<dots> \<longleftrightarrow> day_of t < day_of now"
    using assms unfolding calendar_def by (metis linorder_neqE not_less_iff_gr_or_eq)
  finally show ?thesis .
qed

text \<open>
  A request is not timed out when its time has come but when its day is over: the due time is
  stored in RFC 3339 with a \<open>T\<close> after the date and compared as text with SQLite's time stamp,
  which has a space there, so the job ends exactly the pending requests whose due date lies before
  today.
\<close>

theorem time_out_waits_for_midnight:
  assumes "calendar day" and "day_of now \<in> plain_days"
    and "\<forall>r \<in> set (bot_operator_queue db). \<forall>t \<in> set_option (oq_timeout_at r). day_of t \<in> plain_days"
  shows "operator_queue_timeout_job day now db =
    expire_entries day
      (filter (\<lambda>r. oq_status r = ''pending'' \<and> (\<exists>t \<in> set_option (oq_timeout_at r). day_of t < day_of now))
        (bot_operator_queue db)) now 0 0 db"
proof -
  have "timed_out day now r \<longleftrightarrow>
      oq_status r = ''pending'' \<and> (\<exists>t \<in> set_option (oq_timeout_at r). day_of t < day_of now)"
    if "r \<in> set (bot_operator_queue db)" for r
    using assms that time_texts_compare_days[OF assms(1) _ assms(2)]
    by (cases "oq_timeout_at r") (auto simp: timed_out_def)
  then show ?thesis unfolding operator_queue_timeout_job_def by (simp cong: filter_cong)
qed

section \<open>Previews\<close>

lemma count_take_chars: "count_chars (take_chars n s) = min n (count_chars s)"
  by (induction n s rule: take_chars.induct) (auto simp: count_chars_def split: nat.splits)

lemma take_chars_prefix: "\<exists>rest. s = take_chars n s @ rest"
  by (induction n s rule: take_chars.induct) (auto split: nat.splits)

lemma preview_bounded: "count_chars (derive_payload_preview payload) \<le> 123"
proof -
  have "count_chars (u @ ''...'') = count_chars u + 3" for u
    by (simp add: count_chars_def is_continuation_def)
  then show ?thesis by (simp add: derive_payload_preview_def Let_def count_take_chars)
qed

section \<open>Examples\<close>

text \<open>Dates for the examples: the number of the day since 0000-01-01 in ten digits.\<close>

fun decimal :: "nat \<Rightarrow> int \<Rightarrow> string" where
  "decimal 0 n = []"
| "decimal (Suc k) n = decimal k (n div 10) @ [digit (n mod 10)]"

definition day_number :: "int \<Rightarrow> string" where
  "day_number d = decimal 10 (d + 719528)"

lemma length_decimal [simp]: "length (decimal k n) = k"
  by (induction k n rule: decimal.induct) simp_all

lemma digit_less: "0 \<le> a \<Longrightarrow> a < b \<Longrightarrow> b < 10 \<Longrightarrow> digit a < digit b"
  by (simp add: digit_def less_char_def of_char_of)

lemma decimal_less: "0 \<le> a \<Longrightarrow> a < b \<Longrightarrow> b < 10 ^ k \<Longrightarrow> decimal k a < decimal k b"
proof (induction k arbitrary: a b)
  case (Suc k)
  show ?case
  proof (cases "a div 10 < b div 10")
    case True
    have "b div 10 < 10 ^ k" using Suc.prems by (simp add: div_less_iff_less_mult algebra_simps)
    with Suc.IH[of "a div 10" "b div 10"] Suc.prems True show ?thesis
      by (simp add: append_less_append pos_imp_zdiv_nonneg_iff)
  next
    case False
    then have e: "a div 10 = b div 10" using Suc.prems(2) by (meson linorder_not_le nle_le order_less_imp_le zdiv_mono1 zero_less_numeral)
    then have "a mod 10 < b mod 10" using Suc.prems(2) by (metis add_less_cancel_left div_mult_mod_eq)
    with digit_less[of "a mod 10" "b mod 10"] e show ?thesis by (simp add: append_less_append)
  qed
qed simp

lemma calendar_day_number: "calendar day_number"
  by (auto simp: calendar_def plain_days_def day_number_def intro!: decimal_less)

definition example_entry :: operator_queue_row where
  "example_entry = \<lparr>oq_id = ''q'', oq_bot_id = ''bot1'', oq_room_id = Some ''r'', oq_audience = ''private'',
     oq_requester_user_id = None, oq_payload = ''1'', oq_payload_preview = ''[request]'', oq_status = ''pending'',
     oq_queued_at = 0, oq_timeout_at = Some (3600 * nanos_per_sec), oq_on_timeout = ''ignore'', oq_canned_response = None,
     oq_answered_at = None, oq_responded_by = None, oq_response = None, oq_routing = None\<rparr>"

definition queue_example_db :: db where
  "queue_example_db = bot_example_db\<lparr>bot_operator_queue := [example_entry]\<rparr>"

definition example_user :: auth_user where
  "example_user = \<lparr>au_user_id = ''a'', au_session_id = ''s'', au_device_id = None, au_username_token = [],
     au_encrypted_display = None, au_expires_at = 0, au_session_created_at = 0\<rparr>"

definition example_answer :: respond_queue_req where
  "example_answer = \<lparr>rq_response = ''x'', rq_routing = None\<rparr>"

definition toy_respond :: "caller_identity \<Rightarrow> (api_error + event list) \<times> db" where
  "toy_respond caller = respond_operator_queue_entry (\<lambda>_ _. []) bot_example_config day_number caller ''bot1'' ''q''
     example_answer 0 queue_example_db"

lemma queue_example_ids: "distinct (map oq_id (bot_operator_queue queue_example_db))"
  by (simp add: queue_example_db_def)

lemma toy_guard: "\<exists>t. rate_guard (\<lambda>_ _. []) bot_example_config (OperatorQueueRespond b c) 0 queue_example_db =
    (Inr (), queue_example_db\<lparr>rate_limits := t\<rparr>)"
  by (simp add: rate_guard_def rate_check_def dated_minute_def windowed_def compute_window_def Let_def bump_def
      queue_example_db_def bot_example_db_def room_example_db_def empty_db_def bot_example_config_def
      RateLimitConfig.make_def)

lemma toy_respond_user: "\<exists>evs db'. toy_respond (UserCaller example_user) = (Inr evs, db')"
proof -
  obtain t where g: "rate_guard (\<lambda>_ _. []) bot_example_config (OperatorQueueRespond ''bot1'' ''a'') 0 queue_example_db =
    (Inr (), queue_example_db\<lparr>rate_limits := t\<rparr>)" using toy_guard by blast
  have v: "verify_operator_or_bot queue_example_db (UserCaller example_user) ''bot1'' = Inr ()"
    by (simp add: verify_operator_or_bot_def find_bot_def queue_example_db_def bot_example_db_def example_user_def)
  have "\<exists>pl db'. answer_entry day_number ''bot1'' ''q'' ''a'' ''x'' 0 (queue_example_db\<lparr>rate_limits := t\<rparr>) = Inr (pl, db')"
    by (simp add: answer_entry_def find_queue_entry_def queue_example_db_def example_entry_def bot_example_db_def
        room_example_db_def empty_db_def prepare_durable_bot_event_def allocate_bot_seq_def append_bot_event_log_def
        insert_row_def new_room_row_def Let_def)
  with g v show ?thesis
    by (auto simp: toy_respond_def respond_operator_queue_entry_def example_answer_def example_user_def toy_texts)
qed


theorem queue_settles_once_witness:
  "\<exists>evs db'. run (queue_step (\<lambda>_ _. []) bot_example_config day_number (\<lambda>_. ''1'')) (queue_example_db, [])
      [(Settled ''q'', evs)] (db', []) \<and>
     pending_entries ''q'' (bot_operator_queue db') = 0 \<and> answers ''q'' [(Settled ''q'', evs)] \<le> 1"
proof -
  obtain evs db' where r: "toy_respond (UserCaller example_user) = (Inr evs, db')" using toy_respond_user by blast
  have "run (queue_step (\<lambda>_ _. []) bot_example_config day_number (\<lambda>_. ''1'')) (queue_example_db, [])
      [(Settled ''q'', evs)] (db', [])"
    by (rule run_step, rule q_answered[OF r[unfolded toy_respond_def]], rule run_stop)
  from this queue_settles_once[OF this queue_example_ids, of "''q''"] show ?thesis
    by (auto simp: queue_example_db_def example_entry_def)
qed

theorem bot_cannot_answer_witness:
  "fst (toy_respond (BotCaller bot_example_ctx)) = Inl ApiInternal"
proof -
  obtain t where g: "rate_guard (\<lambda>_ _. []) bot_example_config (OperatorQueueRespond ''bot1'' ''bot1'') 0 queue_example_db =
    (Inr (), queue_example_db\<lparr>rate_limits := t\<rparr>)" using toy_guard by blast
  have c: "bx_bot_id bot_example_ctx = ''bot1''" by (simp add: bot_example_ctx_def)
  have "find_bot queue_example_db ''bot1'' \<noteq> None"
    by (simp add: find_bot_def queue_example_db_def bot_example_db_def)
  moreover have "find_queue_entry queue_example_db ''bot1'' ''q'' = Some example_entry"
    by (simp add: find_queue_entry_def queue_example_db_def example_entry_def)
  moreover have "\<not> user_exists queue_example_db ''bot1''"
    by (simp add: user_exists_def queue_example_db_def bot_example_db_def room_example_db_def)
  ultimately show ?thesis
    using bot_cannot_answer[of queue_example_db bot_example_ctx "''q''" example_entry example_answer "\<lambda>_ _. []"
        bot_example_config 0 _ day_number, unfolded c, OF _ _ _ _ _ _ _ g]
    by (simp add: toy_respond_def example_answer_def example_entry_def toy_texts)
qed

theorem time_out_waits_for_midnight_witness:
  "operator_queue_timeout_job day_number (5 * 3600 * nanos_per_sec) queue_example_db =
     (Some \<lparr>cr_rows_deleted = 0, cr_notes = [''rows_published=0'']\<rparr>, [], queue_example_db)"
proof -
  have "show_nat 0 = ''0''" by code_simp
  moreover have "day_of (3600 * nanos_per_sec) = 0" "day_of (5 * 3600 * nanos_per_sec) = 0" by (simp_all add: day_of_def)
  ultimately show ?thesis
    using time_out_waits_for_midnight[OF calendar_day_number, of "5 * 3600 * nanos_per_sec" queue_example_db]
    by (simp add: plain_days_def queue_example_db_def example_entry_def)
qed

end
