(* ===== verification/BotGrants.thy ===== *)
theory BotGrants
  imports BotQueue
begin

text \<open>
  Bots in rooms: \<open>server/src/bots/scopes.rs\<close> and the handlers \<open>list_room_bots\<close>,
  \<open>grant_bot\<close>, \<open>patch_room_bot\<close> and \<open>delete_room_bot\<close> of \<open>server/src/routes/room_bots.rs\<close>.

  The handlers take the id of the authenticated user.  \<open>fresh\<close> and \<open>audit_id\<close> are the ids drawn for
  queued additions and audit rows; \<open>connected\<close> is the registry of bot connections.
\<close>

section \<open>Scopes and modes\<close>

definition SCOPES :: "string list" where
  "SCOPES = [''post_message'', ''post_attachment'', ''post_reaction'', ''read_commands'', ''read_metadata'',
     ''read_content'', ''edit_message'', ''delete_message'']"

definition READ_CONTENT_DEPENDENTS :: "string list" where
  "READ_CONTENT_DEPENDENTS = [''post_reaction'', ''edit_message'', ''delete_message'']"

datatype scope_error = OutOfVocabulary string | DependencyMissing

datatype bot_mode = WriteOnly | Observer | Member

fun mode_str :: "bot_mode \<Rightarrow> string" where
  "mode_str WriteOnly = ''write_only''"
| "mode_str Observer = ''observer''"
| "mode_str Member = ''member''"

definition is_valid_scope :: "string \<Rightarrow> bool" where
  "is_valid_scope scope \<longleftrightarrow> scope \<in> set SCOPES"

definition validate_dependencies :: "string list \<Rightarrow> scope_error option" where
  "validate_dependencies scopes =
     (let has_read_content = list_ex (\<lambda>s. s = ''read_content'') scopes;
          has_dependent = list_ex (\<lambda>s. s \<in> set READ_CONTENT_DEPENDENTS) scopes
      in if has_dependent \<and> \<not> has_read_content then Some DependencyMissing else None)"

definition validate_scopes :: "string list \<Rightarrow> scope_error option" where
  "validate_scopes scopes =
     (case List.find (\<lambda>s. \<not> is_valid_scope s) scopes of
        Some s \<Rightarrow> Some (OutOfVocabulary s)
      | None \<Rightarrow> validate_dependencies scopes)"

definition derive_mode :: "string list \<Rightarrow> bot_mode" where
  "derive_mode scopes =
     (if list_ex (\<lambda>s. s \<in> {''read_content'', ''post_reaction'', ''edit_message'', ''delete_message''}) scopes then Member
      else if list_ex (\<lambda>s. s = ''read_metadata'') scopes then Observer
      else WriteOnly)"

section \<open>Shared queries\<close>

text \<open>Who may grant: the owner, or a moderator of a room whose own override is \<open>discord\<close>.\<close>

definition check_room_grant_auth :: "db \<Rightarrow> id \<Rightarrow> id \<Rightarrow> api_error + unit" where
  "check_room_grant_auth db room_id user_id =
     (case find_room db room_id of
        None \<Rightarrow> Inl (ApiNotFound ''room_not_found'')
      | Some room \<Rightarrow>
          (case member_role db room_id user_id of
             None \<Rightarrow> Inl (ApiNotFound ''room_not_found'')
           | Some role \<Rightarrow>
               if user_id = r_owner_id room \<or> role = ''owner'' then Inr ()
               else if role = ''moderator'' \<and>
                       (case r_moderation_override room of None \<Rightarrow> ''messenger'' | Some m \<Rightarrow> m) = ''discord''
               then Inr ()
               else Inl (ApiForbidden ''forbidden'')))"

record room_bot_view =
  ry_bot_id :: id
  ry_display_name :: string
  ry_avatar_file_id :: "id option"
  ry_mode :: string
  ry_scopes :: "string list"
  ry_connected :: "bool option"
  ry_granted_at :: time
  ry_granted_by :: id

definition room_scopes :: "db \<Rightarrow> id \<Rightarrow> id \<Rightarrow> string list" where
  "room_scopes db room_id bot_id =
     map sc_scope (filter (\<lambda>s. sc_room_id s = room_id \<and> sc_bot_id s = bot_id) (room_bot_scopes db))"

definition declared_scopes :: "db \<Rightarrow> id \<Rightarrow> string list" where
  "declared_scopes db bot_id = map dc_scope (filter (\<lambda>d. dc_bot_id d = bot_id) (bot_declared_scopes db))"

definition active_bot :: "db \<Rightarrow> id \<Rightarrow> bot_account_row option" where
  "active_bot db bot_id =
     List.find (\<lambda>b. b_id b = bot_id \<and> b_deleted_at b = None \<and> b_disabled_at b = None) (bot_accounts db)"

definition active_grant :: "db \<Rightarrow> id \<Rightarrow> id \<Rightarrow> room_bot_row option" where
  "active_grant db room_id bot_id =
     List.find (\<lambda>rb. rb_room_id rb = room_id \<and> rb_bot_id rb = bot_id \<and> rb_revoked_at rb = None) (room_bots db)"

definition room_channel :: "id \<Rightarrow> string" where
  "room_channel room_id = ''private-room-'' @ room_id"

definition scopes_json :: "string list \<Rightarrow> json" where
  "scopes_json scopes = JArray (map JString scopes)"

section \<open>Listing\<close>

definition room_bot_view_of :: "db \<Rightarrow> (id \<Rightarrow> bool) \<Rightarrow> id \<Rightarrow> room_bot_row \<Rightarrow> bot_account_row \<Rightarrow> room_bot_view" where
  "room_bot_view_of db connected user_id rb b =
     \<lparr>ry_bot_id = rb_bot_id rb, ry_display_name = b_display_name b, ry_avatar_file_id = b_avatar_file_id b,
      ry_mode = rb_mode rb, ry_scopes = sort (room_scopes db (rb_room_id rb) (rb_bot_id rb)),
      ry_connected = (if user_id = b_owner_user_id b then Some (connected (rb_bot_id rb)) else None),
      ry_granted_at = rb_granted_at rb, ry_granted_by = rb_granted_by rb\<rparr>"

definition list_room_bots :: "db \<Rightarrow> (id \<Rightarrow> bool) \<Rightarrow> id \<Rightarrow> id \<Rightarrow> api_error + room_bot_view list" where
  "list_room_bots db connected user_id room_id =
     (if \<not> is_member db room_id user_id then Inl (ApiNotFound ''room_not_found'')
      else Inr (List.map_filter
        (\<lambda>rb. map_option (room_bot_view_of db connected user_id rb) (active_bot db (rb_bot_id rb)))
        (sort_key (\<lambda>rb. (rb_granted_at rb, rb_bot_id rb))
          (filter (\<lambda>rb. rb_room_id rb = room_id \<and> rb_revoked_at rb = None) (room_bots db)))))"

section \<open>Granting\<close>

record grant_bot_req =
  gq_bot_id :: id
  gq_scopes :: "string list"
  gq_operators :: "id list option"

text \<open>The checks after the rate limit, in their order.\<close>

definition check_scope_request :: "string list \<Rightarrow> api_error + unit" where
  "check_scope_request scopes =
     (if scopes = [] then Inl (ApiBadRequest ''scopes_empty'')
      else if validate_dependencies scopes \<noteq> None then Inl (ApiBadRequest ''scope_dependency_missing'')
      else Inr ())"

definition check_grant :: "db \<Rightarrow> id \<Rightarrow> grant_bot_req \<Rightarrow> api_error + bot_account_row" where
  "check_grant db room_id req =
     (case check_scope_request (gq_scopes req) of
        Inl e \<Rightarrow> Inl e
      | Inr _ \<Rightarrow>
          (case active_bot db (gq_bot_id req) of
             None \<Rightarrow> Inl (ApiNotFound ''bot_not_found'')
           | Some b \<Rightarrow>
               if active_grant db room_id (gq_bot_id req) \<noteq> None then Inl (ApiConflict ''bot_already_granted'')
               else if \<not> list_all (\<lambda>s. s \<in> set (declared_scopes db (gq_bot_id req))) (gq_scopes req)
               then Inl (ApiBadRequest ''scope_not_declared'')
               else if 10 \<le> count_where (\<lambda>rb. rb_room_id rb = room_id \<and> rb_revoked_at rb = None) (room_bots db)
               then Inl (ApiConflict ''bot_limit_reached'')
               else if (case gq_operators req of None \<Rightarrow> False | Some ops \<Rightarrow> \<not> list_all (is_member db room_id) ops)
               then Inl (ApiBadRequest ''invalid_operator'')
               else Inr b))"

text \<open>The rows of the transaction; a repeated scope breaks the primary key.\<close>

definition insert_room_bot :: "id \<Rightarrow> id \<Rightarrow> bot_mode \<Rightarrow> id \<Rightarrow> time \<Rightarrow> db \<Rightarrow> db option" where
  "insert_room_bot room_id bot_id mode user_id now db =
     (if room_exists db room_id \<and> exists_where (\<lambda>b. b_id b = bot_id) (bot_accounts db) \<and> user_exists db user_id
      then map_option (\<lambda>t. db\<lparr>room_bots := t\<rparr>)
        (insert_row (\<lambda>rb. (rb_room_id rb, rb_bot_id rb))
          \<lparr>rb_room_id = room_id, rb_bot_id = bot_id, rb_mode = mode_str mode, rb_granted_by = user_id,
           rb_granted_at = current_timestamp now, rb_revoked_at = None\<rparr> (room_bots db))
      else None)"

fun insert_scopes :: "id \<Rightarrow> id \<Rightarrow> string list \<Rightarrow> db \<Rightarrow> db option" where
  "insert_scopes room_id bot_id [] db = Some db"
| "insert_scopes room_id bot_id (s # ss) db =
     (if is_valid_scope s \<and> exists_where (\<lambda>rb. rb_room_id rb = room_id \<and> rb_bot_id rb = bot_id) (room_bots db)
      then
        (case insert_row (\<lambda>r. (sc_room_id r, sc_bot_id r, sc_scope r))
                \<lparr>sc_room_id = room_id, sc_bot_id = bot_id, sc_scope = s\<rparr> (room_bot_scopes db) of
           None \<Rightarrow> None
         | Some t \<Rightarrow> insert_scopes room_id bot_id ss (db\<lparr>room_bot_scopes := t\<rparr>))
      else None)"

text \<open>\<open>ON CONFLICT DO NOTHING\<close>: only the operators that are new are reported.\<close>

fun bind_operators :: "id \<Rightarrow> id list \<Rightarrow> id \<Rightarrow> time \<Rightarrow> db \<Rightarrow> (id list \<times> db) option" where
  "bind_operators bot_id [] user_id now db = Some ([], db)"
| "bind_operators bot_id (op # ops) user_id now db =
     (if is_bot_operator db bot_id op then bind_operators bot_id ops user_id now db
      else if user_exists db op \<and> user_exists db user_id \<and> exists_where (\<lambda>b. b_id b = bot_id) (bot_accounts db)
      then
        map_option (\<lambda>(added, db'). (op # added, db'))
          (bind_operators bot_id ops user_id now
            (db\<lparr>bot_operators := bot_operators db @
              [\<lparr>bo_bot_id = bot_id, bo_user_id = op, bo_bound_at = current_timestamp now,
                bo_bound_by = Some user_id, bo_binding = ''room-member''\<rparr>]\<rparr>))
      else None)"

definition queue_bot_add :: "id \<Rightarrow> id \<Rightarrow> (nat \<Rightarrow> id) \<Rightarrow> time \<Rightarrow> db \<Rightarrow> (id list \<times> db) option" where
  "queue_bot_add room_id bot_id fresh now db =
     (case select_bot_key_packages bot_id now db of
        (selections, db1) \<Rightarrow>
          (case queue_pending_mls_add_batch room_id (TargetBot bot_id) selections fresh now db1 of
             Inl e \<Rightarrow> None
           | Inr (queued, db2) \<Rightarrow> Some (map qa_target_client_id queued, db2)))"

definition grant_transaction ::
  "id \<Rightarrow> id \<Rightarrow> grant_bot_req \<Rightarrow> (nat \<Rightarrow> id) \<Rightarrow> time \<Rightarrow> db \<Rightarrow> (id list \<times> id list \<times> db) option"
where
  "grant_transaction room_id user_id req fresh now db =
     (let mode = derive_mode (gq_scopes req) in
      (case insert_room_bot room_id (gq_bot_id req) mode user_id now db of
         None \<Rightarrow> None
       | Some db1 \<Rightarrow>
           (case insert_scopes room_id (gq_bot_id req) (gq_scopes req) db1 of
              None \<Rightarrow> None
            | Some db2 \<Rightarrow>
                (case bind_operators (gq_bot_id req) (null_text (gq_operators req)) user_id now db2 of
                   None \<Rightarrow> None
                 | Some (added, db3) \<Rightarrow>
                     map_option (\<lambda>(clients, db4). (added, clients, db4))
                       (if mode = Member then queue_bot_add room_id (gq_bot_id req) fresh now db3
                        else Some ([], db3))))))"

definition operator_audit ::
  "string \<Rightarrow> id \<Rightarrow> id \<Rightarrow> id \<Rightarrow> (nat \<Rightarrow> id) \<Rightarrow> time \<Rightarrow> id list \<Rightarrow> db \<Rightarrow> db"
where
  "operator_audit action user_id bot_id room_id audit_id now ops db =
     fold (\<lambda>(i, op). audit (Some user_id) action (Some ''bot'') (Some bot_id)
         (Some (JObject [(''bot_id'', JString bot_id), (''user_id'', JString op),
                         (''binding'', JString ''room-member''), (''room_id'', JString room_id)]))
         (audit_id i) now)
       (enumerate 0 ops) db"

definition mls_add_event :: "id \<Rightarrow> id \<Rightarrow> id list \<Rightarrow> event" where
  "mls_add_event room_id bot_id clients =
     Event (room_channel room_id) ''mls.add_pending''
       (JObject [(''room_id'', JString room_id), (''target_user_id'', JNull), (''target_bot_id'', JString bot_id),
                 (''client_ids'', JArray (map JString clients))])"

definition bot_added_event :: "id \<Rightarrow> id \<Rightarrow> grant_bot_req \<Rightarrow> event" where
  "bot_added_event room_id user_id req =
     Event (room_channel room_id) ''bot.added''
       (JObject [(''room_id'', JString room_id), (''bot_id'', JString (gq_bot_id req)),
                 (''mode'', JString (mode_str (derive_mode (gq_scopes req)))),
                 (''scopes'', scopes_json (gq_scopes req)), (''granted_by'', JString user_id)])"

definition grant_bot ::
  "(string \<Rightarrow> time \<Rightarrow> string) \<Rightarrow> RateLimitConfig \<Rightarrow> id \<Rightarrow> id \<Rightarrow> grant_bot_req \<Rightarrow> (nat \<Rightarrow> id) \<Rightarrow> (nat \<Rightarrow> id) \<Rightarrow>
   time \<Rightarrow> db \<Rightarrow> (api_error + (room_bot_view \<times> event list)) \<times> db"
where
  "grant_bot fmt config user_id room_id req fresh audit_id now db =
     (case check_room_grant_auth db room_id user_id of
        Inl e \<Rightarrow> (Inl e, db)
      | Inr _ \<Rightarrow>
          (case rate_guard fmt config (BotGrant user_id) now db of
             (Inl e, db1) \<Rightarrow> (Inl e, db1)
           | (Inr _, db1) \<Rightarrow>
               (case check_grant db1 room_id req of
                  Inl e \<Rightarrow> (Inl e, db1)
                | Inr b \<Rightarrow>
                    (case grant_transaction room_id user_id req fresh now db1 of
                       None \<Rightarrow> (Inl ApiInternal, db1)
                     | Some (added, clients, db2) \<Rightarrow>
                         let mode = derive_mode (gq_scopes req)
                         in (Inr (\<lparr>ry_bot_id = gq_bot_id req, ry_display_name = b_display_name b,
                                   ry_avatar_file_id = b_avatar_file_id b, ry_mode = mode_str mode,
                                   ry_scopes = gq_scopes req, ry_connected = None,
                                   ry_granted_at = current_timestamp now, ry_granted_by = user_id\<rparr>,
                                  bot_added_event room_id user_id req #
                                  (if mode = Member then [mls_add_event room_id (gq_bot_id req) clients] else [])),
                             operator_audit ''bot.operator.bound'' user_id (gq_bot_id req) room_id audit_id now added
                               db2)))))"

section \<open>Changing the scopes\<close>

definition check_patch :: "db \<Rightarrow> id \<Rightarrow> id \<Rightarrow> string list \<Rightarrow> api_error + (room_bot_row \<times> bot_account_row)" where
  "check_patch db room_id bot_id scopes =
     (case check_scope_request scopes of
        Inl e \<Rightarrow> Inl e
      | Inr _ \<Rightarrow>
          (case (active_grant db room_id bot_id, active_bot db bot_id) of
             (Some rb, Some b) \<Rightarrow>
               if \<not> list_all (\<lambda>s. s \<in> set (declared_scopes db bot_id)) scopes
               then Inl (ApiBadRequest ''scope_not_declared'') else Inr (rb, b)
           | _ \<Rightarrow> Inl (ApiNotFound ''bot_grant_not_found'')))"

definition patch_transaction ::
  "id \<Rightarrow> id \<Rightarrow> string list \<Rightarrow> string \<Rightarrow> (nat \<Rightarrow> id) \<Rightarrow> id \<Rightarrow> time \<Rightarrow> db \<Rightarrow> (id list \<times> db) option"
where
  "patch_transaction room_id bot_id scopes old_mode fresh remove_id now db =
     (let new_mode = derive_mode scopes;
          db1 = db\<lparr>room_bots := update_where
                     (\<lambda>rb. rb_room_id rb = room_id \<and> rb_bot_id rb = bot_id \<and> rb_revoked_at rb = None)
                     (\<lambda>rb. rb\<lparr>rb_mode := mode_str new_mode\<rparr>) (room_bots db),
                   room_bot_scopes := delete_where (\<lambda>s. sc_room_id s = room_id \<and> sc_bot_id s = bot_id)
                     (room_bot_scopes db)\<rparr>
      in (case insert_scopes room_id bot_id scopes db1 of
            None \<Rightarrow> None
          | Some db2 \<Rightarrow>
              (case (if old_mode \<noteq> ''member'' \<and> new_mode = Member
                     then queue_bot_add room_id bot_id fresh now db2 else Some ([], db2)) of
                 None \<Rightarrow> None
               | Some (clients, db3) \<Rightarrow>
                   if old_mode = ''member'' \<and> new_mode \<noteq> Member
                   then (case queue_pending_mls_remove_batch room_id (TargetBot bot_id) remove_id now db3 of
                           Inl e \<Rightarrow> None
                         | Inr (_, db4) \<Rightarrow> Some (clients, db4))
                   else Some (clients, db3))))"

definition patch_room_bot ::
  "id \<Rightarrow> id \<Rightarrow> id \<Rightarrow> string list \<Rightarrow> (nat \<Rightarrow> id) \<Rightarrow> id \<Rightarrow> time \<Rightarrow> db \<Rightarrow>
   (api_error + (room_bot_view \<times> event list)) \<times> db"
where
  "patch_room_bot user_id room_id bot_id scopes fresh remove_id now db =
     (case check_room_grant_auth db room_id user_id of
        Inl e \<Rightarrow> (Inl e, db)
      | Inr _ \<Rightarrow>
          (case check_patch db room_id bot_id scopes of
             Inl e \<Rightarrow> (Inl e, db)
           | Inr (rb, b) \<Rightarrow>
               (case patch_transaction room_id bot_id scopes (rb_mode rb) fresh remove_id now db of
                  None \<Rightarrow> (Inl ApiInternal, db)
                | Some (clients, db1) \<Rightarrow>
                    let new_mode = derive_mode scopes;
                        changed = JArray [JString ''scopes'', JString ''mode'']
                    in (Inr (\<lparr>ry_bot_id = bot_id, ry_display_name = b_display_name b,
                              ry_avatar_file_id = b_avatar_file_id b, ry_mode = mode_str new_mode,
                              ry_scopes = scopes, ry_connected = None, ry_granted_at = rb_granted_at rb,
                              ry_granted_by = rb_granted_by rb\<rparr>,
                             [Event (bot_channel bot_id) ''bot.grant_updated''
                                (JObject [(''bot_id'', JString bot_id), (''room_id'', JString room_id),
                                          (''old_mode'', JString (rb_mode rb)), (''new_mode'', JString (mode_str new_mode)),
                                          (''scopes'', scopes_json scopes), (''changed'', changed)]),
                              Event (room_channel room_id) ''bot.updated''
                                (JObject [(''room_id'', JString room_id), (''bot_id'', JString bot_id),
                                          (''scopes'', scopes_json scopes),
                                          (''avatar_file_id'', json_opt (b_avatar_file_id b)), (''changed'', changed)])] @
                             (if rb_mode rb \<noteq> ''member'' \<and> new_mode = Member
                              then [mls_add_event room_id bot_id clients] else [])), db1))))"

section \<open>Revoking\<close>

text \<open>
  The operators that go are those the granter of this room has bound, with no regard to the room for
  which they were bound.
\<close>

definition bound_by_granter :: "id \<Rightarrow> id \<Rightarrow> bot_operator_row \<Rightarrow> bool" where
  "bound_by_granter bot_id granter op \<longleftrightarrow>
     bo_bot_id op = bot_id \<and> bo_binding op = ''room-member'' \<and> bo_bound_by op = Some granter"

definition revoke_transaction :: "id \<Rightarrow> id \<Rightarrow> room_bot_row \<Rightarrow> id \<Rightarrow> time \<Rightarrow> db \<Rightarrow> (id list \<times> db) option" where
  "revoke_transaction room_id bot_id grant remove_id now db =
     (let removed = map bo_user_id (filter (bound_by_granter bot_id (rb_granted_by grant)) (bot_operators db));
          db1 = db\<lparr>room_bots := update_where
                     (\<lambda>rb. rb_room_id rb = room_id \<and> rb_bot_id rb = bot_id \<and> rb_revoked_at rb = None)
                     (\<lambda>rb. rb\<lparr>rb_revoked_at := Some (current_timestamp now)\<rparr>) (room_bots db),
                   bot_operators := delete_where (bound_by_granter bot_id (rb_granted_by grant)) (bot_operators db)\<rparr>
      in if rb_mode grant = ''member''
         then (case queue_pending_mls_remove_batch room_id (TargetBot bot_id) remove_id now db1 of
                 Inl e \<Rightarrow> None
               | Inr (_, db2) \<Rightarrow> Some (removed, db2))
         else Some (removed, db1))"

definition delete_room_bot ::
  "id \<Rightarrow> id \<Rightarrow> id \<Rightarrow> id \<Rightarrow> (nat \<Rightarrow> id) \<Rightarrow> time \<Rightarrow> db \<Rightarrow> (api_error + event list) \<times> db"
where
  "delete_room_bot user_id room_id bot_id remove_id audit_id now db =
     (case check_room_grant_auth db room_id user_id of
        Inl e \<Rightarrow> (Inl e, db)
      | Inr _ \<Rightarrow>
          (case active_grant db room_id bot_id of
             None \<Rightarrow> (Inl (ApiNotFound ''bot_grant_not_found''), db)
           | Some grant \<Rightarrow>
               (case revoke_transaction room_id bot_id grant remove_id now db of
                  None \<Rightarrow> (Inl ApiInternal, db)
                | Some (removed, db1) \<Rightarrow>
                    (Inr [Event (room_channel room_id) ''bot.revoked''
                       (JObject [(''room_id'', JString room_id), (''bot_id'', JString bot_id)])],
                     operator_audit ''bot.operator.unbound'' user_id bot_id room_id audit_id now removed db1))))"

end
