(* ===== verification/BotAccounts.thy ===== *)
theory BotAccounts
  imports BotGrants
begin

text \<open>
  Bot accounts: the handlers \<open>create_bot\<close>, \<open>get_bot\<close>, \<open>patch_bot\<close>, \<open>delete_bot\<close>, \<open>get_bot_tokens\<close>,
  \<open>create_token\<close>, \<open>delete_token\<close> and \<open>rotate_bot_keys\<close> of \<open>server/src/routes/bots.rs\<close> and
  \<open>server/src/bots/declarations.rs\<close>.

  \<open>b64\<close> is the unpadded base64url decoder, \<open>H\<close> SHA-256 in hexadecimal for tokens and \<open>SHA\<close> the raw one for
  the key transparency log, \<open>to_json\<close> and \<open>from_json\<close> are \<open>serde_json\<close>; the raw token is drawn at random.
  The two handlers that end with \<open>get_bot\<close> resolve the caller anew from the same headers; the model
  keeps the caller they have.
\<close>

section \<open>Checks\<close>

definition validate_pubkey_32 :: "(string \<Rightarrow> bytes option) \<Rightarrow> string \<Rightarrow> bool" where
  "validate_pubkey_32 b64 pk = (case b64 pk of None \<Rightarrow> False | Some bs \<Rightarrow> length bs = 32)"

definition DECLARATIONS_MAX_BYTES :: nat where
  "DECLARATIONS_MAX_BYTES = 256 * 1024"

fun is_array :: "json \<Rightarrow> bool" where
  "is_array (JArray js) = True"
| "is_array j = False"

fun as_i64 :: "json \<Rightarrow> int option" where
  "as_i64 (JInt i) = (if in_i64 i then Some i else None)"
| "as_i64 j = None"

definition validate_declarations_top_level :: "(json \<Rightarrow> string) \<Rightarrow> json \<Rightarrow> api_error option" where
  "validate_declarations_top_level to_json v =
     (if DECLARATIONS_MAX_BYTES < length (to_json v)
      then Some (ApiInternalCustom 413 ''declarations_too_large'')
      else
        (case v of
           JObject fs \<Rightarrow>
             (case Option.bind (map_of fs ''schema_version'') as_i64 of
                None \<Rightarrow> Some (ApiBadRequest ''invalid_declarations'')
              | Some ver \<Rightarrow>
                  if ver \<noteq> 1 then Some (ApiBadRequest ''unsupported_schema_version'')
                  else if (case map_of fs ''commands'' of None \<Rightarrow> True | Some j \<Rightarrow> \<not> is_array j)
                  then Some (ApiBadRequest ''invalid_declarations'')
                  else if (case map_of fs ''settings'' of None \<Rightarrow> True | Some j \<Rightarrow> \<not> is_array j)
                  then Some (ApiBadRequest ''invalid_declarations'')
                  else None)
         | _ \<Rightarrow> Some (ApiBadRequest ''invalid_declarations'')))"

text \<open>The row a handler works on, and the check of its caller.\<close>

definition bot_for :: "db \<Rightarrow> caller_identity \<Rightarrow> id \<Rightarrow> api_error + bot_account_row" where
  "bot_for db caller bot_id =
     (case find_bot db bot_id of
        None \<Rightarrow> Inl (ApiNotFound ''bot_not_found'')
      | Some b \<Rightarrow>
          if is_owner_or_bot caller bot_id (b_owner_user_id b) then Inr b
          else Inl (ApiForbidden ''forbidden''))"

text \<open>The user an audit row names: of a bot, its owner.\<close>

fun audit_actor :: "caller_identity \<Rightarrow> id" where
  "audit_actor (UserCaller u) = au_user_id u"
| "audit_actor (BotCaller b) = bx_owner_user_id b"

section \<open>Views\<close>

record operator_view =
  ov_user_id :: id
  ov_binding :: string
  ov_bound_at :: time

record bot_view =
  vw_bot_id :: id
  vw_display_name :: string
  vw_avatar_file_id :: "id option"
  vw_bot_identity_pubkey :: string
  vw_bot_command_pubkey :: string
  vw_identity_pubkey :: string
  vw_declared_scopes :: "string list"
  vw_owner_user_id :: id
  vw_created_at :: time
  vw_declarations :: "json option"
  vw_bot_token :: "string option"
  vw_operators :: "operator_view list option"

definition operator_views :: "db \<Rightarrow> id \<Rightarrow> operator_view list" where
  "operator_views db bot_id =
     map (\<lambda>o'. \<lparr>ov_user_id = bo_user_id o', ov_binding = bo_binding o', ov_bound_at = bo_bound_at o'\<rparr>)
       (sort_key bo_bound_at (filter (\<lambda>o'. bo_bot_id o' = bot_id) (bot_operators db)))"

definition get_bot :: "(string \<Rightarrow> json option) \<Rightarrow> db \<Rightarrow> caller_identity \<Rightarrow> id \<Rightarrow> api_error + bot_view" where
  "get_bot from_json db caller bot_id =
     (case find_bot db bot_id of
        None \<Rightarrow> Inl (ApiNotFound ''bot_not_found'')
      | Some b \<Rightarrow>
          if (case caller of
                UserCaller u \<Rightarrow> au_user_id u = b_owner_user_id b \<or> is_bot_operator db bot_id (au_user_id u)
              | BotCaller c \<Rightarrow> bx_bot_id c = bot_id)
          then Inr \<lparr>vw_bot_id = bot_id, vw_display_name = b_display_name b,
                    vw_avatar_file_id = b_avatar_file_id b, vw_bot_identity_pubkey = b_bot_identity_pubkey b,
                    vw_bot_command_pubkey = b_bot_command_pubkey b, vw_identity_pubkey = b_identity_pubkey b,
                    vw_declared_scopes = sort (declared_scopes db bot_id), vw_owner_user_id = b_owner_user_id b,
                    vw_created_at = b_created_at b,
                    vw_declarations = Option.bind (b_declarations b) from_json, vw_bot_token = None,
                    vw_operators = Some (operator_views db bot_id)\<rparr>
          else Inl (ApiForbidden ''forbidden''))"

section \<open>Creation\<close>

record create_bot_req =
  cb_display_name :: string
  cb_bot_identity_pubkey :: string
  cb_bot_command_pubkey :: string
  cb_identity_pubkey :: string
  cb_declared_scopes :: "string list"
  cb_declarations :: "json option"

definition check_create_bot ::
  "(string \<Rightarrow> bytes option) \<Rightarrow> (json \<Rightarrow> string) \<Rightarrow> create_bot_req \<Rightarrow> api_error option"
where
  "check_create_bot b64 to_json req =
     (if trim (cb_display_name req) = [] \<or> 64 < length (trim (cb_display_name req))
      then Some (ApiBadRequest ''invalid_display_name'')
      else if \<not> validate_pubkey_32 b64 (cb_bot_identity_pubkey req) \<or>
              \<not> validate_pubkey_32 b64 (cb_bot_command_pubkey req) \<or>
              \<not> validate_pubkey_32 b64 (cb_identity_pubkey req)
      then Some (ApiBadRequest ''invalid_pubkey'')
      else if cb_declared_scopes req = [] then Some (ApiBadRequest ''declared_scopes_empty'')
      else
        (case validate_scopes (cb_declared_scopes req) of
           Some (OutOfVocabulary s) \<Rightarrow> Some (ApiBadRequest (''invalid_scope: '' @ s))
         | Some DependencyMissing \<Rightarrow> Some (ApiBadRequest ''scope_dependency_missing'')
         | None \<Rightarrow> Option.bind (cb_declarations req) (validate_declarations_top_level to_json)))"

fun insert_declared_scopes :: "id \<Rightarrow> string list \<Rightarrow> db \<Rightarrow> db option" where
  "insert_declared_scopes bot_id [] db = Some db"
| "insert_declared_scopes bot_id (s # ss) db =
     (if is_valid_scope s then
        (case insert_row (\<lambda>d. (dc_bot_id d, dc_scope d)) \<lparr>dc_bot_id = bot_id, dc_scope = s\<rparr>
                (bot_declared_scopes db) of
           None \<Rightarrow> None
         | Some t \<Rightarrow> insert_declared_scopes bot_id ss (db\<lparr>bot_declared_scopes := t\<rparr>))
      else None)"

text \<open>A token is stored by its hash, which is unique.\<close>

definition insert_token :: "id \<Rightarrow> id \<Rightarrow> string \<Rightarrow> time \<Rightarrow> db \<Rightarrow> db option" where
  "insert_token token_id bot_id token_hash now db =
     (if exists_where (\<lambda>b. b_id b = bot_id) (bot_accounts db) \<and>
         \<not> exists_where (\<lambda>t. bt_token_hash t = token_hash) (bot_tokens db)
      then map_option (\<lambda>t. db\<lparr>bot_tokens := t\<rparr>)
        (insert_row bt_id
          \<lparr>bt_id = token_id, bt_bot_id = bot_id, bt_token_hash = token_hash, bt_created_at = current_timestamp now,
           bt_expires_at = None, bt_revoked_at = None, bt_last_used_at = None\<rparr> (bot_tokens db))
      else None)"

definition new_bot_row :: "id \<Rightarrow> id \<Rightarrow> create_bot_req \<Rightarrow> string option \<Rightarrow> time \<Rightarrow> bot_account_row" where
  "new_bot_row bot_id user_id req decl_str now =
     \<lparr>b_id = bot_id, b_display_name = trim (cb_display_name req), b_avatar_file_id = None,
      b_bot_identity_pubkey = cb_bot_identity_pubkey req, b_bot_command_pubkey = cb_bot_command_pubkey req,
      b_identity_pubkey = cb_identity_pubkey req, b_owner_user_id = user_id, b_declarations = decl_str,
      b_created_at = current_timestamp now, b_disabled_at = None, b_deleted_at = None\<rparr>"

definition insert_bot_account :: "id \<Rightarrow> id \<Rightarrow> create_bot_req \<Rightarrow> string option \<Rightarrow> time \<Rightarrow> db \<Rightarrow> db option" where
  "insert_bot_account bot_id user_id req decl_str now db =
     (if user_exists db user_id
      then map_option (\<lambda>t. db\<lparr>bot_accounts := t\<rparr>)
        (insert_row b_id (new_bot_row bot_id user_id req decl_str now) (bot_accounts db))
      else None)"

definition bind_self :: "id \<Rightarrow> id \<Rightarrow> time \<Rightarrow> db \<Rightarrow> db option" where
  "bind_self bot_id user_id now db =
     (if is_bot_operator db bot_id user_id then None
      else Some (db\<lparr>bot_operators := bot_operators db @
        [\<lparr>bo_bot_id = bot_id, bo_user_id = user_id, bo_bound_at = current_timestamp now,
          bo_bound_by = Some user_id, bo_binding = ''self''\<rparr>]\<rparr>))"

definition create_bot_transaction ::
  "(bytes \<Rightarrow> bytes) \<Rightarrow> (string \<Rightarrow> string) \<Rightarrow> (json \<Rightarrow> string) \<Rightarrow> id \<Rightarrow> create_bot_req \<Rightarrow> id \<Rightarrow> id \<Rightarrow> string \<Rightarrow>
   time \<Rightarrow> db \<Rightarrow> (int \<times> db) option"
where
  "create_bot_transaction SHA H to_json user_id req bot_id token_id raw_token now db =
     (case allocate_user_seq db user_id of
        None \<Rightarrow> None
      | Some (user_seq, db1) \<Rightarrow>
          map_option (\<lambda>db2. (user_seq, db2))
            (Option.bind (insert_bot_account bot_id user_id req (map_option to_json (cb_declarations req)) now db1)
              (\<lambda>db2. Option.bind (insert_declared_scopes bot_id (cb_declared_scopes req) db2)
              (\<lambda>db3. Option.bind (insert_token token_id bot_id (H raw_token) now db3)
              (\<lambda>db4. Option.bind (bind_self bot_id user_id now db4)
              (\<lambda>db5. map_option snd
                 (append_bot_leaf SHA bot_id (utf8_bytes (cb_bot_identity_pubkey req))
                    (utf8_bytes (cb_bot_command_pubkey req)) (utf8_bytes (cb_identity_pubkey req)) now db5)))))))"

definition bot_audit :: "string \<Rightarrow> id \<Rightarrow> id \<Rightarrow> json \<Rightarrow> id \<Rightarrow> time \<Rightarrow> db \<Rightarrow> db" where
  "bot_audit action actor bot_id metadata audit_id now db =
     audit (Some actor) action (Some ''bot'') (Some bot_id) (Some metadata) audit_id now db"

definition user_channel :: "id \<Rightarrow> string" where
  "user_channel user_id = ''private-user-'' @ user_id"

definition create_bot ::
  "(string \<Rightarrow> time \<Rightarrow> string) \<Rightarrow> RateLimitConfig \<Rightarrow> (string \<Rightarrow> bytes option) \<Rightarrow> (bytes \<Rightarrow> bytes) \<Rightarrow> (string \<Rightarrow> string) \<Rightarrow>
   (json \<Rightarrow> string) \<Rightarrow> id \<Rightarrow> create_bot_req \<Rightarrow> id \<Rightarrow> id \<Rightarrow> string \<Rightarrow> id \<Rightarrow> time \<Rightarrow> db \<Rightarrow>
   (api_error + (bot_view \<times> event list)) \<times> db"
where
  "create_bot fmt config b64 SHA H to_json user_id req bot_id token_id raw_token audit_id now db =
     (case rate_guard fmt config (BotCreate user_id) now db of
        (Inl e, db1) \<Rightarrow> (Inl e, db1)
      | (Inr _, db1) \<Rightarrow>
          (case check_create_bot b64 to_json req of
             Some e \<Rightarrow> (Inl e, db1)
           | None \<Rightarrow>
               (case create_bot_transaction SHA H to_json user_id req bot_id token_id raw_token now db1 of
                  None \<Rightarrow> (Inl ApiInternal, db1)
                | Some (user_seq, db2) \<Rightarrow>
                    (Inr (\<lparr>vw_bot_id = bot_id, vw_display_name = trim (cb_display_name req),
                           vw_avatar_file_id = None, vw_bot_identity_pubkey = cb_bot_identity_pubkey req,
                           vw_bot_command_pubkey = cb_bot_command_pubkey req,
                           vw_identity_pubkey = cb_identity_pubkey req,
                           vw_declared_scopes = cb_declared_scopes req, vw_owner_user_id = user_id,
                           vw_created_at = current_timestamp now, vw_declarations = cb_declarations req,
                           vw_bot_token = Some raw_token, vw_operators = None\<rparr>,
                          [Event (user_channel user_id) ''bot.created''
                             (JObject [(''bot_id'', JString bot_id),
                                       (''display_name'', JString (trim (cb_display_name req))),
                                       (''created_at'', JTime (current_timestamp now)), (''user_seq'', JInt user_seq)])]),
                     bot_audit ''bot.operator.bound'' user_id bot_id
                       (JObject [(''bot_id'', JString bot_id), (''user_id'', JString user_id),
                                 (''binding'', JString ''self''), (''room_id'', JNull)]) audit_id now db2))))"

section \<open>Changes\<close>

text \<open>
  \<open>Option<Option<Value>>\<close>: a field that is absent, \<open>null\<close>, or a value.  The two updates are statements of
  their own, outside any transaction: the name is written before the declarations are looked at.
\<close>

record patch_bot_req =
  pb_display_name :: "string option"
  pb_declarations :: "json option option"

definition update_bot :: "id \<Rightarrow> (bot_account_row \<Rightarrow> bot_account_row) \<Rightarrow> db \<Rightarrow> db" where
  "update_bot bot_id f db = db\<lparr>bot_accounts := update_where (\<lambda>b. b_id b = bot_id) f (bot_accounts db)\<rparr>"

definition patch_name :: "bot_account_row \<Rightarrow> string option \<Rightarrow> db \<Rightarrow> api_error + (bool \<times> db)" where
  "patch_name b name db =
     (case name of
        None \<Rightarrow> Inr (False, db)
      | Some new_name \<Rightarrow>
          if trim new_name = [] \<or> 64 < length (trim new_name) then Inl (ApiBadRequest ''invalid_display_name'')
          else if trim new_name \<noteq> b_display_name b
          then Inr (True, update_bot (b_id b) (\<lambda>r. r\<lparr>b_display_name := trim new_name\<rparr>) db)
          else Inr (False, db))"

definition patch_declarations ::
  "(json \<Rightarrow> string) \<Rightarrow> (string \<Rightarrow> json option) \<Rightarrow> bot_account_row \<Rightarrow> json option option \<Rightarrow> db \<Rightarrow> api_error + (bool \<times> db)"
where
  "patch_declarations to_json from_json b decl db =
     (let existing = Option.bind (b_declarations b) from_json in
      (case decl of
         None \<Rightarrow> Inr (False, db)
       | Some None \<Rightarrow>
           if existing \<noteq> None then Inr (True, update_bot (b_id b) (\<lambda>r. r\<lparr>b_declarations := None\<rparr>) db)
           else Inr (False, db)
       | Some (Some v) \<Rightarrow>
           (case validate_declarations_top_level to_json v of
              Some e \<Rightarrow> Inl e
            | None \<Rightarrow>
                if existing \<noteq> Some v
                then Inr (True, update_bot (b_id b) (\<lambda>r. r\<lparr>b_declarations := Some (to_json v)\<rparr>) db)
                else Inr (False, db))))"

definition granted_rooms :: "db \<Rightarrow> id \<Rightarrow> id list" where
  "granted_rooms db bot_id =
     map rb_room_id (filter (\<lambda>rb. rb_bot_id rb = bot_id \<and> rb_revoked_at rb = None) (room_bots db))"

definition changed_json :: "id \<Rightarrow> string \<Rightarrow> json" where
  "changed_json bot_id what = JObject [(''bot_id'', JString bot_id), (''changed'', JArray [JString what])]"

definition commands_events :: "db \<Rightarrow> id \<Rightarrow> event list" where
  "commands_events db bot_id =
     Event (bot_channel bot_id) ''bot.updated'' (changed_json bot_id ''commands'') #
     map (\<lambda>r. Event (room_channel r) ''bot.updated''
            (JObject [(''room_id'', JString r), (''bot_id'', JString bot_id), (''changed'', JArray [JString ''commands''])]))
       (granted_rooms db bot_id)"

definition name_events :: "db \<Rightarrow> id \<Rightarrow> event list" where
  "name_events db bot_id =
     Event (bot_channel bot_id) ''bot.updated'' (changed_json bot_id ''display_name'') #
     map (\<lambda>r. Event (room_channel r) ''bot.updated'' (changed_json bot_id ''display_name'')) (granted_rooms db bot_id)"

definition patch_bot ::
  "(json \<Rightarrow> string) \<Rightarrow> (string \<Rightarrow> json option) \<Rightarrow> caller_identity \<Rightarrow> id \<Rightarrow> patch_bot_req \<Rightarrow> id \<Rightarrow> time \<Rightarrow> db \<Rightarrow>
   (api_error + (bot_view \<times> event list)) \<times> db"
where
  "patch_bot to_json from_json caller bot_id req audit_id now db =
     (case bot_for db caller bot_id of
        Inl e \<Rightarrow> (Inl e, db)
      | Inr b \<Rightarrow>
          if pb_display_name req = None \<and> pb_declarations req = None
          then (Inl (ApiBadRequest ''no_fields_to_update''), db)
          else
            (case patch_name b (pb_display_name req) db of
               Inl e \<Rightarrow> (Inl e, db)
             | Inr (named, db1) \<Rightarrow>
                 (case patch_declarations to_json from_json b (pb_declarations req) db1 of
                    Inl e \<Rightarrow> (Inl e, db1)
                  | Inr (declared, db2) \<Rightarrow>
                      let evs = (if declared then commands_events db2 bot_id
                                 else if named then name_events db2 bot_id else []);
                          db3 = (if declared
                                 then bot_audit ''bot.declaration_update'' (audit_actor caller) bot_id
                                   (JObject [(''bot_id'', JString bot_id), (''room_id'', JNull)]) audit_id now db2
                                 else db2)
                      in (map_sum id (\<lambda>v. (v, evs)) (get_bot from_json db3 caller bot_id), db3))))"

section \<open>Deletion\<close>

fun revoke_grants :: "id \<Rightarrow> (id \<times> string) list \<Rightarrow> (nat \<Rightarrow> id) \<Rightarrow> time \<Rightarrow> db \<Rightarrow> db option" where
  "revoke_grants bot_id [] fresh now db = Some db"
| "revoke_grants bot_id ((room_id, mode) # gs) fresh now db =
     (let db1 = db\<lparr>room_bots := update_where (\<lambda>rb. rb_room_id rb = room_id \<and> rb_bot_id rb = bot_id)
                    (\<lambda>rb. rb\<lparr>rb_revoked_at := Some (current_timestamp now)\<rparr>) (room_bots db)\<rparr>
      in if mode = ''member''
         then (case queue_pending_mls_remove_batch room_id (TargetBot bot_id) (fresh 0) now db1 of
                 Inl e \<Rightarrow> None
               | Inr (_, db2) \<Rightarrow> revoke_grants bot_id gs (fresh \<circ> Suc) now db2)
         else revoke_grants bot_id gs (fresh \<circ> Suc) now db1)"

definition active_grants :: "db \<Rightarrow> id \<Rightarrow> (id \<times> string) list" where
  "active_grants db bot_id =
     map (\<lambda>rb. (rb_room_id rb, rb_mode rb))
       (filter (\<lambda>rb. rb_bot_id rb = bot_id \<and> rb_revoked_at rb = None) (room_bots db))"

text \<open>The result is the number of purged queue entries and the number of the owner's event.\<close>

definition delete_bot_transaction ::
  "bot_account_row \<Rightarrow> (nat \<Rightarrow> id) \<Rightarrow> time \<Rightarrow> db \<Rightarrow> (int \<times> int \<times> db) option"
where
  "delete_bot_transaction b fresh now db =
     (let bot_id = b_id b;
          db1 = update_bot bot_id (\<lambda>r. r\<lparr>b_deleted_at := Some (current_timestamp now)\<rparr>) db;
          db2 = db1\<lparr>bot_tokens := update_where (\<lambda>t. bt_bot_id t = bot_id \<and> bt_revoked_at t = None)
                      (\<lambda>t. t\<lparr>bt_revoked_at := Some (current_timestamp now)\<rparr>) (bot_tokens db1)\<rparr>
      in (case revoke_grants bot_id (active_grants db2 bot_id) fresh now db2 of
            None \<Rightarrow> None
          | Some db3 \<Rightarrow>
              (let purged = count_where (\<lambda>q. oq_bot_id q = bot_id) (bot_operator_queue db3);
                   db4 = db3\<lparr>bot_operator_queue := delete_where (\<lambda>q. oq_bot_id q = bot_id) (bot_operator_queue db3),
                             bot_operators := delete_where (\<lambda>o'. bo_bot_id o' = bot_id) (bot_operators db3)\<rparr>
               in map_option (\<lambda>(user_seq, db5). (purged, user_seq, db5)) (allocate_user_seq db4 (b_owner_user_id b)))))"

definition delete_bot ::
  "caller_identity \<Rightarrow> id \<Rightarrow> (nat \<Rightarrow> id) \<Rightarrow> id \<Rightarrow> time \<Rightarrow> db \<Rightarrow> (api_error + event list) \<times> db"
where
  "delete_bot caller bot_id fresh audit_id now db =
     (case bot_for db caller bot_id of
        Inl e \<Rightarrow> (Inl e, db)
      | Inr b \<Rightarrow>
          (case delete_bot_transaction b fresh now db of
             None \<Rightarrow> (Inl ApiInternal, db)
           | Some (purged, user_seq, db1) \<Rightarrow>
               (Inr (Event (user_channel (b_owner_user_id b)) ''bot.deleted''
                       (JObject [(''bot_id'', JString bot_id), (''deleted_at'', JTime (current_timestamp now)),
                                 (''user_seq'', JInt user_seq)]) #
                     map (\<lambda>g. Event (room_channel (fst g)) ''bot.deleted''
                            (JObject [(''room_id'', JString (fst g)), (''bot_id'', JString bot_id)]))
                       (active_grants db bot_id)),
                bot_audit ''bot.operator_queue_purged'' (audit_actor caller) bot_id
                  (JObject [(''bot_id'', JString bot_id), (''entries'', JInt purged)]) audit_id now db1)))"

section \<open>Tokens\<close>

record bot_token_item =
  ti_token_id :: id
  ti_created_at :: time
  ti_last_used_at :: "time option"
  ti_revoked_at :: "time option"

definition get_bot_tokens :: "db \<Rightarrow> caller_identity \<Rightarrow> id \<Rightarrow> api_error + bot_token_item list" where
  "get_bot_tokens db caller bot_id =
     (case bot_for db caller bot_id of
        Inl e \<Rightarrow> Inl e
      | Inr _ \<Rightarrow>
          Inr (map (\<lambda>t. \<lparr>ti_token_id = bt_id t, ti_created_at = bt_created_at t,
                         ti_last_used_at = bt_last_used_at t, ti_revoked_at = bt_revoked_at t\<rparr>)
            (sort_key (\<lambda>t. - bt_created_at t) (filter (\<lambda>t. bt_bot_id t = bot_id) (bot_tokens db)))))"

text \<open>The result is the id and the secret of the new token.\<close>

definition create_token ::
  "(string \<Rightarrow> time \<Rightarrow> string) \<Rightarrow> RateLimitConfig \<Rightarrow> (string \<Rightarrow> string) \<Rightarrow> caller_identity \<Rightarrow> id \<Rightarrow> id \<Rightarrow> string \<Rightarrow>
   time \<Rightarrow> db \<Rightarrow> (api_error + (id \<times> string)) \<times> db"
where
  "create_token fmt config H caller bot_id token_id raw_token now db =
     (case bot_for db caller bot_id of
        Inl e \<Rightarrow> (Inl e, db)
      | Inr _ \<Rightarrow>
          (case rate_guard fmt config (BotTokenIssue bot_id) now db of
             (Inl e, db1) \<Rightarrow> (Inl e, db1)
           | (Inr _, db1) \<Rightarrow>
               (case insert_token token_id bot_id (H raw_token) now db1 of
                  None \<Rightarrow> (Inl ApiInternal, db1)
                | Some db2 \<Rightarrow> (Inr (token_id, raw_token), db2))))"

definition delete_token :: "caller_identity \<Rightarrow> id \<Rightarrow> id \<Rightarrow> time \<Rightarrow> db \<Rightarrow> (api_error + unit) \<times> db" where
  "delete_token caller bot_id token_id now db =
     (case bot_for db caller bot_id of
        Inl e \<Rightarrow> (Inl e, db)
      | Inr _ \<Rightarrow>
          let p = (\<lambda>t. bt_id t = token_id \<and> bt_bot_id t = bot_id \<and> bt_revoked_at t = None)
          in if count_where p (bot_tokens db) = 0 then (Inl (ApiNotFound ''token_not_found''), db)
             else (Inr (), db\<lparr>bot_tokens := update_where p
                    (\<lambda>t. t\<lparr>bt_revoked_at := Some (current_timestamp now)\<rparr>) (bot_tokens db)\<rparr>))"

section \<open>Key rotation\<close>

record rotate_keys_req =
  rk_bot_identity_pubkey :: "string option"
  rk_bot_command_pubkey :: "string option"
  rk_identity_pubkey :: "string option"

definition check_rotation ::
  "(string \<Rightarrow> bytes option) \<Rightarrow> rotate_keys_req \<Rightarrow> api_error + (string \<times> string \<times> string)"
where
  "check_rotation b64 req =
     (case (rk_bot_identity_pubkey req, rk_bot_command_pubkey req, rk_identity_pubkey req) of
        (Some bi, Some bc, Some i) \<Rightarrow>
          if \<not> validate_pubkey_32 b64 bi then Inl (ApiBadRequest ''invalid_bot_identity_pubkey'')
          else if \<not> validate_pubkey_32 b64 bc then Inl (ApiBadRequest ''invalid_bot_command_pubkey'')
          else if \<not> validate_pubkey_32 b64 i then Inl (ApiBadRequest ''invalid_identity_pubkey'')
          else Inr (bi, bc, i)
      | _ \<Rightarrow> Inl (ApiBadRequest ''partial_rotation_not_supported''))"

definition rotate_transaction ::
  "(bytes \<Rightarrow> bytes) \<Rightarrow> bot_account_row \<Rightarrow> string \<times> string \<times> string \<Rightarrow> time \<Rightarrow> db \<Rightarrow> (int \<times> db) option"
where
  "rotate_transaction SHA b keys now db =
     (case keys of (bi, bc, i) \<Rightarrow>
        (case append_bot_leaf SHA (b_id b) (utf8_bytes bi) (utf8_bytes bc) (utf8_bytes i) now db of
           None \<Rightarrow> None
         | Some (_, db1) \<Rightarrow>
             allocate_user_seq
               (db1\<lparr>bot_accounts := update_where (\<lambda>r. b_id r = b_id b \<and> b_deleted_at r = None)
                  (\<lambda>r. r\<lparr>b_bot_identity_pubkey := bi, b_bot_command_pubkey := bc, b_identity_pubkey := i\<rparr>)
                  (bot_accounts db1)\<rparr>) (b_owner_user_id b)))"

definition rotate_bot_keys ::
  "(string \<Rightarrow> time \<Rightarrow> string) \<Rightarrow> RateLimitConfig \<Rightarrow> (int \<Rightarrow> string) \<Rightarrow> (string \<Rightarrow> bytes option) \<Rightarrow> (bytes \<Rightarrow> bytes) \<Rightarrow>
   (string \<Rightarrow> json option) \<Rightarrow> caller_identity \<Rightarrow> id \<Rightarrow> rotate_keys_req \<Rightarrow> id \<Rightarrow> time \<Rightarrow> db \<Rightarrow>
   (api_error + (bot_view \<times> event list)) \<times> db"
where
  "rotate_bot_keys fmt config day b64 SHA from_json caller bot_id req audit_id now db =
     (case bot_for db caller bot_id of
        Inl e \<Rightarrow> (Inl e, db)
      | Inr b \<Rightarrow>
          (case check_rotation b64 req of
             Inl e \<Rightarrow> (Inl e, db)
           | Inr keys \<Rightarrow>
               (case rate_guard fmt config (BotKeyRotate bot_id) now db of
                  (Inl e, db1) \<Rightarrow> (Inl e, db1)
                | (Inr _, db1) \<Rightarrow>
                    (case rotate_transaction SHA b keys now db1 of
                       None \<Rightarrow> (Inl ApiInternal, db1)
                     | Some (user_seq, db2) \<Rightarrow>
                         let rotated_at = JString (rfc3339_millis day now);
                             evs = [Event (bot_channel bot_id) ''bot.keys_rotated''
                                      (JObject [(''bot_id'', JString bot_id), (''rotated_at'', rotated_at)]),
                                    Event (user_channel (b_owner_user_id b)) ''bot.keys_rotated''
                                      (JObject [(''bot_id'', JString bot_id), (''rotated_at'', rotated_at),
                                                (''user_seq'', JInt user_seq)])];
                             db3 = bot_audit ''bot.key_rotate'' (audit_actor caller) bot_id
                                     (JObject [(''bot_id'', JString bot_id), (''room_id'', JNull)]) audit_id now db2
                         in (map_sum id (\<lambda>v. (v, evs)) (get_bot from_json db3 caller bot_id), db3)))))"

end
