(* ===== verification/BotLife.thy ===== *)
theory BotLife
  imports BotAccounts RoomProps SessionProps QueueProps
begin

text \<open>
  What holds of bots over their whole life: their accounts, grants, tokens and operators stay well
  formed under every sequence of the operations of \<open>BotGrants\<close> and \<open>BotAccounts\<close>, and a deleted
  bot or a revoked grant stays that way.
\<close>

section \<open>Frames\<close>

text \<open>Statements that leave the tables of bots alone.\<close>

definition same_bots :: "db \<Rightarrow> db \<Rightarrow> bool" where
  "same_bots db db' \<longleftrightarrow>
     bot_accounts db' = bot_accounts db \<and> room_bots db' = room_bots db \<and>
     room_bot_scopes db' = room_bot_scopes db \<and> bot_declared_scopes db' = bot_declared_scopes db \<and>
     bot_tokens db' = bot_tokens db \<and> bot_operators db' = bot_operators db"

lemma same_bots_refl [simp]: "same_bots db db"
  by (simp add: same_bots_def)

lemma same_bots_trans [trans]: "same_bots a b \<Longrightarrow> same_bots b c \<Longrightarrow> same_bots a c"
  by (simp add: same_bots_def)

lemma same_bots_rates [simp]: "same_bots db (db\<lparr>rate_limits := t\<rparr>)"
  by (simp add: same_bots_def)

lemma same_bots_audit [simp]: "same_bots db (audit a b c d e f now db)"
  by (simp add: same_bots_def audit_def split: option.splits)

lemma same_bots_bot_audit [simp]: "same_bots db (bot_audit a u b j i now db)"
  by (simp add: bot_audit_def)

lemma same_bots_guard: "rate_guard fmt config key now db = (out, db') \<Longrightarrow> same_bots db db'"
  using rate_guard_frame[of fmt config key now db] by auto

lemma same_bots_operator_audit [simp]: "same_bots db (operator_audit act u b r f now ops db)"
proof -
  have "same_bots db (fold (\<lambda>(i, op). audit (Some u) act (Some ''bot'') (Some b) (m op) (f i) now) xs db)" for xs m
    by (induction xs arbitrary: db) (auto intro: same_bots_trans[OF same_bots_audit])
  then show ?thesis unfolding operator_audit_def .
qed

lemma same_bots_seq: "allocate_user_seq db u = Some (n, db') \<Longrightarrow> same_bots db db'"
  by (auto simp: allocate_user_seq_def same_bots_def split: option.splits if_splits)

lemma same_bots_remove:
  "queue_pending_mls_remove_batch r t i now db = Inr (j, db') \<Longrightarrow> same_bots db db'"
  by (auto simp: queue_pending_mls_remove_batch_def same_bots_def split: if_splits option.splits)

lemma same_bots_adds:
  "queue_pending_mls_add_batch r t sel fresh now db = Inr (q, db') \<Longrightarrow> same_bots db db'"
proof (induction sel arbitrary: fresh db q)
  case (Cons s sel)
  obtain c k where s: "s = (c, k)" by (cases s)
  from Cons.prems obtain t' q' where
    "queue_pending_mls_add_batch r t sel (fresh \<circ> Suc) now (db\<lparr>pending_mls_adds := t'\<rparr>) = Inr (q', db')"
    by (auto simp: s split: if_splits option.splits sum.splits)
  from Cons.IH[OF this] show ?case by (simp add: same_bots_def)
qed simp

lemma consume_packages_rows:
  "\<exists>t. fold (\<lambda>(_, k). consume_key_package k now) ks db = db\<lparr>key_packages := t\<rparr>"
proof (induction ks arbitrary: db)
  case Nil
  show ?case by (rule exI[of _ "key_packages db"]) simp
next
  case (Cons k ks)
  obtain t where "consume_key_package (snd k) now db = db\<lparr>key_packages := t\<rparr>"
    by (simp add: consume_key_package_def)
  with Cons[of "db\<lparr>key_packages := t\<rparr>"] show ?case by (auto simp: split_beta)
qed

lemma same_bots_add:
  assumes "queue_bot_add r b fresh now db = Some (cs, db')"
  shows "same_bots db db'"
proof -
  obtain sel db1 q where s: "select_bot_key_packages b now db = (sel, db1)"
    and q: "queue_pending_mls_add_batch r (TargetBot b) sel fresh now db1 = Inr (q, db')"
    using assms by (auto simp: queue_bot_add_def split: prod.splits sum.splits)
  have "db1 = fold (\<lambda>(_, k). consume_key_package k now) sel db"
    using s by (auto simp: select_bot_key_packages_def Let_def)
  with consume_packages_rows[of now sel db] obtain t where "db1 = db\<lparr>key_packages := t\<rparr>" by auto
  then have "same_bots db db1" by (simp add: same_bots_def)
  with same_bots_adds[OF q] show ?thesis by (rule same_bots_trans[rotated])
qed

section \<open>Well-formed bots\<close>

definition grant_key :: "room_bot_row \<Rightarrow> id \<times> id" where
  "grant_key rb = (rb_room_id rb, rb_bot_id rb)"

definition scopes_ok :: "db \<Rightarrow> room_bot_row \<Rightarrow> bool" where
  "scopes_ok db rb \<longleftrightarrow>
     (let ss = room_scopes db (rb_room_id rb) (rb_bot_id rb) in
      ss \<noteq> [] \<and> distinct ss \<and> validate_scopes ss = None \<and> set ss \<subseteq> set (declared_scopes db (rb_bot_id rb)) \<and>
      rb_mode rb = mode_str (derive_mode ss))"

definition powerless :: "db \<Rightarrow> id \<Rightarrow> bool" where
  "powerless db i \<longleftrightarrow>
     (\<forall>rb \<in> set (room_bots db). rb_bot_id rb = i \<longrightarrow> rb_revoked_at rb \<noteq> None) \<and>
     (\<forall>t \<in> set (bot_tokens db). bt_bot_id t = i \<longrightarrow> bt_revoked_at t \<noteq> None) \<and>
     (\<forall>o' \<in> set (bot_operators db). bo_bot_id o' \<noteq> i)"

definition active_in :: "id \<Rightarrow> room_bot_row \<Rightarrow> bool" where
  "active_in r rb \<longleftrightarrow> rb_room_id rb = r \<and> rb_revoked_at rb = None"

definition bots_ok :: "db \<Rightarrow> bool" where
  "bots_ok db \<longleftrightarrow>
     distinct (map b_id (bot_accounts db)) \<and> distinct (map grant_key (room_bots db)) \<and>
     (\<forall>s \<in> set (room_bot_scopes db). (sc_room_id s, sc_bot_id s) \<in> grant_key ` set (room_bots db)) \<and>
     (\<forall>rb \<in> set (room_bots db). rb_revoked_at rb = None \<longrightarrow> scopes_ok db rb) \<and>
     (\<forall>r. count_where (active_in r) (room_bots db) \<le> 10) \<and>
     (\<forall>b \<in> set (bot_accounts db). b_deleted_at b \<noteq> None \<longrightarrow> powerless db (b_id b))"

lemma room_scopes_cong: "room_bot_scopes db' = room_bot_scopes db \<Longrightarrow> room_scopes db' = room_scopes db"
  by (simp add: room_scopes_def fun_eq_iff)

lemma declared_scopes_cong:
  "bot_declared_scopes db' = bot_declared_scopes db \<Longrightarrow> declared_scopes db' = declared_scopes db"
  by (simp add: declared_scopes_def fun_eq_iff)

lemma bots_ok_same:
  assumes "same_bots db db'"
  shows "bots_ok db' = bots_ok db"
proof -
  note s = assms[unfolded same_bots_def]
  have "room_scopes db' = room_scopes db" "declared_scopes db' = declared_scopes db"
    using s by (auto intro: room_scopes_cong declared_scopes_cong)
  with s show ?thesis by (simp add: bots_ok_def scopes_ok_def powerless_def)
qed

lemma grant_key_unique:
  "bots_ok db \<Longrightarrow> x \<in> set (room_bots db) \<Longrightarrow> y \<in> set (room_bots db) \<Longrightarrow> grant_key x = grant_key y \<Longrightarrow> x = y"
  by (auto simp: bots_ok_def distinct_map inj_on_def)

lemma bot_id_unique:
  "bots_ok db \<Longrightarrow> x \<in> set (bot_accounts db) \<Longrightarrow> y \<in> set (bot_accounts db) \<Longrightarrow> b_id x = b_id y \<Longrightarrow> x = y"
  by (auto simp: bots_ok_def distinct_map inj_on_def)

lemma find_bot_alive:
  assumes "bots_ok db" and "find_bot db i = Some b"
  shows "b \<in> set (bot_accounts db)" "b_id b = i" "b_deleted_at b = None"
    "x \<in> set (bot_accounts db) \<Longrightarrow> b_id x = i \<Longrightarrow> b_deleted_at x = None"
proof -
  show b: "b \<in> set (bot_accounts db)" "b_id b = i" "b_deleted_at b = None"
    using find_SomeD[OF assms(2)[unfolded find_bot_def]] by auto
  show "x \<in> set (bot_accounts db) \<Longrightarrow> b_id x = i \<Longrightarrow> b_deleted_at x = None"
    using bot_id_unique[OF assms(1) b(1), of x] b by auto
qed

lemma active_bot_found: "active_bot db i = Some b \<Longrightarrow> \<exists>b'. find_bot db i = Some b'"
  unfolding active_bot_def find_bot_def
  by (drule find_SomeD) (metis (mono_tags, lifting) find_NoneD not_None_eq)

section \<open>What the operations do\<close>

definition scope_row :: "id \<Rightarrow> id \<Rightarrow> string \<Rightarrow> room_bot_scope_row" where
  "scope_row r b s = \<lparr>sc_room_id = r, sc_bot_id = b, sc_scope = s\<rparr>"

lemma scope_row_simps [simp]:
  "sc_room_id (scope_row r b s) = r" "sc_bot_id (scope_row r b s) = b" "sc_scope (scope_row r b s) = s"
  by (simp_all add: scope_row_def)

lemma insert_scopesD:
  "insert_scopes r b ss db = Some db' \<Longrightarrow>
   distinct ss \<and> (\<forall>s \<in> set ss. is_valid_scope s) \<and> (\<forall>s \<in> set ss. s \<notin> set (room_scopes db r b)) \<and>
   db' = db\<lparr>room_bot_scopes := room_bot_scopes db @ map (scope_row r b) ss\<rparr>"
proof (induction ss arbitrary: db)
  case (Cons s ss)
  let ?db1 = "db\<lparr>room_bot_scopes := room_bot_scopes db @ [scope_row r b s]\<rparr>"
  have s: "is_valid_scope s" "s \<notin> set (room_scopes db r b)" "insert_scopes r b ss ?db1 = Some db'"
    using Cons.prems
    by (auto simp: insert_row_Some_iff room_scopes_def scope_row_def image_iff split: if_splits option.splits)
  from Cons.IH[OF s(3)] have "distinct ss" "\<forall>s \<in> set ss. is_valid_scope s"
    "\<forall>x \<in> set ss. x \<notin> insert s (set (room_scopes db r b))"
    "db' = db\<lparr>room_bot_scopes := room_bot_scopes db @ map (scope_row r b) (s # ss)\<rparr>"
    by (auto simp: room_scopes_def)
  with s(1,2) show ?case by auto
qed simp

lemma bind_operatorsD:
  "bind_operators b ops u now db = Some (added, db') \<Longrightarrow>
   \<exists>news. db' = db\<lparr>bot_operators := bot_operators db @ news\<rparr> \<and> (\<forall>x \<in> set news. bo_bot_id x = b)"
proof (induction ops arbitrary: db added)
  case Nil
  then show ?case by (intro exI[of _ "[]"]) simp
next
  case (Cons op ops)
  show ?case
  proof (cases "is_bot_operator db b op")
    case True
    with Cons show ?thesis by simp
  next
    case False
    let ?row = "\<lparr>bo_bot_id = b, bo_user_id = op, bo_bound_at = current_timestamp now, bo_bound_by = Some u,
      bo_binding = ''room-member''\<rparr>"
    obtain added' where "bind_operators b ops u now (db\<lparr>bot_operators := bot_operators db @ [?row]\<rparr>) = Some (added', db')"
      using Cons.prems False by (auto split: if_splits)
    from Cons.IH[OF this] obtain news where "db' = db\<lparr>bot_operators := bot_operators db @ ?row # news\<rparr>"
      "\<forall>x \<in> set news. bo_bot_id x = b" by auto
    then show ?thesis by (intro exI[of _ "?row # news"]) simp
  qed
qed


text \<open>
  The changes of these tables, whichever handler makes them and whatever else it writes.
\<close>

definition scope_list_ok :: "db \<Rightarrow> id \<Rightarrow> string list \<Rightarrow> bool" where
  "scope_list_ok db i ss \<longleftrightarrow>
     ss \<noteq> [] \<and> distinct ss \<and> validate_scopes ss = None \<and> set ss \<subseteq> set (declared_scopes db i)"

definition in_grant :: "id \<Rightarrow> id \<Rightarrow> room_bot_row \<Rightarrow> bool" where
  "in_grant r i rb \<longleftrightarrow> rb_room_id rb = r \<and> rb_bot_id rb = i"

inductive bot_move :: "db \<Rightarrow> db \<Rightarrow> bool" where
  Unchanged: "bot_move db db"
| Granted: "find_bot db i = Some b \<Longrightarrow> scope_list_ok db i ss \<Longrightarrow> count_where (active_in r) (room_bots db) < 10 \<Longrightarrow>
    (r, i) \<notin> grant_key ` set (room_bots db) \<Longrightarrow> grant_key row = (r, i) \<Longrightarrow> rb_revoked_at row = None \<Longrightarrow>
    rb_mode row = mode_str (derive_mode ss) \<Longrightarrow> (\<forall>x \<in> set news. bo_bot_id x = i) \<Longrightarrow>
    bot_move db (db\<lparr>room_bots := room_bots db @ [row], room_bot_scopes := room_bot_scopes db @ map (scope_row r i) ss,
      bot_operators := bot_operators db @ news\<rparr>)"
| Rescoped: "find_bot db i = Some b \<Longrightarrow> scope_list_ok db i ss \<Longrightarrow> active_grant db r i = Some row \<Longrightarrow>
    bot_move db (db\<lparr>room_bots := update_where (\<lambda>rb. in_grant r i rb \<and> rb_revoked_at rb = None)
        (\<lambda>rb. rb\<lparr>rb_mode := mode_str (derive_mode ss)\<rparr>) (room_bots db),
      room_bot_scopes := delete_where (\<lambda>s. sc_room_id s = r \<and> sc_bot_id s = i) (room_bot_scopes db) @
        map (scope_row r i) ss\<rparr>)"
| Revoked: "bot_move db (db\<lparr>room_bots := update_where (\<lambda>rb. in_grant r i rb \<and> rb_revoked_at rb = None)
        (\<lambda>rb. rb\<lparr>rb_revoked_at := Some t\<rparr>) (room_bots db),
      bot_operators := delete_where q (bot_operators db)\<rparr>)"
| Created: "i \<notin> b_id ` set (bot_accounts db) \<Longrightarrow> b_id b = i \<Longrightarrow> b_deleted_at b = None \<Longrightarrow> bt_bot_id tok = i \<Longrightarrow>
    bo_bot_id op = i \<Longrightarrow>
    bot_move db (db\<lparr>bot_accounts := bot_accounts db @ [b],
      bot_declared_scopes := bot_declared_scopes db @ map (\<lambda>s. \<lparr>dc_bot_id = i, dc_scope = s\<rparr>) ss,
      bot_tokens := bot_tokens db @ [tok], bot_operators := bot_operators db @ [op]\<rparr>)"
| Described: "(\<And>x. b_id (f x) = b_id x) \<Longrightarrow> (\<And>x. b_deleted_at (f x) = b_deleted_at x) \<Longrightarrow>
    bot_move db (db\<lparr>bot_accounts := update_where p f (bot_accounts db)\<rparr>)"
| Deleted: "find_bot db i = Some b \<Longrightarrow>
    bot_move db (db\<lparr>bot_accounts := update_where (\<lambda>r. b_id r = i) (\<lambda>r. r\<lparr>b_deleted_at := Some t\<rparr>) (bot_accounts db),
      bot_tokens := update_where (\<lambda>x. bt_bot_id x = i \<and> bt_revoked_at x = None) (\<lambda>x. x\<lparr>bt_revoked_at := Some t\<rparr>)
        (bot_tokens db),
      room_bots := update_where (\<lambda>rb. rb_bot_id rb = i \<and> rb_room_id rb \<in> fst ` set (active_grants db i))
        (\<lambda>rb. rb\<lparr>rb_revoked_at := Some t\<rparr>) (room_bots db),
      bot_operators := delete_where (\<lambda>x. bo_bot_id x = i) (bot_operators db)\<rparr>)"
| Token_issued: "find_bot db i = Some b \<Longrightarrow> bt_bot_id tok = i \<Longrightarrow>
    bot_move db (db\<lparr>bot_tokens := bot_tokens db @ [tok]\<rparr>)"
| Tokens_marked: "(\<And>x. bt_bot_id (f x) = bt_bot_id x) \<Longrightarrow>
    (\<And>x. bt_revoked_at x \<noteq> None \<Longrightarrow> bt_revoked_at (f x) \<noteq> None) \<Longrightarrow>
    bot_move db (db\<lparr>bot_tokens := update_where p f (bot_tokens db)\<rparr>)"
definition bot_change :: "db \<Rightarrow> db \<Rightarrow> bool" where
  "bot_change db db' \<longleftrightarrow> (\<exists>m. bot_move db m \<and> same_bots m db')"

lemma same_botsD:
  assumes "same_bots db db'"
  shows "find_bot db' = find_bot db" "active_bot db' = active_bot db" "declared_scopes db' = declared_scopes db"
    "room_scopes db' = room_scopes db" "active_grant db' = active_grant db" "active_grants db' = active_grants db"
    "is_bot_operator db' = is_bot_operator db"
  using assms
  by (auto simp: same_bots_def find_bot_def active_bot_def declared_scopes_def room_scopes_def active_grant_def
      active_grants_def is_bot_operator_def fun_eq_iff)

text \<open>What is done before a change, and what after it, does not matter.\<close>

lemma bot_move_from:
  assumes "bot_move db1 m" and "same_bots db db1"
  shows "\<exists>m'. bot_move db m' \<and> same_bots m' m"
proof -
  note eqs = same_botsD[OF assms(2)]
  note tables = assms(2)[unfolded same_bots_def]
  show ?thesis
    using assms(1)
  proof (cases rule: bot_move.cases)
    case Unchanged
    show ?thesis using assms(2) Unchanged by (blast intro: bot_move.Unchanged)
  next
    case (Granted i b ss r row news)
    show ?thesis unfolding Granted(1)
      by (rule exI, rule conjI, rule bot_move.Granted[of db i b ss r row news])
        (use Granted eqs tables in \<open>auto simp: scope_list_ok_def same_bots_def\<close>)
  next
    case (Rescoped i b ss r row)
    show ?thesis unfolding Rescoped(1)
      by (rule exI, rule conjI, rule bot_move.Rescoped[of db i b ss r row])
        (use Rescoped eqs tables in \<open>auto simp: scope_list_ok_def same_bots_def\<close>)
  next
    case (Revoked r i t q)
    show ?thesis unfolding Revoked(1)
      by (rule exI, rule conjI, rule bot_move.Revoked[of db r i t q])
        (use tables in \<open>auto simp: same_bots_def\<close>)
  next
    case (Created i b tok op ss)
    show ?thesis unfolding Created(1)
      by (rule exI, rule conjI, rule bot_move.Created[of i db b tok op ss])
        (use Created tables in \<open>auto simp: same_bots_def\<close>)
  next
    case (Described f p)
    show ?thesis unfolding Described(1)
      by (rule exI, rule conjI, rule bot_move.Described[of f db p])
        (use Described(2,3) tables in \<open>auto simp: same_bots_def\<close>)
  next
    case (Deleted i b t)
    show ?thesis unfolding Deleted(1)
      by (rule exI, rule conjI, rule bot_move.Deleted[of db i b t])
        (use Deleted eqs tables in \<open>auto simp: same_bots_def\<close>)
  next
    case (Token_issued i b tok)
    show ?thesis unfolding Token_issued(1)
      by (rule exI, rule conjI, rule bot_move.Token_issued[of db i b tok])
        (use Token_issued eqs tables in \<open>auto simp: same_bots_def\<close>)
  next
    case (Tokens_marked f p)
    show ?thesis unfolding Tokens_marked(1)
      by (rule exI, rule conjI, rule bot_move.Tokens_marked[of f db p])
        (use Tokens_marked(2,3) tables in \<open>auto simp: same_bots_def\<close>)
  qed
qed

lemma bot_change_from: "bot_change db1 db2 \<Longrightarrow> same_bots db db1 \<Longrightarrow> bot_change db db2"
  unfolding bot_change_def by (meson bot_move_from same_bots_trans)

lemma bot_change_to: "bot_change db db1 \<Longrightarrow> same_bots db1 db2 \<Longrightarrow> bot_change db db2"
  unfolding bot_change_def by (meson same_bots_trans)

lemma bot_change_move: "bot_move db db' \<Longrightarrow> bot_change db db'"
  unfolding bot_change_def by (blast intro: same_bots_refl)

lemma bot_change_same: "same_bots db db' \<Longrightarrow> bot_change db db'"
  by (rule bot_change_to[OF bot_change_move[OF bot_move.Unchanged]])


section \<open>The invariant\<close>

lemma room_scopes_append:
  "room_scopes (db\<lparr>room_bot_scopes := t @ map (scope_row r i) ss\<rparr>) r' i' =
     room_scopes (db\<lparr>room_bot_scopes := t\<rparr>) r' i' @ (if r' = r \<and> i' = i then ss else [])"
  by (auto simp: room_scopes_def filter_map comp_def)

lemma room_scopes_delete:
  "room_scopes (db\<lparr>room_bot_scopes := delete_where (\<lambda>s. sc_room_id s = r \<and> sc_bot_id s = i) t\<rparr>) r' i' =
     (if r' = r \<and> i' = i then [] else room_scopes (db\<lparr>room_bot_scopes := t\<rparr>) r' i')"
  by (auto simp: room_scopes_def delete_where_def intro!: arg_cong[of _ _ "map sc_scope"] filter_cong)

lemma count_update_le:
  assumes "\<And>x. x \<in> set t \<Longrightarrow> q (if p x then f x else x) \<Longrightarrow> q x"
  shows "count_where q (update_where p f t) \<le> count_where q t"
  using assms by (induction t) (auto split: if_splits)

lemma count_delete_le: "count_where q (delete_where p t) \<le> count_where q t"
  by (induction t) auto

lemma grant_keys_update:
  "map grant_key (update_where p (\<lambda>rb. rb\<lparr>rb_mode := md\<rparr>) t) = map grant_key t"
  "map grant_key (update_where p (\<lambda>rb. rb\<lparr>rb_revoked_at := w\<rparr>) t) = map grant_key t"
  by (rule map_update_where, simp add: grant_key_def)+

lemma bots_okI:
  assumes "distinct (map b_id (bot_accounts db))" "distinct (map grant_key (room_bots db))"
    "\<And>s. s \<in> set (room_bot_scopes db) \<Longrightarrow> (sc_room_id s, sc_bot_id s) \<in> grant_key ` set (room_bots db)"
    "\<And>rb. rb \<in> set (room_bots db) \<Longrightarrow> rb_revoked_at rb = None \<Longrightarrow> scopes_ok db rb"
    "\<And>r. count_where (active_in r) (room_bots db) \<le> 10"
    "\<And>b. b \<in> set (bot_accounts db) \<Longrightarrow> b_deleted_at b \<noteq> None \<Longrightarrow> powerless db (b_id b)"
  shows "bots_ok db"
  using assms unfolding bots_ok_def by blast

lemma bots_okD:
  assumes "bots_ok db"
  shows "distinct (map b_id (bot_accounts db))" "distinct (map grant_key (room_bots db))"
    "s \<in> set (room_bot_scopes db) \<Longrightarrow> (sc_room_id s, sc_bot_id s) \<in> grant_key ` set (room_bots db)"
    "rb \<in> set (room_bots db) \<Longrightarrow> rb_revoked_at rb = None \<Longrightarrow> scopes_ok db rb"
    "count_where (active_in r) (room_bots db) \<le> 10"
    "b \<in> set (bot_accounts db) \<Longrightarrow> b_deleted_at b \<noteq> None \<Longrightarrow> powerless db (b_id b)"
  using assms unfolding bots_ok_def by blast+

text \<open>A grant without scope rows of its own key: none are there yet.\<close>

lemma no_scopes_without_grant:
  assumes "bots_ok db" and "(r, i) \<notin> grant_key ` set (room_bots db)"
  shows "room_scopes db r i = []"
  using bots_okD(3)[OF assms(1)] assms(2) by (force simp: room_scopes_def filter_empty_conv)

lemma granted_ok:
  assumes ok: "bots_ok db" and bot: "find_bot db i = Some b" and ss: "scope_list_ok db i ss"
    and room: "count_where (active_in r) (room_bots db) < 10" and new: "(r, i) \<notin> grant_key ` set (room_bots db)"
    and row: "grant_key row = (r, i)" "rb_revoked_at row = None" "rb_mode row = mode_str (derive_mode ss)"
    and news: "\<forall>x \<in> set news. bo_bot_id x = i"
  shows "bots_ok (db\<lparr>room_bots := room_bots db @ [row],
    room_bot_scopes := room_bot_scopes db @ map (scope_row r i) ss, bot_operators := bot_operators db @ news\<rparr>)"
    (is "bots_ok ?m")
proof (rule bots_okI)
  have scopes: "room_scopes ?m r' i' = room_scopes db r' i' @ (if r' = r \<and> i' = i then ss else [])" for r' i'
    by (auto simp: room_scopes_def filter_map comp_def)
  have decl: "declared_scopes ?m = declared_scopes db" by (simp add: declared_scopes_def fun_eq_iff)
  show "scopes_ok ?m rb" if "rb \<in> set (room_bots ?m)" "rb_revoked_at rb = None" for rb
  proof (cases "rb = row")
    case True
    with row ss no_scopes_without_grant[OF ok new] show ?thesis
      by (auto simp: scopes_ok_def scopes decl grant_key_def scope_list_ok_def Let_def)
  next
    case False
    with that have rb: "rb \<in> set (room_bots db)" by simp
    then have "grant_key rb \<noteq> (r, i)" using new by (metis image_eqI)
    with bots_okD(4)[OF ok rb that(2)] show ?thesis
      by (auto simp: scopes_ok_def scopes decl grant_key_def)
  qed
  show "powerless ?m (b_id x)" if "x \<in> set (bot_accounts ?m)" "b_deleted_at x \<noteq> None" for x
  proof -
    have "b_id x \<noteq> i" using find_bot_alive(4)[OF ok bot] that by auto
    moreover have "powerless db (b_id x)" using bots_okD(6)[OF ok] that by simp
    ultimately show ?thesis using row news by (auto simp: powerless_def grant_key_def)
  qed
  show "count_where (active_in r') (room_bots ?m) \<le> 10" for r'
    using bots_okD(5)[OF ok, of r'] room row(1) by (auto simp: active_in_def grant_key_def)
qed (use bots_okD(1-3)[OF ok] new row in \<open>auto simp: grant_key_def\<close>)

lemma rescoped_ok:
  assumes ok: "bots_ok db" and ss: "scope_list_ok db i ss" and rb: "active_grant db r i = Some row"
  shows "bots_ok (db\<lparr>room_bots := update_where (\<lambda>rb. in_grant r i rb \<and> rb_revoked_at rb = None)
        (\<lambda>rb. rb\<lparr>rb_mode := mode_str (derive_mode ss)\<rparr>) (room_bots db),
      room_bot_scopes := delete_where (\<lambda>s. sc_room_id s = r \<and> sc_bot_id s = i) (room_bot_scopes db) @
        map (scope_row r i) ss\<rparr>)"
    (is "bots_ok ?m")
proof (rule bots_okI)
  have scopes: "room_scopes ?m r' i' = (if r' = r \<and> i' = i then ss else room_scopes db r' i')" for r' i'
    by (auto simp: room_scopes_def filter_map comp_def delete_where_def
        intro!: arg_cong[of _ _ "map sc_scope"] filter_cong)
  have decl: "declared_scopes ?m = declared_scopes db" by (simp add: declared_scopes_def fun_eq_iff)
  have keys: "map grant_key (room_bots ?m) = map grant_key (room_bots db)"
    by (simp add: grant_keys_update)
  have key_set: "grant_key ` set (room_bots ?m) = grant_key ` set (room_bots db)"
    using arg_cong[OF keys, of set] by (simp only: list.set_map)
  show "distinct (map grant_key (room_bots ?m))" unfolding keys by (rule bots_okD(2)[OF ok])
  have "row \<in> set (room_bots db)" "grant_key row = (r, i)"
    using find_SomeD[OF rb[unfolded active_grant_def]] by (auto simp: grant_key_def)
  then have "(r, i) \<in> grant_key ` set (room_bots db)" by (metis image_eqI)
  then show "(sc_room_id s, sc_bot_id s) \<in> grant_key ` set (room_bots ?m)" if "s \<in> set (room_bot_scopes ?m)" for s
    using that bots_okD(3)[OF ok] unfolding key_set by auto
  show "scopes_ok ?m x" if x: "x \<in> set (room_bots ?m)" "rb_revoked_at x = None" for x
  proof -
    obtain y where y: "y \<in> set (room_bots db)" "rb_revoked_at y = None" "grant_key x = grant_key y"
      "rb_mode x = (if in_grant r i y then mode_str (derive_mode ss) else rb_mode y)"
      using x by (auto simp: set_update_where grant_key_def)
    show ?thesis using bots_okD(4)[OF ok y(1,2)] ss y(3,4)
      unfolding scopes_ok_def scopes decl Let_def
      by (auto simp: grant_key_def in_grant_def scope_list_ok_def)
  qed
  have "count_where (active_in r') (update_where (\<lambda>rb. in_grant r i rb \<and> rb_revoked_at rb = None)
      (\<lambda>rb. rb\<lparr>rb_mode := mode_str (derive_mode ss)\<rparr>) (room_bots db)) \<le> count_where (active_in r') (room_bots db)" for r'
    by (rule count_update_le) (simp add: active_in_def split: if_splits)
  then show "count_where (active_in r') (room_bots ?m) \<le> 10" for r'
    using bots_okD(5)[OF ok, of r'] by (simp add: order_trans[of _ "count_where (active_in r') (room_bots db)"])
  show "powerless ?m (b_id x)" if "x \<in> set (bot_accounts ?m)" "b_deleted_at x \<noteq> None" for x
    using bots_okD(6)[OF ok, of x] that by (auto simp: powerless_def set_update_where)
qed (use bots_okD(1)[OF ok] in auto)

text \<open>Revocations, by whatever condition: grants keep their keys and scopes, and more of them are revoked.\<close>

lemma revoked_ok:
  assumes ok: "bots_ok db"
    and acc: "distinct (map b_id accs)"
      "\<And>x. x \<in> set accs \<Longrightarrow> b_deleted_at x \<noteq> None \<Longrightarrow>
         powerless (db\<lparr>room_bots := update_where p (\<lambda>rb. rb\<lparr>rb_revoked_at := Some t\<rparr>) (room_bots db),
           bot_tokens := toks, bot_operators := ops\<rparr>) (b_id x)"
  shows "bots_ok (db\<lparr>bot_accounts := accs, bot_tokens := toks,
    room_bots := update_where p (\<lambda>rb. rb\<lparr>rb_revoked_at := Some t\<rparr>) (room_bots db), bot_operators := ops\<rparr>)"
    (is "bots_ok ?m")
proof (rule bots_okI)
  have keys: "map grant_key (room_bots ?m) = map grant_key (room_bots db)"
    by (simp add: grant_keys_update)
  show "distinct (map grant_key (room_bots ?m))" unfolding keys by (rule bots_okD(2)[OF ok])
  have key_set: "grant_key ` set (room_bots ?m) = grant_key ` set (room_bots db)"
    using arg_cong[OF keys, of set] by (simp only: list.set_map)
  show "(sc_room_id s, sc_bot_id s) \<in> grant_key ` set (room_bots ?m)" if "s \<in> set (room_bot_scopes ?m)" for s
    unfolding key_set using that bots_okD(3)[OF ok, of s] by simp
  show "scopes_ok ?m x" if "x \<in> set (room_bots ?m)" "rb_revoked_at x = None" for x
  proof -
    have "x \<in> set (room_bots db)" using that by (auto simp: set_update_where)
    from bots_okD(4)[OF ok this that(2)] show ?thesis
      by (simp add: scopes_ok_def room_scopes_def declared_scopes_def)
  qed
  have "count_where (active_in r) (update_where p (\<lambda>rb. rb\<lparr>rb_revoked_at := Some t\<rparr>) (room_bots db)) \<le>
      count_where (active_in r) (room_bots db)" for r
    by (rule count_update_le) (auto simp: active_in_def split: if_splits)
  then show "count_where (active_in r) (room_bots ?m) \<le> 10" for r
    using bots_okD(5)[OF ok, of r] by (simp add: order_trans[of _ "count_where (active_in r) (room_bots db)"])
qed (use acc in \<open>simp_all add: powerless_def\<close>)


lemma deleted_ok:
  assumes ok: "bots_ok db"
  shows "bots_ok (db\<lparr>bot_accounts := update_where (\<lambda>r. b_id r = i) (\<lambda>r. r\<lparr>b_deleted_at := Some t\<rparr>) (bot_accounts db),
      bot_tokens := update_where (\<lambda>x. bt_bot_id x = i \<and> bt_revoked_at x = None) (\<lambda>x. x\<lparr>bt_revoked_at := Some t\<rparr>)
        (bot_tokens db),
      room_bots := update_where (\<lambda>rb. rb_bot_id rb = i \<and> rb_room_id rb \<in> fst ` set (active_grants db i))
        (\<lambda>rb. rb\<lparr>rb_revoked_at := Some t\<rparr>) (room_bots db),
      bot_operators := delete_where (\<lambda>x. bo_bot_id x = i) (bot_operators db)\<rparr>)"
proof (rule revoked_ok[OF ok])
  have "map b_id (update_where (\<lambda>r. b_id r = i) (\<lambda>r. r\<lparr>b_deleted_at := Some t\<rparr>) (bot_accounts db)) =
      map b_id (bot_accounts db)"
    by (rule map_update_where) simp
  with bots_okD(1)[OF ok]
  show "distinct (map b_id (update_where (\<lambda>r. b_id r = i) (\<lambda>r. r\<lparr>b_deleted_at := Some t\<rparr>) (bot_accounts db)))"
    by simp
  fix x
  assume "x \<in> set (update_where (\<lambda>r. b_id r = i) (\<lambda>r. r\<lparr>b_deleted_at := Some t\<rparr>) (bot_accounts db))"
    "b_deleted_at x \<noteq> None"
  then have x: "b_id x = i \<or> powerless db (b_id x)"
    using bots_okD(6)[OF ok] by (auto simp: set_update_where)
  have gone: "\<exists>y. rb_revoked_at rb = Some y"
    if "rb \<in> set (room_bots db)" "rb_room_id rb \<notin> fst ` set (active_grants db j)" "rb_bot_id rb = j" for rb j
  proof (cases "rb_revoked_at rb")
    case None
    with that have "rb_room_id rb \<in> fst ` set (active_grants db j)"
      by (auto simp: active_grants_def intro: rev_image_eqI)
    with that show ?thesis by simp
  qed simp
  show "powerless (db\<lparr>room_bots := update_where
        (\<lambda>rb. rb_bot_id rb = i \<and> rb_room_id rb \<in> fst ` set (active_grants db i))
        (\<lambda>rb. rb\<lparr>rb_revoked_at := Some t\<rparr>) (room_bots db),
      bot_tokens := update_where (\<lambda>x. bt_bot_id x = i \<and> bt_revoked_at x = None) (\<lambda>x. x\<lparr>bt_revoked_at := Some t\<rparr>)
        (bot_tokens db),
      bot_operators := delete_where (\<lambda>x. bo_bot_id x = i) (bot_operators db)\<rparr>) (b_id x)"
    using x gone by (auto simp: powerless_def set_update_where)
qed

lemma created_ok:
  assumes ok: "bots_ok db" and new: "i \<notin> b_id ` set (bot_accounts db)"
    and b: "b_id b = i" "b_deleted_at b = None" and own: "bt_bot_id tok = i" "bo_bot_id op = i"
  shows "bots_ok (db\<lparr>bot_accounts := bot_accounts db @ [b],
      bot_declared_scopes := bot_declared_scopes db @ map (\<lambda>s. \<lparr>dc_bot_id = i, dc_scope = s\<rparr>) ss,
      bot_tokens := bot_tokens db @ [tok], bot_operators := bot_operators db @ [op]\<rparr>)" (is "bots_ok ?m")
proof (rule bots_okI)
  have "set (declared_scopes db j) \<subseteq> set (declared_scopes ?m j)" for j by (auto simp: declared_scopes_def)
  moreover have "room_scopes ?m = room_scopes db" by (simp add: room_scopes_def fun_eq_iff)
  ultimately show "scopes_ok ?m rb" if "rb \<in> set (room_bots ?m)" "rb_revoked_at rb = None" for rb
    using bots_okD(4)[OF ok, of rb] that unfolding scopes_ok_def Let_def by simp blast
  show "powerless ?m (b_id x)" if "x \<in> set (bot_accounts ?m)" "b_deleted_at x \<noteq> None" for x
  proof -
    have "x \<in> set (bot_accounts db)" using that b by auto
    moreover then have "b_id x \<noteq> i" using new by auto
    ultimately show ?thesis using bots_okD(6)[OF ok] that(2) own by (auto simp: powerless_def)
  qed
qed (use bots_okD(1-3,5)[OF ok] new b in auto)

lemma room_gone_ok:
  assumes ok: "bots_ok db"
  shows "bots_ok (db\<lparr>room_bots := delete_where (\<lambda>rb. rb_room_id rb = r) (room_bots db),
      room_bot_scopes := delete_where (\<lambda>s. sc_room_id s = r) (room_bot_scopes db)\<rparr>)" (is "bots_ok ?m")
proof (rule bots_okI)
  have scopes: "room_scopes ?m r' = (if r' = r then (\<lambda>_. []) else room_scopes db r')" for r'
    by (auto simp: room_scopes_def delete_where_def fun_eq_iff filter_empty_conv
        intro!: arg_cong[of _ _ "map sc_scope"] filter_cong)
  have decl: "declared_scopes ?m = declared_scopes db" by (simp add: declared_scopes_def fun_eq_iff)
  show "scopes_ok ?m rb" if "rb \<in> set (room_bots ?m)" "rb_revoked_at rb = None" for rb
    using bots_okD(4)[OF ok, of rb] that unfolding scopes_ok_def Let_def scopes decl by simp
  show "(sc_room_id s, sc_bot_id s) \<in> grant_key ` set (room_bots ?m)" if "s \<in> set (room_bot_scopes ?m)" for s
  proof -
    have "(sc_room_id s, sc_bot_id s) \<in> grant_key ` set (room_bots db)"
      using bots_okD(3)[OF ok, of s] that by simp
    then obtain rb where "(sc_room_id s, sc_bot_id s) = grant_key rb" "rb \<in> set (room_bots db)" by (rule imageE)
    then show ?thesis using that by (auto simp: grant_key_def intro!: rev_image_eqI)
  qed
  show "count_where (active_in r') (room_bots ?m) \<le> 10" for r'
    using bots_okD(5)[OF ok, of r'] count_delete_le[of "active_in r'" "\<lambda>rb. rb_room_id rb = r" "room_bots db"] by simp
  show "powerless ?m (b_id x)" if "x \<in> set (bot_accounts ?m)" "b_deleted_at x \<noteq> None" for x
    using bots_okD(6)[OF ok, of x] that by (simp add: powerless_def)
qed (use bots_okD(1,2)[OF ok] in \<open>simp_all add: distinct_map_delete_where\<close>)

lemma tokens_ok:
  assumes ok: "bots_ok db"
    and toks: "\<And>b x. b \<in> set (bot_accounts db) \<Longrightarrow> b_deleted_at b \<noteq> None \<Longrightarrow> x \<in> set toks \<Longrightarrow> bt_bot_id x = b_id b \<Longrightarrow>
      \<exists>y \<in> set (bot_tokens db). bt_bot_id y = b_id b \<and> (bt_revoked_at y \<noteq> None \<longrightarrow> bt_revoked_at x \<noteq> None)"
  shows "bots_ok (db\<lparr>bot_tokens := toks\<rparr>)" (is "bots_ok ?m")
proof (rule bots_okI)
  show "scopes_ok ?m rb" if "rb \<in> set (room_bots ?m)" "rb_revoked_at rb = None" for rb
    using bots_okD(4)[OF ok, of rb] that by (simp add: scopes_ok_def room_scopes_def declared_scopes_def)
  show "powerless ?m (b_id x)" if "x \<in> set (bot_accounts ?m)" "b_deleted_at x \<noteq> None" for x
    using bots_okD(6)[OF ok, of x] that toks[of x] unfolding powerless_def by simp blast
qed (use bots_okD(1-3,5)[OF ok] in simp_all)

lemma described_ok:
  assumes ok: "bots_ok db" and f: "\<And>x. b_id (f x) = b_id x" "\<And>x. b_deleted_at (f x) = b_deleted_at x"
  shows "bots_ok (db\<lparr>bot_accounts := update_where p f (bot_accounts db)\<rparr>)" (is "bots_ok ?m")
proof (rule bots_okI)
  have "map b_id (update_where p f (bot_accounts db)) = map b_id (bot_accounts db)"
    by (rule map_update_where) (rule f)
  with bots_okD(1)[OF ok] show "distinct (map b_id (bot_accounts ?m))" by simp
  show "scopes_ok ?m rb" if "rb \<in> set (room_bots ?m)" "rb_revoked_at rb = None" for rb
    using bots_okD(4)[OF ok, of rb] that by (simp add: scopes_ok_def room_scopes_def declared_scopes_def)
  show "powerless ?m (b_id x)" if "x \<in> set (bot_accounts ?m)" "b_deleted_at x \<noteq> None" for x
    using bots_okD(6)[OF ok] that f by (auto simp: powerless_def set_update_where)
qed (use bots_okD(2,3,5)[OF ok] in simp_all)

lemma bot_move_ok:
  assumes "bot_move db db'" and ok: "bots_ok db"
  shows "bots_ok db'"
  using assms(1)
proof (cases rule: bot_move.cases)
  case Unchanged
  with ok show ?thesis by simp
next
  case (Granted i b ss r row news)
  then show ?thesis using granted_ok[OF ok] by simp
next
  case (Rescoped i b ss r row)
  then show ?thesis using rescoped_ok[OF ok] by simp
next
  case (Revoked q r i t)
  have "powerless (db\<lparr>room_bots := update_where (\<lambda>rb. in_grant r i rb \<and> rb_revoked_at rb = None)
        (\<lambda>rb. rb\<lparr>rb_revoked_at := Some t\<rparr>) (room_bots db), bot_tokens := bot_tokens db,
      bot_operators := delete_where q (bot_operators db)\<rparr>) (b_id x)"
    if "x \<in> set (bot_accounts db)" "b_deleted_at x \<noteq> None" for x
    using bots_okD(6)[OF ok that] by (auto simp: powerless_def set_update_where)
  from revoked_ok[OF ok bots_okD(1)[OF ok] this] show ?thesis unfolding Revoked by simp
next
  case (Created i b tok op ss)
  then show ?thesis using created_ok[OF ok] by simp
next
  case (Described f p)
  show ?thesis unfolding Described(1) using ok Described(2,3) by (rule described_ok)
next
  case (Deleted i b t)
  show ?thesis unfolding Deleted(1) by (rule deleted_ok[OF ok])
next
  case (Token_issued i b tok)
  then show ?thesis using find_bot_alive(4)[OF ok Token_issued(2)] by (auto intro!: tokens_ok[OF ok])
next
  case (Tokens_marked f p)
  show ?thesis unfolding Tokens_marked(1)
    by (rule tokens_ok[OF ok]) (use Tokens_marked(2,3) in \<open>force simp: set_update_where\<close>)
qed

lemma bot_change_ok: "bot_change db db' \<Longrightarrow> bots_ok db \<Longrightarrow> bots_ok db'"
  unfolding bot_change_def using bot_move_ok bots_ok_same by metis

definition deleted_bot :: "db \<Rightarrow> id \<Rightarrow> bool" where
  "deleted_bot db i \<longleftrightarrow> (\<exists>b \<in> set (bot_accounts db). b_id b = i \<and> b_deleted_at b \<noteq> None)"

lemma bot_change_deleted:
  assumes "bot_change db db'" and "deleted_bot db i"
  shows "deleted_bot db' i"
proof -
  obtain m where m: "bot_move db m" "same_bots m db'" using assms(1) by (auto simp: bot_change_def)
  obtain b0 where b0: "b0 \<in> set (bot_accounts db)" "b_id b0 = i" "b_deleted_at b0 \<noteq> None"
    using assms(2) by (auto simp: deleted_bot_def)
  from m(1) have "deleted_bot m i"
    by cases (use b0 in \<open>auto simp: deleted_bot_def bex_update_where intro!: bexI[of _ b0]\<close>)
  with m(2) show ?thesis by (simp add: deleted_bot_def same_bots_def)
qed

lemma deleted_powerless: "bots_ok db \<Longrightarrow> deleted_bot db i \<Longrightarrow> powerless db i"
  by (auto simp: deleted_bot_def dest: bots_okD(6))


section \<open>Every operation is such a change\<close>

lemma check_scope_requestD:
  "check_scope_request ss = Inr u \<Longrightarrow> ss \<noteq> [] \<and> validate_dependencies ss = None"
  by (auto simp: check_scope_request_def split: if_splits)

lemma scope_list_okI:
  assumes "check_scope_request ss = Inr u" "distinct ss" "\<forall>s \<in> set ss. is_valid_scope s"
    "list_all (\<lambda>s. s \<in> set (declared_scopes db i)) ss"
  shows "scope_list_ok db i ss"
proof -
  have "List.find (\<lambda>s. \<not> is_valid_scope s) ss = None" using assms(3) by (simp add: find_None_iff_all)
  with check_scope_requestD[OF assms(1)] assms(2,4) show ?thesis
    by (auto simp: scope_list_ok_def validate_scopes_def list_all_iff)
qed

lemma insert_room_botD:
  "insert_room_bot r i md u now db = Some db' \<Longrightarrow>
   (r, i) \<notin> grant_key ` set (room_bots db) \<and>
   db' = db\<lparr>room_bots := room_bots db @
     [\<lparr>rb_room_id = r, rb_bot_id = i, rb_mode = mode_str md, rb_granted_by = u,
       rb_granted_at = current_timestamp now, rb_revoked_at = None\<rparr>]\<rparr>"
  by (auto simp: insert_room_bot_def insert_row_Some_iff grant_key_def split: if_splits)

lemma grant_transactionD:
  assumes "grant_transaction r u req fresh now db = Some (added, clients, db')"
  shows "\<exists>row news. (r, gq_bot_id req) \<notin> grant_key ` set (room_bots db) \<and> grant_key row = (r, gq_bot_id req) \<and>
    rb_revoked_at row = None \<and> rb_mode row = mode_str (derive_mode (gq_scopes req)) \<and>
    (\<forall>x \<in> set news. bo_bot_id x = gq_bot_id req) \<and> distinct (gq_scopes req) \<and>
    (\<forall>s \<in> set (gq_scopes req). is_valid_scope s) \<and>
    same_bots (db\<lparr>room_bots := room_bots db @ [row],
      room_bot_scopes := room_bot_scopes db @ map (scope_row r (gq_bot_id req)) (gq_scopes req),
      bot_operators := bot_operators db @ news\<rparr>) db'"
proof -
  let ?i = "gq_bot_id req" and ?ss = "gq_scopes req"
  obtain db1 db2 db3 where
    1: "insert_room_bot r ?i (derive_mode ?ss) u now db = Some db1" and
    2: "insert_scopes r ?i ?ss db1 = Some db2" and
    3: "bind_operators ?i (null_text (gq_operators req)) u now db2 = Some (added, db3)" and
    4: "(if derive_mode ?ss = Member then queue_bot_add r ?i fresh now db3 else Some ([], db3)) = Some (clients, db')"
    using assms by (auto simp: grant_transaction_def Let_def split: option.splits)
  let ?row = "\<lparr>rb_room_id = r, rb_bot_id = ?i, rb_mode = mode_str (derive_mode ?ss), rb_granted_by = u,
    rb_granted_at = current_timestamp now, rb_revoked_at = None\<rparr>"
  note r1 = insert_room_botD[OF 1] and r2 = insert_scopesD[OF 2]
  from bind_operatorsD[OF 3] obtain news where r3: "db3 = db2\<lparr>bot_operators := bot_operators db2 @ news\<rparr>"
    "\<forall>x \<in> set news. bo_bot_id x = ?i" by auto
  have r4: "same_bots db3 db'" using 4 same_bots_add by (auto split: if_splits)
  show ?thesis
    by (rule exI[of _ ?row], rule exI[of _ news])
      (use r1 r2 r3 r4 in \<open>auto simp: grant_key_def same_bots_def\<close>)
qed

lemma check_grantD:
  assumes "check_grant db r req = Inr b"
  shows "check_scope_request (gq_scopes req) = Inr ()" "active_bot db (gq_bot_id req) = Some b"
    "active_grant db r (gq_bot_id req) = None"
    "list_all (\<lambda>s. s \<in> set (declared_scopes db (gq_bot_id req))) (gq_scopes req)"
    "count_where (active_in r) (room_bots db) < 10"
  using assms by (auto simp: check_grant_def active_in_def[abs_def] split: sum.splits option.splits if_splits)

lemma grant_bot_change:
  assumes "grant_bot fmt config u r req fresh aid now db = (out, db')"
  shows "bot_change db db'"
proof -
  obtain res db1 where g: "rate_guard fmt config (BotGrant u) now db = (res, db1)" by fastforce
  note s1 = same_bots_guard[OF g]
  consider "db' = db" | "db' = db1"
    | (ok) b added clients db2 where "check_grant db1 r req = Inr b"
        "grant_transaction r u req fresh now db1 = Some (added, clients, db2)" "same_bots db2 db'"
    using assms g by (auto simp: grant_bot_def Let_def split: sum.splits option.splits)
  then show ?thesis
  proof cases
    case ok
    note c = check_grantD[OF ok(1)]
    obtain b' where b': "find_bot db1 (gq_bot_id req) = Some b'" using active_bot_found[OF c(2)] by blast
    from grant_transactionD[OF ok(2)] obtain row news where
      t: "(r, gq_bot_id req) \<notin> grant_key ` set (room_bots db1)" "grant_key row = (r, gq_bot_id req)"
        "rb_revoked_at row = None" "rb_mode row = mode_str (derive_mode (gq_scopes req))"
        "\<forall>x \<in> set news. bo_bot_id x = gq_bot_id req" "distinct (gq_scopes req)"
        "\<forall>s \<in> set (gq_scopes req). is_valid_scope s" and
      s: "same_bots (db1\<lparr>room_bots := room_bots db1 @ [row],
        room_bot_scopes := room_bot_scopes db1 @ map (scope_row r (gq_bot_id req)) (gq_scopes req),
        bot_operators := bot_operators db1 @ news\<rparr>) db2" by blast
    have "scope_list_ok db1 (gq_bot_id req) (gq_scopes req)" by (rule scope_list_okI[OF c(1) t(6,7) c(4)])
    from bot_move.Granted[OF b' this c(5) t(1-5)] have "bot_change db1 db2"
      using s by (auto simp: bot_change_def)
    then show ?thesis using s1 ok(3) by (blast intro: bot_change_from bot_change_to)
  qed (use s1 in \<open>auto intro: bot_change_same\<close>)
qed

lemma patch_room_bot_change:
  assumes "patch_room_bot u r i ss fresh rid now db = (out, db')"
  shows "bot_change db db'"
proof -
  consider "db' = db"
    | (ok) rb b clients where "check_patch db r i ss = Inr (rb, b)"
        "patch_transaction r i ss (rb_mode rb) fresh rid now db = Some (clients, db')"
    using assms by (auto simp: patch_room_bot_def Let_def split: sum.splits option.splits)
  then show ?thesis
  proof cases
    case ok
    have c: "check_scope_request ss = Inr ()" "active_grant db r i = Some rb" "active_bot db i = Some b"
      "list_all (\<lambda>s. s \<in> set (declared_scopes db i)) ss"
      using ok(1) by (auto simp: check_patch_def split: sum.splits option.splits if_splits)
    obtain b' where b': "find_bot db i = Some b'" using active_bot_found[OF c(3)] by blast
    let ?t = "update_where (\<lambda>rb. in_grant r i rb \<and> rb_revoked_at rb = None)
      (\<lambda>rb. rb\<lparr>rb_mode := mode_str (derive_mode ss)\<rparr>) (room_bots db)"
    let ?s = "delete_where (\<lambda>s. sc_room_id s = r \<and> sc_bot_id s = i) (room_bot_scopes db)"
    let ?add = "\<lambda>db2. if rb_mode rb \<noteq> ''member'' \<and> derive_mode ss = Member
      then queue_bot_add r i fresh now db2 else Some ([], db2)"
    obtain db2 where 2: "insert_scopes r i ss (db\<lparr>room_bots := ?t, room_bot_scopes := ?s\<rparr>) = Some db2"
      using ok(2) unfolding patch_transaction_def Let_def in_grant_def[symmetric] conj_assoc[symmetric]
      by (cases "insert_scopes r i ss (db\<lparr>room_bots := ?t, room_bot_scopes := ?s\<rparr>)") auto
    obtain cs db3 where 3: "?add db2 = Some (cs, db3)" and
      4: "(if rb_mode rb = ''member'' \<and> derive_mode ss \<noteq> Member
           then (case queue_pending_mls_remove_batch r (TargetBot i) rid now db3 of
                   Inl e \<Rightarrow> None | Inr (_, db4) \<Rightarrow> Some (cs, db4))
           else Some (cs, db3)) = Some (clients, db')"
      using ok(2) 2 unfolding patch_transaction_def Let_def in_grant_def[symmetric] conj_assoc[symmetric]
      by (cases "?add db2") auto
    have 3: "same_bots db2 db3" using 3 same_bots_add by (simp split: if_splits)
    have 4: "same_bots db3 db'" using 4 same_bots_remove by (auto split: if_splits sum.splits)
    note r2 = insert_scopesD[OF 2]
    have "scope_list_ok db i ss" by (rule scope_list_okI[OF c(1) _ _ c(4)]) (use r2 in auto)
    from bot_move.Rescoped[OF b' this c(2)] have "bot_change db db2"
      using r2 by (auto simp: bot_change_def)
    with 3 4 show ?thesis by (blast intro: bot_change_to)
  qed (auto intro: bot_change_same)
qed

lemma revoke_transactionD:
  assumes "revoke_transaction r i grant rid now db = Some (removed, db1)"
  shows "same_bots (db\<lparr>room_bots := update_where (\<lambda>rb. in_grant r i rb \<and> rb_revoked_at rb = None)
        (\<lambda>rb. rb\<lparr>rb_revoked_at := Some (current_timestamp now)\<rparr>) (room_bots db),
      bot_operators := delete_where (bound_by_granter i (rb_granted_by grant)) (bot_operators db)\<rparr>) db1"
  using assms same_bots_remove
  unfolding revoke_transaction_def Let_def in_grant_def[symmetric] conj_assoc[symmetric]
  by (auto split: sum.splits if_splits)

lemma delete_room_bot_cases:
  assumes "delete_room_bot u r i rid aid now db = (out, db')"
  obtains e where "out = Inl e" "db' = db"
  | grant removed db1 evs where "out = Inr evs" "active_grant db r i = Some grant"
      "revoke_transaction r i grant rid now db = Some (removed, db1)" "same_bots db1 db'"
  using assms by (auto simp: delete_room_bot_def split: sum.splits option.splits)

lemma delete_room_bot_change:
  assumes "delete_room_bot u r i rid aid now db = (out, db')"
  shows "bot_change db db'"
  using assms
proof (cases rule: delete_room_bot_cases)
  case (2 grant removed db1 evs)
  have "bot_change db db1" unfolding bot_change_def
    by (intro exI conjI) (rule bot_move.Revoked, rule revoke_transactionD[OF 2(3)])
  then show ?thesis using 2(4) by (rule bot_change_to)
qed (auto intro: bot_change_same)

lemma insert_declared_scopesD:
  "insert_declared_scopes i ss db = Some db' \<Longrightarrow>
   db' = db\<lparr>bot_declared_scopes := bot_declared_scopes db @ map (\<lambda>s. \<lparr>dc_bot_id = i, dc_scope = s\<rparr>) ss\<rparr>"
proof (induction ss arbitrary: db)
  case (Cons s ss)
  let ?db1 = "db\<lparr>bot_declared_scopes := bot_declared_scopes db @ [\<lparr>dc_bot_id = i, dc_scope = s\<rparr>]\<rparr>"
  have "insert_declared_scopes i ss ?db1 = Some db'"
    using Cons.prems by (auto simp: insert_row_Some_iff split: if_splits option.splits)
  from Cons.IH[OF this] show ?case by simp
qed simp

lemma insert_tokenD:
  "insert_token k i h now db = Some db' \<Longrightarrow> \<exists>tok. bt_bot_id tok = i \<and> db' = db\<lparr>bot_tokens := bot_tokens db @ [tok]\<rparr>"
  by (intro exI[of _ "\<lparr>bt_id = k, bt_bot_id = i, bt_token_hash = h, bt_created_at = current_timestamp now,
      bt_expires_at = None, bt_revoked_at = None, bt_last_used_at = None\<rparr>"])
    (auto simp: insert_token_def insert_row_Some_iff split: if_splits)

lemma bind_selfD:
  "bind_self i u now db = Some db' \<Longrightarrow> \<exists>op. bo_bot_id op = i \<and> db' = db\<lparr>bot_operators := bot_operators db @ [op]\<rparr>"
  by (intro exI[of _ "\<lparr>bo_bot_id = i, bo_user_id = u, bo_bound_at = current_timestamp now, bo_bound_by = Some u,
      bo_binding = ''self''\<rparr>"]) (auto simp: bind_self_def split: if_splits)

lemma same_bots_leaf: "append_bot_leaf SHA i a b c now db = Some (n, db') \<Longrightarrow> same_bots db db'"
  by (auto simp: append_bot_leaf_def same_bots_def Let_def split: if_splits)

lemma create_transaction_change:
  assumes "create_bot_transaction SHA H to_json u req i k raw now db = Some (n, db')"
  shows "bot_change db db'"
proof -
  obtain db1 db2 db3 db4 db5 m where
    1: "allocate_user_seq db u = Some (n, db1)" and
    2: "insert_bot_account i u req (map_option to_json (cb_declarations req)) now db1 = Some db2" and
    3: "insert_declared_scopes i (cb_declared_scopes req) db2 = Some db3" and
    4: "insert_token k i (H raw) now db3 = Some db4" and
    5: "bind_self i u now db4 = Some db5" and
    6: "append_bot_leaf SHA i (utf8_bytes (cb_bot_identity_pubkey req)) (utf8_bytes (cb_bot_command_pubkey req))
      (utf8_bytes (cb_identity_pubkey req)) now db5 = Some (m, db')"
    using assms by (auto simp: create_bot_transaction_def bind_eq_Some_conv split: option.splits)
  have "\<exists>b. i \<notin> b_id ` set (bot_accounts db1) \<and> b_id b = i \<and> b_deleted_at b = None \<and>
      db2 = db1\<lparr>bot_accounts := bot_accounts db1 @ [b]\<rparr>"
    using 2 by (intro exI[of _ "new_bot_row i u req (map_option to_json (cb_declarations req)) now"])
      (auto simp: insert_bot_account_def new_bot_row_def insert_row_Some_iff split: if_splits)
  then obtain b where r2: "i \<notin> b_id ` set (bot_accounts db1)" "b_id b = i" "b_deleted_at b = None"
    "db2 = db1\<lparr>bot_accounts := bot_accounts db1 @ [b]\<rparr>" by blast
  note r3 = insert_declared_scopesD[OF 3]
  obtain tok where r4: "bt_bot_id tok = i" "db4 = db3\<lparr>bot_tokens := bot_tokens db3 @ [tok]\<rparr>"
    using insert_tokenD[OF 4] by blast
  obtain op where r5: "bo_bot_id op = i" "db5 = db4\<lparr>bot_operators := bot_operators db4 @ [op]\<rparr>"
    using bind_selfD[OF 5] by blast
  have "bot_change db1 db5"
    using bot_change_move[OF bot_move.Created[OF r2(1-3) r4(1) r5(1), of "cb_declared_scopes req"]] r2 r3 r4 r5 by simp
  with same_bots_seq[OF 1] same_bots_leaf[OF 6] show ?thesis by (blast intro: bot_change_from bot_change_to)
qed

lemma create_bot_change:
  assumes "create_bot fmt config b64' SHA H to_json u req i k raw aid now db = (out, db')"
  shows "bot_change db db'"
proof -
  obtain res db1 where g: "rate_guard fmt config (BotCreate u) now db = (res, db1)" by fastforce
  note s1 = same_bots_guard[OF g]
  consider "db' = db1"
    | (ok) n db2 where "create_bot_transaction SHA H to_json u req i k raw now db1 = Some (n, db2)" "same_bots db2 db'"
    using assms g by (auto simp: create_bot_def split: sum.splits option.splits)
  then show ?thesis
    by cases (use s1 in \<open>auto intro: bot_change_same bot_change_to bot_change_from[OF create_transaction_change]\<close>)
qed

lemma described_change:
  assumes "\<And>x. b_id (f x) = b_id x" "\<And>x. b_deleted_at (f x) = b_deleted_at x"
  shows "bot_change db (update_bot i f db)"
  unfolding update_bot_def by (rule bot_change_move, rule bot_move.Described) (use assms in auto)

lemma patch_name_change: "patch_name b name db = Inr (named, db') \<Longrightarrow> bot_change db db'"
  by (auto simp: patch_name_def intro: bot_change_same described_change split: option.splits if_splits)

lemma patch_declarations_change: "patch_declarations to_json from_json b d db = Inr (x, db') \<Longrightarrow> bot_change db db'"
  by (auto simp: patch_declarations_def Let_def intro: bot_change_same described_change
      split: option.splits if_splits)

text \<open>What \<open>patch_bot\<close> does is up to two changes, the second of which may fail alone.\<close>

lemma patch_bot_change:
  assumes "patch_bot to_json from_json caller i req aid now db = (out, db')"
  shows "\<exists>db1. bot_change db db1 \<and> bot_change db1 db'"
proof -
  consider "db' = db" | (named) b n where "patch_name b (pb_display_name req) db = Inr (n, db')"
    | (both) b n db1 d db2 where "patch_name b (pb_display_name req) db = Inr (n, db1)"
      "patch_declarations to_json from_json b (pb_declarations req) db1 = Inr (d, db2)" "same_bots db2 db'"
    using assms by (auto simp: patch_bot_def Let_def split: sum.splits if_splits)
  then show ?thesis
  proof cases
    case named
    then show ?thesis using patch_name_change bot_change_same[OF same_bots_refl] by blast
  next
    case both
    then show ?thesis using patch_name_change patch_declarations_change bot_change_to by blast
  qed (use bot_change_same[OF same_bots_refl] in blast)
qed

lemma revoke_grants_rows:
  assumes "revoke_grants i gs fresh now db = Some db'"
  shows "same_bots (db\<lparr>room_bots := update_where (\<lambda>rb. rb_bot_id rb = i \<and> rb_room_id rb \<in> fst ` set gs)
    (\<lambda>rb. rb\<lparr>rb_revoked_at := Some (current_timestamp now)\<rparr>) (room_bots db)\<rparr>) db'"
  using assms
proof (induction gs arbitrary: fresh db)
  case Nil
  then show ?case by (simp add: same_bots_def)
next
  case (Cons g gs)
  obtain r md where g: "g = (r, md)" by (cases g)
  let ?rev = "\<lambda>rb. rb\<lparr>rb_revoked_at := Some (current_timestamp now)\<rparr>"
  let ?db1 = "db\<lparr>room_bots := update_where (\<lambda>rb. rb_room_id rb = r \<and> rb_bot_id rb = i) ?rev (room_bots db)\<rparr>"
  have "\<exists>db2. same_bots ?db1 db2 \<and> revoke_grants i gs (fresh \<circ> Suc) now db2 = Some db'"
  proof (cases "md = ''member''")
    case True
    with Cons.prems same_bots_remove[of r "TargetBot i" "fresh 0" now ?db1] show ?thesis
      by (auto simp: g Let_def split: sum.splits)
  next
    case False
    with Cons.prems show ?thesis by (intro exI[of _ ?db1]) (simp add: g)
  qed
  then obtain db2 where 2: "same_bots ?db1 db2" "revoke_grants i gs (fresh \<circ> Suc) now db2 = Some db'" by blast
  have "update_where (\<lambda>rb. rb_bot_id rb = i \<and> rb_room_id rb \<in> fst ` set gs) ?rev (room_bots db2) =
      update_where (\<lambda>rb. rb_bot_id rb = i \<and> rb_room_id rb \<in> fst ` set (g # gs)) ?rev (room_bots db)"
    using 2(1) by (auto simp: same_bots_def update_where_def g)
  then show ?case using Cons.IH[OF 2(2)] 2(1) by (simp add: same_bots_def)
qed

lemma delete_transactionD:
  assumes "delete_bot_transaction b fresh now db = Some (p, n, db')"
  shows "same_bots (db\<lparr>bot_accounts := update_where (\<lambda>r. b_id r = b_id b)
        (\<lambda>r. r\<lparr>b_deleted_at := Some (current_timestamp now)\<rparr>) (bot_accounts db),
      bot_tokens := update_where (\<lambda>x. bt_bot_id x = b_id b \<and> bt_revoked_at x = None)
        (\<lambda>x. x\<lparr>bt_revoked_at := Some (current_timestamp now)\<rparr>) (bot_tokens db),
      room_bots := update_where (\<lambda>rb. rb_bot_id rb = b_id b \<and> rb_room_id rb \<in> fst ` set (active_grants db (b_id b)))
        (\<lambda>rb. rb\<lparr>rb_revoked_at := Some (current_timestamp now)\<rparr>) (room_bots db),
      bot_operators := delete_where (\<lambda>x. bo_bot_id x = b_id b) (bot_operators db)\<rparr>) db'" (is "same_bots ?m db'")
proof -
  let ?db2 = "(update_bot (b_id b) (\<lambda>r. r\<lparr>b_deleted_at := Some (current_timestamp now)\<rparr>) db)\<lparr>bot_tokens :=
    update_where (\<lambda>t. bt_bot_id t = b_id b \<and> bt_revoked_at t = None)
      (\<lambda>t. t\<lparr>bt_revoked_at := Some (current_timestamp now)\<rparr>)
      (bot_tokens (update_bot (b_id b) (\<lambda>r. r\<lparr>b_deleted_at := Some (current_timestamp now)\<rparr>) db))\<rparr>"
  obtain db3 where 3: "revoke_grants (b_id b) (active_grants ?db2 (b_id b)) fresh now ?db2 = Some db3" and
    4: "allocate_user_seq (db3\<lparr>bot_operator_queue := delete_where (\<lambda>q. oq_bot_id q = b_id b) (bot_operator_queue db3),
      bot_operators := delete_where (\<lambda>o'. bo_bot_id o' = b_id b) (bot_operators db3)\<rparr>) (b_owner_user_id b) = Some (n, db')"
    using assms by (auto simp: delete_bot_transaction_def Let_def split: option.splits)
  have "active_grants ?db2 = active_grants db" by (simp add: active_grants_def update_bot_def fun_eq_iff)
  with revoke_grants_rows[OF 3] same_bots_seq[OF 4] show ?thesis by (simp add: same_bots_def update_bot_def)
qed

lemma bot_forD: "bot_for db caller i = Inr b \<Longrightarrow> find_bot db i = Some b \<and> b_id b = i"
  by (auto simp: bot_for_def find_bot_def split: option.splits if_splits dest: find_SomeD)

lemma delete_bot_cases:
  assumes "delete_bot caller i fresh aid now db = (out, db')"
  obtains e where "out = Inl e" "db' = db"
  | b p n db1 evs where "out = Inr evs" "bot_for db caller i = Inr b"
      "delete_bot_transaction b fresh now db = Some (p, n, db1)" "same_bots db1 db'"
  using assms by (auto simp: delete_bot_def split: sum.splits option.splits)

lemma delete_bot_change:
  assumes "delete_bot caller i fresh aid now db = (out, db')"
  shows "bot_change db db'"
  using assms
proof (cases rule: delete_bot_cases)
  case (2 b p n db1 evs)
  note b = bot_forD[OF 2(2)]
  have "bot_change db db1"
    unfolding bot_change_def
    by (intro exI conjI, rule bot_move.Deleted[of db i b])
      (use b delete_transactionD[OF 2(3)] in auto)
  then show ?thesis using 2(4) by (rule bot_change_to)
qed (auto intro: bot_change_same)

lemma create_token_change:
  assumes "create_token fmt config H caller i k raw now db = (out, db')"
  shows "bot_change db db'"
proof -
  obtain res db1 where g: "rate_guard fmt config (BotTokenIssue i) now db = (res, db1)" by fastforce
  note s1 = same_bots_guard[OF g]
  consider "db' = db" | "db' = db1"
    | (ok) b where "bot_for db caller i = Inr b" "insert_token k i (H raw) now db1 = Some db'"
    using assms g by (auto simp: create_token_def split: sum.splits option.splits)
  then show ?thesis
  proof cases
    case ok
    have "find_bot db1 i = Some b" using bot_forD[OF ok(1)] same_botsD(1)[OF s1] by simp
    moreover obtain tok where "bt_bot_id tok = i" "db' = db1\<lparr>bot_tokens := bot_tokens db1 @ [tok]\<rparr>"
      using insert_tokenD[OF ok(2)] by blast
    ultimately have "bot_change db1 db'" using bot_change_move[OF bot_move.Token_issued] by blast
    then show ?thesis using s1 by (rule bot_change_from)
  qed (use s1 in \<open>auto intro: bot_change_same\<close>)
qed

lemma tokens_marked_change:
  assumes "\<And>x. bt_bot_id (f x) = bt_bot_id x" "\<And>x. bt_revoked_at x \<noteq> None \<Longrightarrow> bt_revoked_at (f x) \<noteq> None"
  shows "bot_change db (db\<lparr>bot_tokens := update_where p f (bot_tokens db)\<rparr>)"
  using assms by (rule bot_change_move[OF bot_move.Tokens_marked])

text \<open>The state a conditional leaves, without a look at its condition.\<close>

lemma state_of_sum_if:
  "(case x of Inl e \<Rightarrow> (f e, d) | Inr y \<Rightarrow> if c then (a, d) else (b, d2)) = (out, d') \<Longrightarrow> d' = d \<or> d' = d2"
  by (cases x) (auto split: if_splits)

lemma state_of_option:
  "(case x of None \<Rightarrow> (a, d) | Some t \<Rightarrow> (f t, h t)) = (out, d') \<Longrightarrow> d' = d \<or> (\<exists>t. d' = h t)"
  by (cases x) auto

lemma delete_token_change:
  assumes "delete_token caller i k now db = (out, db')"
  shows "bot_change db db'"
proof -
  have "db' = db \<or> db' = db\<lparr>bot_tokens := update_where (\<lambda>t. bt_id t = k \<and> bt_bot_id t = i \<and> bt_revoked_at t = None)
      (\<lambda>t. t\<lparr>bt_revoked_at := Some (current_timestamp now)\<rparr>) (bot_tokens db)\<rparr>"
    using assms unfolding delete_token_def Let_def by (rule state_of_sum_if)
  then consider "db' = db" | "db' = db\<lparr>bot_tokens := update_where (\<lambda>t. bt_id t = k \<and> bt_bot_id t = i \<and> bt_revoked_at t = None)
      (\<lambda>t. t\<lparr>bt_revoked_at := Some (current_timestamp now)\<rparr>) (bot_tokens db)\<rparr>" by blast
  then show ?thesis
  proof cases
    case 2
    show ?thesis unfolding 2 by (rule tokens_marked_change) auto
  qed (auto intro: bot_change_same)
qed

lemma rotate_change:
  assumes "rotate_bot_keys fmt config day b64' SHA from_json caller i req aid now db = (out, db')"
  shows "bot_change db db'"
proof -
  obtain res db1 where g: "rate_guard fmt config (BotKeyRotate i) now db = (res, db1)" by fastforce
  note s1 = same_bots_guard[OF g]
  consider "db' = db" | "db' = db1"
    | (ok) b keys n db2 where "rotate_transaction SHA b keys now db1 = Some (n, db2)" "same_bots db2 db'"
    using assms g by (auto simp: rotate_bot_keys_def Let_def split: sum.splits option.splits)
  then show ?thesis
  proof cases
    case ok
    obtain bi bc ik where k: "keys = (bi, bc, ik)" by (cases keys)
    obtain m db3 where 3: "append_bot_leaf SHA (b_id b) (utf8_bytes bi) (utf8_bytes bc) (utf8_bytes ik) now db1 = Some (m, db3)"
      and 4: "allocate_user_seq (db3\<lparr>bot_accounts := update_where (\<lambda>r. b_id r = b_id b \<and> b_deleted_at r = None)
        (\<lambda>r. r\<lparr>b_bot_identity_pubkey := bi, b_bot_command_pubkey := bc, b_identity_pubkey := ik\<rparr>)
        (bot_accounts db3)\<rparr>) (b_owner_user_id b) = Some (n, db2)"
      using ok(1) by (auto simp: rotate_transaction_def k split: option.splits)
    have "bot_change db3 (db3\<lparr>bot_accounts := update_where (\<lambda>r. b_id r = b_id b \<and> b_deleted_at r = None)
        (\<lambda>r. r\<lparr>b_bot_identity_pubkey := bi, b_bot_command_pubkey := bc, b_identity_pubkey := ik\<rparr>)
        (bot_accounts db3)\<rparr>)"
      by (rule bot_change_move, rule bot_move.Described) auto
    then show ?thesis
      using s1 same_bots_leaf[OF 3] same_bots_seq[OF 4] ok(2) by (meson bot_change_from bot_change_to)
  qed (use s1 in \<open>auto intro: bot_change_same\<close>)
qed

lemma validate_bot_token_change:
  assumes "validate_bot_token H raw now db = (b, db')"
  shows "bot_change db db'"
proof -
  have "db' = db \<or> (\<exists>t :: bot_token_row. db' = db\<lparr>bot_tokens := update_where (\<lambda>r. bt_id r = bt_id t)
      (\<lambda>r. r\<lparr>bt_last_used_at := Some (current_timestamp now)\<rparr>) (bot_tokens db)\<rparr>)"
    using state_of_option[OF assms[unfolded validate_bot_token_def]] .
  then consider "db' = db" | t :: bot_token_row where "db' = db\<lparr>bot_tokens := update_where (\<lambda>r. bt_id r = bt_id t)
      (\<lambda>r. r\<lparr>bt_last_used_at := Some (current_timestamp now)\<rparr>) (bot_tokens db)\<rparr>"
    by blast
  then show ?thesis
  proof cases
    case 2
    show ?thesis unfolding 2 by (rule tokens_marked_change) auto
  qed (auto intro: bot_change_same)
qed

lemma room_gone_rows:
  "same_bots (db\<lparr>room_bots := delete_where (\<lambda>rb. rb_room_id rb = r) (room_bots db),
      room_bot_scopes := delete_where (\<lambda>s. sc_room_id s = r) (room_bot_scopes db)\<rparr>) (delete_room_cascade r db)"
  by (simp add: same_bots_def delete_room_cascade_def)

lemma room_gone_bots_ok: "bots_ok db \<Longrightarrow> bots_ok (delete_room_cascade r db)"
  using room_gone_ok bots_ok_same[OF room_gone_rows] by blast

section \<open>Runs\<close>

datatype bot_op = BotHandler | RoomDropped id

inductive bot_step :: "db \<Rightarrow> bot_op \<Rightarrow> db \<Rightarrow> bool" where
  Grant: "grant_bot fmt config u r req fresh aid now db = (out1, db') \<Longrightarrow> bot_step db BotHandler db'"
| Patch_grant: "patch_room_bot u r i ss fresh rid now db = (out1, db') \<Longrightarrow> bot_step db BotHandler db'"
| Revoke: "delete_room_bot u r i rid aid now db = (out2, db') \<Longrightarrow> bot_step db BotHandler db'"
| Create: "create_bot fmt config b64url SHA H to_json u cbr i k raw aid now db = (out3, db') \<Longrightarrow> bot_step db BotHandler db'"
| Patch: "patch_bot to_json from_json caller i pbr aid now db = (out3, db') \<Longrightarrow> bot_step db BotHandler db'"
| Delete: "delete_bot caller i fresh aid now db = (out2, db') \<Longrightarrow> bot_step db BotHandler db'"
| Create_token: "create_token fmt config H caller i k raw now db = (out4, db') \<Longrightarrow> bot_step db BotHandler db'"
| Delete_token: "delete_token caller i k now db = (out5, db') \<Longrightarrow> bot_step db BotHandler db'"
| Rotate: "rotate_bot_keys fmt config day b64url SHA from_json caller i rkr aid now db = (out3, db') \<Longrightarrow>
    bot_step db BotHandler db'"
| Authenticate: "validate_bot_token H raw now db = (ctx, db') \<Longrightarrow> bot_step db BotHandler db'"
| Room_deleted: "bot_step db (RoomDropped r) (delete_room_cascade r db)"

lemma bot_step_changes:
  assumes "bot_step db BotHandler db'"
  shows "\<exists>db1. bot_change db db1 \<and> bot_change db1 db'"
proof -
  have one: "\<exists>db1. bot_change db db1 \<and> bot_change db1 db'" if "bot_change db db'"
    using that bot_change_same[OF same_bots_refl] by blast
  show ?thesis
    using assms
    by cases (fast intro: one grant_bot_change patch_room_bot_change delete_room_bot_change create_bot_change
        delete_bot_change create_token_change delete_token_change rotate_change validate_bot_token_change
        patch_bot_change)+
qed

lemma bot_step_keeps:
  assumes "bot_step db l db'" and "P db"
    and "\<And>a b. bot_change a b \<Longrightarrow> P a \<Longrightarrow> P b"
    and "\<And>a r. l = RoomDropped r \<Longrightarrow> P a \<Longrightarrow> P (delete_room_cascade r a)"
  shows "P db'"
proof (cases l)
  case BotHandler
  with assms(1) have "bot_step db BotHandler db'" by simp
  from bot_step_changes[OF this] assms(2,3) show ?thesis by blast
next
  case (RoomDropped r)
  with assms(1) have "db' = delete_room_cascade r db" by cases simp_all
  with assms(2,4) RoomDropped show ?thesis by simp
qed

lemma run_bot_steps_keep:
  assumes "run bot_step db ops db'" and "P db" and "\<And>a b. bot_change a b \<Longrightarrow> P a \<Longrightarrow> P b"
    and "\<And>a r. RoomDropped r \<in> set ops \<Longrightarrow> P a \<Longrightarrow> P (delete_room_cascade r a)"
  shows "P db'"
  using assms(1,2,4)
proof induction
  case (run_step s l t ls s')
  have "P t" by (rule bot_step_keeps[OF run_step.hyps(1), of P]) (use run_step.prems assms(3) in auto)
  with run_step show ?case by simp
qed simp


lemma run_bots_ok: "run bot_step db ops db' \<Longrightarrow> bots_ok db \<Longrightarrow> bots_ok db'"
  by (rule run_bot_steps_keep[where P = bots_ok]) (auto intro: bot_change_ok room_gone_bots_ok)

lemma room_gone_deleted: "deleted_bot db i \<Longrightarrow> deleted_bot (delete_room_cascade r db) i"
  by (simp add: deleted_bot_def delete_room_cascade_def)

lemma run_deleted: "run bot_step db ops db' \<Longrightarrow> deleted_bot db i \<Longrightarrow> deleted_bot db' i"
  by (rule run_bot_steps_keep[where P = "\<lambda>d. deleted_bot d i"])
    (auto intro: bot_change_deleted room_gone_deleted)

end
