(* ===== verification/BotLifeProps.thy ===== *)
theory BotLifeProps
  imports BotLife
begin

text \<open>
  The guarantees of the bot accounts and grants, over single operations and over runs of
  \<open>bot_step\<close>: whatever bot handlers run, in whatever order, interleaved with room deletions.
\<close>

section \<open>Well-formedness\<close>

text \<open>
  C5. Grants, scopes, tokens and operators stay well formed under every sequence of bot handlers,
  successful or not, and room deletions: an active grant has a non-empty set of scopes out of the
  vocabulary, closed under their dependencies and declared by the bot, and its stored mode is the one
  these scopes give; a room has at most ten active bots; a grant is stored once; and a deleted
  bot has no active grant, no valid token and no operator.
\<close>

theorem bots_stay_well_formed:
  assumes "bots_ok db" and "run bot_step db ops db'"
  shows "bots_ok db'"
  by (rule run_bots_ok[OF assms(2,1)])

section \<open>Deleted bots\<close>

lemma powerlessD:
  assumes "powerless db i"
  shows "active_grant db r i = None" "\<not> is_bot_operator db i u"
    "t \<in> set (bot_tokens db) \<Longrightarrow> bt_bot_id t = i \<Longrightarrow> bt_revoked_at t \<noteq> None"
  using assms by (auto simp: powerless_def active_grant_def is_bot_operator_def find_None_iff_all)

lemma deleted_bot_unfound: "bots_ok db \<Longrightarrow> deleted_bot db i \<Longrightarrow> find_bot db i = None"
  using find_bot_alive(4) by (metis deleted_bot_def not_None_eq)

lemma validated_token:
  assumes "validate_bot_token H raw t db = (Some ctx, db')"
  shows "\<exists>tok \<in> set (bot_tokens db). bt_bot_id tok = bx_bot_id ctx \<and> bt_revoked_at tok = None"
  using assms by (auto simp: validate_bot_token_def split: option.splits dest!: find_SomeD)

lemma delete_bot_deletes:
  assumes "delete_bot caller i fresh aid now db = (Inr evs, db')"
  shows "deleted_bot db' i"
  using assms
proof (cases rule: delete_bot_cases)
  case (2 b p n db1 evs)
  have "b \<in> set (bot_accounts db)" "b_id b = i"
    using bot_forD[OF 2(2)] by (auto simp: find_bot_def dest: find_SomeD)
  then show ?thesis
    using delete_transactionD[OF 2(3)] 2(4) by (auto simp: same_bots_def deleted_bot_def bex_update_where intro!: bexI[of _ b])
qed simp

text \<open>
  C16. A deleted bot stays without power: after a successful deletion and any further handlers and room
  deletions no token authenticates it, it has no active grant in any room and no operator, and every
  handler that starts from its account, its owner's included, answers that there is no such bot.
\<close>

theorem deleted_bot_powerless:
  assumes "bots_ok db" and "delete_bot caller i fresh aid now db = (Inr evs, db1)"
    and "run bot_step db1 ops db2"
  shows "(\<forall>ctx db3. validate_bot_token H raw t db2 = (Some ctx, db3) \<longrightarrow> bx_bot_id ctx \<noteq> i) \<and>
    active_grant db2 r i = None \<and> \<not> is_bot_operator db2 i u \<and>
    bot_for db2 c i = Inl (ApiNotFound ''bot_not_found'')"
proof -
  have "bots_ok db1" by (rule bot_change_ok[OF delete_bot_change[OF assms(2)] assms(1)])
  then have ok: "bots_ok db2" by (rule run_bots_ok[OF assms(3)])
  have del: "deleted_bot db2 i"
    by (rule run_deleted[OF assms(3) delete_bot_deletes[OF assms(2)]])
  note p = powerlessD[OF deleted_powerless[OF ok del]]
  show ?thesis
    using p(1,2) deleted_bot_unfound[OF ok del] validated_token[of H raw t db2] p(3)
    unfolding bot_for_def by (metis option.case(1))
qed

section \<open>Revoked grants\<close>

definition revoked_grant :: "db \<Rightarrow> id \<Rightarrow> id \<Rightarrow> bool" where
  "revoked_grant db r i \<longleftrightarrow> (\<exists>rb \<in> set (room_bots db). grant_key rb = (r, i) \<and> rb_revoked_at rb \<noteq> None)"

lemma bot_change_revoked:
  assumes "bot_change db db'" and "revoked_grant db r i"
  shows "revoked_grant db' r i"
proof -
  obtain m where m: "bot_move db m" "same_bots m db'" using assms(1) by (auto simp: bot_change_def)
  obtain rb where rb: "rb \<in> set (room_bots db)" "grant_key rb = (r, i)" "rb_revoked_at rb \<noteq> None"
    using assms(2) by (auto simp: revoked_grant_def)
  from m(1) have "revoked_grant m r i"
    by cases (use rb in \<open>auto simp: revoked_grant_def bex_update_where grant_key_def intro!: bexI[of _ rb]\<close>)
  with m(2) show ?thesis by (simp add: revoked_grant_def same_bots_def)
qed

lemma room_gone_revoked:
  "r' \<noteq> r \<Longrightarrow> revoked_grant db r i \<Longrightarrow> revoked_grant (delete_room_cascade r' db) r i"
  by (auto simp: revoked_grant_def delete_room_cascade_def grant_key_def)

lemma delete_room_bot_revokes:
  assumes "delete_room_bot u r i rid aid now db = (Inr evs, db')"
  shows "revoked_grant db' r i"
  using assms
proof (cases rule: delete_room_bot_cases)
  case (2 grant removed db1 evs)
  have "grant \<in> set (room_bots db)" "grant_key grant = (r, i)"
    using find_SomeD[OF 2(2)[unfolded active_grant_def]] by (auto simp: grant_key_def)
  then show ?thesis
    using revoke_transactionD[OF 2(3)] 2(4)
    by (auto simp: same_bots_def revoked_grant_def bex_update_where in_grant_def grant_key_def intro!: bexI[of _ grant])
qed simp

lemma run_revoked:
  "run bot_step db ops db' \<Longrightarrow> revoked_grant db r i \<Longrightarrow> RoomDropped r \<notin> set ops \<Longrightarrow> revoked_grant db' r i"
  by (rule run_bot_steps_keep[where P = "\<lambda>d. revoked_grant d r i"])
    (auto intro: bot_change_revoked room_gone_revoked)

lemma revoked_grant_same: "same_bots db db' \<Longrightarrow> revoked_grant db' r i = revoked_grant db r i"
  by (simp add: revoked_grant_def same_bots_def)

lemma revoked_not_grantable:
  assumes "revoked_grant db r (gq_bot_id req)"
  shows "grant_transaction r u req fresh now db = None"
proof (rule ccontr)
  assume "grant_transaction r u req fresh now db \<noteq> None"
  then obtain x y z where "grant_transaction r u req fresh now db = Some (x, y, z)" by auto
  from grant_transactionD[OF this] have "(r, gq_bot_id req) \<notin> grant_key ` set (room_bots db)" by blast
  with assms show False by (auto simp: revoked_grant_def image_iff)
qed

text \<open>
  C35. A bot whose grant for a room was revoked can never be granted there again: as long as the room
  exists every attempt fails, and one that passes all checks of the handler fails with an
  internal error, because the revoked row still holds the primary key.
\<close>

theorem revoked_bot_stays_out:
  assumes "delete_room_bot u r (gq_bot_id req) rid aid now db = (Inr evs, db1)"
    and "run bot_step db1 ops db2" and "RoomDropped r \<notin> set ops"
    and "grant_bot fmt config u' r req fresh aid' t db2 = (out, db3)"
  shows "(\<exists>e. out = Inl e) \<and>
    (check_room_grant_auth db2 r u' = Inr () \<and> rate_guard fmt config (BotGrant u') t db2 = (Inr (), db4) \<and>
       check_grant db4 r req = Inr b \<longrightarrow> out = Inl ApiInternal)"
proof -
  have rev: "revoked_grant db2 r (gq_bot_id req)"
    by (rule run_revoked[OF assms(2) delete_room_bot_revokes[OF assms(1)] assms(3)])
  obtain res d where g: "rate_guard fmt config (BotGrant u') t db2 = (res, d)" by fastforce
  have "grant_transaction r u' req fresh t d = None"
    by (rule revoked_not_grantable) (simp add: revoked_grant_same[OF same_bots_guard[OF g]] rev)
  then show ?thesis
    using assms(4) g by (auto simp: grant_bot_def split: sum.splits)
qed


section \<open>Key packages of bots\<close>

text \<open>The key packages a grant may take, in the order of the query.\<close>

definition available_packages :: "db \<Rightarrow> id \<Rightarrow> key_package_row list" where
  "available_packages db i =
     sort_key (\<lambda>k. (k_client_id k, k_created_at k))
       (filter (\<lambda>k. k_bot_id k = Some i \<and> \<not> k_consumed k \<and> \<not> k_is_last_resort k) (key_packages db))"

lemma fold_consume:
  "key_packages (fold (\<lambda>(_, k). consume_key_package k now) ks db) =
     map (\<lambda>k. if k_id k \<in> snd ` set ks then k\<lparr>k_consumed := True, k_consumed_at := Some (current_timestamp now)\<rparr> else k)
       (key_packages db)"
  by (induction ks arbitrary: db) (auto simp: consume_key_package_def update_where_def)

lemma select_bot_key_packagesD:
  assumes "select_bot_key_packages i now db = (sel, db')"
  shows "sel = map (\<lambda>k. (k_client_id k, k_id k)) (available_packages db i)" "available_packages db' i = []"
    "pending_mls_adds db' = pending_mls_adds db"
proof -
  let ?sel = "map (\<lambda>k. (k_client_id k, k_id k)) (available_packages db i)"
  have s: "sel = ?sel" "db' = fold (\<lambda>(_, k). consume_key_package k now) ?sel db"
    using assms by (auto simp: select_bot_key_packages_def available_packages_def Let_def)
  show "sel = ?sel" by (rule s)
  have ids: "k_id k \<in> snd ` set ?sel"
    if "k \<in> set (key_packages db)" "k_bot_id k = Some i" "\<not> k_consumed k" "\<not> k_is_last_resort k" for k
    using that by (auto simp: available_packages_def image_image intro!: rev_image_eqI)
  have "k_consumed x \<or> k_bot_id x \<noteq> Some i \<or> k_is_last_resort x" if "x \<in> set (key_packages db')" for x
  proof -
    define g where "g k = (if k_id k \<in> snd ` set ?sel
      then k\<lparr>k_consumed := True, k_consumed_at := Some (current_timestamp now)\<rparr> else k)" for k :: key_package_row
    have "x \<in> set (map g (key_packages db))" using that unfolding s(2) fold_consume g_def .
    then obtain k where k: "k \<in> set (key_packages db)" "x = g k" unfolding list.set_map by blast
    then show ?thesis using ids[OF k(1)] by (cases "k_id k \<in> snd ` set ?sel") (auto simp only: g_def if_True if_False, auto)
  qed
  then have "filter (\<lambda>k. k_bot_id k = Some i \<and> \<not> k_consumed k \<and> \<not> k_is_last_resort k) (key_packages db') = []"
    by (auto simp: filter_empty_conv)
  then show "available_packages db' i = []" by (simp add: available_packages_def)
  from consume_packages_rows[of now ?sel db] show "pending_mls_adds db' = pending_mls_adds db" unfolding s(2) by auto
qed

definition same_packages :: "db \<Rightarrow> db \<Rightarrow> bool" where
  "same_packages db db' \<longleftrightarrow> key_packages db' = key_packages db \<and> pending_mls_adds db' = pending_mls_adds db"

lemma same_packages_refl [simp]: "same_packages db db"
  by (simp add: same_packages_def)

lemma same_packages_audit [simp]: "same_packages db (audit a b c d e f now db)"
  by (simp add: same_packages_def audit_def split: option.splits)

lemma same_packages_trans: "same_packages a b \<Longrightarrow> same_packages b c \<Longrightarrow> same_packages a c"
  by (simp add: same_packages_def)

lemma same_packages_operator_audit: "same_packages db (operator_audit act u b r f now ops db)"
proof -
  have "same_packages db (fold (\<lambda>(i, op). audit (Some u) act (Some ''bot'') (Some b) (m op) (f i) now) xs db)" for xs m
    by (induction xs arbitrary: db) (auto intro: same_packages_trans[OF same_packages_audit])
  then show ?thesis unfolding operator_audit_def .
qed

lemma same_packages_guard: "rate_guard fmt config key now db = (out, db') \<Longrightarrow> same_packages db db'"
  using rate_guard_frame[of fmt config key now db] by (auto simp: same_packages_def)

lemma member_grant_packages:
  assumes "grant_transaction r u req fresh now db = Some (added, clients, db')" and "derive_mode (gq_scopes req) = Member"
  shows "available_packages db' (gq_bot_id req) = []"
    "\<exists>new. pending_mls_adds db' = pending_mls_adds db @ new \<and>
       map (\<lambda>p. (pa_target_client_id p, pa_key_package_id p)) new =
         map (\<lambda>k. (k_client_id k, k_id k)) (available_packages db (gq_bot_id req)) \<and>
       (\<forall>p \<in> set new. pa_room_id p = r \<and> pa_target_bot_id p = Some (gq_bot_id req))"
proof -
  let ?i = "gq_bot_id req"
  obtain db1 db2 db3 where
    1: "insert_room_bot r ?i Member u now db = Some db1" and
    2: "insert_scopes r ?i (gq_scopes req) db1 = Some db2" and
    3: "bind_operators ?i (null_text (gq_operators req)) u now db2 = Some (added, db3)" and
    4: "queue_bot_add r ?i fresh now db3 = Some (clients, db')"
    using assms by (auto simp: grant_transaction_def Let_def split: option.splits)
  have "same_packages db db3"
    using insert_room_botD[OF 1] insert_scopesD[OF 2] bind_operatorsD[OF 3] by (auto simp: same_packages_def)
  then have s: "available_packages db3 = available_packages db" "pending_mls_adds db3 = pending_mls_adds db"
    by (simp_all add: same_packages_def available_packages_def fun_eq_iff)
  obtain sel db4 q where 5: "select_bot_key_packages ?i now db3 = (sel, db4)"
    and 6: "queue_pending_mls_add_batch r (TargetBot ?i) sel fresh now db4 = Inr (q, db')"
    using 4 by (auto simp: queue_bot_add_def split: prod.splits sum.splits)
  note d = select_bot_key_packagesD[OF 5]
  note e = queue_adds_rows[OF 6]
  show "available_packages db' ?i = []" using d(2) e by (simp add: available_packages_def)
  show "\<exists>new. pending_mls_adds db' = pending_mls_adds db @ new \<and>
       map (\<lambda>p. (pa_target_client_id p, pa_key_package_id p)) new =
         map (\<lambda>k. (k_client_id k, k_id k)) (available_packages db ?i) \<and>
       (\<forall>p \<in> set new. pa_room_id p = r \<and> pa_target_bot_id p = Some ?i)"
    using e d(1,3) s by (auto simp: target_ids_def)
qed

lemma grant_bot_cases:
  assumes "grant_bot fmt config u r req fresh aid now db = (out, db')"
  obtains e db1 where "out = Inl e" "same_bots db db'"
  | res db1 b added clients db2 where "out = Inr res" "rate_guard fmt config (BotGrant u) now db = (Inr (), db1)"
      "check_grant db1 r req = Inr b"
      "grant_transaction r u req fresh now db1 = Some (added, clients, db2)"
      "db' = operator_audit ''bot.operator.bound'' u (gq_bot_id req) r aid now added db2"
  using assms same_bots_guard[of fmt config "BotGrant u" now db]
  by (auto simp: grant_bot_def Let_def split: sum.splits option.splits prod.splits)

text \<open>
  A grant with content access takes every key package of the bot at once: an addition is queued for
  each package that was left, several for one client if it had published several, and none is left
  for the next room, whose grant then succeeds without queueing any addition.
\<close>

theorem grant_takes_all_key_packages:
  assumes "grant_bot fmt config u r req fresh aid now db = (Inr res, db1)" and "derive_mode (gq_scopes req) = Member"
    and "grant_bot fmt config u' r' req' fresh' aid' now' db1 = (Inr res', db2)" and "gq_bot_id req' = gq_bot_id req"
    and "derive_mode (gq_scopes req') = Member"
  shows "(\<exists>new. pending_mls_adds db1 = pending_mls_adds db @ new \<and>
      map (\<lambda>p. (pa_target_client_id p, pa_key_package_id p)) new =
        map (\<lambda>k. (k_client_id k, k_id k)) (available_packages db (gq_bot_id req)) \<and>
      (\<forall>p \<in> set new. pa_room_id p = r \<and> pa_target_bot_id p = Some (gq_bot_id req))) \<and>
    available_packages db1 (gq_bot_id req) = [] \<and> pending_mls_adds db2 = pending_mls_adds db1"
proof -
  have grant: "available_packages d2 (gq_bot_id q) = [] \<and>
      (\<exists>new. pending_mls_adds d2 = pending_mls_adds d @ new \<and>
        map (\<lambda>p. (pa_target_client_id p, pa_key_package_id p)) new =
          map (\<lambda>k. (k_client_id k, k_id k)) (available_packages d (gq_bot_id q)) \<and>
        (\<forall>p \<in> set new. pa_room_id p = rm \<and> pa_target_bot_id p = Some (gq_bot_id q)))"
    if "grant_bot fmt config us rm q fr ai t d = (Inr x, d2)" "derive_mode (gq_scopes q) = Member" for us rm q fr ai t d x d2
    using that(1)
  proof (cases rule: grant_bot_cases)
    case (2 res d1 b added clients d3)
    have s: "same_packages d d1" "same_packages d3 d2"
      using same_packages_guard[OF 2(2)] same_packages_operator_audit 2(5) by auto
    then have "available_packages d1 = available_packages d" "available_packages d2 = available_packages d3"
      by (simp_all add: same_packages_def available_packages_def fun_eq_iff)
    with s member_grant_packages[OF 2(4) that(2)] show ?thesis by (simp add: same_packages_def)
  qed simp
  from grant[OF assms(1,2)] grant[OF assms(3,5)] assms(4) show ?thesis by auto
qed

section \<open>Changes of an account\<close>

text \<open>
  A request that changes both the name and the declarations of a bot, and whose declarations are
  refused, is answered with that error, but the new name is already stored, and nobody is told.
\<close>

theorem patch_bot_half_done:
  assumes "bot_for db caller i = Inr b" and "pb_display_name req = Some nm" and "trim nm \<noteq> []"
    and "length (trim nm) \<le> 64" and "trim nm \<noteq> b_display_name b" and "pb_declarations req = Some (Some v)"
    and "validate_declarations_top_level to_json v = Some e"
  shows "patch_bot to_json from_json caller i req aid now db = (Inl e, update_bot i (\<lambda>r. r\<lparr>b_display_name := trim nm\<rparr>) db)"
proof -
  have "b_id b = i" using bot_forD[OF assms(1)] by simp
  with assms show ?thesis by (simp add: patch_bot_def patch_name_def patch_declarations_def Let_def)
qed

section \<open>Examples\<close>

text \<open>
  A bot with two key packages of one client, and a user \<open>a\<close> who owns it and two rooms.
\<close>

definition bot_package :: "id \<Rightarrow> time \<Rightarrow> key_package_row" where
  "bot_package i t = \<lparr>k_id = i, k_user_id = None, k_bot_id = Some ''bot1'', k_client_id = ''c1'', k_cipher_suite = 1,
     k_key_package = [], k_is_last_resort = False, k_consumed = False, k_consumed_at = None, k_created_at = t\<rparr>"

definition life_db :: db where
  "life_db = bot_example_db\<lparr>
     rooms := rooms bot_example_db @ [new_room_row ''r2'' ''a'' None None 0],
     room_members := room_members bot_example_db @
       [\<lparr>m_room_id = ''r2'', m_user_id = ''a'', m_role = ''owner'', m_joined_via = Some ''create'', m_joined_at = 0\<rparr>],
     room_bots := [], room_bot_scopes := [],
     bot_declared_scopes := [\<lparr>dc_bot_id = ''bot1'', dc_scope = ''read_content''\<rparr>],
     key_packages := [bot_package ''p1'' 1, bot_package ''p2'' 2]\<rparr>"

definition life_req :: grant_bot_req where
  "life_req = \<lparr>gq_bot_id = ''bot1'', gq_scopes = [''read_content''], gq_operators = None\<rparr>"

definition toy_grant :: "id \<Rightarrow> string \<Rightarrow> db \<Rightarrow> (api_error + (room_bot_view \<times> event list)) \<times> db" where
  "toy_grant r add db = grant_bot (\<lambda>_ _. []) bot_example_config ''a'' r life_req (\<lambda>n. add @ replicate n CHR ''x'') (\<lambda>_. ''au'') 0 db"

definition toy_delete :: "db \<Rightarrow> (api_error + event list) \<times> db" where
  "toy_delete db = delete_bot (UserCaller example_user) ''bot1'' (\<lambda>n. replicate n CHR ''d'') ''ad'' 0 db"

definition toy_revoke :: "id \<Rightarrow> db \<Rightarrow> (api_error + event list) \<times> db" where
  "toy_revoke r db = delete_room_bot ''a'' r ''bot1'' ''rv'' (\<lambda>_. ''ar'') 0 db"

lemma life_db_ok: "bots_ok life_db"
  by (simp add: bots_ok_def life_db_def bot_example_db_def)

lemma toy_grant_step: "bot_step db BotHandler (snd (toy_grant r add db))"
  unfolding toy_grant_def by (rule bot_step.Grant) (rule surjective_pairing)

lemma ok_result: "\<not> isl (fst p) \<Longrightarrow> p = (Inr (projr (fst p)), snd p)"
  by (cases p) auto

theorem bots_stay_well_formed_witness:
  "\<not> isl (fst (toy_grant ''r'' ''x'' life_db)) \<and> bots_ok (snd (toy_grant ''r'' ''x'' life_db))"
proof
  show "\<not> isl (fst (toy_grant ''r'' ''x'' life_db))" by code_simp
  show "bots_ok (snd (toy_grant ''r'' ''x'' life_db))"
    by (rule bots_stay_well_formed[OF life_db_ok]) (rule run_step, rule toy_grant_step, rule run_stop)
qed

theorem deleted_bot_powerless_witness:
  "active_grant (snd (toy_delete (snd (toy_grant ''r'' ''x'' life_db)))) ''r'' ''bot1'' = None \<and>
   bot_for (snd (toy_delete (snd (toy_grant ''r'' ''x'' life_db)))) (UserCaller example_user) ''bot1'' =
     Inl (ApiNotFound ''bot_not_found'')"
proof -
  let ?d = "snd (toy_grant ''r'' ''x'' life_db)"
  have ok: "bots_ok ?d"
    by (rule run_bots_ok[OF _ life_db_ok]) (rule run_step, rule toy_grant_step, rule run_stop)
  have "\<not> isl (fst (toy_delete ?d))" by code_simp
  from ok_result[OF this, unfolded toy_delete_def]
  show ?thesis
    using deleted_bot_powerless[OF ok, of "UserCaller example_user" "''bot1''" "\<lambda>n. replicate n CHR ''d''" "''ad''" 0
        "projr (fst (toy_delete ?d))" "snd (toy_delete ?d)" "[]" "snd (toy_delete ?d)" "\<lambda>s. s" "[]" 0 "''r''" "''a''"
        "UserCaller example_user"] run_stop[of bot_step "snd (toy_delete ?d)"]
    by (simp add: toy_delete_def)
qed

theorem revoked_bot_stays_out_witness:
  "fst (toy_grant ''r'' ''y'' (snd (toy_revoke ''r'' (snd (toy_grant ''r'' ''x'' life_db))))) = Inl ApiInternal"
proof -
  let ?d1 = "snd (toy_revoke ''r'' (snd (toy_grant ''r'' ''x'' life_db)))"
  let ?g = "rate_guard (\<lambda>_ _. []) bot_example_config (BotGrant ''a'') 0 ?d1"
  have "\<not> isl (fst (toy_revoke ''r'' (snd (toy_grant ''r'' ''x'' life_db))))" by code_simp
  note rev = ok_result[OF this, unfolded toy_revoke_def]
  have "\<not> isl (check_room_grant_auth ?d1 ''r'' ''a'')" by code_simp
  then have auth: "check_room_grant_auth ?d1 ''r'' ''a'' = Inr ()" by (cases "check_room_grant_auth ?d1 ''r'' ''a''") auto
  have "fst ?g = Inr ()" by code_simp
  then have guard: "?g = (Inr (), snd ?g)" by (metis prod.collapse)
  have "\<not> isl (check_grant (snd ?g) ''r'' life_req)" by code_simp
  then obtain b where check: "check_grant (snd ?g) ''r'' life_req = Inr b"
    by (cases "check_grant (snd ?g) ''r'' life_req") auto
  have "gq_bot_id life_req = ''bot1''" by (simp add: life_req_def)
  with revoked_bot_stays_out[of "''a''" "''r''" life_req "''rv''" "\<lambda>_. ''ar''" 0 "snd (toy_grant ''r'' ''x'' life_db)" _ ?d1 "[]" ?d1
      "\<lambda>_ _. []" bot_example_config "''a''" "\<lambda>n. ''y'' @ replicate n CHR ''x''" "\<lambda>_. ''au''" 0
      "fst (toy_grant ''r'' ''y'' ?d1)" "snd (toy_grant ''r'' ''y'' ?d1)" "snd ?g" b]
  show ?thesis
    using rev auth guard check run_stop[of bot_step ?d1] by (simp add: toy_revoke_def toy_grant_def)
qed

theorem grant_takes_all_key_packages_witness:
  "length (pending_mls_adds (snd (toy_grant ''r'' ''x'' life_db))) = 2 \<and>
   pending_mls_adds (snd (toy_grant ''r2'' ''y'' (snd (toy_grant ''r'' ''x'' life_db)))) =
     pending_mls_adds (snd (toy_grant ''r'' ''x'' life_db))"
proof
  let ?d1 = "snd (toy_grant ''r'' ''x'' life_db)"
  show "length (pending_mls_adds ?d1) = 2" by code_simp
  have 1: "\<not> isl (fst (toy_grant ''r'' ''x'' life_db))" by code_simp
  have 2: "\<not> isl (fst (toy_grant ''r2'' ''y'' ?d1))" by code_simp
  have "derive_mode (gq_scopes life_req) = Member" by code_simp
  from grant_takes_all_key_packages[OF ok_result[OF 1, unfolded toy_grant_def] this
      ok_result[OF 2, unfolded toy_grant_def] refl this]
  show "pending_mls_adds (snd (toy_grant ''r2'' ''y'' ?d1)) = pending_mls_adds ?d1"
    unfolding toy_grant_def by blast
qed

theorem patch_bot_half_done_witness:
  "patch_bot (\<lambda>_. []) (\<lambda>_. None) (UserCaller example_user) ''bot1''
     \<lparr>pb_display_name = Some ''N'', pb_declarations = Some (Some JNull)\<rparr> ''au'' 0 life_db =
   (Inl (ApiBadRequest ''invalid_declarations''),
    update_bot ''bot1'' (\<lambda>r. r\<lparr>b_display_name := ''N''\<rparr>) life_db)"
proof -
  have "\<not> isl (bot_for life_db (UserCaller example_user) ''bot1'')" by code_simp
  then obtain b where b: "bot_for life_db (UserCaller example_user) ''bot1'' = Inr b"
    by (cases "bot_for life_db (UserCaller example_user) ''bot1''") auto
  have n: "trim ''N'' = ''N''" by code_simp
  have "map_sum id b_display_name (bot_for life_db (UserCaller example_user) ''bot1'') = Inr ''B''" by code_simp
  with b have "b_display_name b = ''B''" by simp
  then have new: "trim ''N'' \<noteq> b_display_name b" by (simp add: n)
  have refused: "validate_declarations_top_level (\<lambda>_. []) JNull = Some (ApiBadRequest ''invalid_declarations'')"
    by (simp add: validate_declarations_top_level_def)
  let ?req = "\<lparr>pb_display_name = Some ''N'', pb_declarations = Some (Some JNull)\<rparr>"
  have p: "pb_display_name ?req = Some ''N''" "pb_declarations ?req = Some (Some JNull)" by (simp_all only: patch_bot_req.select_convs)
  have l: "trim ''N'' \<noteq> []" "length (trim ''N'') \<le> 64" unfolding n by simp_all
  note patch_bot_half_done[OF b p(1) l new p(2) refused]
  then show ?thesis unfolding n .
qed

end
