(* ===== verification/SessionTypes.thy ===== *)
theory SessionTypes
  imports Limits Texts
begin

text \<open>
  The allowlist of session types: \<open>server/src/sessions/types_config.rs\<close>.

  The TOML reader is an argument: it gives the entries with the offset at which each begins, or an error
  with the offset of its span, if it has one, and its message.  A hash map is an association
  list with one entry for each key.  The lock of the store is not modelled: its operations are atomic.
\<close>

section \<open>Types\<close>

record session_type =
  ty_type :: string
  ty_extension_id :: string
  ty_max_participants :: nat
  ty_max_per_room :: nat

record session_type_cap_view =
  tc_extension_id :: string
  tc_type :: string
  tc_max_participants :: nat

record session_type_admin_view =
  ta_type :: string
  ta_extension_id :: string
  ta_max_participants :: nat
  ta_max_per_room :: nat

definition cap_view :: "session_type \<Rightarrow> session_type_cap_view" where
  "cap_view st = \<lparr>tc_extension_id = ty_extension_id st, tc_type = ty_type st,
     tc_max_participants = ty_max_participants st\<rparr>"

definition admin_view :: "session_type \<Rightarrow> session_type_admin_view" where
  "admin_view st = \<lparr>ta_type = ty_type st, ta_extension_id = ty_extension_id st,
     ta_max_participants = ty_max_participants st, ta_max_per_room = ty_max_per_room st\<rparr>"

record session_types_config =
  sc_types :: "(string \<times> session_type) list"
  sc_types_by_extension :: "(string \<times> string list) list"

definition empty_types :: session_types_config where
  "empty_types = \<lparr>sc_types = [], sc_types_by_extension = []\<rparr>"

definition types_get :: "session_types_config \<Rightarrow> string \<Rightarrow> session_type option" where
  "types_get config type_name = map_of (sc_types config) type_name"

definition sorted_types :: "session_types_config \<Rightarrow> session_type list" where
  "sorted_types config = sort_key ty_type (map snd (sc_types config))"

record session_types_state =
  ts_declared_enabled :: bool
  ts_allowlist_loaded :: bool
  ts_config :: session_types_config

definition effective_enabled :: "session_types_state \<Rightarrow> bool" where
  "effective_enabled st \<longleftrightarrow> ts_declared_enabled st \<and> ts_allowlist_loaded st"

section \<open>The store\<close>

definition store_get :: "session_types_state \<Rightarrow> string \<Rightarrow> session_type option" where
  "store_get st type_name = (if \<not> effective_enabled st then None else types_get (ts_config st) type_name)"

definition max_participants_for :: "session_types_state \<Rightarrow> string \<Rightarrow> nat option" where
  "max_participants_for st type_name =
     (if \<not> effective_enabled st then None else map_option ty_max_participants (types_get (ts_config st) type_name))"

definition max_per_room_for :: "session_types_state \<Rightarrow> string \<Rightarrow> nat option" where
  "max_per_room_for st type_name =
     (if \<not> effective_enabled st then None else map_option ty_max_per_room (types_get (ts_config st) type_name))"

definition all_types :: "session_types_state \<Rightarrow> session_type list" where
  "all_types st = (if \<not> effective_enabled st then [] else sorted_types (ts_config st))"

definition capabilities_types :: "session_types_state \<Rightarrow> session_type_cap_view list" where
  "capabilities_types st = (if \<not> effective_enabled st then [] else map cap_view (sorted_types (ts_config st)))"

definition admin_types :: "session_types_state \<Rightarrow> session_type_admin_view list" where
  "admin_types st = map admin_view (sorted_types (ts_config st))"

section \<open>Reading the file\<close>

datatype session_types_error =
    ConfigMissing string
  | InvalidConfig "nat option" string
  | SessionTypesIo

record raw_session_type =
  rt_type :: "string option"
  rt_extension_id :: "string option"
  rt_max_participants :: "int option"
  rt_max_per_room :: "int option"

type_synonym toml = "string \<Rightarrow> (nat option \<times> string) + (nat \<times> raw_session_type) list option"

text \<open>\<open>^[a-z][a-z0-9_-]*$\<close>.\<close>

definition is_lower :: "char \<Rightarrow> bool" where
  "is_lower c \<longleftrightarrow> 97 \<le> (of_char c :: nat) \<and> (of_char c :: nat) \<le> 122"

definition is_digit :: "char \<Rightarrow> bool" where
  "is_digit c \<longleftrightarrow> 48 \<le> (of_char c :: nat) \<and> (of_char c :: nat) \<le> 57"

fun type_regex :: "string \<Rightarrow> bool" where
  "type_regex [] = False"
| "type_regex (c # cs) \<longleftrightarrow>
     is_lower c \<and> list_all (\<lambda>d. is_lower d \<or> is_digit d \<or> d = CHR ''_'' \<or> d = CHR ''-'') cs"

definition line_of :: "string \<Rightarrow> nat \<Rightarrow> nat" where
  "line_of contents offset =
     1 + length (filter (\<lambda>c. c = CHR 0x0A) (take (min offset (length contents)) contents))"

text \<open>\<open>val as u32\<close> keeps the low 32 bits.\<close>

definition as_u32 :: "int \<Rightarrow> nat" where
  "as_u32 val = nat (val mod 2 ^ 32)"

definition non_blank :: "string option \<Rightarrow> string option" where
  "non_blank x = (case x of Some t \<Rightarrow> if trim t \<noteq> [] then Some t else None | None \<Rightarrow> None)"

definition positive :: "int option \<Rightarrow> nat option" where
  "positive x = (case x of Some val \<Rightarrow> if 1 \<le> val then Some (as_u32 val) else None | None \<Rightarrow> None)"

definition exceeds :: "string \<Rightarrow> string \<Rightarrow> nat \<Rightarrow> nat \<Rightarrow> string" where
  "exceeds type_str field v hard_max =
     ''type '' @ [CHR 0x27] @ type_str @ [CHR 0x27] @ '': '' @ field @ '' ('' @ show_nat v @
     '') exceeds server hard max ('' @ show_nat hard_max @ '')''"

definition about_type :: "string \<Rightarrow> string \<Rightarrow> string" where
  "about_type type_str what = ''type '' @ [CHR 0x27] @ type_str @ [CHR 0x27] @ '': '' @ what"

definition add_type :: "session_type \<Rightarrow> session_types_config \<Rightarrow> session_types_config" where
  "add_type st config = config\<lparr>
     sc_types := sc_types config @ [(ty_type st, st)],
     sc_types_by_extension :=
       (if map_of (sc_types_by_extension config) (ty_extension_id st) = None
        then sc_types_by_extension config @ [(ty_extension_id st, [ty_type st])]
        else map (\<lambda>(e, ts). (e, if e = ty_extension_id st then ts @ [ty_type st] else ts))
          (sc_types_by_extension config))\<rparr>"

definition read_type ::
  "nat \<Rightarrow> raw_session_type \<Rightarrow> nat \<Rightarrow> nat \<Rightarrow> session_types_config \<Rightarrow> session_types_error + session_type"
where
  "read_type line raw server_max_participants server_max_per_room config =
     (case non_blank (rt_type raw) of
        None \<Rightarrow> Inl (InvalidConfig (Some line) ''type must be non-empty'')
      | Some type_str \<Rightarrow>
          if \<not> type_regex type_str
          then Inl (InvalidConfig (Some line)
            (''invalid type '' @ [CHR 0x27] @ type_str @ [CHR 0x27] @ '': must match ^[a-z][a-z0-9_-]*$''))
          else
            (case non_blank (rt_extension_id raw) of
               None \<Rightarrow> Inl (InvalidConfig (Some line) (about_type type_str ''extension_id must be non-empty''))
             | Some extension_id \<Rightarrow>
                 (case positive (rt_max_participants raw) of
                    None \<Rightarrow> Inl (InvalidConfig (Some line) (about_type type_str ''max_participants must be >= 1''))
                  | Some max_participants \<Rightarrow>
                      if server_max_participants < max_participants
                      then Inl (InvalidConfig (Some line)
                        (exceeds type_str ''max_participants'' max_participants server_max_participants))
                      else
                        (case positive (rt_max_per_room raw) of
                           None \<Rightarrow> Inl (InvalidConfig (Some line) (about_type type_str ''max_per_room must be >= 1''))
                         | Some max_per_room \<Rightarrow>
                             if server_max_per_room < max_per_room
                             then Inl (InvalidConfig (Some line)
                               (exceeds type_str ''max_per_room'' max_per_room server_max_per_room))
                             else if map_of (sc_types config) type_str \<noteq> None
                             then Inl (InvalidConfig (Some line)
                               (''duplicate session type '' @ [CHR 0x27] @ type_str @ [CHR 0x27]))
                             else Inr \<lparr>ty_type = type_str, ty_extension_id = extension_id,
                                        ty_max_participants = max_participants, ty_max_per_room = max_per_room\<rparr>))))"

fun read_types ::
  "string \<Rightarrow> (nat \<times> raw_session_type) list \<Rightarrow> nat \<Rightarrow> nat \<Rightarrow> session_types_config \<Rightarrow>
   session_types_error + session_types_config"
where
  "read_types contents [] server_max_participants server_max_per_room config = Inr config"
| "read_types contents ((offset, raw) # raws) server_max_participants server_max_per_room config =
     (case read_type (line_of contents offset) raw server_max_participants server_max_per_room config of
        Inl e \<Rightarrow> Inl e
      | Inr st \<Rightarrow>
          read_types contents raws server_max_participants server_max_per_room (add_type st config))"

definition parse_and_validate_toml ::
  "toml \<Rightarrow> string \<Rightarrow> nat \<Rightarrow> nat \<Rightarrow> session_types_error + session_types_config"
where
  "parse_and_validate_toml from_toml contents server_max_participants server_max_per_room =
     (case from_toml contents of
        Inl (span, message) \<Rightarrow> Inl (InvalidConfig (map_option (line_of contents) span) message)
      | Inr None \<Rightarrow> Inr empty_types
      | Inr (Some raws) \<Rightarrow> read_types contents raws server_max_participants server_max_per_room empty_types)"

text \<open>What is found at the path.\<close>

datatype file_at = NoFile | Unreadable | Contents string

definition load_session_types_from_file ::
  "toml \<Rightarrow> string \<Rightarrow> file_at \<Rightarrow> nat \<Rightarrow> nat \<Rightarrow> session_types_error + session_types_config"
where
  "load_session_types_from_file from_toml path file server_max_participants server_max_per_room =
     (case file of
        NoFile \<Rightarrow> Inl (ConfigMissing path)
      | Unreadable \<Rightarrow> Inl SessionTypesIo
      | Contents contents \<Rightarrow>
          parse_and_validate_toml from_toml contents server_max_participants server_max_per_room)"

definition init_session_types_state ::
  "toml \<Rightarrow> bool \<Rightarrow> string \<Rightarrow> file_at \<Rightarrow> nat \<Rightarrow> nat \<Rightarrow> session_types_state"
where
  "init_session_types_state from_toml declared_enabled config_path file server_max_participants server_max_per_room =
     (if \<not> declared_enabled
      then \<lparr>ts_declared_enabled = False, ts_allowlist_loaded = False, ts_config = empty_types\<rparr>
      else
        (case load_session_types_from_file from_toml config_path file server_max_participants server_max_per_room of
           Inr config \<Rightarrow> \<lparr>ts_declared_enabled = True, ts_allowlist_loaded = True, ts_config = config\<rparr>
         | Inl e \<Rightarrow> \<lparr>ts_declared_enabled = True, ts_allowlist_loaded = False, ts_config = empty_types\<rparr>))"

section \<open>What is loaded\<close>

definition type_ok :: "nat \<Rightarrow> nat \<Rightarrow> session_type \<Rightarrow> bool" where
  "type_ok max_p max_r st \<longleftrightarrow> type_regex (ty_type st) \<and> trim (ty_extension_id st) \<noteq> [] \<and>
     ty_max_participants st \<le> max_p \<and> ty_max_per_room st \<le> max_r"

definition types_ok :: "nat \<Rightarrow> nat \<Rightarrow> session_types_config \<Rightarrow> bool" where
  "types_ok max_p max_r config \<longleftrightarrow>
     distinct (map fst (sc_types config)) \<and>
     (\<forall>(n, st) \<in> set (sc_types config). n = ty_type st \<and> type_ok max_p max_r st) \<and>
     distinct (map fst (sc_types_by_extension config)) \<and>
     (\<forall>e. null_text (map_of (sc_types_by_extension config) e) =
        map fst (filter (\<lambda>(n, st). ty_extension_id st = e) (sc_types config)))"

lemma empty_types_ok: "types_ok max_p max_r empty_types"
  by (simp add: types_ok_def empty_types_def)

lemma read_typeD:
  assumes "read_type line raw max_p max_r config = Inr st"
  shows "type_ok max_p max_r st" "ty_type st \<notin> fst ` set (sc_types config)"
proof -
  obtain t e p r where st: "st = \<lparr>ty_type = t, ty_extension_id = e, ty_max_participants = p, ty_max_per_room = r\<rparr>"
    "type_regex t" "non_blank (rt_extension_id raw) = Some e" "p \<le> max_p" "r \<le> max_r"
    "map_of (sc_types config) t = None"
    using assms by (auto simp: read_type_def split: option.splits if_splits)
  then show "type_ok max_p max_r st" by (auto simp: type_ok_def non_blank_def split: option.splits if_splits)
  show "ty_type st \<notin> fst ` set (sc_types config)" using st(1,6) by (simp add: map_of_eq_None_iff)
qed

lemma map_of_append_type:
  "map_of (map (\<lambda>(e, ts). (e, if e = x then f ts else ts)) al) e =
     (if e = x then map_option f (map_of al e) else map_of al e)"
  by (induction al) auto

lemma add_type_ok:
  assumes "types_ok max_p max_r config" "type_ok max_p max_r st" "ty_type st \<notin> fst ` set (sc_types config)"
  shows "types_ok max_p max_r (add_type st config)"
proof -
  let ?by = "sc_types_by_extension config"
  have by_fst: "map (fst \<circ> (\<lambda>(e, ts). (e, if e = x then f ts else ts))) ?by = map fst ?by" for x and f :: "string list \<Rightarrow> string list"
    by (simp add: comp_def split_beta)
  have idx: "null_text (map_of (sc_types_by_extension (add_type st config)) e) =
      null_text (map_of ?by e) @ (if ty_extension_id st = e then [ty_type st] else [])" for e
    by (cases "map_of ?by e") (auto simp: add_type_def map_of_append_type map_add_def split: option.splits)
  have "distinct (map fst (sc_types_by_extension (add_type st config)))"
    using assms(1) by (auto simp: types_ok_def add_type_def by_fst map_of_eq_None_iff)
  then show ?thesis using assms idx unfolding types_ok_def by (auto simp: add_type_def)
qed

lemma read_types_ok:
  "read_types contents raws max_p max_r config = Inr config' \<Longrightarrow> types_ok max_p max_r config \<Longrightarrow>
   types_ok max_p max_r config'"
proof (induction raws arbitrary: config)
  case (Cons r raws)
  obtain offset raw where r: "r = (offset, raw)" by (cases r)
  obtain st where st: "read_type (line_of contents offset) raw max_p max_r config = Inr st"
    "read_types contents raws max_p max_r (add_type st config) = Inr config'"
    using Cons.prems(1) by (auto simp: r split: sum.splits)
  from Cons.IH[OF st(2) add_type_ok[OF Cons.prems(2) read_typeD[OF st(1)]]] show ?case .
qed simp

lemma parse_types_ok:
  "parse_and_validate_toml from_toml contents max_p max_r = Inr config \<Longrightarrow> types_ok max_p max_r config"
  unfolding parse_and_validate_toml_def
  by (auto split: sum.splits option.splits intro: empty_types_ok read_types_ok[OF _ empty_types_ok])

text \<open>\<open>val as u32\<close> is taken after the check of the sign, so a cap of \<open>2\<^sup>3\<^sup>2\<close> is read as 0.\<close>

lemma wrapped_cap: "positive (Some 4294967296) = Some 0"
  by (simp add: positive_def as_u32_def)

lemma positive_cap: "positive (Some val) = Some n \<Longrightarrow> val < 2 ^ 32 \<Longrightarrow> int n = val \<and> 1 \<le> n"
  by (auto simp: positive_def as_u32_def split: if_splits)

text \<open>
  The session types a server starts with are distinct, well-formed and within the caps of the
  server, and they are in force just when sessions were switched on and the whole file was accepted:
  otherwise none is known.
\<close>

theorem session_types_loaded:
  "types_ok mp mr (ts_config (init_session_types_state from_toml declared path file mp mr)) \<and>
   effective_enabled (init_session_types_state from_toml declared path file mp mr) =
     (declared \<and> \<not> isl (load_session_types_from_file from_toml path file mp mr)) \<and>
   (effective_enabled (init_session_types_state from_toml declared path file mp mr) \<or>
    store_get (init_session_types_state from_toml declared path file mp mr) t = None)"
  unfolding init_session_types_state_def load_session_types_from_file_def
  by (auto simp: effective_enabled_def store_get_def empty_types_ok parse_types_ok split: sum.splits file_at.splits)

end
