(* ===== verification/RoomSessions.thy ===== *)
theory RoomSessions
  imports SessionTypes Rooms ApiErrors
begin

text \<open>
  The sessions of rooms: \<open>server/src/sessions/crud.rs\<close>.

  \<open>no_pad\<close> and \<open>padded\<close> are the two base64url decoders, \<open>mode\<close> is the moderation mode of the instance
  configuration.  Positions are integers: the \<open>i32\<close> of the code holds them, as
  the number of sessions of a room stays below its cap.
\<close>

section \<open>Types\<close>

record room_session_view =
  sv_session_id :: id
  sv_extension_id :: string
  sv_session_type :: string
  sv_metadata :: "string option"
  sv_metadata_version :: int
  sv_position :: int
  sv_participant_count :: nat
  sv_created_at :: time

record create_room_session_request =
  cs_extension_id :: string
  cs_session_type :: string
  cs_metadata :: "string option"
  cs_position :: "int option"
  cs_max_participants :: "nat option"

record patch_room_session_request =
  ps_metadata :: "string option"
  ps_position :: "int option"

record list_room_sessions_query =
  ls_extension_id :: "string option"
  ls_session_type :: "string option"

datatype room_session_error =
    SessionsDisabled
  | SessionRoomNotFound
  | SessionForbidden
  | SessionNotFound
  | InvalidSessionType
  | UnknownSessionType
  | InvalidExtensionId
  | ParticipantCapExceeded
  | SessionLimitReached
  | SessionInvalidMetadata
  | SessionNoChanges
  | SessionConfigOps
  | SessionDatabase

fun api_of_session_error :: "room_session_error \<Rightarrow> api_error" where
  "api_of_session_error SessionsDisabled = ApiNotImplemented ''sessions_disabled''"
| "api_of_session_error SessionRoomNotFound = ApiNotFound ''room_not_found''"
| "api_of_session_error SessionForbidden = ApiForbidden ''forbidden''"
| "api_of_session_error SessionNotFound = ApiNotFound ''session_not_found''"
| "api_of_session_error InvalidSessionType = ApiBadRequest ''invalid_session_type''"
| "api_of_session_error UnknownSessionType = ApiBadRequest ''unknown_session_type''"
| "api_of_session_error InvalidExtensionId = ApiBadRequest ''invalid_extension_id''"
| "api_of_session_error ParticipantCapExceeded = ApiBadRequest ''participant_cap_exceeded''"
| "api_of_session_error SessionLimitReached = ApiConflict ''session_limit_reached''"
| "api_of_session_error SessionInvalidMetadata = ApiBadRequest ''invalid_metadata''"
| "api_of_session_error SessionNoChanges = ApiBadRequest ''no_changes''"
| "api_of_session_error SessionConfigOps = ApiInternal"
| "api_of_session_error SessionDatabase = ApiInternal"

section \<open>Shared steps\<close>

definition validate_metadata :: "decoder \<Rightarrow> decoder \<Rightarrow> string \<Rightarrow> room_session_error + unit" where
  "validate_metadata no_pad padded meta =
     (case decode_either no_pad padded meta of
        None \<Rightarrow> Inl SessionInvalidMetadata
      | Some bs \<Rightarrow> if 65536 < length bs then Inl SessionInvalidMetadata else Inr ())"

definition check_room_membership :: "db \<Rightarrow> id \<Rightarrow> id \<Rightarrow> room_session_error + string" where
  "check_room_membership db room_id user_id =
     (case member_role db room_id user_id of None \<Rightarrow> Inl SessionRoomNotFound | Some role \<Rightarrow> Inr role)"

definition in_position_order :: "room_session_row list \<Rightarrow> room_session_row list" where
  "in_position_order t = sort_key (\<lambda>s. (rs_position s, rs_id s)) t"

definition sessions_of :: "db \<Rightarrow> id \<Rightarrow> room_session_row list" where
  "sessions_of db room_id = filter (\<lambda>s. rs_room_id s = room_id) (room_sessions db)"

definition set_position :: "id \<Rightarrow> int \<Rightarrow> db \<Rightarrow> db" where
  "set_position session_id position db = db\<lparr>room_sessions :=
     update_where (\<lambda>s. rs_id s = session_id) (\<lambda>s. s\<lparr>rs_position := position\<rparr>) (room_sessions db)\<rparr>"

definition resequence_positions :: "id \<Rightarrow> db \<Rightarrow> db" where
  "resequence_positions room_id db =
     fold (\<lambda>(idx, id, current_pos) d. if current_pos \<noteq> int idx then set_position id (int idx) d else d)
       (enumerate 0 (map (\<lambda>s. (rs_id s, rs_position s)) (in_position_order (sessions_of db room_id)))) db"

section \<open>Listing\<close>

definition session_view :: "occupancy_store \<Rightarrow> room_session_row \<Rightarrow> room_session_view" where
  "session_view occ s =
     \<lparr>sv_session_id = rs_id s, sv_extension_id = rs_extension_id s, sv_session_type = rs_session_type s,
      sv_metadata = rs_metadata s, sv_metadata_version = rs_metadata_version s, sv_position = rs_position s,
      sv_participant_count = get_participant_count (rs_id s) occ, sv_created_at = rs_created_at s\<rparr>"

definition listed_sessions ::
  "db \<Rightarrow> occupancy_store \<Rightarrow> id \<Rightarrow> list_room_sessions_query \<Rightarrow> room_session_error + room_session_view list"
where
  "listed_sessions db occ room_id query =
     (if (case ls_session_type query of None \<Rightarrow> False | Some st \<Rightarrow> \<not> type_regex st) then Inl InvalidSessionType
      else Inr (map (session_view occ) (in_position_order
        (filter (\<lambda>s. (case ls_extension_id query of None \<Rightarrow> True | Some e \<Rightarrow> rs_extension_id s = e) \<and>
                     (case ls_session_type query of None \<Rightarrow> True | Some st \<Rightarrow> rs_session_type s = st))
          (sessions_of db room_id)))))"

definition list_room_sessions ::
  "db \<Rightarrow> occupancy_store \<Rightarrow> id \<Rightarrow> id \<Rightarrow> list_room_sessions_query \<Rightarrow> room_session_error + room_session_view list"
where
  "list_room_sessions db occ room_id user_id query =
     (case check_room_membership db room_id user_id of
        Inl e \<Rightarrow> Inl e
      | Inr _ \<Rightarrow> listed_sessions db occ room_id query)"

definition list_room_sessions_admin ::
  "db \<Rightarrow> occupancy_store \<Rightarrow> id \<Rightarrow> list_room_sessions_query \<Rightarrow> room_session_error + room_session_view list"
where
  "list_room_sessions_admin db occ room_id query =
     (if \<not> room_exists db room_id then Inl SessionRoomNotFound else listed_sessions db occ room_id query)"

section \<open>Creation\<close>

definition check_create_session ::
  "decoder \<Rightarrow> decoder \<Rightarrow> session_types_state \<Rightarrow> nat \<Rightarrow> string \<Rightarrow> db \<Rightarrow> id \<Rightarrow> id \<Rightarrow> create_room_session_request \<Rightarrow>
   room_session_error + session_type"
where
  "check_create_session no_pad padded types server_max_session_participants mode db room_id creator_id req =
     (if \<not> effective_enabled types then Inl SessionsDisabled
      else
        (case check_room_membership db room_id creator_id of
           Inl e \<Rightarrow> Inl e
         | Inr role \<Rightarrow>
             if mode = ''discord'' \<and> role = ''member'' then Inl SessionForbidden
             else if \<not> type_regex (cs_session_type req) then Inl InvalidSessionType
             else
               (case store_get types (cs_session_type req) of
                  None \<Rightarrow> Inl UnknownSessionType
                | Some allowed \<Rightarrow>
                    if trim (cs_extension_id req) = [] then Inl InvalidExtensionId
                    else if (case cs_max_participants req of None \<Rightarrow> False
                             | Some max_p \<Rightarrow> max_p < 1 \<or> ty_max_participants allowed < max_p \<or>
                                 server_max_session_participants < max_p)
                    then Inl ParticipantCapExceeded
                    else
                      (case cs_metadata req of
                         None \<Rightarrow> Inr allowed
                       | Some meta \<Rightarrow>
                           (case validate_metadata no_pad padded meta of Inl e \<Rightarrow> Inl e | Inr _ \<Rightarrow> Inr allowed)))))"

definition target_position :: "int option \<Rightarrow> int \<Rightarrow> int" where
  "target_position position total_count =
     (case position of
        None \<Rightarrow> total_count
      | Some p \<Rightarrow> if total_count \<le> p then total_count else if p < 0 then 0 else p)"

definition make_room_at :: "id \<Rightarrow> int \<Rightarrow> db \<Rightarrow> db" where
  "make_room_at room_id target db = db\<lparr>room_sessions :=
     update_where (\<lambda>s. rs_room_id s = room_id \<and> target \<le> rs_position s) (\<lambda>s. s\<lparr>rs_position := rs_position s + 1\<rparr>)
       (room_sessions db)\<rparr>"

definition new_session_row ::
  "id \<Rightarrow> id \<Rightarrow> id \<Rightarrow> create_room_session_request \<Rightarrow> int \<Rightarrow> time \<Rightarrow> room_session_row"
where
  "new_session_row session_id room_id creator_id req position now =
     \<lparr>rs_id = session_id, rs_room_id = room_id, rs_extension_id = cs_extension_id req,
      rs_session_type = cs_session_type req, rs_created_by = creator_id, rs_metadata = cs_metadata req,
      rs_metadata_version = 1, rs_position = position, rs_max_participants = None,
      rs_created_at = current_timestamp now, rs_updated_at = current_timestamp now\<rparr>"

definition insert_session ::
  "session_type \<Rightarrow> nat \<Rightarrow> id \<Rightarrow> id \<Rightarrow> create_room_session_request \<Rightarrow> id \<Rightarrow> time \<Rightarrow> db \<Rightarrow>
   room_session_error + (int \<times> db)"
where
  "insert_session allowed server_max_sessions_per_room room_id creator_id req session_id now db =
     (let type_count = count_where (\<lambda>s. rs_room_id s = room_id \<and> rs_session_type s = cs_session_type req) (room_sessions db);
          total_count = count_where (\<lambda>s. rs_room_id s = room_id) (room_sessions db)
      in if int (ty_max_per_room allowed) \<le> type_count then Inl SessionLimitReached
         else if int server_max_sessions_per_room \<le> total_count then Inl SessionLimitReached
         else
           let target = target_position (cs_position req) total_count;
               db1 = (if target < total_count then make_room_at room_id target db else db)
           in if \<not> room_exists db room_id \<or> \<not> user_exists db creator_id then Inl SessionDatabase
              else
                (case insert_row rs_id (new_session_row session_id room_id creator_id req target now)
                        (room_sessions db1) of
                   None \<Rightarrow> Inl SessionDatabase
                 | Some t \<Rightarrow> Inr (target, resequence_positions room_id (db1\<lparr>room_sessions := t\<rparr>))))"

definition session_audit :: "string \<Rightarrow> id \<Rightarrow> id \<Rightarrow> id \<Rightarrow> id \<Rightarrow> time \<Rightarrow> db \<Rightarrow> db" where
  "session_audit action user_id room_id session_id audit_id now db =
     audit (Some user_id) action (Some ''room_session'') (Some session_id)
       (Some (JObject [(''session_id'', JString session_id), (''room_id'', JString room_id)])) audit_id now db"

definition create_room_session ::
  "decoder \<Rightarrow> decoder \<Rightarrow> session_types_state \<Rightarrow> nat \<Rightarrow> nat \<Rightarrow> string \<Rightarrow> id \<Rightarrow> id \<Rightarrow> create_room_session_request \<Rightarrow>
   id \<Rightarrow> id \<Rightarrow> time \<Rightarrow> db \<Rightarrow> room_session_error + (room_session_view \<times> event list \<times> db)"
where
  "create_room_session no_pad padded types server_max_session_participants server_max_sessions_per_room mode
       room_id creator_id req session_id audit_id now db =
     (case check_create_session no_pad padded types server_max_session_participants mode db room_id creator_id req of
        Inl e \<Rightarrow> Inl e
      | Inr allowed \<Rightarrow>
          (case insert_session allowed server_max_sessions_per_room room_id creator_id req session_id now db of
             Inl e \<Rightarrow> Inl e
           | Inr (target, db1) \<Rightarrow>
               Inr (\<lparr>sv_session_id = session_id, sv_extension_id = cs_extension_id req,
                     sv_session_type = cs_session_type req, sv_metadata = cs_metadata req, sv_metadata_version = 1,
                     sv_position = target, sv_participant_count = 0, sv_created_at = current_timestamp now\<rparr>,
                    [Event (''private-room-'' @ room_id) ''session.created''
                       (JObject [(''room_id'', JString room_id), (''session_id'', JString session_id),
                                 (''extension_id'', JString (cs_extension_id req)),
                                 (''session_type'', JString (cs_session_type req)),
                                 (''created_by'', JString creator_id), (''created_at'', JTime (current_timestamp now))])],
                    session_audit ''session.create'' creator_id room_id session_id audit_id now db1)))"

section \<open>Changes\<close>

definition find_session :: "db \<Rightarrow> id \<Rightarrow> id \<Rightarrow> room_session_row option" where
  "find_session db room_id session_id =
     List.find (\<lambda>s. rs_id s = session_id \<and> rs_room_id s = room_id) (room_sessions db)"

definition may_change :: "id \<Rightarrow> string \<Rightarrow> string \<Rightarrow> room_session_row \<Rightarrow> bool" where
  "may_change user_id role mode s \<longleftrightarrow>
     user_id = rs_created_by s \<or> role = ''owner'' \<or> (role = ''moderator'' \<and> mode = ''discord'')"

text \<open>\<open>target_pos as usize\<close>: a negative position becomes a huge one, so the session goes to the end.\<close>

definition clamped_pos :: "int \<Rightarrow> nat \<Rightarrow> nat" where
  "clamped_pos target_pos n = (if target_pos < 0 then n else min (nat target_pos) n)"

definition insert_at :: "nat \<Rightarrow> 'a \<Rightarrow> 'a list \<Rightarrow> 'a list" where
  "insert_at n x xs = take n xs @ x # drop n xs"

definition move_session :: "id \<Rightarrow> id \<Rightarrow> int \<Rightarrow> db \<Rightarrow> db" where
  "move_session room_id session_id target_pos db =
     (let list = filter (\<lambda>i. i \<noteq> session_id) (map rs_id (in_position_order (sessions_of db room_id)));
          list' = insert_at (clamped_pos target_pos (length list)) session_id list
      in fold (\<lambda>(idx, i). set_position i (int idx)) (enumerate 0 list') db)"

definition update_session :: "id \<Rightarrow> (room_session_row \<Rightarrow> room_session_row) \<Rightarrow> db \<Rightarrow> db" where
  "update_session session_id f db =
     db\<lparr>room_sessions := update_where (\<lambda>s. rs_id s = session_id) f (room_sessions db)\<rparr>"

definition write_session ::
  "id \<Rightarrow> id \<Rightarrow> string option option \<Rightarrow> int \<Rightarrow> int option \<Rightarrow> time \<Rightarrow> db \<Rightarrow> db"
where
  "write_session room_id session_id new_metadata new_version new_position now db =
     (let db1 = (case new_position of None \<Rightarrow> db | Some p \<Rightarrow> move_session room_id session_id p db);
          db2 = (case new_metadata of
                   Some m \<Rightarrow> update_session session_id
                     (\<lambda>s. s\<lparr>rs_metadata := m, rs_metadata_version := new_version,
                            rs_updated_at := current_timestamp now\<rparr>) db1
                 | None \<Rightarrow> update_session session_id (\<lambda>s. s\<lparr>rs_updated_at := current_timestamp now\<rparr>) db1)
      in resequence_positions room_id db2)"

definition patch_room_session ::
  "decoder \<Rightarrow> decoder \<Rightarrow> string \<Rightarrow> id \<Rightarrow> id \<Rightarrow> id \<Rightarrow> patch_room_session_request \<Rightarrow> time \<Rightarrow> db \<Rightarrow>
   room_session_error + (room_session_view \<times> event list \<times> db)"
where
  "patch_room_session no_pad padded mode room_id session_id user_id req now db =
     (case check_room_membership db room_id user_id of
        Inl e \<Rightarrow> Inl e
      | Inr role \<Rightarrow>
          if ps_metadata req = None \<and> ps_position req = None then Inl SessionNoChanges
          else
            (case find_session db room_id session_id of
               None \<Rightarrow> Inl SessionNotFound
             | Some s \<Rightarrow>
                 if \<not> may_change user_id role mode s then Inl SessionForbidden
                 else
                   (case (case ps_metadata req of None \<Rightarrow> Inr () | Some m \<Rightarrow> validate_metadata no_pad padded m) of
                      Inl e \<Rightarrow> Inl e
                    | Inr _ \<Rightarrow>
                        let metadata_changed = (ps_metadata req \<noteq> None \<and> rs_metadata s \<noteq> ps_metadata req);
                            position_changed = (ps_position req \<noteq> None \<and> ps_position req \<noteq> Some (rs_position s));
                            view = \<lparr>sv_session_id = session_id, sv_extension_id = rs_extension_id s,
                              sv_session_type = rs_session_type s, sv_metadata = rs_metadata s,
                              sv_metadata_version = rs_metadata_version s, sv_position = rs_position s,
                              sv_participant_count = 0, sv_created_at = rs_created_at s\<rparr>
                        in if \<not> metadata_changed \<and> \<not> position_changed then Inr (view, [], db)
                           else
                             let new_metadata = (if metadata_changed then ps_metadata req else rs_metadata s);
                                 new_version = (if metadata_changed then rs_metadata_version s + 1 else rs_metadata_version s);
                                 db1 = write_session room_id session_id
                                   (if metadata_changed then Some (ps_metadata req) else None) new_version
                                   (if position_changed then ps_position req else None) now db
                             in (case List.find (\<lambda>x. rs_id x = session_id) (room_sessions db1) of
                                   None \<Rightarrow> Inl SessionDatabase
                                 | Some s1 \<Rightarrow>
                                     Inr (view\<lparr>sv_metadata := new_metadata, sv_metadata_version := new_version,
                                               sv_position := rs_position s1\<rparr>,
                                          [Event (''private-room-'' @ room_id) ''session.updated''
                                             (JObject ([(''room_id'', JString room_id), (''session_id'', JString session_id)] @
                                               (if metadata_changed
                                                then [(''metadata'', json_opt new_metadata), (''metadata_version'', JInt new_version)]
                                                else []) @
                                               (if position_changed then [(''position'', JInt (rs_position s1))] else []) @
                                               [(''changed'', JArray
                                                  ((if metadata_changed then [JString ''metadata''] else []) @
                                                   (if position_changed then [JString ''position''] else [])))]))],
                                          db1)))))"

section \<open>Deletion\<close>

definition delete_room_session ::
  "string \<Rightarrow> id \<Rightarrow> id \<Rightarrow> id \<Rightarrow> id \<Rightarrow> time \<Rightarrow> occupancy_store \<Rightarrow> db \<Rightarrow>
   room_session_error + (occupancy_store \<times> event list \<times> db)"
where
  "delete_room_session mode room_id session_id user_id audit_id now occ db =
     (case check_room_membership db room_id user_id of
        Inl e \<Rightarrow> Inl e
      | Inr role \<Rightarrow>
          (case find_session db room_id session_id of
             None \<Rightarrow> Inl SessionNotFound
           | Some s \<Rightarrow>
               if \<not> may_change user_id role mode s then Inl SessionForbidden
               else
                 let db1 = resequence_positions room_id
                       (db\<lparr>room_sessions := delete_where (\<lambda>x. rs_id x = session_id) (room_sessions db)\<rparr>)
                 in (case teardown_session room_id session_id occ of
                       (occ1, evs) \<Rightarrow>
                         Inr (occ1, evs @
                           [Event (''private-room-'' @ room_id) ''session.deleted''
                              (JObject [(''room_id'', JString room_id), (''session_id'', JString session_id),
                                        (''extension_id'', JString (rs_extension_id s))])],
                           session_audit ''session.delete'' user_id room_id session_id audit_id now db1))))"

end
