(* ===== verification/SessionRoutes.thy ===== *)
theory SessionRoutes
  imports RoomSessions SyncSeq
begin

text \<open>
  The sessions of rooms over HTTP: the handlers of \<open>server/src/routes/room_sessions.rs\<close>, the relay of
  signals of \<open>server/src/sessions/signal.rs\<close> and the reloading of the allowlist of
  \<open>server/src/routes/admin.rs\<close>.

  \<open>fmt\<close> is the calendar of the rate limits.  A relayed envelope stays text: the server only checks that
  it decodes under one of its base64 decoders.
\<close>

section \<open>State\<close>

record session_app =
  sa_db :: db
  sa_occupancy :: occupancy_store
  sa_types :: session_types_state

record session_config =
  sf_rate_limits :: RateLimitConfig
  sf_sessions_enabled :: bool
  sf_server_max_session_participants :: nat
  sf_server_max_sessions_per_room :: nat
  sf_turn_url_set :: bool
  sf_session_types_config_path :: string

fun api_of_occupancy_error :: "occupancy_error \<Rightarrow> api_error" where
  "api_of_occupancy_error Occupancy.SessionsDisabled = ApiNotImplemented ''sessions_disabled''"
| "api_of_occupancy_error Occupancy.SessionNotFound = ApiNotFound ''session_not_found''"
| "api_of_occupancy_error OccupancyRoomNotFound = ApiNotFound ''room_not_found''"
| "api_of_occupancy_error OccupancyForbidden = ApiForbidden ''forbidden''"
| "api_of_occupancy_error InvalidClientId = ApiBadRequest ''invalid_client_id''"
| "api_of_occupancy_error SessionFull = ApiConflict ''session_full''"
| "api_of_occupancy_error NotAParticipant = ApiForbidden ''not_a_participant''"

section \<open>Signals\<close>

record signal_request =
  gr_sender_client_id :: id
  gr_target_client_id :: "id option"
  gr_envelope :: string

datatype signal_error =
    SignalSessionsDisabled
  | SignalSessionNotFound
  | SignalRoomNotFound
  | SignalInvalidClientId
  | SignalInvalidEnvelope
  | SignalNotAParticipant
  | SignalTargetNotFound

fun api_of_signal_error :: "signal_error \<Rightarrow> api_error" where
  "api_of_signal_error SignalSessionsDisabled = ApiNotImplemented ''sessions_disabled''"
| "api_of_signal_error SignalSessionNotFound = ApiNotFound ''session_not_found''"
| "api_of_signal_error SignalRoomNotFound = ApiNotFound ''room_not_found''"
| "api_of_signal_error SignalInvalidClientId = ApiBadRequest ''invalid_client_id''"
| "api_of_signal_error SignalInvalidEnvelope = ApiBadRequest ''invalid_envelope''"
| "api_of_signal_error SignalNotAParticipant = ApiForbidden ''not_a_participant''"
| "api_of_signal_error SignalTargetNotFound = ApiNotFound ''target_not_found''"

text \<open>The decoders are tried in this order: standard, without padding, URL-safe, without padding.\<close>

fun decode_base64_flexible :: "decoder list \<Rightarrow> decoder" where
  "decode_base64_flexible [] s = None"
| "decode_base64_flexible (d # ds) s = (case d s of Some b \<Rightarrow> Some b | None \<Rightarrow> decode_base64_flexible ds s)"

definition session_row :: "db \<Rightarrow> id \<Rightarrow> id \<Rightarrow> room_session_row option" where
  "session_row db session_id room_id =
     List.find (\<lambda>s. rs_id s = session_id \<and> rs_room_id s = room_id) (room_sessions db)"

definition check_signal ::
  "decoder list \<Rightarrow> db \<Rightarrow> occupancy_store \<Rightarrow> bool \<Rightarrow> id \<Rightarrow> id \<Rightarrow> id \<Rightarrow> signal_request \<Rightarrow> signal_error + unit"
where
  "check_signal decoders db occ sessions_enabled room_id session_id caller_id req =
     (if \<not> sessions_enabled then Inl SignalSessionsDisabled
      else if session_row db session_id room_id = None then Inl SignalSessionNotFound
      else if get_room_for_user db room_id caller_id = None then Inl SignalRoomNotFound
      else
        (case decode_base64_flexible decoders (gr_envelope req) of
           None \<Rightarrow> Inl SignalInvalidEnvelope
         | Some decoded \<Rightarrow>
             if 65536 < length decoded then Inl SignalInvalidEnvelope
             else if find_by_client_id db caller_id (gr_sender_client_id req) = None
             then Inl SignalInvalidClientId
             else if \<not> is_participant_of_client session_id caller_id (gr_sender_client_id req) occ
             then Inl SignalNotAParticipant
             else Inr ()))"

definition signal_payload :: "id \<Rightarrow> id \<Rightarrow> id \<Rightarrow> signal_request \<Rightarrow> json" where
  "signal_payload room_id session_id caller_id req =
     JObject ([(''room_id'', JString room_id), (''session_id'', JString session_id),
               (''sender_user_id'', JString caller_id), (''sender_client_id'', JString (gr_sender_client_id req))] @
              (case gr_target_client_id req of Some t \<Rightarrow> [(''target_client_id'', JString t)] | None \<Rightarrow> []) @
              [(''envelope'', JString (gr_envelope req))])"

definition send_session_signal ::
  "decoder list \<Rightarrow> db \<Rightarrow> occupancy_store \<Rightarrow> bool \<Rightarrow> id \<Rightarrow> id \<Rightarrow> id \<Rightarrow> signal_request \<Rightarrow> time \<Rightarrow>
   signal_error + (nat \<times> event list)"
where
  "send_session_signal decoders db occ sessions_enabled room_id session_id caller_id req now =
     (case check_signal decoders db occ sessions_enabled room_id session_id caller_id req of
        Inl e \<Rightarrow> Inl e
      | Inr _ \<Rightarrow>
          let envelope = new_envelope ''session.signal'' 0 (signal_payload room_id session_id caller_id req) now
          in (case gr_target_client_id req of
                Some target_client_id \<Rightarrow>
                  if trim target_client_id = [] then Inl SignalInvalidClientId
                  else
                    (case find_user_for_client session_id target_client_id occ of
                       None \<Rightarrow> Inl SignalTargetNotFound
                     | Some target_user_id \<Rightarrow> Inr (1, [publish_user_event target_user_id envelope]))
              | None \<Rightarrow>
                  let targets = filter (\<lambda>uid. uid \<noteq> caller_id) (participant_users session_id occ)
                  in Inr (length targets, map (\<lambda>uid. publish_user_event uid envelope) targets)))"

section \<open>Handlers\<close>

definition list_admin_handler ::
  "session_app \<Rightarrow> id \<Rightarrow> list_room_sessions_query \<Rightarrow> api_error + room_session_view list"
where
  "list_admin_handler app room_id query =
     map_sum api_of_session_error id (list_room_sessions_admin (sa_db app) (sa_occupancy app) room_id query)"

definition list_handler ::
  "session_app \<Rightarrow> id \<Rightarrow> id \<Rightarrow> list_room_sessions_query \<Rightarrow> api_error + room_session_view list"
where
  "list_handler app room_id user_id query =
     map_sum api_of_session_error id (list_room_sessions (sa_db app) (sa_occupancy app) room_id user_id query)"

definition create_handler ::
  "(string \<Rightarrow> time \<Rightarrow> string) \<Rightarrow> session_config \<Rightarrow> decoder \<Rightarrow> decoder \<Rightarrow> string \<Rightarrow> id \<Rightarrow> id \<Rightarrow>
   create_room_session_request \<Rightarrow> id \<Rightarrow> id \<Rightarrow> time \<Rightarrow> session_app \<Rightarrow>
   (api_error + (room_session_view \<times> event list)) \<times> session_app"
where
  "create_handler fmt config no_pad padded mode room_id user_id req session_id audit_id now app =
     (case rate_guard fmt (sf_rate_limits config) (SessionCreate user_id Hour) now (sa_db app) of
        (Inl e, db1) \<Rightarrow> (Inl e, app\<lparr>sa_db := db1\<rparr>)
      | (Inr _, db1) \<Rightarrow>
          (case rate_guard fmt (sf_rate_limits config) (SessionCreate user_id Day) now db1 of
             (Inl e, db2) \<Rightarrow> (Inl e, app\<lparr>sa_db := db2\<rparr>)
           | (Inr _, db2) \<Rightarrow>
               (case create_room_session no_pad padded (sa_types app) (sf_server_max_session_participants config)
                       (sf_server_max_sessions_per_room config) mode room_id user_id req session_id audit_id now db2 of
                  Inl e \<Rightarrow> (Inl (api_of_session_error e), app\<lparr>sa_db := db2\<rparr>)
                | Inr (view, evs, db3) \<Rightarrow> (Inr (view, evs), app\<lparr>sa_db := db3\<rparr>))))"

definition patch_handler ::
  "decoder \<Rightarrow> decoder \<Rightarrow> string \<Rightarrow> id \<Rightarrow> id \<Rightarrow> id \<Rightarrow> patch_room_session_request \<Rightarrow> time \<Rightarrow> session_app \<Rightarrow>
   (api_error + (room_session_view \<times> event list)) \<times> session_app"
where
  "patch_handler no_pad padded mode room_id session_id user_id req now app =
     (case patch_room_session no_pad padded mode room_id session_id user_id req now (sa_db app) of
        Inl e \<Rightarrow> (Inl (api_of_session_error e), app)
      | Inr (view, evs, db1) \<Rightarrow> (Inr (view, evs), app\<lparr>sa_db := db1\<rparr>))"

definition delete_handler ::
  "string \<Rightarrow> id \<Rightarrow> id \<Rightarrow> id \<Rightarrow> id \<Rightarrow> time \<Rightarrow> session_app \<Rightarrow> (api_error + event list) \<times> session_app"
where
  "delete_handler mode room_id session_id user_id audit_id now app =
     (case delete_room_session mode room_id session_id user_id audit_id now (sa_occupancy app) (sa_db app) of
        Inl e \<Rightarrow> (Inl (api_of_session_error e), app)
      | Inr (occ1, evs, db1) \<Rightarrow> (Inr evs, app\<lparr>sa_db := db1, sa_occupancy := occ1\<rparr>))"

text \<open>The checks with which the handlers of a participant begin.\<close>

definition member_of_session :: "db \<Rightarrow> id \<Rightarrow> id \<Rightarrow> id \<Rightarrow> api_error + room_session_row" where
  "member_of_session db room_id session_id user_id =
     (if \<not> is_member db room_id user_id then Inl (ApiNotFound ''room_not_found'')
      else
        (case session_row db session_id room_id of
           None \<Rightarrow> Inl (ApiNotFound ''session_not_found'')
         | Some s \<Rightarrow> Inr s))"

definition max_participants_of :: "session_config \<Rightarrow> session_types_state \<Rightarrow> room_session_row \<Rightarrow> nat" where
  "max_participants_of config types s =
     (case max_participants_for types (rs_session_type s) of
        Some n \<Rightarrow> n
      | None \<Rightarrow> sf_server_max_session_participants config)"

definition join_handler ::
  "(string \<Rightarrow> time \<Rightarrow> string) \<Rightarrow> session_config \<Rightarrow> ice_server option \<Rightarrow> id \<Rightarrow> id \<Rightarrow> id \<Rightarrow> id \<Rightarrow> time \<Rightarrow> session_app \<Rightarrow>
   (api_error + join_response) \<times> session_app"
where
  "join_handler fmt config turn room_id session_id user_id client_id now app =
     (if \<not> effective_enabled (sa_types app) then (Inl (ApiNotImplemented ''sessions_disabled''), app)
      else
        (case rate_guard fmt (sf_rate_limits config) (SessionJoin user_id) now (sa_db app) of
           (Inl e, db1) \<Rightarrow> (Inl e, app\<lparr>sa_db := db1\<rparr>)
         | (Inr _, db1) \<Rightarrow>
             (case member_of_session db1 room_id session_id user_id of
                Inl e \<Rightarrow> (Inl e, app\<lparr>sa_db := db1\<rparr>)
              | Inr s \<Rightarrow>
                  (case join_session db1 (sf_sessions_enabled config) (sf_turn_url_set config) turn room_id session_id
                          user_id client_id (max_participants_of config (sa_types app) s) now (sa_occupancy app) of
                     (r, occ1) \<Rightarrow> (map_sum api_of_occupancy_error id r, app\<lparr>sa_db := db1, sa_occupancy := occ1\<rparr>)))))"

definition signal_handler ::
  "(string \<Rightarrow> time \<Rightarrow> string) \<Rightarrow> session_config \<Rightarrow> decoder list \<Rightarrow> id \<Rightarrow> id \<Rightarrow> id \<Rightarrow> signal_request \<Rightarrow> time \<Rightarrow> session_app \<Rightarrow>
   (api_error + (nat \<times> nat \<times> event list)) \<times> session_app"
where
  "signal_handler fmt config decoders room_id session_id user_id req now app =
     (if \<not> effective_enabled (sa_types app) then (Inl (ApiNotImplemented ''sessions_disabled''), app)
      else
        (case rate_guard fmt (sf_rate_limits config) (SessionSignal user_id session_id) now (sa_db app) of
           (Inl e, db1) \<Rightarrow> (Inl e, app\<lparr>sa_db := db1\<rparr>)
         | (Inr _, db1) \<Rightarrow>
             (case send_session_signal decoders db1 (sa_occupancy app) (effective_enabled (sa_types app))
                     room_id session_id user_id req now of
                Inl e \<Rightarrow> (Inl (api_of_signal_error e), app\<lparr>sa_db := db1\<rparr>)
              | Inr (delivered_to, evs) \<Rightarrow>
                  (Inr (if gr_target_client_id req \<noteq> None then 200 else 202, delivered_to, evs), app\<lparr>sa_db := db1\<rparr>))))"

definition leave_handler ::
  "id \<Rightarrow> id \<Rightarrow> id \<Rightarrow> id \<Rightarrow> session_app \<Rightarrow> (api_error + unit) \<times> session_app"
where
  "leave_handler room_id session_id user_id client_id app =
     (if \<not> effective_enabled (sa_types app) then (Inl (ApiNotImplemented ''sessions_disabled''), app)
      else
        (case member_of_session (sa_db app) room_id session_id user_id of
           Inl e \<Rightarrow> (Inl e, app)
         | Inr _ \<Rightarrow>
             (case leave_session (sa_db app) session_id user_id client_id (sa_occupancy app) of
                (r, occ1) \<Rightarrow> (map_sum api_of_occupancy_error id r, app\<lparr>sa_occupancy := occ1\<rparr>))))"

definition heartbeat_handler ::
  "(string \<Rightarrow> time \<Rightarrow> string) \<Rightarrow> session_config \<Rightarrow> id \<Rightarrow> id \<Rightarrow> id \<Rightarrow> id \<Rightarrow> time \<Rightarrow> session_app \<Rightarrow>
   (api_error + unit) \<times> session_app"
where
  "heartbeat_handler fmt config room_id session_id user_id client_id now app =
     (if \<not> effective_enabled (sa_types app) then (Inl (ApiNotImplemented ''sessions_disabled''), app)
      else
        (case rate_guard fmt (sf_rate_limits config) (SessionHeartbeat user_id session_id) now (sa_db app) of
           (Inl e, db1) \<Rightarrow> (Inl e, app\<lparr>sa_db := db1\<rparr>)
         | (Inr _, db1) \<Rightarrow>
             (case member_of_session db1 room_id session_id user_id of
                Inl e \<Rightarrow> (Inl e, app\<lparr>sa_db := db1\<rparr>)
              | Inr _ \<Rightarrow>
                  (case heartbeat db1 session_id user_id client_id now (sa_occupancy app) of
                     (r, occ1) \<Rightarrow> (map_sum api_of_occupancy_error id r, app\<lparr>sa_db := db1, sa_occupancy := occ1\<rparr>)))))"

definition roster_handler :: "id \<Rightarrow> id \<Rightarrow> id \<Rightarrow> session_app \<Rightarrow> api_error + roster_user_item list" where
  "roster_handler room_id session_id user_id app =
     (if \<not> effective_enabled (sa_types app) then Inl (ApiForbidden ''not_a_participant'')
      else
        (case member_of_session (sa_db app) room_id session_id user_id of
           Inl e \<Rightarrow> Inl e
         | Inr _ \<Rightarrow> map_sum api_of_occupancy_error id (get_roster session_id user_id (sa_occupancy app))))"

section \<open>Reloading the session types\<close>

definition reload_error :: "session_types_error \<Rightarrow> api_error" where
  "reload_error e =
     (case e of
        ConfigMissing path \<Rightarrow>
          ApiCustomShape 400 (JObject [(''error'', JString ''session_types_config_missing''),
            (''message'', JString ''Configuration file missing''), (''details'', JObject [(''path'', JString path)])])
      | InvalidConfig line reason \<Rightarrow>
          ApiCustomShape 400 (JObject [(''error'', JString ''invalid_session_types_config''),
            (''message'', JString ''Validation failed''),
            (''details'', JObject ((case line of Some l \<Rightarrow> [(''line'', JInt (int l))] | None \<Rightarrow> []) @
              [(''reason'', JString reason)]))])
      | SessionTypesIo \<Rightarrow> ApiInternal)"

definition reload_session_types_handler ::
  "toml \<Rightarrow> session_config \<Rightarrow> file_at \<Rightarrow> id \<Rightarrow> id \<Rightarrow> time \<Rightarrow> session_app \<Rightarrow>
   (api_error + session_type_admin_view list) \<times> session_app"
where
  "reload_session_types_handler from_toml config file user_id audit_id now app =
     (case load_session_types_from_file from_toml (sf_session_types_config_path config) file
             (sf_server_max_session_participants config) (sf_server_max_sessions_per_room config) of
        Inl e \<Rightarrow> (Inl (reload_error e), app)
      | Inr new_config \<Rightarrow>
          let new_state = \<lparr>ts_declared_enabled = sf_sessions_enabled config, ts_allowlist_loaded = True,
                           ts_config = new_config\<rparr>;
              types = admin_types new_state
          in (Inr types,
              app\<lparr>sa_types := new_state,
                  sa_db := audit (Some user_id) ''session_types.reload'' (Some ''session_types'') None
                    (Some (JObject [(''types_count'', JInt (int (length types)))])) audit_id now (sa_db app)\<rparr>))"

end
