(* ===== verification/RoomSessionProps.thy ===== *)
theory RoomSessionProps
  imports RoomSessions "HOL-Library.Multiset"
begin

text \<open>
  The order of the sessions of a room refines a plain list: creation inserts, a change of position
  moves, deletion removes, and the stored positions are always \<open>0, 1, ..., n - 1\<close>.
\<close>

section \<open>Lists of sessions\<close>

definition session_order :: "db \<Rightarrow> id \<Rightarrow> id list" where
  "session_order db room_id = map rs_id (in_position_order (sessions_of db room_id))"

definition dense_positions :: "db \<Rightarrow> id \<Rightarrow> bool" where
  "dense_positions db room_id \<longleftrightarrow>
     map rs_position (in_position_order (sessions_of db room_id)) =
       map int [0..<length (sessions_of db room_id)]"

definition sessions_ok :: "db \<Rightarrow> bool" where
  "sessions_ok db \<longleftrightarrow> distinct (map rs_id (room_sessions db)) \<and> (\<forall>r. dense_positions db r)"

lemma mset_in_position_order [simp]: "mset (in_position_order t) = mset t"
  by (simp add: in_position_order_def)

lemma set_in_position_order [simp]: "set (in_position_order t) = set t"
  by (simp add: in_position_order_def)

lemma length_in_position_order [simp]: "length (in_position_order t) = length t"
  by (simp add: in_position_order_def)

text \<open>Rows whose positions count up are in order, whatever their ids are.\<close>

lemma in_position_order_eq:
  assumes "mset L = mset t" and "map rs_position L = map int [0..<n]"
  shows "in_position_order t = L"
proof -
  have len: "length L = n" using arg_cong[OF assms(2), of length] by simp
  have pos: "rs_position (L ! i) = int i" if "i < length L" for i
    using arg_cong[OF assms(2), of "\<lambda>xs. xs ! i"] that len by simp
  have inj: "inj_on (\<lambda>s. (rs_position s, rs_id s)) (set L)"
  proof (rule inj_onI)
    fix x y assume "x \<in> set L" "y \<in> set L" "(rs_position x, rs_id x) = (rs_position y, rs_id y)"
    then obtain i j where "i < length L" "j < length L" "x = L ! i" "y = L ! j" "rs_position (L ! i) = rs_position (L ! j)"
      by (auto simp: in_set_conv_nth)
    then show "x = y" using pos by simp
  qed
  have "sorted (map (\<lambda>s. (rs_position s, rs_id s)) L)"
    unfolding sorted_iff_nth_mono
  proof (intro allI impI)
    fix i j assume ij: "i \<le> j" "j < length (map (\<lambda>s. (rs_position s, rs_id s)) L)"
    then show "map (\<lambda>s. (rs_position s, rs_id s)) L ! i \<le> map (\<lambda>s. (rs_position s, rs_id s)) L ! j"
      using pos[of i] pos[of j] by (cases "i = j") auto
  qed
  with inj show ?thesis unfolding in_position_order_def
    by (intro sort_key_inj_key_eq) (use assms(1) in \<open>auto simp: mset_eq_setD[OF assms(1)]\<close>)
qed

section \<open>Writing positions\<close>

definition index_of :: "'a list \<Rightarrow> 'a \<Rightarrow> nat" where
  "index_of xs x = length (takeWhile (\<lambda>y. y \<noteq> x) xs)"

lemma index_of_nth: "distinct xs \<Longrightarrow> i < length xs \<Longrightarrow> index_of xs (xs ! i) = i"
proof (induction xs arbitrary: i)
  case (Cons x xs)
  then show ?case by (cases i) (auto simp: index_of_def)
qed simp

definition place :: "nat \<Rightarrow> id list \<Rightarrow> room_session_row \<Rightarrow> room_session_row" where
  "place n ids s = (if rs_id s \<in> set ids then s\<lparr>rs_position := int (n + index_of ids (rs_id s))\<rparr> else s)"

lemma place_id [simp]: "rs_id (place n ids s) = rs_id s" "rs_room_id (place n ids s) = rs_room_id s"
  by (simp_all add: place_def)

lemma set_positions:
  assumes "distinct ids"
  shows "fold (\<lambda>(idx, i). set_position i (int idx)) (enumerate n ids) db =
    db\<lparr>room_sessions := map (place n ids) (room_sessions db)\<rparr>"
  using assms
proof (induction ids arbitrary: n db)
  case Nil
  have "place n [] = id" for n by (simp add: place_def fun_eq_iff)
  then show ?case by simp
next
  case (Cons i ids)
  have "place (Suc n) ids (if rs_id s = i then s\<lparr>rs_position := int n\<rparr> else s) = place n (i # ids) s" for s
    using Cons.prems by (auto simp: place_def index_of_def)
  with Cons show ?case by (simp add: set_position_def update_where_def comp_def)
qed

lemma resequence_set_positions:
  assumes "distinct (map rs_id (room_sessions db))"
  shows "resequence_positions r db =
    fold (\<lambda>(idx, i). set_position i (int idx)) (enumerate 0 (session_order db r)) db"
proof -
  have keep: "set_position i p d = d"
    if "\<And>s. s \<in> set (room_sessions d) \<Longrightarrow> rs_id s = i \<Longrightarrow> rs_position s = p" for i p and d :: db
  proof -
    have "update_where (\<lambda>s. rs_id s = i) (\<lambda>s. s\<lparr>rs_position := p\<rparr>) (room_sessions d) = room_sessions d"
      unfolding update_where_def by (rule map_idI) (use that in auto)
    then show ?thesis by (simp add: set_position_def)
  qed
  have "fold (\<lambda>(idx, i, p). \<lambda>d. if p \<noteq> int idx then set_position i (int idx) d else d)
        (enumerate n (map (\<lambda>s. (rs_id s, rs_position s)) L)) d =
      fold (\<lambda>(idx, i). set_position i (int idx)) (enumerate n (map rs_id L)) d"
    if "distinct (map rs_id L)"
      and "\<And>s x. s \<in> set L \<Longrightarrow> x \<in> set (room_sessions d) \<Longrightarrow> rs_id x = rs_id s \<Longrightarrow> rs_position x = rs_position s"
    for L n d
    using that
  proof (induction L arbitrary: n d)
    case (Cons s L)
    let ?d = "set_position (rs_id s) (int n) d"
    have first: "(if rs_position s \<noteq> int n then ?d else d) = ?d"
      using keep[of d "rs_id s" "int n"] Cons.prems(2)[of s] by auto
    have "\<And>y x. y \<in> set L \<Longrightarrow> x \<in> set (room_sessions ?d) \<Longrightarrow> rs_id x = rs_id y \<Longrightarrow> rs_position x = rs_position y"
    proof -
      fix y x assume y: "y \<in> set L" and x: "x \<in> set (room_sessions ?d)" "rs_id x = rs_id y"
      then have "rs_id y \<noteq> rs_id s" using Cons.prems(1) by (auto simp: image_iff)
      with x have "x \<in> set (room_sessions d)" by (auto simp: set_position_def set_update_where)
      with Cons.prems(2) y x(2) show "rs_position x = rs_position y" by simp
    qed
    with Cons.IH[of ?d "Suc n"] Cons.prems(1) first show ?case by simp
  qed simp
  note * = this
  have "distinct (map rs_id (in_position_order (sessions_of db r)))"
    using assms by (simp add: in_position_order_def sessions_of_def distinct_map inj_on_def)
  moreover have "rs_position x = rs_position s"
    if "s \<in> set (in_position_order (sessions_of db r))" "x \<in> set (room_sessions db)" "rs_id x = rs_id s" for s x
    using that assms by (auto simp: sessions_of_def distinct_map inj_on_def)
  ultimately show ?thesis
    unfolding resequence_positions_def session_order_def using *[of "in_position_order (sessions_of db r)" db 0] by simp
qed


text \<open>Positions that are written in the order of a list of the ids of a room.\<close>

lemma placed_order:
  assumes ids: "distinct (map rs_id (room_sessions db))" and perm: "distinct ids" "set ids = rs_id ` set (sessions_of db r)"
  defines "d \<equiv> db\<lparr>room_sessions := map (place 0 ids) (room_sessions db)\<rparr>"
  shows "session_order d r = ids" "dense_positions d r"
proof -
  define row where "row i = the (List.find (\<lambda>s. rs_id s = i) (sessions_of db r))" for i
  have sids: "distinct (map rs_id (sessions_of db r))"
    using ids by (simp add: sessions_of_def distinct_map_filter)
  have row: "row i \<in> set (sessions_of db r) \<and> rs_id (row i) = i" if i: "i \<in> set ids" for i
  proof -
    obtain s where s: "s \<in> set (sessions_of db r)" "rs_id s = i" using i perm(2) by auto
    have "List.find (\<lambda>x. rs_id x = i) (sessions_of db r) = Some s" by (rule find_key_eq[OF sids s])
    with s show ?thesis by (simp add: row_def)
  qed
  define L where "L = map (\<lambda>i. place 0 ids (row i)) ids"
  have L_ids: "map rs_id L = ids" using row by (auto simp: L_def intro: map_idI)
  have rows: "sessions_of d r = map (place 0 ids) (sessions_of db r)"
    by (simp add: d_def sessions_of_def filter_map comp_def)
  have "mset L = mset (sessions_of d r)"
  proof (rule set_eq_iff_mset_eq_distinct[THEN iffD1])
    have "distinct (map rs_id L)" using L_ids perm(1) by simp
    then show "distinct L" by (simp add: distinct_map)
    have "distinct (map rs_id (sessions_of d r))" using sids by (simp add: rows comp_def)
    then show "distinct (sessions_of d r)" by (simp add: distinct_map)
    have "row (rs_id s) = s" if "s \<in> set (sessions_of db r)" for s
    proof -
      have "List.find (\<lambda>x. rs_id x = rs_id s) (sessions_of db r) = Some s" by (rule find_key_eq[OF sids that refl])
      then show ?thesis by (simp add: row_def)
    qed
    then have "row ` set ids = set (sessions_of db r)" unfolding perm(2) image_image by simp
    moreover have "set L = place 0 ids ` row ` set ids" by (simp add: L_def image_image)
    ultimately show "set L = set (sessions_of d r)" by (simp add: rows)
  qed
  moreover have "map rs_position L = map int [0..<length ids]"
  proof (rule nth_equalityI)
    show "map rs_position L ! i = map int [0..<length ids] ! i" if "i < length (map rs_position L)" for i
    proof -
      have i: "i < length ids" using that by (simp add: L_def)
      then have "rs_id (row (ids ! i)) = ids ! i" using row by simp
      with i show ?thesis by (simp add: L_def place_def index_of_nth[OF perm(1)])
    qed
  qed (simp add: L_def)
  ultimately have order: "in_position_order (sessions_of d r) = L" by (rule in_position_order_eq)
  show "session_order d r = ids" by (simp add: session_order_def order L_ids)
  have "length (sessions_of d r) = length ids"
    using arg_cong[OF order, of length] by (simp add: L_def)
  then show "dense_positions d r"
    using \<open>map rs_position L = map int [0..<length ids]\<close> by (simp add: dense_positions_def order)
qed

lemma placed_frame:
  assumes "distinct (map rs_id (room_sessions db))" and "set ids = rs_id ` set (sessions_of db r)" and "r' \<noteq> r"
  shows "sessions_of (db\<lparr>room_sessions := map (place 0 ids) (room_sessions db)\<rparr>) r' = sessions_of db r'"
proof -
  have "place 0 ids s = s" if "s \<in> set (room_sessions db)" "rs_room_id s = r'" for s
  proof -
    have "rs_id s \<notin> set ids"
      using that assms by (auto simp: sessions_of_def distinct_map inj_on_def)
    then show ?thesis by (simp add: place_def)
  qed
  then show ?thesis by (auto simp: sessions_of_def filter_map comp_def intro!: map_idI)
qed

lemma same_sessions:
  assumes "sessions_of db' r = sessions_of db r"
  shows "session_order db' r = session_order db r" "dense_positions db' r = dense_positions db r"
  using assms by (simp_all add: session_order_def dense_positions_def)

lemma order_ids:
  assumes "distinct (map rs_id (room_sessions db))"
  shows "set (session_order db r) = rs_id ` set (sessions_of db r)" "distinct (session_order db r)"
    "length (session_order db r) = length (sessions_of db r)"
proof -
  show "set (session_order db r) = rs_id ` set (sessions_of db r)" "length (session_order db r) = length (sessions_of db r)"
    by (simp_all add: session_order_def)
  have "distinct (map rs_id (sessions_of db r))" using assms by (simp add: sessions_of_def distinct_map_filter)
  then show "distinct (session_order db r)"
    by (auto simp: session_order_def distinct_map in_position_order_def)
qed

text \<open>What holds after the positions of a room have been written.\<close>

definition reordered :: "id \<Rightarrow> id list \<Rightarrow> db \<Rightarrow> db \<Rightarrow> bool" where
  "reordered r ids db db' \<longleftrightarrow>
     session_order db' r = ids \<and> dense_positions db' r \<and> map rs_id (room_sessions db') = map rs_id (room_sessions db) \<and>
     (\<forall>r'. r' \<noteq> r \<longrightarrow> sessions_of db' r' = sessions_of db r')"

lemma positions_written:
  assumes "distinct (map rs_id (room_sessions db))" and "distinct ids" and "set ids = rs_id ` set (sessions_of db r)"
  shows "reordered r ids db (fold (\<lambda>(idx, i). set_position i (int idx)) (enumerate 0 ids) db)"
  unfolding set_positions[OF assms(2)] reordered_def
  using placed_order[OF assms] placed_frame[OF assms(1,3)] by simp

lemma resequenced:
  assumes "distinct (map rs_id (room_sessions db))"
  shows "reordered r (session_order db r) db (resequence_positions r db)"
  unfolding resequence_set_positions[OF assms]
  by (rule positions_written[OF assms]) (use order_ids[OF assms] in auto)


section \<open>The operations on lists\<close>

datatype session_op =
    Inserted id id "int option"
  | Patched id id "int option"
  | Removed id id
  | RoomEmptied id

fun apply_op :: "session_op \<Rightarrow> (id \<Rightarrow> id list) \<Rightarrow> (id \<Rightarrow> id list)" where
  "apply_op (Inserted r s p) f = f(r := insert_at (nat (target_position p (int (length (f r))))) s (f r))"
| "apply_op (Patched r s None) f = f"
| "apply_op (Patched r s (Some p)) f =
     f(r := (let l = filter (\<lambda>i. i \<noteq> s) (f r) in insert_at (clamped_pos p (length l)) s l))"
| "apply_op (Removed r s) f = f(r := filter (\<lambda>i. i \<noteq> s) (f r))"
| "apply_op (RoomEmptied r) f = f(r := [])"

definition implements :: "db \<Rightarrow> session_op \<Rightarrow> db \<Rightarrow> bool" where
  "implements db op db' \<longleftrightarrow> sessions_ok db' \<and> session_order db' = apply_op op (session_order db)"

lemma set_insert_at [simp]: "set (insert_at n x xs) = insert x (set xs)"
  using set_append[of "take n xs" "drop n xs"] by (simp add: insert_at_def)

lemma distinct_insert_at: "distinct xs \<Longrightarrow> x \<notin> set xs \<Longrightarrow> distinct (insert_at n x xs)"
  using distinct_append[of "take n xs" "drop n xs"]
  by (auto simp: insert_at_def dest: in_set_takeD in_set_dropD)

lemma sessions_okD:
  assumes "sessions_ok db"
  shows "distinct (map rs_id (room_sessions db))" "dense_positions db r"
  using assms by (simp_all add: sessions_ok_def)

text \<open>After the positions of one room are written, everything is dense again.\<close>

lemma reordered_ok:
  assumes "reordered r ids d db'" and "distinct (map rs_id (room_sessions d))"
    and "\<And>r'. r' \<noteq> r \<Longrightarrow> sessions_of d r' = sessions_of db r'" and "sessions_ok db"
  shows "sessions_ok db'" "session_order db' = (session_order db)(r := ids)"
proof -
  have other: "sessions_of db' r' = sessions_of db r'" if "r' \<noteq> r" for r'
    using assms(1,3) that by (simp add: reordered_def)
  have "dense_positions db' r'" for r'
  proof (cases "r' = r")
    case True
    with assms(1) show ?thesis by (simp add: reordered_def)
  next
    case False
    with other assms(4) show ?thesis by (simp add: same_sessions(2)[OF other[OF False]] sessions_ok_def)
  qed
  then show "sessions_ok db'" using assms(1,2) by (simp add: sessions_ok_def reordered_def)
  show "session_order db' = (session_order db)(r := ids)"
    using assms(1) same_sessions(1)[OF other] by (auto simp: fun_eq_iff reordered_def)
qed

lemma resequenced_ok:
  assumes "distinct (map rs_id (room_sessions d))" and "\<And>r'. r' \<noteq> r \<Longrightarrow> sessions_of d r' = sessions_of db r'"
    and "sessions_ok db"
  shows "sessions_ok (resequence_positions r d)"
    "session_order (resequence_positions r d) = (session_order db)(r := session_order d r)"
  using reordered_ok[OF resequenced[OF assms(1)] assms] by simp_all

subsection \<open>Creation\<close>

lemma filter_update_where_map:
  "(\<And>s. q (f s) = q s) \<Longrightarrow>
     filter q (update_where (\<lambda>s. q s \<and> p s) f t) = map (\<lambda>s. if p s then f s else s) (filter q t)"
  by (induction t) auto

lemma make_room_order:
  assumes ok: "sessions_ok db" and k: "k \<le> length (sessions_of db r)"
    and new: "rs_room_id new = r" "rs_position new = int k"
    and rows: "sessions_of d r = map (\<lambda>s. if int k \<le> rs_position s then s\<lparr>rs_position := rs_position s + 1\<rparr> else s)
      (sessions_of db r) @ [new]"
  shows "session_order d r = insert_at k (rs_id new) (session_order db r)"
proof -
  let ?bump = "\<lambda>s. if int k \<le> rs_position s then s\<lparr>rs_position := rs_position s + 1\<rparr> else s"
  let ?g = "\<lambda>p. if int k \<le> p then p + 1 else p"
  define L where "L = in_position_order (sessions_of db r)"
  let ?n = "length (sessions_of db r)"
  have pos: "map rs_position L = map int [0..<?n]"
    using sessions_okD(2)[OF ok, of r] by (simp add: dense_positions_def L_def)
  have bump: "map rs_position (map ?bump xs) = map ?g (map rs_position xs)" for xs by simp
  have lo: "map rs_position (map ?bump (take k L)) = map int [0..<k]"
    unfolding bump take_map[symmetric] pos using k by (auto simp: take_map)
  have hi: "map rs_position (map ?bump (drop k L)) = map int [Suc k..<Suc ?n]"
    unfolding bump drop_map[symmetric] pos by (auto simp: drop_map map_Suc_upt[symmetric] simp del: upt_Suc)
  have "in_position_order (sessions_of d r) = map ?bump (take k L) @ new # map ?bump (drop k L)"
  proof (rule in_position_order_eq[where n = "Suc ?n"])
    have "mset (map ?bump (take k L)) + mset (map ?bump (drop k L)) = mset (map ?bump (sessions_of db r))"
      unfolding mset_append[symmetric] map_append[symmetric] append_take_drop_id by (simp add: L_def)
    then show "mset (map ?bump (take k L) @ new # map ?bump (drop k L)) = mset (sessions_of d r)"
      unfolding rows by simp
    have "[0..<Suc ?n] = [0..<k] @ k # [Suc k..<Suc ?n]"
      using k upt_add_eq_append[of 0 k "Suc ?n - k"] by (simp add: upt_conv_Cons del: upt_Suc)
    then show "map rs_position (map ?bump (take k L) @ new # map ?bump (drop k L)) = map int [0..<Suc ?n]"
      using lo hi new(2) by simp
  qed
  moreover have "map rs_id (map ?bump xs) = map rs_id xs" for xs by auto
  ultimately show ?thesis
    by (simp add: session_order_def insert_at_def L_def take_map drop_map comp_def if_distrib cong: if_cong)
qed

lemma insert_session_implements:
  assumes ok: "sessions_ok db"
    and ins: "insert_session allowed cap r u req sid now db = Inr (target, db')"
  shows "implements db (Inserted r sid (cs_position req)) db'"
proof -
  let ?n = "length (sessions_of db r)"
  have n: "count_where (\<lambda>s. rs_room_id s = r) (room_sessions db) = int ?n"
    by (simp add: count_where_def sessions_of_def)
  define k where "k = nat (target_position (cs_position req) (int ?n))"
  have k: "target_position (cs_position req) (int ?n) = int k" "k \<le> ?n"
    by (auto simp: k_def target_position_def split: option.splits)
  let ?new = "new_session_row sid r u req (int k) now"
  let ?db1 = "if int k < int ?n then make_room_at r (int k) db else db"
  have new: "sid \<notin> rs_id ` set (room_sessions ?db1)"
    and db': "db' = resequence_positions r (?db1\<lparr>room_sessions := room_sessions ?db1 @ [?new]\<rparr>)"
    using ins unfolding insert_session_def n k(1) Let_def
    by (auto simp: insert_row_Some_iff new_session_row_def split: if_splits option.splits)
  let ?d = "?db1\<lparr>room_sessions := room_sessions ?db1 @ [?new]\<rparr>"
  have ids: "map rs_id (room_sessions ?db1) = map rs_id (room_sessions db)"
    by (simp add: make_room_at_def map_update_where)
  have pos_less: "rs_position s < int ?n" if "s \<in> set (sessions_of db r)" for s
  proof -
    have "rs_position s \<in> set (map rs_position (in_position_order (sessions_of db r)))" using that by simp
    then show ?thesis
      using sessions_okD(2)[OF ok, of r] unfolding dense_positions_def by auto
  qed
  have rows: "sessions_of ?d r = map (\<lambda>s. if int k \<le> rs_position s then s\<lparr>rs_position := rs_position s + 1\<rparr> else s)
      (sessions_of db r) @ [?new]"
  proof (cases "k < ?n")
    case True
    then show ?thesis
      by (simp add: sessions_of_def make_room_at_def new_session_row_def
          filter_update_where_map[of "\<lambda>s. rs_room_id s = r" _ "\<lambda>s. int k \<le> rs_position s"])
  next
    case False
    then have "map (\<lambda>s. if int k \<le> rs_position s then s\<lparr>rs_position := rs_position s + 1\<rparr> else s) (sessions_of db r) =
        sessions_of db r"
      by (intro map_idI) (use pos_less in force)
    with False show ?thesis by (simp add: sessions_of_def new_session_row_def)
  qed
  have other: "sessions_of ?d r' = sessions_of db r'" if "r' \<noteq> r" for r'
  proof -
    have "filter (\<lambda>s. rs_room_id s = r') (update_where (\<lambda>s. rs_room_id s = r \<and> int k \<le> rs_position s)
        (\<lambda>s. s\<lparr>rs_position := rs_position s + 1\<rparr>) (room_sessions db)) =
      filter (\<lambda>s. rs_room_id s = r') (room_sessions db)"
      by (rule filter_update_where_frame) (use that in auto)
    with that show ?thesis by (simp add: sessions_of_def make_room_at_def new_session_row_def)
  qed
  have dist: "distinct (map rs_id (room_sessions ?d))"
  proof -
    have "distinct (map rs_id (room_sessions ?db1) @ [sid])"
      using sessions_okD(1)[OF ok] new unfolding list.set_map[symmetric] ids by simp
    then show ?thesis by (simp add: new_session_row_def del: if_split)
  qed
  have "session_order ?d r = insert_at k sid (session_order db r)"
    using make_room_order[OF ok k(2) _ _ rows] by (simp add: new_session_row_def)
  moreover have "length (session_order db r) = ?n" by (simp add: session_order_def)
  ultimately show ?thesis
    using resequenced_ok[OF dist other ok] unfolding implements_def db' by (simp add: k_def)
qed


lemma implements_cong:
  "room_sessions db2 = room_sessions db1 \<Longrightarrow> implements db op db2 = implements db op db1"
  by (simp add: implements_def sessions_ok_def session_order_def dense_positions_def sessions_of_def fun_eq_iff)

lemma audit_sessions [simp]: "room_sessions (session_audit act u r s a now db) = room_sessions db"
  using audit_frame by (auto simp: session_audit_def audit_def split: option.splits)

lemma create_implements:
  assumes "sessions_ok db"
    and "create_room_session np p types mp mr mode r u req sid aid now db = Inr (v, evs, db')"
  shows "implements db (Inserted r sid (cs_position req)) db'"
proof -
  obtain allowed target db1 where "insert_session allowed mr r u req sid now db = Inr (target, db1)"
    "room_sessions db' = room_sessions db1"
    using assms(2) by (auto simp: create_room_session_def split: sum.splits)
  then show ?thesis using insert_session_implements[OF assms(1)] implements_cong by blast
qed

subsection \<open>Deletion\<close>

lemma delete_implements:
  assumes ok: "sessions_ok db" and del: "delete_room_session mode r sid u aid now occ db = Inr (occ', evs, db')"
  shows "implements db (Removed r sid) db'"
proof -
  let ?d = "db\<lparr>room_sessions := delete_where (\<lambda>x. rs_id x = sid) (room_sessions db)\<rparr>"
  obtain s where s: "find_session db r sid = Some s" and db': "room_sessions db' = room_sessions (resequence_positions r ?d)"
    using del by (auto simp: delete_room_session_def Let_def split: sum.splits option.splits if_splits prod.splits)
  have s: "s \<in> set (room_sessions db)" "rs_id s = sid" "rs_room_id s = r"
    using find_SomeD[OF s[unfolded find_session_def]] by auto
  have rows: "sessions_of ?d r' = filter (\<lambda>x. rs_id x \<noteq> sid) (sessions_of db r')" for r'
    by (simp add: sessions_of_def delete_where_def conj_commute)
  have other: "sessions_of ?d r' = sessions_of db r'" if "r' \<noteq> r" for r'
  proof -
    have "rs_id x \<noteq> sid" if "x \<in> set (sessions_of db r')" for x
      using that s sessions_okD(1)[OF ok] \<open>r' \<noteq> r\<close> by (auto simp: sessions_of_def distinct_map inj_on_def)
    then show ?thesis unfolding rows by simp
  qed
  have dist: "distinct (map rs_id (room_sessions ?d))"
    using sessions_okD(1)[OF ok] by (simp add: distinct_map_delete_where)
  have "session_order ?d r = filter (\<lambda>i. i \<noteq> sid) (session_order db r)"
    unfolding session_order_def rows in_position_order_def filter_sort[symmetric] by (simp add: filter_map comp_def)
  then have "implements db (Removed r sid) (resequence_positions r ?d)"
    using resequenced_ok[OF dist other ok] unfolding implements_def by simp
  then show ?thesis using implements_cong[OF db'] by simp
qed

subsection \<open>Changes\<close>

lemma insort_key_map: "insort_key g (u x) (map u xs) = map u (insort_key (\<lambda>y. g (u y)) x xs)"
  by (induction xs) auto

lemma sort_key_map: "sort_key g (map u xs) = map u (sort_key (\<lambda>y. g (u y)) xs)"
  by (induction xs) (simp_all add: insort_key_map)

lemma update_session_order:
  assumes "\<And>s. rs_id (f s) = rs_id s" "\<And>s. rs_room_id (f s) = rs_room_id s" "\<And>s. rs_position (f s) = rs_position s"
  shows "session_order (update_session i f db) = session_order db"
    "dense_positions (update_session i f db) = dense_positions db"
    "map rs_id (room_sessions (update_session i f db)) = map rs_id (room_sessions db)"
proof -
  let ?u = "\<lambda>s. if rs_id s = i then f s else s"
  have rows: "sessions_of (update_session i f db) r = map ?u (sessions_of db r)" for r
    using assms(2) by (auto simp: sessions_of_def update_session_def update_where_def filter_map comp_def
        intro!: arg_cong[of _ _ "map _"] filter_cong)
  have "sort_key (\<lambda>s. (rs_position s, rs_id s)) (map ?u t) = map ?u (sort_key (\<lambda>s. (rs_position s, rs_id s)) t)" for t
  proof -
    have "(\<lambda>s. (rs_position (?u s), rs_id (?u s))) = (\<lambda>s. (rs_position s, rs_id s))" using assms by auto
    with sort_key_map[of "\<lambda>s. (rs_position s, rs_id s)" ?u t] show ?thesis by simp
  qed
  then have order: "in_position_order (map ?u t) = map ?u (in_position_order t)" for t
    by (simp add: in_position_order_def)
  have keep: "map rs_id (map ?u t) = map rs_id t" "map rs_position (map ?u t) = map rs_position t" for t
    using assms by (simp_all add: if_distrib cong: if_cong)
  show "session_order (update_session i f db) = session_order db"
    "dense_positions (update_session i f db) = dense_positions db"
    by (simp_all only: session_order_def dense_positions_def rows order keep fun_eq_iff length_map simp_thms)
  show "map rs_id (room_sessions (update_session i f db)) = map rs_id (room_sessions db)"
    using assms by (simp add: update_session_def map_update_where)
qed


lemma updated_ok:
  assumes "sessions_ok db"
    and "\<And>s. rs_id (f s) = rs_id s" "\<And>s. rs_room_id (f s) = rs_room_id s" "\<And>s. rs_position (f s) = rs_position s"
  shows "sessions_ok (update_session i f db)" "session_order (update_session i f db) = session_order db"
  using assms update_session_order[of f i db] by (simp_all add: sessions_ok_def)

lemma insert_at_filter:
  assumes "distinct xs" and "k < length xs" and "xs ! k = x"
  shows "insert_at k x (filter (\<lambda>y. y \<noteq> x) xs) = xs"
proof -
  have xs: "xs = take k xs @ x # drop (Suc k) xs" using id_take_nth_drop[OF assms(2)] assms(3) by simp
  have x: "x \<notin> set (take k xs)" "x \<notin> set (drop (Suc k) xs)"
    using assms(1) by (subst (asm) xs, simp, subst (asm) xs, simp)
  have "filter (\<lambda>y. y \<noteq> x) xs = take k xs @ drop (Suc k) xs"
  proof -
    have "filter (\<lambda>y. y \<noteq> x) zs = zs" if "x \<notin> set zs" for zs using that by (induction zs) auto
    with x show ?thesis by (subst xs) (simp del: drop_Suc)
  qed
  then show ?thesis using xs assms(2) by (simp add: insert_at_def)
qed

text \<open>A session that is told to go where it is stays there.\<close>

lemma move_to_same_place:
  assumes ok: "sessions_ok db" and s: "s \<in> set (sessions_of db r)"
  shows "insert_at (clamped_pos (rs_position s) (length (filter (\<lambda>i. i \<noteq> rs_id s) (session_order db r)))) (rs_id s)
    (filter (\<lambda>i. i \<noteq> rs_id s) (session_order db r)) = session_order db r"
proof -
  let ?L = "in_position_order (sessions_of db r)"
  obtain k where k: "k < length ?L" "?L ! k = s" using s by (auto simp: in_set_conv_nth[of s ?L, simplified])
  have "map rs_position ?L ! k = int k"
    using sessions_okD(2)[OF ok, of r] k(1) by (simp add: dense_positions_def)
  with k have pos: "rs_position s = int k" by simp
  have nth: "k < length (session_order db r)" "session_order db r ! k = rs_id s"
    using k by (simp_all add: session_order_def)
  note dist = order_ids(2)[OF sessions_okD(1)[OF ok], of r]
  have "length (filter (\<lambda>i. i \<noteq> rs_id s) (session_order db r)) = length (session_order db r) - 1"
    using arg_cong[OF insert_at_filter[OF dist nth], of length] by (simp add: insert_at_def)
  then have "clamped_pos (rs_position s) (length (filter (\<lambda>i. i \<noteq> rs_id s) (session_order db r))) = k"
    using nth(1) pos by (simp add: clamped_pos_def)
  then show ?thesis using insert_at_filter[OF dist nth] by simp
qed

lemma move_session_ok:
  assumes ok: "sessions_ok db" and s: "sid \<in> rs_id ` set (sessions_of db r)"
  shows "implements db (Patched r sid (Some p)) (move_session r sid p db)"
proof -
  let ?l = "filter (\<lambda>i. i \<noteq> sid) (session_order db r)"
  let ?ids = "insert_at (clamped_pos p (length ?l)) sid ?l"
  note ids = order_ids[OF sessions_okD(1)[OF ok], of r]
  have "distinct ?ids" by (rule distinct_insert_at) (use ids(2) in auto)
  moreover have "set ?ids = rs_id ` set (sessions_of db r)" using ids(1) s by auto
  ultimately have "reordered r ?ids db (move_session r sid p db)"
    using positions_written[OF sessions_okD(1)[OF ok]] unfolding move_session_def session_order_def Let_def by blast
  from reordered_ok[OF this sessions_okD(1)[OF ok] _ ok] show ?thesis by (simp add: implements_def Let_def)
qed

lemma write_session_implements:
  assumes ok: "sessions_ok db" and s: "sid \<in> rs_id ` set (sessions_of db r)"
  shows "implements db (Patched r sid p) (write_session r sid nm nv p now db)"
proof -
  define db1 where "db1 = (case p of None \<Rightarrow> db | Some q \<Rightarrow> move_session r sid q db)"
  have 1: "implements db (Patched r sid p) db1"
    using move_session_ok[OF ok s] ok by (auto simp: db1_def implements_def split: option.splits)
  obtain f where f: "\<And>x. rs_id (f x) = rs_id x" "\<And>x. rs_room_id (f x) = rs_room_id x" "\<And>x. rs_position (f x) = rs_position x"
    and w: "write_session r sid nm nv p now db = resequence_positions r (update_session sid f db1)"
    by (rule that[of "\<lambda>s. case nm of
        Some m \<Rightarrow> s\<lparr>rs_metadata := m, rs_metadata_version := nv, rs_updated_at := current_timestamp now\<rparr>
      | None \<Rightarrow> s\<lparr>rs_updated_at := current_timestamp now\<rparr>"])
      (auto simp: write_session_def db1_def[symmetric] split: option.splits)
  let ?d = "update_session sid f db1"
  have 2: "sessions_ok ?d" "session_order ?d = session_order db1"
    using updated_ok[of db1 f sid] 1 f by (auto simp: implements_def)
  have "sessions_ok (resequence_positions r ?d)" "session_order (resequence_positions r ?d) = session_order ?d"
    using resequenced_ok[OF sessions_okD(1)[OF 2(1)] refl 2(1), of r] by simp_all
  with 1 2 show ?thesis unfolding w implements_def by simp
qed

lemma patch_room_session_cases:
  assumes "patch_room_session np pd mode r sid u req now db = Inr (v, evs, db')"
  shows "\<exists>role s. member_role db r u = Some role \<and> find_session db r sid = Some s \<and> may_change u role mode s \<and>
    (db' = db \<and> \<not> (ps_position req \<noteq> None \<and> ps_position req \<noteq> Some (rs_position s)) \<or>
     (\<exists>nm nv. db' = write_session r sid nm nv
       (if ps_position req \<noteq> None \<and> ps_position req \<noteq> Some (rs_position s) then ps_position req else None) now db))"
proof -
  obtain role s where s: "member_role db r u = Some role" "find_session db r sid = Some s" "may_change u role mode s"
    using assms by (auto simp: patch_room_session_def check_room_membership_def Let_def
        split: sum.splits option.splits if_split_asm)
  let ?mc = "ps_metadata req \<noteq> None \<and> rs_metadata s \<noteq> ps_metadata req"
  let ?pc = "ps_position req \<noteq> None \<and> ps_position req \<noteq> Some (rs_position s)"
  have "db' = (if \<not> ?mc \<and> \<not> ?pc then db
      else write_session r sid (if ?mc then Some (ps_metadata req) else None)
        (if ?mc then rs_metadata_version s + 1 else rs_metadata_version s) (if ?pc then ps_position req else None) now db)"
    using assms s unfolding patch_room_session_def check_room_membership_def Let_def
    by (auto split: option.splits if_split_asm sum.splits)
  then have "db' = db \<and> \<not> ?pc \<or> (\<exists>nm nv. db' = write_session r sid nm nv (if ?pc then ps_position req else None) now db)"
    by metis
  with s show ?thesis by (intro exI[of _ role] exI[of _ s] conjI)
qed

lemma patch_implements:
  assumes ok: "sessions_ok db" and patch: "patch_room_session np pd mode r sid u req now db = Inr (v, evs, db')"
  shows "implements db (Patched r sid (ps_position req)) db'"
proof -
  obtain s nm nv where s: "find_session db r sid = Some s"
    and db': "db' = db \<and> \<not> (ps_position req \<noteq> None \<and> ps_position req \<noteq> Some (rs_position s)) \<or>
      db' = write_session r sid nm nv
        (if ps_position req \<noteq> None \<and> ps_position req \<noteq> Some (rs_position s) then ps_position req else None) now db"
    using patch_room_session_cases[OF patch] by blast
  have s': "s \<in> set (sessions_of db r)" "rs_id s = sid"
    using find_SomeD[OF s[unfolded find_session_def]] by (auto simp: sessions_of_def)
  have stay: "implements db (Patched r sid (ps_position req)) d"
    if "implements db (Patched r sid None) d" "ps_position req = None \<or> ps_position req = Some (rs_position s)" for d
    using that move_to_same_place[OF ok s'(1)] by (auto simp: implements_def s'(2) Let_def)
  have "implements db (Patched r sid None) db" using ok by (simp add: implements_def)
  moreover have "implements db (Patched r sid p) (write_session r sid nm nv p now db)" for p
    by (rule write_session_implements[OF ok]) (use s' in auto)
  ultimately show ?thesis
    using db' stay by (cases "ps_position req = None \<or> ps_position req = Some (rs_position s)") auto
qed

subsection \<open>Runs\<close>

inductive session_step :: "db \<Rightarrow> session_op \<Rightarrow> db \<Rightarrow> bool" where
  Create: "create_room_session np pd types mp mr mode r u req sid aid now db = Inr (v, evs, db') \<Longrightarrow>
    session_step db (Inserted r sid (cs_position req)) db'"
| Patch: "patch_room_session np pd mode r sid u req' now db = Inr (v, evs, db') \<Longrightarrow>
    session_step db (Patched r sid (ps_position req')) db'"
| Delete: "delete_room_session mode r sid u aid now occ db = Inr (occ', evs, db') \<Longrightarrow>
    session_step db (Removed r sid) db'"
| Room_deleted: "session_step db (RoomEmptied r) (delete_room_cascade r db)"

lemma room_deleted_implements:
  assumes ok: "sessions_ok db"
  shows "implements db (RoomEmptied r) (delete_room_cascade r db)"
proof -
  let ?d = "delete_room_cascade r db"
  have rows: "sessions_of ?d r' = (if r' = r then [] else sessions_of db r')" for r'
    by (auto simp: sessions_of_def delete_room_cascade_def delete_where_def filter_empty_conv intro!: filter_cong)
  have "dense_positions ?d r'" for r'
    using sessions_okD(2)[OF ok, of r'] by (auto simp: dense_positions_def rows in_position_order_def)
  then have "sessions_ok ?d"
    using sessions_okD(1)[OF ok] by (simp add: sessions_ok_def delete_room_cascade_def distinct_map_delete_where)
  moreover have "session_order ?d = (session_order db)(r := [])"
    by (auto simp: fun_eq_iff session_order_def rows in_position_order_def)
  ultimately show ?thesis by (simp add: implements_def)
qed

lemma session_step_implements: "session_step db op db' \<Longrightarrow> sessions_ok db \<Longrightarrow> implements db op db'"
  by (erule session_step.cases)
    (auto intro: create_implements patch_implements delete_implements room_deleted_implements)

end
