(* ===== verification/RoomSessionCaps.thy ===== *)
theory RoomSessionCaps
  imports RoomSessionProps RoomInvariant
begin

text \<open>
  Who may create and change the sessions of a room, and that their number stays below
  the caps of the instance and of their types.
\<close>

section \<open>What the operations leave alone\<close>

text \<open>The columns that no operation changes after the creation of a session.\<close>

definition fixed_columns :: "room_session_row \<Rightarrow> room_session_row" where
  "fixed_columns s = s\<lparr>rs_metadata := None, rs_metadata_version := 0, rs_position := 0, rs_updated_at := 0\<rparr>"

definition fixed_rows :: "db \<Rightarrow> room_session_row list" where
  "fixed_rows db = map fixed_columns (room_sessions db)"

lemma fixed_columns_simps [simp]:
  "rs_id (fixed_columns s) = rs_id s" "rs_room_id (fixed_columns s) = rs_room_id s"
  "rs_session_type (fixed_columns s) = rs_session_type s"
  "fixed_columns (s\<lparr>rs_position := p\<rparr>) = fixed_columns s"
  "fixed_columns (s\<lparr>rs_updated_at := t\<rparr>) = fixed_columns s"
  "fixed_columns (s\<lparr>rs_metadata := m\<rparr>) = fixed_columns s"
  "fixed_columns (s\<lparr>rs_metadata_version := v\<rparr>) = fixed_columns s"
  by (simp_all add: fixed_columns_def)

lemma fixed_rows_update_where:
  "(\<And>s. fixed_columns (f s) = fixed_columns s) \<Longrightarrow>
     fixed_rows (db\<lparr>room_sessions := update_where q f (room_sessions db)\<rparr>) = fixed_rows db"
  by (simp add: fixed_rows_def update_where_def)

lemma fixed_rows_set_position [simp]: "fixed_rows (set_position i p db) = fixed_rows db"
  by (simp add: set_position_def fixed_rows_update_where)

lemma fixed_rows_make_room [simp]: "fixed_rows (make_room_at r t db) = fixed_rows db"
  by (simp add: make_room_at_def fixed_rows_update_where)

lemma fold_keeps: "(\<And>x d. f (g x d) = f d) \<Longrightarrow> f (fold g xs d) = f d"
  by (induction xs arbitrary: d) simp_all

lemma fixed_rows_resequence [simp]: "fixed_rows (resequence_positions r db) = fixed_rows db"
  unfolding resequence_positions_def by (rule fold_keeps) auto

lemma fixed_rows_move [simp]: "fixed_rows (move_session r s p db) = fixed_rows db"
  unfolding move_session_def Let_def by (rule fold_keeps) auto

lemma fixed_rows_write [simp]: "fixed_rows (write_session r s nm nv p now db) = fixed_rows db"
  by (simp add: write_session_def Let_def update_session_def fixed_rows_update_where split: option.splits)

lemma fixed_rows_cong: "room_sessions db' = room_sessions db \<Longrightarrow> fixed_rows db' = fixed_rows db"
  by (simp add: fixed_rows_def)

lemma patch_fixed:
  "patch_room_session np pd mode r sid u req now db = Inr (v, evs, db') \<Longrightarrow> fixed_rows db' = fixed_rows db"
  by (drule patch_room_session_cases) auto

lemma delete_fixed:
  assumes "delete_room_session mode r sid u aid now occ db = Inr (occ', evs, db')"
  shows "fixed_rows db' = filter (\<lambda>s. rs_id s \<noteq> sid) (fixed_rows db)"
proof -
  have "fixed_rows (session_audit a u r sid aid now d) = fixed_rows d" for a d
    by (rule fixed_rows_cong) (auto simp: session_audit_def audit_def split: option.splits)
  with assms show ?thesis
    by (auto simp: delete_room_session_def Let_def fixed_rows_def[of "db\<lparr>room_sessions := t\<rparr>" for t] delete_where_def
        split: sum.splits option.splits if_splits prod.splits)
      (simp add: fixed_rows_def filter_map comp_def)
qed

lemma create_fixed:
  assumes "create_room_session np pd types mp mr mode r u req sid aid now db = Inr (v, evs, db')"
  shows "\<exists>allowed pos. check_create_session np pd types mp mode db r u req = Inr allowed \<and>
    count_where (\<lambda>s. rs_room_id s = r \<and> rs_session_type s = cs_session_type req) (room_sessions db) < int (ty_max_per_room allowed) \<and>
    count_where (\<lambda>s. rs_room_id s = r) (room_sessions db) < int mr \<and>
    fixed_rows db' = fixed_rows db @ [fixed_columns (new_session_row sid r u req pos now)]"
proof -
  have audit: "fixed_rows (session_audit a u r sid aid now d) = fixed_rows d" for a d
    by (rule fixed_rows_cong) (auto simp: session_audit_def audit_def split: option.splits)
  obtain allowed target db1 where 1: "check_create_session np pd types mp mode db r u req = Inr allowed"
    "insert_session allowed mr r u req sid now db = Inr (target, db1)" "fixed_rows db' = fixed_rows db1"
    using assms by (auto simp: create_room_session_def audit split: sum.splits)
  let ?new = "new_session_row sid r u req target now"
  obtain d where d: "db1 = resequence_positions r (d\<lparr>room_sessions := room_sessions d @ [?new]\<rparr>)" "fixed_rows d = fixed_rows db"
    "count_where (\<lambda>s. rs_room_id s = r \<and> rs_session_type s = cs_session_type req) (room_sessions db) < int (ty_max_per_room allowed)"
    "count_where (\<lambda>s. rs_room_id s = r) (room_sessions db) < int mr"
    using 1(2) by (auto simp: insert_session_def insert_row_def Let_def split: option.splits if_splits)
  have "fixed_rows (d\<lparr>room_sessions := room_sessions d @ [?new]\<rparr>) = fixed_rows d @ [fixed_columns ?new]"
    by (simp add: fixed_rows_def)
  with d(1,2) have "fixed_rows db1 = fixed_rows db @ [fixed_columns ?new]" by simp
  with 1 d(3,4) show ?thesis by auto
qed

section \<open>The caps\<close>

definition room_count :: "db \<Rightarrow> id \<Rightarrow> int" where
  "room_count db r = count_where (\<lambda>s. rs_room_id s = r) (room_sessions db)"

definition type_count :: "db \<Rightarrow> id \<Rightarrow> string \<Rightarrow> int" where
  "type_count db r t = count_where (\<lambda>s. rs_room_id s = r \<and> rs_session_type s = t) (room_sessions db)"

definition within_caps :: "session_types_state \<Rightarrow> nat \<Rightarrow> db \<Rightarrow> bool" where
  "within_caps types server_max db \<longleftrightarrow>
     (\<forall>r. room_count db r \<le> int server_max \<and>
       (\<forall>t allowed. store_get types t = Some allowed \<longrightarrow> type_count db r t \<le> int (ty_max_per_room allowed)))"

lemma count_fixed_rows:
  "room_count db r = count_where (\<lambda>s. rs_room_id s = r) (fixed_rows db)"
  "type_count db r t = count_where (\<lambda>s. rs_room_id s = r \<and> rs_session_type s = t) (fixed_rows db)"
  by (simp_all add: room_count_def type_count_def fixed_rows_def count_where_def filter_map comp_def)

lemma count_where_filter_le: "count_where p (filter q t) \<le> count_where p t"
  by (induction t) auto

lemma within_caps_filter:
  assumes "within_caps types mr db" and "fixed_rows db' = filter q (fixed_rows db)"
  shows "within_caps types mr db'"
proof -
  have "room_count db' r \<le> room_count db r" "type_count db' r t \<le> type_count db r t" for r t
    by (simp_all add: count_fixed_rows assms(2) count_where_filter_le)
  then show ?thesis using assms(1) unfolding within_caps_def by (meson order_trans)
qed

lemma check_createD:
  assumes "check_create_session np pd types mp mode db r u req = Inr allowed"
  shows "store_get types (cs_session_type req) = Some allowed"
    "\<exists>role. member_role db r u = Some role \<and> \<not> (mode = ''discord'' \<and> role = ''member'')"
  using assms by (auto simp: check_create_session_def check_room_membership_def split: if_splits option.splits sum.splits)

lemma within_caps_create:
  assumes "within_caps types mr db"
    and "create_room_session np pd types mp mr mode r u req sid aid now db = Inr (v, evs, db')"
  shows "within_caps types mr db'"
proof -
  obtain allowed pos where 1: "store_get types (cs_session_type req) = Some allowed"
    "type_count db r (cs_session_type req) < int (ty_max_per_room allowed)" "room_count db r < int mr"
    "fixed_rows db' = fixed_rows db @ [fixed_columns (new_session_row sid r u req pos now)]"
    using create_fixed[OF assms(2)] check_createD(1) unfolding room_count_def type_count_def by blast
  have "room_count db' r' = room_count db r' + (if r' = r then 1 else 0)"
    "type_count db' r' t = type_count db r' t + (if r' = r \<and> t = cs_session_type req then 1 else 0)" for r' t
    by (auto simp: count_fixed_rows 1(4) new_session_row_def)
  with 1(1-3) assms(1) show ?thesis unfolding within_caps_def by auto
qed

text \<open>The steps of one server, whose allowlist and caps do not change while it runs.\<close>

inductive server_step :: "session_types_state \<Rightarrow> nat \<Rightarrow> nat \<Rightarrow> string \<Rightarrow> db \<Rightarrow> session_op \<Rightarrow> db \<Rightarrow> bool"
  for types mp mr mode where
  Create: "create_room_session np pd types mp mr mode r u req sid aid now db = Inr (v, evs, db') \<Longrightarrow>
    server_step types mp mr mode db (Inserted r sid (cs_position req)) db'"
| Patch: "patch_room_session np pd mode r sid u req' now db = Inr (v, evs, db') \<Longrightarrow>
    server_step types mp mr mode db (Patched r sid (ps_position req')) db'"
| Delete: "delete_room_session mode r sid u aid now occ db = Inr (occ', evs, db') \<Longrightarrow>
    server_step types mp mr mode db (Removed r sid) db'"
| Room_deleted: "server_step types mp mr mode db (RoomEmptied r) (delete_room_cascade r db)"

lemma server_session_step: "server_step types mp mr mode db op db' \<Longrightarrow> session_step db op db'"
  by (erule server_step.cases) (auto intro: session_step.intros)

lemma server_step_caps: "server_step types mp mr mode db op db' \<Longrightarrow> within_caps types mr db \<Longrightarrow> within_caps types mr db'"
proof (erule server_step.cases, goal_cases)
  case (1 np pd r u req sid aid now d v evs d')
  then show ?case using within_caps_create by blast
next
  case (2 np pd r sid u req now d v evs d')
  then have "fixed_rows db' = filter (\<lambda>_. True) (fixed_rows db)" using patch_fixed[of np pd mode r sid u req now db v evs db'] by simp
  with 2 within_caps_filter show ?case by blast
next
  case (3 r sid u aid now occ d occ' evs d')
  then show ?case using within_caps_filter delete_fixed by blast
next
  case (4 d r)
  then have "fixed_rows db' = filter (\<lambda>s. rs_room_id s \<noteq> r) (fixed_rows db)"
    by (simp add: fixed_rows_def delete_room_cascade_def delete_where_def filter_map comp_def)
  with 4 within_caps_filter show ?case by blast
qed

text \<open>An instance with one session type, and a request for a session of it.\<close>

definition toy_types :: session_types_state where
  "toy_types = \<lparr>ts_declared_enabled = True, ts_allowlist_loaded = True, ts_config = add_type
     \<lparr>ty_type = ''t'', ty_extension_id = ''x'', ty_max_participants = 2, ty_max_per_room = 2\<rparr> empty_types\<rparr>"

definition toy_session_request :: create_room_session_request where
  "toy_session_request = \<lparr>cs_extension_id = ''x'', cs_session_type = ''t'', cs_metadata = None,
     cs_position = Some 0, cs_max_participants = Some 2\<rparr>"

definition toy_decoder :: decoder where
  "toy_decoder t = Some (map of_char t)"

definition toy_create :: "db \<Rightarrow> room_session_error + (room_session_view \<times> event list \<times> db)" where
  "toy_create db = create_room_session toy_decoder toy_decoder toy_types 5 3 ''none'' ''r'' ''b'' toy_session_request ''n'' ''p'' 7 db"

definition toy_patch :: "db \<Rightarrow> room_session_error + (room_session_view \<times> event list \<times> db)" where
  "toy_patch db = patch_room_session toy_decoder toy_decoder ''none'' ''r'' ''n'' ''a'' \<lparr>ps_metadata = None, ps_position = Some (-1)\<rparr> 8 db"

definition toy_change :: "room_session_error + (room_session_view \<times> event list \<times> db)" where
  "toy_change = patch_room_session toy_decoder toy_decoder ''none'' ''r'' ''s'' ''a''
     \<lparr>ps_metadata = None, ps_position = Some (-1)\<rparr> 8 room_example_db"

lemma toy_sessions_ok: "sessions_ok room_example_db"
proof -
  have in_r: "dense_positions room_example_db ''r''" by code_simp
  have "dense_positions room_example_db r" for r
  proof (cases "r = ''r''")
    case True
    with in_r show ?thesis by simp
  next
    case False
    then have "sessions_of room_example_db r = []" by (simp add: sessions_of_def room_example_db_def)
    then show ?thesis by (simp add: dense_positions_def in_position_order_def)
  qed
  moreover have "distinct (map rs_id (room_sessions room_example_db))" by code_simp
  ultimately show ?thesis by (simp add: sessions_ok_def)
qed

lemma toy_run:
  "\<exists>db'. run (server_step toy_types 5 3 ''none'') room_example_db
     [Inserted ''r'' ''n'' (Some 0), Patched ''r'' ''n'' (Some (-1))] db'"
proof -
  obtain v evs db1 where 1: "toy_create room_example_db = Inr (v, evs, db1)"
  proof -
    have "\<not> isl (toy_create room_example_db)" by code_simp
    with that show thesis by (cases "toy_create room_example_db") auto
  qed
  obtain v' evs' db2 where 2: "toy_patch db1 = Inr (v', evs', db2)"
  proof -
    have "(case toy_create room_example_db of Inl e \<Rightarrow> False | Inr (v, evs, db) \<Rightarrow> \<not> isl (toy_patch db))" by code_simp
    with that 1 show thesis by (cases "toy_patch db1") auto
  qed
  have "server_step toy_types 5 3 ''none'' room_example_db (Inserted ''r'' ''n'' (cs_position toy_session_request)) db1"
    using 1 unfolding toy_create_def by (rule server_step.Create)
  moreover have "server_step toy_types 5 3 ''none'' db1 (Patched ''r'' ''n'' (Some (-1))) db2"
    using 2 server_step.Patch[of toy_decoder toy_decoder "''none''" "''r''" "''n''" "''a''" "\<lparr>ps_metadata = None, ps_position = Some (-1)\<rparr>"]
    unfolding toy_patch_def by (metis patch_room_session_request.select_convs(2))
  ultimately show ?thesis by (auto simp: toy_session_request_def intro: run_step run_stop)
qed

lemma run_mono: "run q s ls s' \<Longrightarrow> (\<And>s l t. q s l t \<Longrightarrow> q' s l t) \<Longrightarrow> run q' s ls s'"
  by (induction rule: run.induct) (auto intro: run.intros)

text \<open>
  C4. The sessions of each room behave as a list: creating a session inserts it at its position (at the
  end when none or too large a one is given, at the front for a negative one), changing its position
  moves it there (a negative position, read as an unsigned number, moves it to the end), deleting it
  removes it, and no operation touches another room; the stored positions are always \<open>0\<close> to \<open>n - 1\<close> in this order.
\<close>

theorem session_order_refines:
  assumes "sessions_ok db" and "run session_step db ops db'"
  shows "sessions_ok db' \<and> session_order db' = fold apply_op ops (session_order db)"
  using assms(2,1)
proof induction
  case (run_step s l t ls s')
  from session_step_implements[OF run_step.hyps(1) run_step.prems] run_step.IH show ?case
    by (simp add: implements_def)
qed simp

theorem session_order_refines_witness:
  "\<exists>db'. session_order room_example_db ''r'' = [''s''] \<and> sessions_ok db' \<and> session_order db' ''r'' = [''s'', ''n'']"
proof -
  obtain db' where "run (server_step toy_types 5 3 ''none'') room_example_db
      [Inserted ''r'' ''n'' (Some 0), Patched ''r'' ''n'' (Some (-1))] db'" using toy_run by blast
  from run_mono[OF this server_session_step]
  have "run session_step room_example_db [Inserted ''r'' ''n'' (Some 0), Patched ''r'' ''n'' (Some (-1))] db'" .
  note order = session_order_refines[OF toy_sessions_ok this]
  have before: "session_order room_example_db ''r'' = [''s'']" by code_simp
  have "session_order db' ''r'' = [''s'', ''n'']"
    using order by (simp add: before insert_at_def target_position_def clamped_pos_def)
  with order before show ?thesis by blast
qed



section \<open>Authority\<close>



end
