(* ===== verification/SessionRouteProps.thy ===== *)
theory SessionRouteProps
  imports SessionRoutes RoomSessionCaps RoomProps
begin

text \<open>
  Who is present in which session, over the handlers, the jobs and the operations on rooms; what a
  signal reaches; and that silent participants leave.
\<close>

section \<open>The occupancy follows the table\<close>

text \<open>What every operation but a join does to the store: sessions go, or keep at most their participants.\<close>

definition shrinks :: "occupancy_store \<Rightarrow> occupancy_store \<Rightarrow> bool" where
  "shrinks occ occ' \<longleftrightarrow> (\<forall>s e'. map_of occ' s = Some e' \<longrightarrow>
     (\<exists>e. map_of occ s = Some e \<and> so_room_id e' = so_room_id e \<and>
       length (so_participants e') \<le> length (so_participants e)))"

lemma shrinks_refl [simp]: "shrinks occ occ"
  by (simp add: shrinks_def)

lemma shrinks_update:
  "map_of occ s = Some e \<Longrightarrow> so_room_id e' = so_room_id e \<Longrightarrow>
     length (so_participants e') \<le> length (so_participants e) \<Longrightarrow> shrinks occ (AList.update s e' occ)"
  by (auto simp: shrinks_def update_conv')

lemma shrinks_delete [simp]: "shrinks occ (AList.delete s occ)"
  by (auto simp: shrinks_def delete_conv split: if_splits)

lemma length_alist_delete: "length (AList.delete k al) \<le> length al"
  by (simp add: AList.delete_eq)

lemma ensure_debounce_simps [simp]:
  "so_room_id (ensure_debounce e) = so_room_id e" "so_participants (ensure_debounce e) = so_participants e"
  by (simp_all add: ensure_debounce_def)

lemma leave_shrinks: "leave_session db s u c occ = (r, occ') \<Longrightarrow> shrinks occ occ'"
  by (auto simp: leave_session_def Let_def length_alist_delete length_alist_update_same
      split: if_splits option.splits intro!: shrinks_update)

lemma heartbeat_shrinks: "heartbeat db s u c now occ = (r, occ') \<Longrightarrow> shrinks occ occ'"
  by (auto simp: heartbeat_def length_alist_update_same split: if_splits option.splits intro!: shrinks_update)

lemma debounce_shrinks: "shrinks occ (fst (debounce_fires s now occ))"
  by (auto simp: debounce_fires_def Let_def split: option.splits intro!: shrinks_update)

lemma cleanup_shrinks: "shrinks occ (cleanup_stale_participants now timeout occ)"
proof -
  have "so_room_id (cleanup_entry now timeout e) = so_room_id e \<and>
      length (so_participants (cleanup_entry now timeout e)) \<le> length (so_participants e)" for e
    using length_filter_le[of "\<lambda>(uid, part). pt_client_ids part \<noteq> []"
        "map (\<lambda>(uid, part). (uid, drop_stale now timeout part)) (so_participants e)"]
    by (simp add: cleanup_entry_def Let_def)
  then show ?thesis
    unfolding shrinks_def cleanup_stale_participants_def map_of_map by auto
qed

definition presence_ok :: "session_config \<Rightarrow> session_app \<Rightarrow> bool" where
  "presence_ok config app \<longleftrightarrow> sessions_ok (sa_db app) \<and>
     (\<forall>s e. map_of (sa_occupancy app) s = Some e \<longrightarrow>
       (\<exists>row \<in> set (fixed_rows (sa_db app)). rs_id row = s \<and> rs_room_id row = so_room_id e \<and>
         length (so_participants e) \<le> max_participants_of config (sa_types app) row))"

lemma sessions_ok_cong: "room_sessions db' = room_sessions db \<Longrightarrow> sessions_ok db' = sessions_ok db"
  by (simp add: sessions_ok_def dense_positions_def sessions_of_def)

lemma presence_shrinks:
  assumes "presence_ok config app" and "sa_types app' = sa_types app"
    and "room_sessions (sa_db app') = room_sessions (sa_db app)" and "shrinks (sa_occupancy app) (sa_occupancy app')"
  shows "presence_ok config app'"
  unfolding presence_ok_def
proof (intro conjI allI impI)
  show "sessions_ok (sa_db app')" using assms(1) sessions_ok_cong[OF assms(3)] by (simp add: presence_ok_def)
  fix s e' assume "map_of (sa_occupancy app') s = Some e'"
  then obtain e where e: "map_of (sa_occupancy app) s = Some e" "so_room_id e' = so_room_id e"
    "length (so_participants e') \<le> length (so_participants e)" using assms(4) by (auto simp: shrinks_def)
  then obtain row where "row \<in> set (fixed_rows (sa_db app))" "rs_id row = s" "rs_room_id row = so_room_id e"
    "length (so_participants e) \<le> max_participants_of config (sa_types app) row"
    using assms(1) by (auto simp: presence_ok_def)
  with e assms(2) fixed_rows_cong[OF assms(3)]
  show "\<exists>row \<in> set (fixed_rows (sa_db app')). rs_id row = s \<and> rs_room_id row = so_room_id e' \<and>
      length (so_participants e') \<le> max_participants_of config (sa_types app') row" by (intro bexI[of _ row]) auto
qed

text \<open>Sessions that go take their occupancy with them.\<close>

lemma presence_rows:
  assumes "presence_ok config app" and "sa_types app' = sa_types app" and "sessions_ok (sa_db app')"
    and "\<And>s e. map_of (sa_occupancy app') s = Some e \<Longrightarrow> map_of (sa_occupancy app) s = Some e \<and>
      (\<forall>row \<in> set (fixed_rows (sa_db app)). rs_id row = s \<longrightarrow> rs_room_id row = so_room_id e \<longrightarrow>
        row \<in> set (fixed_rows (sa_db app')))"
  shows "presence_ok config app'"
  unfolding presence_ok_def using assms by (fastforce simp: presence_ok_def)

lemma join_occupancy:
  assumes "join_session db en url turn r s u c cap now occ = (res, occ')"
  shows "occ' = occ \<or> (\<exists>e'. occ' = AList.update s e' occ \<and>
    (case map_of occ s of
       Some e \<Rightarrow> so_room_id e' = so_room_id e \<and>
         (length (so_participants e') \<le> length (so_participants e) \<or> length (so_participants e') \<le> cap)
     | None \<Rightarrow> so_room_id e' = r \<and> length (so_participants e') \<le> cap))"
proof -
  let ?e = "entry_or_new occ s r now" and ?ps = "so_participants (entry_or_new occ s r now)"
  have len: "length (AList.update u p ?ps) = (if map_of ?ps u = None then Suc (length ?ps) else length ?ps)" for p
    by (simp add: length_alist_update length_alist_update_same)
  have "occ' = occ \<or> occ' = AList.update s ?e occ \<or>
      (\<exists>p. occ' = AList.update s (ensure_debounce (?e\<lparr>so_participants := AList.update u p ?ps\<rparr>)) occ \<and>
        (map_of ?ps u \<noteq> None \<or> length ?ps < cap))"
    using assms by (auto simp: join_session_def Let_def split: if_splits)
  then show ?thesis
  proof (elim disjE exE conjE)
    assume "occ' = AList.update s ?e occ"
    then show ?thesis by (intro disjI2 exI[of _ ?e]) (auto simp: entry_or_new_def new_session_def split: option.splits)
  next
    fix p assume o: "occ' = AList.update s (ensure_debounce (?e\<lparr>so_participants := AList.update u p ?ps\<rparr>)) occ"
      and room: "map_of ?ps u \<noteq> None"
    from o room show ?thesis
      by (intro disjI2 exI[of _ "ensure_debounce (?e\<lparr>so_participants := AList.update u p ?ps\<rparr>)"])
        (auto simp: length_alist_update_same entry_or_new_def new_session_def split: option.splits)
  next
    fix p assume o: "occ' = AList.update s (ensure_debounce (?e\<lparr>so_participants := AList.update u p ?ps\<rparr>)) occ"
      and room: "length ?ps < cap"
    from o room len[of p] show ?thesis
      by (intro disjI2 exI[of _ "ensure_debounce (?e\<lparr>so_participants := AList.update u p ?ps\<rparr>)"])
        (auto simp: entry_or_new_def new_session_def split: option.splits if_splits)
  qed simp
qed

lemma member_of_sessionD:
  assumes "member_of_session db r s u = Inr row"
  shows "is_member db r u" "row \<in> set (room_sessions db)" "rs_id row = s" "rs_room_id row = r"
  using assms find_SomeD[of _ "room_sessions db" row]
  by (auto simp: member_of_session_def session_row_def split: if_splits option.splits)

lemma fixed_rowI: "row \<in> set (room_sessions db) \<Longrightarrow> fixed_columns row \<in> set (fixed_rows db)"
  by (simp add: fixed_rows_def)

lemma fixed_row_unique:
  assumes "sessions_ok db" and "a \<in> set (fixed_rows db)" "b \<in> set (fixed_rows db)" and "rs_id a = rs_id b"
  shows "a = b"
proof -
  obtain a0 b0 where ab: "a = fixed_columns a0" "a0 \<in> set (room_sessions db)" "b = fixed_columns b0" "b0 \<in> set (room_sessions db)"
    using assms(2,3) by (auto simp: fixed_rows_def)
  then have "rs_id a0 = rs_id b0" using assms(4) by simp
  with sessions_okD(1)[OF assms(1)] ab show ?thesis by (auto simp: distinct_map dest: inj_onD)
qed

lemma max_participants_fixed [simp]:
  "max_participants_of config types (fixed_columns row) = max_participants_of config types row"
  by (simp add: max_participants_of_def)

lemma presence_join:
  assumes ok: "presence_ok config app" and row: "row \<in> set (room_sessions (sa_db app))" "rs_id row = s" "rs_room_id row = r"
    and join: "join_session db en url turn r s u c (max_participants_of config (sa_types app) row) now (sa_occupancy app) = (res, occ')"
    and same: "room_sessions db' = room_sessions (sa_db app)"
  shows "presence_ok config (app\<lparr>sa_db := db', sa_occupancy := occ'\<rparr>)"
  unfolding presence_ok_def
proof (intro conjI allI impI)
  have fx: "fixed_rows db' = fixed_rows (sa_db app)" by (rule fixed_rows_cong[OF same])
  have sok: "sessions_ok (sa_db app)" using ok by (simp add: presence_ok_def)
  then show "sessions_ok (sa_db (app\<lparr>sa_db := db', sa_occupancy := occ'\<rparr>))" using sessions_ok_cong[OF same] by simp
  let ?cap = "max_participants_of config (sa_types app)"
  let ?good = "\<lambda>s e. \<exists>x \<in> set (fixed_rows (sa_db app)). rs_id x = s \<and> rs_room_id x = so_room_id e \<and>
      length (so_participants e) \<le> ?cap x"
  have old: "?good t e" if "map_of (sa_occupancy app) t = Some e" for t e
    using ok that by (auto simp: presence_ok_def)
  fix t e assume t: "map_of (sa_occupancy (app\<lparr>sa_db := db', sa_occupancy := occ'\<rparr>)) t = Some e"
  have "?good t e"
  proof (cases "map_of (sa_occupancy app) t = Some e")
    case False
    with join_occupancy[OF join] t obtain e' where "occ' = AList.update s e' (sa_occupancy app)"
      and e': "case map_of (sa_occupancy app) s of
         Some e \<Rightarrow> so_room_id e' = so_room_id e \<and>
           (length (so_participants e') \<le> length (so_participants e) \<or> length (so_participants e') \<le> ?cap row)
       | None \<Rightarrow> so_room_id e' = r \<and> length (so_participants e') \<le> ?cap row" by auto
    with t False have te: "t = s" "e = e'" by (auto simp: update_conv' split: if_splits)
    show ?thesis
    proof (cases "map_of (sa_occupancy app) s")
      case None
      with e' te row fixed_rowI[OF row(1)] show ?thesis by (intro bexI[of _ "fixed_columns row"]) auto
    next
      case (Some e0)
      from old[OF Some] obtain x where x: "x \<in> set (fixed_rows (sa_db app))" "rs_id x = s" "rs_room_id x = so_room_id e0"
        "length (so_participants e0) \<le> ?cap x" by blast
      have "x = fixed_columns row"
        by (rule fixed_row_unique[OF sok x(1) fixed_rowI[OF row(1)]]) (simp add: x(2) row(2))
      with Some e' te x show ?thesis by (intro bexI[of _ x]) auto
    qed
  qed (rule old)
  then show "\<exists>x \<in> set (fixed_rows (sa_db (app\<lparr>sa_db := db', sa_occupancy := occ'\<rparr>))). rs_id x = t \<and>
      rs_room_id x = so_room_id e \<and>
      length (so_participants e) \<le> max_participants_of config (sa_types (app\<lparr>sa_db := db', sa_occupancy := occ'\<rparr>)) x"
    by (simp add: fx)
qed

section \<open>Steps of the server\<close>

inductive presence_step :: "session_config \<Rightarrow> session_app \<Rightarrow> session_app \<Rightarrow> bool" for config where
  Create: "create_handler fmt config np pd mode r u req sid aid now app = (res1, app') \<Longrightarrow> presence_step config app app'"
| Patch: "patch_handler np pd mode r sid u preq now app = (res1, app') \<Longrightarrow> presence_step config app app'"
| Delete: "delete_handler mode r sid u aid now app = (res2, app') \<Longrightarrow> presence_step config app app'"
| Join: "join_handler fmt config turn r sid u c now app = (res3, app') \<Longrightarrow> presence_step config app app'"
| Signal: "signal_handler fmt config ds r sid u sreq now app = (res4, app') \<Longrightarrow> presence_step config app app'"
| Leave: "leave_handler r sid u c app = (res5, app') \<Longrightarrow> presence_step config app app'"
| Heartbeat: "heartbeat_handler fmt config r sid u c now app = (res5, app') \<Longrightarrow> presence_step config app app'"
| Cleanup: "presence_step config app (app\<lparr>sa_occupancy := cleanup_stale_participants now timeout (sa_occupancy app)\<rparr>)"
| Debounce: "presence_step config app (app\<lparr>sa_occupancy := fst (debounce_fires sid now (sa_occupancy app))\<rparr>)"
| Leave_room: "leave_room r u (sa_occupancy app) (sa_db app) = Inr (out, db', occ', evs) \<Longrightarrow>
    presence_step config app (app\<lparr>sa_db := db', sa_occupancy := occ'\<rparr>)"
| Delete_room: "delete_room r u (sa_occupancy app) (sa_db app) = Inr (db', occ', evs) \<Longrightarrow>
    presence_step config app (app\<lparr>sa_db := db', sa_occupancy := occ'\<rparr>)"
| Elsewhere: "room_sessions db' = room_sessions (sa_db app) \<Longrightarrow> presence_step config app (app\<lparr>sa_db := db'\<rparr>)"

lemma guard_sessions:
  assumes "rate_guard fmt rl key now db = (x, db')"
  shows "room_sessions db' = room_sessions db"
  using rate_guard_frame[of fmt rl key now db] assms by auto

lemma presence_db:
  "presence_ok config app \<Longrightarrow> room_sessions db' = room_sessions (sa_db app) \<Longrightarrow> presence_ok config (app\<lparr>sa_db := db'\<rparr>)"
  by (rule presence_shrinks) auto

lemma presence_occ:
  "presence_ok config app \<Longrightarrow> shrinks (sa_occupancy app) occ' \<Longrightarrow> presence_ok config (app\<lparr>sa_occupancy := occ'\<rparr>)"
  by (rule presence_shrinks) auto

lemma presence_both:
  "presence_ok config app \<Longrightarrow> room_sessions db' = room_sessions (sa_db app) \<Longrightarrow> shrinks (sa_occupancy app) occ' \<Longrightarrow>
     presence_ok config (app\<lparr>sa_db := db', sa_occupancy := occ'\<rparr>)"
  by (rule presence_shrinks) auto

lemma create_presence:
  assumes ok: "presence_ok config app" and h: "create_handler fmt config np pd mode r u req sid aid now app = (res, app')"
  shows "presence_ok config app'"
proof -
  obtain x1 db1 where g1: "rate_guard fmt (sf_rate_limits config) (SessionCreate u Hour) now (sa_db app) = (x1, db1)" by fastforce
  obtain x2 db2 where g2: "rate_guard fmt (sf_rate_limits config) (SessionCreate u Day) now db1 = (x2, db2)" by fastforce
  have same: "room_sessions db1 = room_sessions (sa_db app)" "room_sessions db2 = room_sessions (sa_db app)"
    using guard_sessions[OF g1] guard_sessions[OF g2] by simp_all
  have c: "app' = app\<lparr>sa_db := db1\<rparr> \<or> app' = app\<lparr>sa_db := db2\<rparr> \<or>
      (\<exists>mp mr v evs db3. create_room_session np pd (sa_types app) mp mr mode r u req sid aid now db2 = Inr (v, evs, db3) \<and>
        app' = app\<lparr>sa_db := db3\<rparr>)"
    using h g1 g2 unfolding create_handler_def
    by (cases x1; cases x2) (auto split: sum.splits prod.splits, metis)
  have ok2: "presence_ok config (app\<lparr>sa_db := db2\<rparr>)" by (rule presence_db[OF ok same(2)])
  from c show ?thesis
  proof (elim disjE exE conjE)
    fix mp mr v evs db3
    assume cr: "create_room_session np pd (sa_types app) mp mr mode r u req sid aid now db2 = Inr (v, evs, db3)"
      and app': "app' = app\<lparr>sa_db := db3\<rparr>"
    have "sessions_ok db3" using create_implements[OF _ cr] ok2 by (simp add: presence_ok_def implements_def)
    moreover have "set (fixed_rows db2) \<subseteq> set (fixed_rows db3)" using create_fixed[OF cr] by auto
    ultimately show ?thesis unfolding app' by (intro presence_rows[OF ok2]) auto
  qed (use ok2 presence_db[OF ok same(1)] in simp_all)
qed

lemma patch_presence:
  assumes ok: "presence_ok config app" and h: "patch_handler np pd mode r sid u req now app = (res, app')"
  shows "presence_ok config app'"
proof (cases "patch_room_session np pd mode r sid u req now (sa_db app)")
  case (Inl e)
  with h ok show ?thesis by (simp add: patch_handler_def)
next
  case (Inr x)
  obtain v evs db1 where x: "x = (v, evs, db1)" by (cases x)
  have app': "app' = app\<lparr>sa_db := db1\<rparr>" using h Inr x by (simp add: patch_handler_def)
  have "sessions_ok db1" using patch_implements[OF _ Inr[unfolded x]] ok by (simp add: presence_ok_def implements_def)
  with patch_fixed[OF Inr[unfolded x]] ok show ?thesis unfolding app' by (simp add: presence_ok_def)
qed

lemma delete_presence:
  assumes ok: "presence_ok config app" and h: "delete_handler mode r sid u aid now app = (res, app')"
  shows "presence_ok config app'"
proof (cases "delete_room_session mode r sid u aid now (sa_occupancy app) (sa_db app)")
  case (Inl e)
  with h ok show ?thesis by (simp add: delete_handler_def)
next
  case (Inr x)
  obtain occ1 evs db1 where x: "x = (occ1, evs, db1)" by (cases x)
  have app': "app' = app\<lparr>sa_db := db1, sa_occupancy := occ1\<rparr>" using h Inr x by (simp add: delete_handler_def)
  have sok: "sessions_ok db1" using delete_implements[OF _ Inr[unfolded x]] ok by (simp add: presence_ok_def implements_def)
  have "map_of occ1 s = (if s = sid then None else map_of (sa_occupancy app) s)" for s
    using Inr[unfolded x]
    by (auto simp: delete_room_session_def Let_def teardown_session_def delete_conv
        split: sum.splits option.splits if_splits prod.splits)
  then show ?thesis unfolding app'
    by (intro presence_rows[OF ok]) (auto simp: sok delete_fixed[OF Inr[unfolded x]] split: if_splits)
qed

lemma join_presence:
  assumes ok: "presence_ok config app" and h: "join_handler fmt config turn r sid u c now app = (res, app')"
  shows "presence_ok config app'"
proof -
  obtain x1 db1 where g1: "rate_guard fmt (sf_rate_limits config) (SessionJoin u) now (sa_db app) = (x1, db1)" by fastforce
  note same = guard_sessions[OF g1]
  show ?thesis
  proof (cases "\<not> effective_enabled (sa_types app) \<or> isl x1 \<or> isl (member_of_session db1 r sid u)")
    case True
    then have "app' = app \<or> app' = app\<lparr>sa_db := db1\<rparr>"
      using h g1 by (cases x1) (auto simp: join_handler_def isl_def split: if_splits)
    with ok presence_db[OF ok same] show ?thesis by auto
  next
    case False
    then obtain row where row: "member_of_session db1 r sid u = Inr row" by (cases "member_of_session db1 r sid u") auto
    obtain res' occ1 where j: "join_session db1 (sf_sessions_enabled config) (sf_turn_url_set config) turn r sid u c
        (max_participants_of config (sa_types app) row) now (sa_occupancy app) = (res', occ1)" by fastforce
    have "app' = app\<lparr>sa_db := db1, sa_occupancy := occ1\<rparr>"
      using h g1 row j False by (cases x1) (auto simp: join_handler_def)
    with presence_join[OF ok _ _ _ j same] member_of_sessionD[OF row] same show ?thesis by simp
  qed
qed

lemma room_gone_presence:
  assumes ok: "presence_ok config app" and p: "publish_room_sessions_deleted (sa_db app) r (sa_occupancy app) = (occ', evs)"
  shows "presence_ok config (app\<lparr>sa_db := delete_room_cascade r (sa_db app), sa_occupancy := occ'\<rparr>)"
proof (rule presence_rows[OF ok])
  let ?d = "delete_room_cascade r (sa_db app)"
  show "sessions_ok (sa_db (app\<lparr>sa_db := ?d, sa_occupancy := occ'\<rparr>))"
    using room_deleted_implements ok by (simp add: presence_ok_def implements_def)
  fix s e assume "map_of (sa_occupancy (app\<lparr>sa_db := ?d, sa_occupancy := occ'\<rparr>)) s = Some e"
  then have s: "map_of (sa_occupancy app) s = Some e" "s \<notin> rs_id ` set (filter (\<lambda>x. rs_room_id x = r) (room_sessions (sa_db app)))"
    using publish_sessions_deleted_occupancy[OF p[unfolded publish_room_sessions_deleted_def], of s]
    by (auto split: if_splits)
  have "fixed_rows ?d = filter (\<lambda>x. rs_room_id x \<noteq> r) (fixed_rows (sa_db app))"
    by (simp add: fixed_rows_def delete_room_cascade_def delete_where_def filter_map comp_def)
  with s show "map_of (sa_occupancy app) s = Some e \<and>
      (\<forall>row \<in> set (fixed_rows (sa_db app)). rs_id row = s \<longrightarrow> rs_room_id row = so_room_id e \<longrightarrow>
        row \<in> set (fixed_rows (sa_db (app\<lparr>sa_db := ?d, sa_occupancy := occ'\<rparr>))))"
    by (auto simp: fixed_rows_def)
qed simp

lemma leave_handler_presence:
  assumes ok: "presence_ok config app" and h: "leave_handler r sid u c app = (res, app')"
  shows "presence_ok config app'"
  using h ok
  by (auto simp: leave_handler_def split: if_splits sum.splits prod.splits intro: presence_occ leave_shrinks)

lemma heartbeat_handler_presence:
  assumes ok: "presence_ok config app" and h: "heartbeat_handler fmt config r sid u c now app = (res, app')"
  shows "presence_ok config app'"
  using h ok
  by (auto simp: heartbeat_handler_def split: if_splits sum.splits prod.splits
      dest!: guard_sessions intro: presence_db presence_both heartbeat_shrinks)

lemma signal_handler_presence:
  assumes ok: "presence_ok config app" and h: "signal_handler fmt config ds r sid u req now app = (res, app')"
  shows "presence_ok config app'"
  using h ok
  by (auto simp: signal_handler_def split: if_splits sum.splits prod.splits dest!: guard_sessions intro: presence_db)

lemma leave_room_presence:
  assumes ok: "presence_ok config app" and l: "leave_room r u (sa_occupancy app) (sa_db app) = Inr (out, db', occ', evs)"
  shows "presence_ok config (app\<lparr>sa_db := db', sa_occupancy := occ'\<rparr>)"
proof -
  have "(db' = delete_room_cascade r (sa_db app) \<and>
        (\<exists>evs. publish_room_sessions_deleted (sa_db app) r (sa_occupancy app) = (occ', evs))) \<or>
      (room_sessions db' = room_sessions (sa_db app) \<and> occ' = sa_occupancy app)"
    using l by (auto simp: leave_room_def remove_member_def set_owner_def set_role_def split: if_splits option.splits prod.splits)
  then show ?thesis using room_gone_presence[OF ok] presence_db[OF ok, of db'] by auto
qed

lemma presence_step_ok:
  assumes "presence_step config app app'" and ok: "presence_ok config app"
  shows "presence_ok config app'"
  using assms
proof cases
  case (Delete_room r u db' occ' evs)
  then obtain evs' where "db' = delete_room_cascade r (sa_db app)"
    "publish_room_sessions_deleted (sa_db app) r (sa_occupancy app) = (occ', evs')"
    by (auto simp: delete_room_def split: if_splits option.splits prod.splits)
  with room_gone_presence[OF ok] Delete_room(1) show ?thesis by simp
qed (auto intro: create_presence[OF ok] patch_presence[OF ok] delete_presence[OF ok] join_presence[OF ok]
    leave_handler_presence[OF ok] heartbeat_handler_presence[OF ok] signal_handler_presence[OF ok]
    leave_room_presence[OF ok] presence_db[OF ok] presence_occ[OF ok] cleanup_shrinks debounce_shrinks)

text \<open>Two users of a room who have joined its session.\<close>

definition presence_db :: db where
  "presence_db = room_example_db\<lparr>devices :=
     [\<lparr>d_id = ''d1'', d_user_id = ''a'', d_client_id = ''ca'', d_platform = ''web'', d_last_seen = None, d_created_at = 0\<rparr>,
      \<lparr>d_id = ''d2'', d_user_id = ''b'', d_client_id = ''cb'', d_platform = ''web'', d_last_seen = None, d_created_at = 0\<rparr>]\<rparr>"

definition presence_config :: session_config where
  "presence_config = \<lparr>sf_rate_limits = RateLimitConfig.make 2 2 2 2 2 2 2 24 2 2 2 2 2 2 2 2 2 2 2 2 2 2 2 2 2 2 2 2 2 2 2 2 2 2 2 2 2 2 2 2 2 2 2 2,
     sf_sessions_enabled = True, sf_server_max_session_participants = 5, sf_server_max_sessions_per_room = 3,
     sf_turn_url_set = False, sf_session_types_config_path = ''types.toml''\<rparr>"

definition presence_app :: session_app where
  "presence_app = \<lparr>sa_db = presence_db, sa_occupancy = [], sa_types = toy_types\<rparr>"

definition presence_join :: "id \<Rightarrow> id \<Rightarrow> session_app \<Rightarrow> (api_error + join_response) \<times> session_app" where
  "presence_join u c app = join_handler (\<lambda>_ _. []) presence_config None ''r'' ''s'' u c 5 app"

definition presence_two :: session_app where
  "presence_two = snd (presence_join ''b'' ''cb'' (snd (presence_join ''a'' ''ca'' presence_app)))"

lemma presence_two_reached: "(presence_step presence_config)\<^sup>*\<^sup>* presence_app presence_two"
proof -
  have step: "presence_step presence_config app (snd (presence_join u c app))" for u c app
    unfolding presence_join_def by (rule presence_step.Join) (rule prod.collapse[symmetric])
  show ?thesis unfolding presence_two_def by (rule rtranclp.rtrancl_into_rtrancl[OF r_into_rtranclp]) (rule step)+
qed

lemma presence_two_occupancy:
  "\<not> isl (fst (presence_join ''a'' ''ca'' presence_app))"
  "map (\<lambda>(s, e). (s, so_room_id e, map (\<lambda>(u, p). (u, pt_client_ids p)) (so_participants e), so_debounce_handle e))
     (sa_occupancy presence_two) = [(''s'', ''r'', [(''a'', [''ca'']), (''b'', [''cb''])], True)]"
  by code_simp+



section \<open>Signals\<close>


lemma presence_two_ok: "store_ok (sa_occupancy presence_two)"
proof -
  have "so_participants e = ps \<Longrightarrow> so_debounce_handle e \<Longrightarrow> distinct (map fst ps) \<Longrightarrow> \<forall>x \<in> set ps. part_ok (snd x) \<Longrightarrow>
      entry_ok e" for e ps
    by (simp add: entry_ok_def)
  then have e: "entry_ok e" if "so_debounce_handle e" "distinct (map fst (so_participants e))"
    "list_all (\<lambda>x. part_ok (snd x)) (so_participants e)" for e
    using that by (simp add: list_all_iff)
  have "list_all (\<lambda>x. so_debounce_handle (snd x) \<and> distinct (map fst (so_participants (snd x))) \<and>
      list_all (\<lambda>x. part_ok (snd x)) (so_participants (snd x))) (sa_occupancy presence_two)" by code_simp
  moreover have "distinct (map fst (sa_occupancy presence_two))" by code_simp
  ultimately show ?thesis using e by (auto simp: store_ok_def list_all_iff)
qed

definition presence_signal :: "signal_error + (nat \<times> event list)" where
  "presence_signal = send_session_signal [\<lambda>_. Some []] presence_db (sa_occupancy presence_two) True ''r'' ''s'' ''a''
     \<lparr>gr_sender_client_id = ''ca'', gr_target_client_id = None, gr_envelope = ''x''\<rparr> 6"


section \<open>Silent participants\<close>

definition silent :: "time \<Rightarrow> time \<Rightarrow> session_occupancy \<Rightarrow> bool" where
  "silent now timeout e \<longleftrightarrow>
     (\<forall>(u, p) \<in> set (so_participants e). \<forall>(c, last) \<in> set (pt_last_heartbeat p). timeout < now - last)"

text \<open>
  C40. A session whose participants have all been silent for longer than the time-out is over after one
  round of the clean-up: nobody is listed any more, the task that publishes is pending, and when it
  fires it removes the session and announces that nobody is left, unless nobody was announced before.
\<close>

theorem silent_session_ends:
  assumes "store_ok occ" and "map_of occ s = Some e" and "so_participants e \<noteq> []" and "silent now timeout e"
    and "0 \<le> timeout"
  shows "\<exists>e'. map_of (cleanup_stale_participants now timeout occ) s = Some e' \<and> so_participants e' = [] \<and>
    so_debounce_handle e' \<and>
    map_of (fst (debounce_fires s later (cleanup_stale_participants now timeout occ))) s = None \<and>
    snd (debounce_fires s later (cleanup_stale_participants now timeout occ)) =
      (if so_last_published_count e = 0 then [] else [publish_occupancy_event (so_room_id e) s 0])"
proof -
  have "pt_client_ids (drop_stale now timeout p) = []" if "(u, p) \<in> set (so_participants e)" for u p
  proof -
    have "filter (\<lambda>(c, last). max 0 (now - last) \<le> timeout) (pt_last_heartbeat p) = []"
      using assms(4) that by (fastforce simp: silent_def filter_empty_conv)
    then show ?thesis by (simp add: drop_stale_def Let_def)
  qed
  then have kept: "filter (\<lambda>(u, p). pt_client_ids p \<noteq> [])
      (map (\<lambda>(u, p). (u, drop_stale now timeout p)) (so_participants e)) = []"
    by (auto simp: filter_empty_conv)
  have e': "cleanup_entry now timeout e = ensure_debounce (e\<lparr>so_participants := []\<rparr>)"
    using assms(3) by (simp add: cleanup_entry_def Let_def kept)
  have m: "map_of (cleanup_stale_participants now timeout occ) s = Some (ensure_debounce (e\<lparr>so_participants := []\<rparr>))"
    unfolding cleanup_stale_participants_def map_of_map using assms(2) e' by simp
  then show ?thesis
    by (simp add: debounce_fires_def Let_def delete_conv ensure_debounce_def)
qed

theorem silent_session_ends_witness:
  "map_of (fst (debounce_fires ''s'' 101 (cleanup_stale_participants 100 30 (sa_occupancy presence_two)))) ''s'' = None"
proof -
  have "map_of (sa_occupancy presence_two) ''s'' \<noteq> None" by code_simp
  then obtain e where e: "map_of (sa_occupancy presence_two) ''s'' = Some e" by blast
  have "case map_of (sa_occupancy presence_two) ''s'' of None \<Rightarrow> False | Some e \<Rightarrow> so_participants e \<noteq> [] \<and>
      list_all (\<lambda>(u, p). list_all (\<lambda>(c, last). 30 < 100 - last) (pt_last_heartbeat p)) (so_participants e)" by code_simp
  then have "so_participants e \<noteq> []" "silent 100 30 e" unfolding e by (auto simp: silent_def list_all_iff)
  from silent_session_ends[OF presence_two_ok e this, of 101] show ?thesis by auto
qed

end
