(* ===== verification/Spec2Isabelle.thy ===== *)
theory Spec2Isabelle
  imports KeyTransparency Limits Roles Occupancy RoomProps MessageChanges RateKeys InviteProps BotProps SessionProps SyncProps QueueProps BotLifeProps SessionRouteProps
begin

text \<open>
  \<^bold>\<open>The server of Atoll Chat.\<close>  The program is an HTTP server in Rust (\<open>server/src/\<close>) over one SQLite
  database.  It does not read what its users write: clients encrypt, and the server keeps order.  It
  numbers messages and events, lets members, devices and bots in and out of rooms together with their
  keys, counts uses and rates, and publishes what happened on channels.  This development models that
  bookkeeping and states what it guarantees, and where the code falls short of it.

  \<^bold>\<open>How the code is read.\<close>  The database is the record \<open>db\<close> of theory \<open>Schema\<close> with one list of rows
  for each table of \<open>server/migrations/0001_v2_schema.sql\<close> that a modelled operation touches.  A SQL
  statement is a function on such a list (theory \<open>Prelude\<close>); primary keys, foreign keys and CHECK
  constraints that an insert can violate are branches.  An operation takes the database and returns a
  sum: \<open>Inl\<close> an error of the source's enumeration, with which the open transaction is dropped, or
  \<open>Inr\<close> the result with the committed database and the published events.  What a handler writes
  outside its transaction (rate-limit counts, audit rows, single statements) stays in the database it
  returns with an error.  Ids, times and random tokens that the code draws are arguments; times are
  integers that count nanoseconds.  Libraries are arguments too: SHA-256, Ed25519, base64, JSON, the
  calendar.  Unsigned counters of the code are words where they can wrap; the \<open>i64\<close> columns that only
  count up by one are integers.  NULL read into a \<open>String\<close> is the empty text, as the SQLite driver
  decodes it (\<open>null_text\<close>).

  \<^bold>\<open>Parts.\<close>

  \<^item> \<^bold>\<open>Ground.\<close>  \<open>Prelude\<close> (types, SQL statements as functions, look-up lemmas, runs of a labelled step
    relation), \<open>Schema\<close> (rows, the database, shared queries, \<open>audit.rs\<close>'s insert), \<open>Texts\<close> (UTF-8 white
    space and trimming), \<open>Paging\<close> (the locale \<open>paged_listing\<close>, the contract of a listing with cursors), \<open>ApiErrors\<close>
    (\<open>error.rs\<close> and the rate-limit check with which handlers begin).
  \<^item> \<^bold>\<open>Key transparency.\<close>  \<open>Merkle\<close> is \<open>key_transparency/merkle.rs\<close>: generated inclusion proofs verify,
    and a proof that verifies leads to the leaf or to a collision of the hash.  \<open>KeyTransparency\<close> is the
    log, its snapshots and its routes over the locale \<open>inclusion_scheme\<close>.
  \<^item> \<^bold>\<open>Sequence numbers.\<close>  \<open>SyncSeq\<close> (\<open>sync/seq.rs\<close>, \<open>sync/envelope.rs\<close>): the locale \<open>sequence_allocator\<close> is the contract
    of a counter, interpreted for users here and for bots in \<open>BotProps\<close>.
  \<^item> \<^bold>\<open>Instance.\<close>  \<open>Limits\<close> (\<open>limits.rs\<close>), \<open>Roles\<close> (\<open>permissions.rs\<close>, \<open>roles.rs\<close>, \<open>permission_check.rs\<close>),
    \<open>RateLimit\<close> and \<open>RateKeys\<close> (\<open>rate_limit.rs\<close>: keys, windows, counts, and that no two keys share a counter).
  \<^item> \<^bold>\<open>Rooms.\<close>  \<open>Rooms\<close> and \<open>RoomMls\<close> (\<open>rooms.rs\<close>, \<open>welcomes.rs\<close>), \<open>RoomInvariant\<close> (reachable states),
    \<open>RoomProps\<close> (effects of the operations, pages of members).
  \<^item> \<^bold>\<open>Sessions of rooms.\<close>  \<open>SessionTypes\<close> (the allowlist of \<open>sessions/types_config.rs\<close>), \<open>RoomSessions\<close>
    (\<open>sessions/crud.rs\<close>), \<open>RoomSessionProps\<close> (each operation implements one on plain lists), \<open>RoomSessionCaps\<close>
    (runs, caps, authority), \<open>Occupancy\<close> (\<open>sessions/occupancy.rs\<close>: who is present), \<open>SessionRoutes\<close> and
    \<open>SessionRouteProps\<close> (\<open>routes/room_sessions.rs\<close>, \<open>sessions/signal.rs\<close>: the handlers, that presence follows the
    table, what a signal reaches, that silent participants leave).
  \<^item> \<^bold>\<open>Messages.\<close>  \<open>RoomMessages\<close> (\<open>room_messages.rs\<close>), \<open>MessageChannel\<close> (the log refines an abstract
    channel), \<open>MessageProps\<close> and \<open>MessageChanges\<close> (pages, tombstones, edits), \<open>Reactions\<close>.
  \<^item> \<^bold>\<open>Access.\<close>  \<open>Sessions\<close> and \<open>SessionProps\<close> (\<open>session.rs\<close>, \<open>auth.rs\<close>, \<open>devices.rs\<close>, bot tokens),
    \<open>Invites\<close> and \<open>InviteProps\<close> (\<open>invites.rs\<close>, \<open>room_invites.rs\<close> and their routes; the locale
    \<open>use_limit\<close> counts uses over whole runs).
  \<^item> \<^bold>\<open>Private state.\<close>  \<open>SyncFeed\<close> (\<open>sync/\<close>, \<open>starred/\<close>, \<open>cleanup/sync.rs\<close>), \<open>SyncProps\<close> (the locale
    \<open>change_feed\<close> with four interpretations: one delta answer brings a copy up to date).
  \<^item> \<^bold>\<open>Bots.\<close>  \<open>BotMessages\<close> and \<open>BotProps\<close> (signing, request ids, durable events, posting),
    \<open>BotQueue\<close> and \<open>QueueProps\<close> (the operator queue with its jobs; the locale \<open>settling\<close> counts how
    often a request is settled), \<open>BotGrants\<close> (\<open>bots/scopes.rs\<close>, the grants of \<open>room_bots.rs\<close>), \<open>BotAccounts\<close>
    (accounts, tokens and keys of \<open>routes/bots.rs\<close>).  \<open>BotLife\<close> reduces each of these handlers to one of nine
    changes of the bot tables (\<open>bot_move\<close>), and shows that they keep the tables well formed; \<open>BotLifeProps\<close>
    states what follows for runs.

  \<^bold>\<open>How they interact.\<close>  Most operations meet in the database.  Rooms draw key packages for the devices
  of \<open>Sessions\<close> and write the queues that MLS clients work off; messages carry the epoch of the room and
  are refused when a commit has moved it on; every change of private state takes a number of \<open>SyncSeq\<close>,
  every durable bot event one of the bot's counter; handlers of bots and invites first pass
  \<open>RateLimit\<close>.  Interleavings are explicit where the code gives up atomicity: registrations that race for
  an invite, a time-out job that ends its rows one by one, a sync answer that reads its counter after its
  rows, a debounced publication.

  \<^bold>\<open>Bounds.\<close>  No definition uses fuel.  Recursions that are not structural (the split of a Merkle tree,
  trimming, decimal texts) terminate by the length or the size of their argument.  The walk over the
  pages of a listing is shown to end after as many pages as the listing needs.

  \<^bold>\<open>Not modelled.\<close>  Failures of the database itself (disk, locks, timeouts); overflow of \<open>i64\<close> columns
  after \<open>2 ^ 63\<close> increments; panics of \<open>chrono\<close> outside its range, except where a client can cause one;
  the delivery of published events; logging.  Of the parts: accounts and login (states of the OPAQUE,
  OPRF and Argon2 libraries), attachments, storage and backup (files and S3), push, link previews, the
  extension proxy and model downloads (outgoing HTTP), WebSockets, export and deletion of personal data,
  configuration and start-up, and the handlers that only decode a request and call a modelled operation.
\<close>

end
